(* ===== verification/Prelude.thy ===== *)
theory Prelude
  imports Complex_Main "HOL-Library.Product_Lexorder" "HOL-Library.Multiset"
begin

text \<open>
  Shared vocabulary of the development.  It holds what the components use of Python and of its
  standard library (integers and their decimal text, string trimming and case folding, insertion
  ordered dictionaries, the stable \<open>min\<close> and \<open>sorted\<close> functions, date-times counted in
  microseconds), the named theorem collections that the component proofs share, and the two generic
  interfaces that several components implement: a keyed store and a state machine with an invariant.

  Conventions.  A Python \<open>str\<close> is a HOL \<^typ>\<open>string\<close>, so a character is a code point below 256;
  \<open>strip\<close> and \<open>lower\<close> follow Python on exactly that range.  A Python \<open>int\<close> is an \<^typ>\<open>int\<close>.  A finite
  \<open>float\<close> is a rational number (the rounding of binary floating point is not modelled); infinities
  and NaN are constructors of their own.  A raise is a value \<open>Inl e\<close> of a sum type.
\<close>

named_theorems py_simps \<open>evaluation rules for the Python primitives\<close>
named_theorems guard_splits \<open>case splits of the early-return guards\<close>

declare if_splits [guard_splits] option.splits [guard_splits] sum.splits [guard_splits]

section \<open>Strings\<close>

definition py_is_space :: "char \<Rightarrow> bool" where
  "py_is_space c \<longleftrightarrow>
     (let n = (of_char c :: nat)
      in 9 \<le> n \<and> n \<le> 13 \<or> 28 \<le> n \<and> n \<le> 32 \<or> n = 133 \<or> n = 160)"

definition py_lstrip :: "string \<Rightarrow> string" where
  "py_lstrip s = dropWhile py_is_space s"

definition py_strip :: "string \<Rightarrow> string" where
  "py_strip s = rev (py_lstrip (rev (py_lstrip s)))"

definition py_lower_char :: "char \<Rightarrow> char" where
  "py_lower_char c =
     (let n = (of_char c :: nat)
      in if 65 \<le> n \<and> n \<le> 90 \<or> 192 \<le> n \<and> n \<le> 222 \<and> n \<noteq> 215 then char_of (n + 32) else c)"

definition py_lower :: "string \<Rightarrow> string" where
  "py_lower s = map py_lower_char s"

text \<open>The idiom \<open>str(value or "").strip().lower()\<close> on an optional string.\<close>

definition py_norm :: "string option \<Rightarrow> string" where
  "py_norm v = py_lower (py_strip (case v of None \<Rightarrow> [] | Some s \<Rightarrow> s))"

text \<open>The idiom \<open>(value or "").strip() or None\<close>.\<close>

definition py_strip_or_none :: "string option \<Rightarrow> string option" where
  "py_strip_or_none v =
     (let s = py_strip (case v of None \<Rightarrow> [] | Some s \<Rightarrow> s) in if s = [] then None else Some s)"

lemma py_lstrip_idem [simp]: "py_lstrip (py_lstrip s) = py_lstrip s"
  by (simp add: py_lstrip_def)

lemma py_lstrip_Nil [simp]: "py_lstrip [] = []"
  by (simp add: py_lstrip_def)

lemma py_strip_Nil [simp]: "py_strip [] = []"
  by (simp add: py_strip_def)

lemma hd_py_lstrip: "py_lstrip s \<noteq> [] \<Longrightarrow> \<not> py_is_space (hd (py_lstrip s))"
  by (simp add: py_lstrip_def hd_dropWhile dropWhile_eq_Nil_conv)

lemma py_lstrip_id: "s = [] \<or> \<not> py_is_space (hd s) \<Longrightarrow> py_lstrip s = s"
  by (cases s) (auto simp: py_lstrip_def)

lemma last_py_strip_lstrip:
  "rev (py_lstrip (rev s)) \<noteq> [] \<Longrightarrow> hd (rev (py_lstrip (rev s))) = hd s"
proof -
  assume ne: "rev (py_lstrip (rev s)) \<noteq> []"
  obtain pre where pre: "rev s = pre @ py_lstrip (rev s)"
    by (metis py_lstrip_def takeWhile_dropWhile_id)
  have "s = rev (py_lstrip (rev s)) @ rev pre"
    by (metis pre rev_append rev_rev_ident)
  with ne show ?thesis by (metis hd_append2)
qed

lemma py_strip_idem [simp]: "py_strip (py_strip s) = py_strip s"
proof -
  let ?t = "py_lstrip s"
  let ?u = "rev (py_lstrip (rev ?t))"
  have "py_lstrip ?u = ?u"
  proof (rule py_lstrip_id, cases "?u = []")
    case False
    then have "hd ?u = hd ?t" by (rule last_py_strip_lstrip)
    moreover have "?t \<noteq> []" using False by auto
    ultimately show "?u = [] \<or> \<not> py_is_space (hd ?u)" using hd_py_lstrip by metis
  qed simp
  then show ?thesis by (simp add: py_strip_def)
qed

section \<open>Decimal text of integers\<close>

fun nat_str :: "nat \<Rightarrow> string" where
  "nat_str n = (if n < 10 then [char_of (48 + n)] else nat_str (n div 10) @ [char_of (48 + n mod 10)])"

declare nat_str.simps [simp del]

definition py_str_int :: "int \<Rightarrow> string" where
  "py_str_int i = (if i < 0 then CHR ''-'' # nat_str (nat (- i)) else nat_str (nat i))"

lemma length_nat_str_pos: "0 < length (nat_str n)"
  by (subst nat_str.simps) simp

lemma length_nat_str_le: "length (nat_str n) \<le> Suc k \<longleftrightarrow> n < 10 ^ Suc k"
proof (induction k arbitrary: n)
  case 0
  show ?case using length_nat_str_pos [of "n div 10"] by (subst nat_str.simps) simp
next
  case (Suc k)
  show ?case
  proof (cases "n < 10")
    case True
    then have "n < 10 ^ Suc (Suc k)" by (rule less_le_trans) simp
    with True show ?thesis by (subst nat_str.simps) simp
  next
    case False
    then have "length (nat_str n) = Suc (length (nat_str (n div 10)))"
      by (subst nat_str.simps) simp
    then have "length (nat_str n) \<le> Suc (Suc k) \<longleftrightarrow> n div 10 < 10 ^ Suc k"
      using Suc.IH [of "n div 10"] by simp
    also have "\<dots> \<longleftrightarrow> n < 10 ^ Suc (Suc k)" by (simp add: div_less_iff_less_mult)
    finally show ?thesis .
  qed
qed

lemma length_py_str_int:
  assumes "0 \<le> i"
  shows "length (py_str_int i) \<le> Suc k \<longleftrightarrow> i < 10 ^ Suc k"
proof -
  have "length (py_str_int i) \<le> Suc k \<longleftrightarrow> nat i < 10 ^ Suc k"
    using assms length_nat_str_le [of "nat i" k] by (simp add: py_str_int_def)
  also have "\<dots> \<longleftrightarrow> i < 10 ^ Suc k"
    using assms by (simp add: nat_less_iff)
  finally show ?thesis .
qed

text \<open>Python's \<open>int(text)\<close>: surrounding white space, a sign, and digits that single underscores
  may separate; \<open>None\<close> stands for the \<open>ValueError\<close>.\<close>

definition digit_val :: "char \<Rightarrow> int option" where
  "digit_val c = (let n = (of_char c :: nat) in if 48 \<le> n \<and> n \<le> 57 then Some (int n - 48) else None)"

fun parse_digits :: "int \<Rightarrow> string \<Rightarrow> int option" where
  "parse_digits acc [] = Some acc"
| "parse_digits acc (c # cs) =
     (case digit_val c of
        Some d \<Rightarrow> parse_digits (acc * 10 + d) cs
      | None \<Rightarrow>
          (if c = CHR ''_''
           then (case cs of
                   [] \<Rightarrow> None
                 | c' # cs' \<Rightarrow>
                     (case digit_val c' of Some d \<Rightarrow> parse_digits (acc * 10 + d) cs' | None \<Rightarrow> None))
           else None))"

definition parse_unsigned :: "string \<Rightarrow> int option" where
  "parse_unsigned s =
     (case s of
        [] \<Rightarrow> None
      | c # cs \<Rightarrow> (case digit_val c of Some d \<Rightarrow> parse_digits d cs | None \<Rightarrow> None))"

definition py_int_of_string :: "string \<Rightarrow> int option" where
  "py_int_of_string s =
     (case py_strip s of
        [] \<Rightarrow> None
      | c # cs \<Rightarrow>
          (if c = CHR ''-'' then map_option uminus (parse_unsigned cs)
           else if c = CHR ''+'' then parse_unsigned cs
           else parse_unsigned (c # cs)))"

text \<open>\<open>text.split()\<close>: the maximal runs of characters that are not white space.\<close>

function py_split :: "string \<Rightarrow> string list" where
  "py_split s =
     (case py_lstrip s of
        [] \<Rightarrow> []
      | c # cs \<Rightarrow>
          (c # takeWhile (\<lambda>x. \<not> py_is_space x) cs) # py_split (dropWhile (\<lambda>x. \<not> py_is_space x) cs))"
  by pat_completeness auto
termination
proof (relation "measure length", goal_cases)
  case 1
  show ?case by simp
next
  case (2 s c cs)
  then have "length (c # cs) \<le> length s"
    by (metis length_dropWhile_le py_lstrip_def)
  moreover have "length (dropWhile (\<lambda>x. \<not> py_is_space x) cs) \<le> length cs"
    by (rule length_dropWhile_le)
  ultimately show ?case by simp
qed

declare py_split.simps [simp del]

text \<open>A word: text that splitting leaves whole.  \<open>separate_by\<close> is the separator placement of
  \<open>sep.join(words)\<close>.\<close>

definition py_word :: "string \<Rightarrow> bool" where
  "py_word w \<longleftrightarrow> w \<noteq> [] \<and> (\<forall>c \<in> set w. \<not> py_is_space c)"

fun separate_by :: "'a \<Rightarrow> 'a list \<Rightarrow> 'a list" where
  "separate_by sep [] = []"
| "separate_by sep [w] = [w]"
| "separate_by sep (w # ws) = w # sep # separate_by sep ws"

lemma py_is_space_blank [simp]: "py_is_space CHR '' ''"
  by (simp add: py_is_space_def)

lemma py_split_Nil [simp]: "py_split [] = []"
  by (simp add: py_split.simps)

lemma py_split_blank [simp]: "py_split (CHR '' '' # s) = py_split s"
  by (subst (1 2) py_split.simps) (simp add: py_lstrip_def)

lemma py_split_word:
  assumes "py_word w" and "s = [] \<or> py_is_space (hd s)"
  shows "py_split (w @ s) = w # py_split s"
proof (cases w)
  case Nil
  with assms show ?thesis by (simp add: py_word_def)
next
  case (Cons c cs)
  have "takeWhile (\<lambda>x. \<not> py_is_space x) (cs @ s) = cs"
    using assms Cons by (cases s) (auto simp: py_word_def takeWhile_append)
  moreover have "dropWhile (\<lambda>x. \<not> py_is_space x) (cs @ s) = s"
    using assms Cons by (cases s) (auto simp: py_word_def dropWhile_append)
  ultimately show ?thesis
    using assms Cons by (subst py_split.simps) (simp add: py_lstrip_def py_word_def)
qed

lemma py_split_join:
  "\<forall>w \<in> set ws. py_word w \<Longrightarrow> py_split (concat (separate_by '' '' ws)) = ws"
proof (induction "'' ''" ws rule: separate_by.induct)
  case (3 w v vs)
  then show ?case using py_split_word [of w "'' '' @ concat (separate_by '' '' (v # vs))"] by simp
next
  case (2 w)
  then show ?case using py_split_word [of w "[]"] by simp
qed simp

lemma join_ends:
  "ws \<noteq> [] \<Longrightarrow> \<forall>w \<in> set ws. py_word w \<Longrightarrow>
   concat (separate_by '' '' ws) \<noteq> [] \<and>
   \<not> py_is_space (hd (concat (separate_by '' '' ws))) \<and>
   \<not> py_is_space (last (concat (separate_by '' '' ws)))"
  by (induction "'' ''" ws rule: separate_by.induct) (auto simp: py_word_def hd_append)

lemma py_strip_join:
  assumes "\<forall>w \<in> set ws. py_word w"
  shows "py_strip (concat (separate_by '' '' ws)) = concat (separate_by '' '' ws) \<and>
         (ws \<noteq> [] \<longrightarrow> concat (separate_by '' '' ws) \<noteq> [])"
proof (cases "ws = []")
  case False
  note e = join_ends [OF False assms]
  then have "py_lstrip (concat (separate_by '' '' ws)) = concat (separate_by '' '' ws)"
    by (intro py_lstrip_id) simp
  moreover have "py_lstrip (rev (concat (separate_by '' '' ws))) = rev (concat (separate_by '' '' ws))"
    using e by (intro py_lstrip_id) (simp add: hd_rev)
  ultimately show ?thesis using e by (simp add: py_strip_def)
qed simp

lemma digit_char: "n < 10 \<Longrightarrow> digit_val (char_of (48 + n)) = Some (int n)"
  by (simp add: digit_val_def)

lemma digit_not_space: "n < 10 \<Longrightarrow> \<not> py_is_space (char_of (48 + n :: nat))"
  by (simp add: py_is_space_def)

lemma py_word_nat_str: "py_word (nat_str n)"
proof (induction n rule: nat_str.induct)
  case (1 n)
  then show ?case
    by (subst nat_str.simps) (auto simp: py_word_def digit_not_space)
qed

lemma parse_digits_append:
  "parse_digits acc xs = Some m \<Longrightarrow> parse_digits acc (xs @ ys) = parse_digits m ys"
  by (induction acc xs rule: parse_digits.induct)
    (auto split: option.splits if_splits list.splits)

lemma parse_unsigned_nat_str: "parse_unsigned (nat_str n) = Some (int n)"
proof (induction n rule: nat_str.induct)
  case (1 n)
  show ?case
  proof (cases "n < 10")
    case True
    then show ?thesis by (subst nat_str.simps) (simp add: parse_unsigned_def digit_char)
  next
    case False
    then have IH: "parse_unsigned (nat_str (n div 10)) = Some (int (n div 10))" using 1 by simp
    then obtain c cs d where e: "nat_str (n div 10) = c # cs" "digit_val c = Some d"
      "parse_digits d cs = Some (int (n div 10))"
      by (auto simp: parse_unsigned_def split: list.splits option.splits)
    have "parse_digits d (cs @ [char_of (48 + n mod 10)]) = Some (int (n div 10) * 10 + int (n mod 10))"
      using parse_digits_append [OF e(3)] by (simp add: digit_char)
    also have "int (n div 10) * 10 + int (n mod 10) = int n"
      by (metis mult.commute mult_div_mod_eq of_nat_add of_nat_mult of_nat_numeral)
    finally show ?thesis
      using False e by (subst nat_str.simps) (simp add: parse_unsigned_def)
  qed
qed

lemma hd_nat_str: "\<exists>d cs. nat_str n = char_of (48 + d) # cs \<and> d < (10 :: nat)"
proof (induction n rule: nat_str.induct)
  case (1 n)
  show ?case
  proof (cases "n < 10")
    case True
    then have "nat_str n = [char_of (48 + n)]" by (subst nat_str.simps) simp
    with True show ?thesis by blast
  next
    case False
    then have "nat_str n = nat_str (n div 10) @ [char_of (48 + n mod 10)]"
      by (subst nat_str.simps) simp
    moreover obtain d cs where "nat_str (n div 10) = char_of (48 + d) # cs" "d < (10 :: nat)"
      using 1 False by blast
    ultimately show ?thesis by (metis append_Cons)
  qed
qed

lemma py_word_str: "0 < i \<Longrightarrow> py_word (py_str_int i)"
  by (simp add: py_str_int_def py_word_nat_str)

lemma py_strip_word: "py_word w \<Longrightarrow> py_strip w = w"
  using py_strip_join [of "[w]"] by simp

lemma py_int_of_string_str:
  assumes "0 < i"
  shows "py_int_of_string (py_str_int i) = Some i"
proof -
  obtain d cs where d: "nat_str (nat i) = char_of (48 + d) # cs" "d < (10 :: nat)"
    using hd_nat_str by blast
  have code: "of_char (char_of (48 + d) :: char) = 48 + d" using d(2) by simp
  have "of_char (char_of (48 + d) :: char) \<noteq> (of_char CHR ''-'' :: nat)"
    "of_char (char_of (48 + d) :: char) \<noteq> (of_char CHR ''+'' :: nat)"
    unfolding code by simp_all
  then have ne: "(char_of (48 + d) :: char) \<noteq> CHR ''-''" "(char_of (48 + d) :: char) \<noteq> CHR ''+''"
    by metis+
  show ?thesis
    using assms d ne parse_unsigned_nat_str [of "nat i"] py_strip_word [OF py_word_nat_str [of "nat i"]]
    by (simp add: py_int_of_string_def py_str_int_def)
qed

section \<open>Ordered selection\<close>

text \<open>\<open>min(xs, key=f)\<close>: the first element whose key is least.\<close>

fun min_by :: "('a \<Rightarrow> 'k::linorder) \<Rightarrow> 'a list \<Rightarrow> 'a option" where
  "min_by f [] = None"
| "min_by f (x # xs) =
     (case min_by f xs of None \<Rightarrow> Some x | Some y \<Rightarrow> if f x \<le> f y then Some x else Some y)"

lemma fold_max_ge: "(n :: int) \<le> fold max ns n \<and> (\<forall>x \<in> set ns. x \<le> fold max ns n)"
proof (induction ns arbitrary: n)
  case (Cons m ns)
  show ?case using Cons.IH [of "max m n"] by (auto intro: order_trans [rotated])
qed simp

lemma min_by_None [simp]: "min_by f xs = None \<longleftrightarrow> xs = []"
  by (cases xs) (auto split: option.splits)

lemma min_by_in: "min_by f xs = Some x \<Longrightarrow> x \<in> set xs"
  by (induction xs arbitrary: x) (auto split: option.splits if_splits)

lemma min_by_le: "min_by f xs = Some x \<Longrightarrow> y \<in> set xs \<Longrightarrow> f x \<le> f y"
proof (induction xs arbitrary: x y)
  case Nil
  then show ?case by simp
next
  case (Cons z zs)
  show ?case
  proof (cases "min_by f zs")
    case None
    with Cons.prems show ?thesis by auto
  next
    case (Some w)
    then have "\<And>v. v \<in> set zs \<Longrightarrow> f w \<le> f v" by (rule Cons.IH)
    with Some Cons.prems show ?thesis by (auto split: if_splits intro: order_trans)
  qed
qed

lemma min_by_some: "xs \<noteq> [] \<Longrightarrow> \<exists>x. min_by f xs = Some x"
  by (cases "min_by f xs") auto

text \<open>\<open>sorted(xs, reverse=True)\<close> on integers.\<close>

definition sort_desc :: "int list \<Rightarrow> int list" where
  "sort_desc xs = rev (sort xs)"

lemma set_sort_desc [simp]: "set (sort_desc xs) = set xs"
  by (simp add: sort_desc_def)

lemma length_sort_desc [simp]: "length (sort_desc xs) = length xs"
  by (simp add: sort_desc_def)

lemma sum_list_sort [simp]: "sum_list (sort (xs :: int list)) = sum_list xs"
  by (metis mset_sort sum_mset_sum_list)

lemma sum_list_sort_desc [simp]: "sum_list (sort_desc xs) = sum_list xs"
  by (simp add: sort_desc_def)

lemma sorted_desc_sort_desc [simp]: "sorted_wrt (\<ge>) (sort_desc xs)"
  by (simp add: sort_desc_def sorted_wrt_rev)

lemma distinct_sort_desc [simp]: "distinct (sort_desc xs) = distinct xs"
  by (simp add: sort_desc_def)

lemma sort_desc_Nil [simp]: "sort_desc xs = [] \<longleftrightarrow> xs = []"
  by (metis length_0_conv length_sort_desc)

lemma sort_desc_eq: "sorted_wrt (\<ge>) xs \<Longrightarrow> sort_desc xs = xs"
proof -
  assume "sorted_wrt (\<ge>) xs"
  then have "sorted (rev xs)" by (simp add: sorted_wrt_rev)
  then have "sort xs = rev xs" by (intro properties_for_sort) auto
  then show ?thesis by (simp add: sort_desc_def)
qed

text \<open>SQLAlchemy's \<open>scalar_one_or_none\<close> on the selected rows; \<open>Inl\<close> is \<open>MultipleResultsFound\<close>.\<close>

datatype db_error = MultipleResultsFound

definition scalar_one_or_none :: "'a list \<Rightarrow> db_error + 'a option" where
  "scalar_one_or_none rows =
     (case rows of [] \<Rightarrow> Inr None | [r] \<Rightarrow> Inr (Some r) | _ \<Rightarrow> Inl MultipleResultsFound)"

lemma scalar_one_or_none_Some: "scalar_one_or_none rows = Inr (Some r) \<longleftrightarrow> rows = [r]"
  by (auto simp: scalar_one_or_none_def split: list.splits)

lemma scalar_one_or_none_None: "scalar_one_or_none rows = Inr None \<longleftrightarrow> rows = []"
  by (auto simp: scalar_one_or_none_def split: list.splits)

section \<open>Dictionaries\<close>

text \<open>A Python dictionary keeps insertion order: assigning to a present key changes the value in
  place, assigning to a new key appends it.\<close>

type_synonym ('k, 'v) dict = "('k \<times> 'v) list"

abbreviation dict_get :: "('k, 'v) dict \<Rightarrow> 'k \<Rightarrow> 'v option" where
  "dict_get d k \<equiv> map_of d k"

fun dict_put :: "'k \<Rightarrow> 'v \<Rightarrow> ('k, 'v) dict \<Rightarrow> ('k, 'v) dict" where
  "dict_put k v [] = [(k, v)]"
| "dict_put k v ((k', v') # d) = (if k' = k then (k, v) # d else (k', v') # dict_put k v d)"

definition dict_del :: "'k \<Rightarrow> ('k, 'v) dict \<Rightarrow> ('k, 'v) dict" where
  "dict_del k d = filter (\<lambda>p. fst p \<noteq> k) d"

definition dict_keys :: "('k, 'v) dict \<Rightarrow> 'k list" where
  "dict_keys d = map fst d"

definition dict_values :: "('k, 'v) dict \<Rightarrow> 'v list" where
  "dict_values d = map snd d"

definition dict_wf :: "('k, 'v) dict \<Rightarrow> bool" where
  "dict_wf d \<longleftrightarrow> distinct (dict_keys d)"

lemma dict_keys_put: "set (dict_keys (dict_put k v d)) = insert k (set (dict_keys d))"
proof (induction d)
  case (Cons p d)
  then show ?case by (cases p) (auto simp: dict_keys_def)
qed (simp add: dict_keys_def)

lemma dict_get_put: "dict_get (dict_put k v d) = (dict_get d)(k \<mapsto> v)"
  by (induction d) (auto simp: fun_eq_iff)

lemma dict_get_del: "dict_get (dict_del k d) = (dict_get d)(k := None)"
  by (induction d) (auto simp: dict_del_def fun_eq_iff)

lemma dict_wf_put [simp]: "dict_wf d \<Longrightarrow> dict_wf (dict_put k v d)"
proof (induction d)
  case (Cons p d)
  then show ?case using dict_keys_put [of k v d] by (cases p) (auto simp: dict_wf_def dict_keys_def)
qed (simp add: dict_wf_def dict_keys_def)

lemma dict_wf_del [simp]: "dict_wf d \<Longrightarrow> dict_wf (dict_del k d)"
  by (induction d) (auto simp: dict_wf_def dict_keys_def dict_del_def)

lemma dict_keys_del [simp]: "dict_keys (dict_del k d) = filter (\<lambda>x. x \<noteq> k) (dict_keys d)"
  by (induction d) (auto simp: dict_keys_def dict_del_def)

lemma dict_put_same: "dict_get d k = Some v \<Longrightarrow> dict_put k v d = d"
  by (induction d) (auto split: if_splits)

lemma filter_values_put_new:
  "dict_get d k = None \<Longrightarrow>
   length (filter P (dict_values (dict_put k v d))) = length (filter P (dict_values d)) + (if P v then 1 else 0)"
  by (induction d) (auto simp: dict_values_def split: if_splits)

lemma filter_values_put_old:
  "dict_get d k = Some u \<Longrightarrow>
   length (filter P (dict_values (dict_put k v d))) + (if P u then 1 else 0) =
   length (filter P (dict_values d)) + (if P v then 1 else 0)"
  by (induction d) (auto simp: dict_values_def split: if_splits)

lemma dict_wf_Nil [simp]: "dict_wf []"
  by (simp add: dict_wf_def dict_keys_def)

lemma dict_get_dom: "(dict_get d k = None) \<longleftrightarrow> k \<notin> set (dict_keys d)"
  by (simp add: dict_keys_def map_of_eq_None_iff)

lemma dict_values_get:
  "dict_wf d \<Longrightarrow> v \<in> set (dict_values d) \<longleftrightarrow> (\<exists>k. dict_get d k = Some v)"
  by (force simp: dict_wf_def dict_keys_def dict_values_def)

text \<open>The keyed-store interface: what a client of a dictionary relies on.\<close>

locale keyed_store =
  fixes get :: "'s \<Rightarrow> 'k \<Rightarrow> 'v option"
    and put :: "'k \<Rightarrow> 'v \<Rightarrow> 's \<Rightarrow> 's"
    and del :: "'k \<Rightarrow> 's \<Rightarrow> 's"
    and wf :: "'s \<Rightarrow> bool"
  assumes get_put: "get (put k v s) = (get s)(k \<mapsto> v)"
    and get_del: "get (del k s) = (get s)(k := None)"
    and wf_put: "wf s \<Longrightarrow> wf (put k v s)"
    and wf_del: "wf s \<Longrightarrow> wf (del k s)"
begin

lemma get_put_same [simp]: "get (put k v s) k = Some v"
  by (simp add: get_put)

lemma get_put_other [simp]: "k' \<noteq> k \<Longrightarrow> get (put k v s) k' = get s k'"
  by (simp add: get_put)

lemma put_put: "get (put k v (put k w s)) = get (put k v s)"
  by (simp add: get_put)

lemma put_commute: "k \<noteq> k' \<Longrightarrow> get (put k v (put k' w s)) = get (put k' w (put k v s))"
  by (auto simp: get_put fun_eq_iff)

lemma forall_put:
  "(\<forall>k' v'. get (put k v s) k' = Some v' \<longrightarrow> P k' v') \<longleftrightarrow>
   P k v \<and> (\<forall>k' v'. k' \<noteq> k \<longrightarrow> get s k' = Some v' \<longrightarrow> P k' v')"
  by (auto simp: get_put)

end

interpretation pydict: keyed_store dict_get dict_put dict_del dict_wf
  by unfold_locales (simp_all only: dict_get_put dict_get_del dict_wf_put dict_wf_del)

section \<open>Date-times\<close>

text \<open>Date-times count microseconds, the resolution of Python's \<open>datetime\<close>.  A naive value is its
  wall clock; an aware value is its wall clock and its UTC offset.\<close>

datatype pydt = Naive int | Aware int int

abbreviation us_per_second :: int where
  "us_per_second \<equiv> 1000000"

abbreviation us_per_minute :: int where
  "us_per_minute \<equiv> 60000000"

definition trunc_div :: "int \<Rightarrow> int \<Rightarrow> int" where
  "trunc_div a b = (if 0 \<le> a then a div b else - ((- a) div b))"

text \<open>\<open>timedelta(seconds=x)\<close> rounds to the nearest microsecond, ties to even.\<close>

definition round_half_even :: "rat \<Rightarrow> int" where
  "round_half_even x =
     (let f = \<lfloor>x\<rfloor>; r = x - of_int f
      in if r < 1 / 2 then f else if r > 1 / 2 then f + 1 else if even f then f else f + 1)"

definition seconds_us :: "rat \<Rightarrow> int" where
  "seconds_us x = round_half_even (x * 1000000)"

lemma round_half_even_int [simp]: "round_half_even (of_int i) = i"
  by (simp add: round_half_even_def)

lemma seconds_us_of_int [simp]: "seconds_us (of_int i) = i * 1000000"
proof -
  have "of_int i * (1000000 :: rat) = of_int (i * 1000000)" by simp
  then show ?thesis unfolding seconds_us_def by (simp only: round_half_even_int)
qed

lemma round_half_even_nonneg: "0 \<le> x \<Longrightarrow> 0 \<le> round_half_even x"
  by (auto simp: round_half_even_def Let_def)

lemma round_half_even_ge_int: "of_int i \<le> x \<Longrightarrow> i \<le> round_half_even x"
proof -
  assume "of_int i \<le> x"
  then have "i \<le> \<lfloor>x\<rfloor>" by (simp add: le_floor_iff)
  then show ?thesis by (auto simp: round_half_even_def Let_def)
qed

lemma seconds_us_nonneg: "0 \<le> x \<Longrightarrow> 0 \<le> seconds_us x"
  by (simp add: seconds_us_def round_half_even_nonneg)

section \<open>State machines with an invariant\<close>

inductive reachable :: "('s \<Rightarrow> bool) \<Rightarrow> ('s \<Rightarrow> 's \<Rightarrow> bool) \<Rightarrow> 's \<Rightarrow> bool"
  for init :: "'s \<Rightarrow> bool" and step :: "'s \<Rightarrow> 's \<Rightarrow> bool" where
  reachable_init [intro]: "init s \<Longrightarrow> reachable init step s"
| reachable_step [intro]: "reachable init step s \<Longrightarrow> step s t \<Longrightarrow> reachable init step t"

locale invariant_system =
  fixes init :: "'s \<Rightarrow> bool" and step :: "'s \<Rightarrow> 's \<Rightarrow> bool" and invar :: "'s \<Rightarrow> bool"
  assumes invar_init: "init s \<Longrightarrow> invar s"
    and invar_step: "invar s \<Longrightarrow> step s t \<Longrightarrow> invar t"
begin

lemma reachable_invar: "reachable init step s \<Longrightarrow> invar s"
  by (induction rule: reachable.induct) (auto intro: invar_init invar_step)

end

text \<open>A status machine: a table of legal transitions and a set of final statuses that no entry of
  the table leaves.  Several ledgers of the program are of this shape.\<close>

locale status_machine =
  fixes legal :: "'a \<Rightarrow> 'a \<Rightarrow> bool" and final :: "'a \<Rightarrow> bool"
  assumes final_stuck: "final a \<Longrightarrow> legal a b \<Longrightarrow> b = a"
begin

lemma final_stable: "legal\<^sup>*\<^sup>* a b \<Longrightarrow> final a \<Longrightarrow> b = a"
  by (induction rule: rtranclp_induct) (auto dest: final_stuck)

lemma final_unique: "legal\<^sup>*\<^sup>* a b \<Longrightarrow> legal\<^sup>*\<^sup>* b c \<Longrightarrow> final b \<Longrightarrow> c = b"
  by (rule final_stable)

end

text \<open>Fenced leases: a token that never decreases and that every grant of a lease increases.  Whoever
  still carries a token from before a grant does not hold the lease afterwards.\<close>

locale lease_fence =
  fixes ok :: "'s \<Rightarrow> bool"
    and step :: "'s \<Rightarrow> 's \<Rightarrow> bool"
    and token :: "'s \<Rightarrow> 'i \<Rightarrow> int"
    and grant :: "'s \<Rightarrow> 'i \<Rightarrow> 's \<Rightarrow> bool"
    and holds :: "'s \<Rightarrow> 'i \<Rightarrow> 'w \<Rightarrow> int \<Rightarrow> bool"
  assumes ok_step: "ok s \<Longrightarrow> step s t \<Longrightarrow> ok t"
    and token_mono: "ok s \<Longrightarrow> step s t \<Longrightarrow> token s i \<le> token t i"
    and grant_step: "grant s i t \<Longrightarrow> step s t"
    and grant_fresh: "ok s \<Longrightarrow> grant s i t \<Longrightarrow> token s i < token t i"
    and holds_token: "holds s i w k \<Longrightarrow> k = token s i"
begin

lemma steps_ok: "step\<^sup>*\<^sup>* s t \<Longrightarrow> ok s \<Longrightarrow> ok t"
  by (induction rule: rtranclp_induct) (auto intro: ok_step)

lemma steps_token_mono: "step\<^sup>*\<^sup>* s t \<Longrightarrow> ok s \<Longrightarrow> token s i \<le> token t i"
proof (induction rule: rtranclp_induct)
  case (step t u)
  then show ?case using token_mono steps_ok by (meson order_trans)
qed simp

lemma stale_never_holds:
  assumes "ok s" and "k \<le> token s i" and "grant s i t" and "step\<^sup>*\<^sup>* t u"
  shows "\<not> holds u i w k"
proof
  assume "holds u i w k"
  then have "k = token u i" by (rule holds_token)
  moreover have "token s i < token t i" using assms grant_fresh by blast
  moreover have "token t i \<le> token u i"
    using assms grant_step ok_step steps_token_mono by blast
  ultimately show False using assms(2) by simp
qed

end

end
