(* ===== verification/OfferSettlement.thy ===== *)
theory OfferSettlement
  imports Prelude
begin

text \<open>
  Settlement normalisation of \<open>core/offer_settlement.py\<close> over the enumeration of \<open>core/enums.py\<close>.
  The callers pass an enumeration member, a string or \<open>None\<close>.  The Persian labels of the module are
  presentation text and are not modelled.
\<close>

datatype settlement_type = CASH | TOMORROW

fun settlement_value :: "settlement_type \<Rightarrow> string" where
  "settlement_value CASH = ''cash''"
| "settlement_value TOMORROW = ''tomorrow''"

datatype settlement_arg = SettlementMember settlement_type | SettlementText "string option"

fun settlement_raw :: "settlement_arg \<Rightarrow> string option" where
  "settlement_raw (SettlementMember s) = Some (settlement_value s)"
| "settlement_raw (SettlementText t) = t"

definition settlement_type_value :: "settlement_arg \<Rightarrow> settlement_type \<Rightarrow> string" where
  "settlement_type_value v dflt =
     (let normalized = py_norm (settlement_raw v)
      in if normalized = settlement_value TOMORROW then settlement_value TOMORROW
         else if normalized = settlement_value CASH then settlement_value CASH
         else settlement_value dflt)"

text \<open>\<open>SettlementType(text)\<close>: the enumeration constructor, which raises on an unknown value.\<close>

definition settlement_of_value :: "string \<Rightarrow> settlement_type option" where
  "settlement_of_value s =
     (if s = ''cash'' then Some CASH else if s = ''tomorrow'' then Some TOMORROW else None)"

lemma settlement_of_value_value [simp]: "settlement_of_value (settlement_value s) = Some s"
  by (cases s) (simp_all add: settlement_of_value_def)

lemma settlement_type_value_known: "\<exists>s. settlement_type_value v d = settlement_value s"
  unfolding settlement_type_value_def Let_def by (auto simp del: settlement_value.simps)

text \<open>Because the value is always known, the constructor never raises and the function is total.\<close>

definition normalize_settlement_type :: "settlement_arg \<Rightarrow> settlement_type" where
  "normalize_settlement_type v =
     (case settlement_of_value (settlement_type_value v CASH) of Some s \<Rightarrow> s | None \<Rightarrow> CASH)"

lemma normalize_settlement_type_value:
  "settlement_value (normalize_settlement_type v) = settlement_type_value v CASH"
  using settlement_type_value_known [of v CASH] by (auto simp: normalize_settlement_type_def)

lemma py_norm_settlement [simp]: "py_norm (Some (settlement_value s)) = settlement_value s"
  by (cases s) (simp_all add: py_norm_def py_strip_def py_lstrip_def py_is_space_def py_lower_def
      py_lower_char_def)

lemma normalize_settlement_member [simp]: "normalize_settlement_type (SettlementMember s) = s"
  by (cases s) (simp_all add: normalize_settlement_type_def settlement_type_value_def
      settlement_of_value_def del: settlement_value.simps, simp_all add: settlement_of_value_def)

end
