(* ===== verification/TradeLots.thy ===== *)
theory TradeLots
  imports OfferSettlement
begin

text \<open>
  The lot arithmetic, validation and price rules of \<open>core/services/trade_service.py\<close>, with the
  settings of \<open>core/trading_settings.py\<close> that they read.  The functions take the loosely typed
  values the bot and the API pass (\<open>pyval\<close>), coerce them with \<open>_ensure_int\<close> and then work on
  integers; each public function is modelled whole, the part after the coercion as a definition of
  its own.  A Persian error text is a constructor that carries the values the text interpolates.
  The settings record is an argument (the code reads it from a cache), and the rows the price
  checks select from the \<open>offers\<close> table are a list of offers.
\<close>

section \<open>Settings and values\<close>

record trading_settings =
  offer_min_quantity :: int
  offer_max_quantity :: int
  competitive_price_validation_enabled :: bool
  offer_price_warning_enabled :: bool

definition lot_min_size :: "trading_settings \<Rightarrow> int" where
  "lot_min_size s = offer_min_quantity s"

definition lot_max_count :: "trading_settings \<Rightarrow> int" where
  "lot_max_count s = 3"

definition default_settings :: trading_settings where
  "default_settings =
     \<lparr>offer_min_quantity = 5, offer_max_quantity = 50,
      competitive_price_validation_enabled = False, offer_price_warning_enabled = True\<rparr>"

datatype pyfloat = FFin rat | FInf | FNan

datatype pyval = PInt int | PFloat pyfloat | PStr string | PList "pyval list" | PNone | PObj

text \<open>The three texts of \<open>TypeError\<close>, with the parameter name; \<open>int(inf)\<close> and \<open>int(nan)\<close> raise
  errors that the callers do not catch.\<close>

datatype type_error = NotIntegral string | NotAnInt string | NotAList string

datatype py_exn = TypeErr type_error | OverflowErr | ValueErr

definition rat_trunc :: "rat \<Rightarrow> int" where
  "rat_trunc r = (if 0 \<le> r then \<lfloor>r\<rfloor> else \<lceil>r\<rceil>)"

fun ensure_int :: "pyval \<Rightarrow> string \<Rightarrow> py_exn + int" where
  "ensure_int (PInt i) name = Inr i"
| "ensure_int (PFloat (FFin r)) name =
     (if r \<noteq> of_int (rat_trunc r) then Inl (TypeErr (NotIntegral name)) else Inr (rat_trunc r))"
| "ensure_int (PFloat FInf) name = Inl OverflowErr"
| "ensure_int (PFloat FNan) name = Inl ValueErr"
| "ensure_int (PStr s) name =
     (case py_int_of_string s of Some i \<Rightarrow> Inr i | None \<Rightarrow> Inl (TypeErr (NotAnInt name)))"
| "ensure_int v name = Inl (TypeErr (NotAnInt name))"

fun ensure_ints_from :: "nat \<Rightarrow> pyval list \<Rightarrow> string \<Rightarrow> py_exn + int list" where
  "ensure_ints_from i [] name = Inr []"
| "ensure_ints_from i (v # vs) name =
     (case ensure_int v (name @ ''['' @ py_str_int (int i) @ '']'') of
        Inl e \<Rightarrow> Inl e
      | Inr n \<Rightarrow>
          (case ensure_ints_from (Suc i) vs name of Inl e \<Rightarrow> Inl e | Inr ns \<Rightarrow> Inr (n # ns)))"

fun ensure_int_list :: "pyval \<Rightarrow> string \<Rightarrow> py_exn + int list" where
  "ensure_int_list (PList vs) name = ensure_ints_from 0 vs name"
| "ensure_int_list v name = Inl (TypeErr (NotAList name))"

lemma ensure_ints_from_PInt [simp]: "ensure_ints_from i (map PInt ns) name = Inr ns"
  by (induction ns arbitrary: i) auto

section \<open>Lot combinations\<close>

text \<open>The loop that takes the excess off the largest lots, never below the minimum.\<close>

fun reduce_lots :: "int \<Rightarrow> int \<Rightarrow> int list \<Rightarrow> int list" where
  "reduce_lots mn remaining_excess [] = []"
| "reduce_lots mn remaining_excess (l # ls) =
     (let max_reduction = max 0 (l - mn);
          reduction = min max_reduction remaining_excess
      in if remaining_excess - reduction = 0 then (l - reduction) # ls
         else (l - reduction) # reduce_lots mn (remaining_excess - reduction) ls)"

definition suggest_lots :: "trading_settings \<Rightarrow> int \<Rightarrow> int list \<Rightarrow> int list option" where
  "suggest_lots st total_qty user_lots =
     (if user_lots = [] then None
      else
        let mn = lot_min_size st;
            current_sum = sum_list user_lots
        in if current_sum = total_qty then Some (sort_desc user_lots)
           else
             let suggested = sort_desc user_lots;
                 diff = total_qty - current_sum;
                 changed =
                   (if diff > 0 then (hd suggested + diff) # tl suggested
                    else reduce_lots mn (- diff) suggested);
                 kept = filter (\<lambda>l. l \<ge> mn) changed
             in if sum_list kept \<noteq> total_qty then None else Some (sort_desc kept))"

definition suggest_lot_combination ::
  "trading_settings \<Rightarrow> pyval \<Rightarrow> pyval \<Rightarrow> py_exn + int list option" where
  "suggest_lot_combination st total_qty user_lots =
     (case ensure_int total_qty ''total'' of
        Inl (TypeErr _) \<Rightarrow> Inr None
      | Inl e \<Rightarrow> Inl e
      | Inr t \<Rightarrow>
          (case ensure_int_list user_lots ''user_lots'' of
             Inl (TypeErr _) \<Rightarrow> Inr None
           | Inl e \<Rightarrow> Inl e
           | Inr ls \<Rightarrow> Inr (suggest_lots st t ls)))"

definition default_lots :: "trading_settings \<Rightarrow> int \<Rightarrow> int list" where
  "default_lots st quantity =
     (let mn = lot_min_size st;
          threshold_3_lots = offer_min_quantity st * 6
      in if quantity \<ge> threshold_3_lots then
           (let lot1 = quantity div 3; lot2 = quantity div 3; lot3 = quantity - lot1 - lot2
            in sort_desc [lot1, lot2, lot3])
         else if quantity \<ge> 2 * mn then
           (let lot1 = quantity div 2; lot2 = quantity - lot1 in sort_desc [lot1, lot2])
         else [quantity])"

definition generate_default_lots :: "trading_settings \<Rightarrow> pyval \<Rightarrow> py_exn + int list option" where
  "generate_default_lots st quantity =
     (case ensure_int quantity ''quantity'' of
        Inl (TypeErr _) \<Rightarrow> Inr None
      | Inl e \<Rightarrow> Inl e
      | Inr q \<Rightarrow> Inr (Some (default_lots st q)))"

section \<open>Validation\<close>

datatype lot_message =
    NoMessage
  | TypeMessage type_error
  | TooManyLots int
  | LotBelowMinimum int int
  | SumMismatch int int "int list option"

definition check_lot_sizes ::
  "trading_settings \<Rightarrow> int \<Rightarrow> int list \<Rightarrow> bool \<times> lot_message \<times> int list option" where
  "check_lot_sizes st total_qty lot_sizes =
     (let mn = lot_min_size st; max_lots = lot_max_count st
      in if int (length lot_sizes) > max_lots then (False, TooManyLots max_lots, None)
         else
           (case find (\<lambda>l. l < mn) lot_sizes of
              Some lot \<Rightarrow> (False, LotBelowMinimum mn lot, None)
            | None \<Rightarrow>
                (let lot_sum = sum_list lot_sizes
                 in if lot_sum \<noteq> total_qty then
                      (case suggest_lots st total_qty lot_sizes of
                         Some (s # ss) \<Rightarrow>
                           (False, SumMismatch lot_sum total_qty (Some (s # ss)), Some (s # ss))
                       | _ \<Rightarrow> (False, SumMismatch lot_sum total_qty None, None))
                    else (True, NoMessage, Some lot_sizes))))"

definition validate_lot_sizes ::
  "trading_settings \<Rightarrow> pyval \<Rightarrow> pyval \<Rightarrow> py_exn + (bool \<times> lot_message \<times> int list option)" where
  "validate_lot_sizes st total_qty lot_sizes =
     (case ensure_int total_qty ''total'' of
        Inl (TypeErr e) \<Rightarrow> Inr (False, TypeMessage e, None)
      | Inl e \<Rightarrow> Inl e
      | Inr t \<Rightarrow>
          (case ensure_int_list lot_sizes ''lot_sizes'' of
             Inl (TypeErr e) \<Rightarrow> Inr (False, TypeMessage e, None)
           | Inl e \<Rightarrow> Inl e
           | Inr ls \<Rightarrow> Inr (check_lot_sizes st t ls)))"

text \<open>\<open>not lot_sizes\<close> on an optional list.\<close>

fun py_falsy :: "pyval \<Rightarrow> bool" where
  "py_falsy (PInt i) = (i = 0)"
| "py_falsy (PFloat f) = (f = FFin 0)"
| "py_falsy (PStr s) = (s = [])"
| "py_falsy (PList vs) = (vs = [])"
| "py_falsy PNone = True"
| "py_falsy PObj = False"

text \<open>The loop over the owner's lots, with the set \<open>seen\<close> and the list \<open>available\<close>.\<close>

fun collect_lots :: "int \<Rightarrow> int list \<Rightarrow> int list \<Rightarrow> int list \<Rightarrow> int list" where
  "collect_lots remaining seen available [] = available"
| "collect_lots remaining seen available (lot # lots) =
     (if lot \<le> 0 \<or> lot > remaining \<or> lot \<in> set seen
      then collect_lots remaining seen available lots
      else collect_lots remaining (lot # seen) (available @ [lot]) lots)"

definition remaining_or_total :: "pyval \<Rightarrow> int \<Rightarrow> pyval" where
  "remaining_or_total remaining total_qty = (if remaining \<noteq> PNone then remaining else PInt total_qty)"

definition amounts_of_remaining :: "int \<Rightarrow> bool \<Rightarrow> pyval \<Rightarrow> py_exn + int list" where
  "amounts_of_remaining remaining is_wholesale lot_sizes =
     (if remaining \<le> 0 then Inr []
      else if is_wholesale \<or> py_falsy lot_sizes then Inr [remaining]
      else
        (case ensure_int_list lot_sizes ''lot_sizes'' of
           Inl (TypeErr _) \<Rightarrow> Inr []
         | Inl e \<Rightarrow> Inl e
         | Inr normalized_lots \<Rightarrow>
             Inr (sort_desc (collect_lots remaining [remaining] [remaining] normalized_lots))))"

definition get_available_trade_amounts ::
  "pyval \<Rightarrow> pyval \<Rightarrow> bool \<Rightarrow> pyval \<Rightarrow> py_exn + int list" where
  "get_available_trade_amounts quantity remaining_quantity is_wholesale lot_sizes =
     (case ensure_int quantity ''quantity'' of
        Inl (TypeErr _) \<Rightarrow> Inr []
      | Inl e \<Rightarrow> Inl e
      | Inr total_qty \<Rightarrow>
          (case ensure_int (remaining_or_total remaining_quantity total_qty) ''remaining_quantity'' of
             Inl (TypeErr _) \<Rightarrow> Inr []
           | Inl e \<Rightarrow> Inl e
           | Inr remaining \<Rightarrow> amounts_of_remaining remaining is_wholesale lot_sizes))"

datatype amount_message =
    AmountOk
  | AmountTypeError type_error
  | AmountInvalid
  | AmountExceedsRemaining int
  | LotNoLongerAvailable

type_synonym amount_verdict = "bool \<times> amount_message \<times> int \<times> int list"

definition validate_offer_trade_amount ::
  "pyval \<Rightarrow> pyval \<Rightarrow> bool \<Rightarrow> pyval \<Rightarrow> pyval \<Rightarrow> py_exn + amount_verdict" where
  "validate_offer_trade_amount quantity remaining_quantity is_wholesale lot_sizes requested_amount =
     (case ensure_int quantity ''quantity'' of
        Inl (TypeErr e) \<Rightarrow> Inr (False, AmountTypeError e, 0, [])
      | Inl e \<Rightarrow> Inl e
      | Inr total_qty \<Rightarrow>
          (case ensure_int (remaining_or_total remaining_quantity total_qty) ''remaining_quantity'' of
             Inl (TypeErr e) \<Rightarrow> Inr (False, AmountTypeError e, 0, [])
           | Inl e \<Rightarrow> Inl e
           | Inr remaining \<Rightarrow>
               (case ensure_int requested_amount ''requested_amount'' of
                  Inl (TypeErr e) \<Rightarrow> Inr (False, AmountTypeError e, 0, [])
                | Inl e \<Rightarrow> Inl e
                | Inr amount \<Rightarrow>
                    (if amount \<le> 0 then Inr (False, AmountInvalid, amount, [])
                     else if amount > remaining
                     then Inr (False, AmountExceedsRemaining remaining, amount, [])
                     else
                       (case get_available_trade_amounts (PInt total_qty) (PInt remaining) is_wholesale
                               lot_sizes of
                          Inl e \<Rightarrow> Inl e
                        | Inr available \<Rightarrow>
                            (if amount \<notin> set available then
                               (if is_wholesale \<or> py_falsy lot_sizes
                                then Inr (False, AmountExceedsRemaining remaining, amount, available)
                                else Inr (False, LotNoLongerAvailable, amount, available))
                             else Inr (True, AmountOk, amount, available)))))))"

datatype quantity_message =
  QuantityOk | QuantityTypeError type_error | QuantityTooSmall int | QuantityTooLarge int

definition validate_quantity :: "trading_settings \<Rightarrow> pyval \<Rightarrow> py_exn + (bool \<times> quantity_message)" where
  "validate_quantity st quantity =
     (case ensure_int quantity ''quantity'' of
        Inl (TypeErr e) \<Rightarrow> Inr (False, QuantityTypeError e)
      | Inl e \<Rightarrow> Inl e
      | Inr q \<Rightarrow>
          (if q < offer_min_quantity st then Inr (False, QuantityTooSmall (offer_min_quantity st))
           else if q > offer_max_quantity st
           then Inr (False, QuantityTooLarge (offer_max_quantity st))
           else Inr (True, QuantityOk)))"

datatype price_message =
  PriceOk | PriceTypeError type_error | PriceNotPositive | PriceDigits | PriceFourDigits

definition check_price :: "int \<Rightarrow> bool \<times> price_message" where
  "check_price price =
     (if price \<le> 0 then (False, PriceNotPositive)
      else if length (py_str_int price) \<notin> {5, 6} then (False, PriceDigits)
      else (True, PriceOk))"

definition validate_price :: "pyval \<Rightarrow> py_exn + (bool \<times> price_message)" where
  "validate_price price =
     (case ensure_int price ''price'' of
        Inl (TypeErr e) \<Rightarrow> Inr (False, PriceTypeError e)
      | Inl e \<Rightarrow> Inl e
      | Inr p \<Rightarrow> Inr (check_price p))"

definition normalize_price :: "int \<Rightarrow> int option \<times> price_message" where
  "normalize_price normalized =
     (if normalized \<le> 0 then (None, PriceNotPositive)
      else
        let digit_count = length (py_str_int normalized)
        in if digit_count = 4 then (None, PriceFourDigits)
           else
             let scaled = (if digit_count \<le> 3 then normalized * 1000 else normalized)
             in (case check_price scaled of
                   (False, err) \<Rightarrow> (None, err)
                 | (True, _) \<Rightarrow> (Some scaled, PriceOk)))"

definition normalize_offer_price_input :: "pyval \<Rightarrow> py_exn + (int option \<times> price_message)" where
  "normalize_offer_price_input price =
     (case ensure_int price ''price'' of
        Inl (TypeErr e) \<Rightarrow> Inr (None, PriceTypeError e)
      | Inl e \<Rightarrow> Inl e
      | Inr p \<Rightarrow> Inr (normalize_price p))"

section \<open>Parsing a lot combination\<close>

datatype parse_message = ParseOk | NotText | EmptyText | NotANumber string

fun parse_lot_parts :: "string list \<Rightarrow> string + int list" where
  "parse_lot_parts [] = Inr []"
| "parse_lot_parts (part # parts) =
     (case py_int_of_string part of
        None \<Rightarrow> Inl part
      | Some num \<Rightarrow>
          (if num \<le> 0 then Inl part
           else (case parse_lot_parts parts of Inl e \<Rightarrow> Inl e | Inr nums \<Rightarrow> Inr (num # nums))))"

fun parse_lot_sizes_text :: "pyval \<Rightarrow> bool \<times> parse_message \<times> int list option" where
  "parse_lot_sizes_text (PStr txt) =
     (if py_strip txt = [] then (False, EmptyText, None)
      else
        (case parse_lot_parts (py_split (py_strip txt)) of
           Inl part \<Rightarrow> (False, NotANumber part, None)
         | Inr lots \<Rightarrow> (True, ParseOk, Some (sort_desc lots))))"
| "parse_lot_sizes_text v = (False, NotText, None)"

section \<open>Competitive price\<close>

text \<open>The columns of an offer row that the price checks select on.\<close>

datatype offer_type = BUY | SELL

datatype offer_status = OFFER_ACTIVE | OFFER_COMPLETED | OFFER_CANCELLED | OFFER_EXPIRED

record offer_row =
  row_user_id :: int
  row_commodity_id :: int
  row_offer_type :: offer_type
  row_settlement_type :: settlement_type
  row_status :: offer_status
  row_quantity :: int
  row_price :: int
  row_exclude_from_competitive_price :: bool

definition QUANTITY_RANGES :: "(string, int \<times> int) dict" where
  "QUANTITY_RANGES = [(''A'', (5, 20)), (''B'', (21, 40)), (''C'', (41, 50))]"

definition get_quantity_range :: "int \<Rightarrow> string option" where
  "get_quantity_range quantity =
     map_option fst (find (\<lambda>(code, lo, hi). lo \<le> quantity \<and> quantity \<le> hi) QUANTITY_RANGES)"

definition get_quantity_bounds :: "int \<Rightarrow> (int \<times> int) option" where
  "get_quantity_bounds quantity =
     (case get_quantity_range quantity of
        None \<Rightarrow> None
      | Some qty_range \<Rightarrow> dict_get QUANTITY_RANGES qty_range)"

definition get_comparable_active_prices ::
  "offer_row list \<Rightarrow> string \<Rightarrow> settlement_arg \<Rightarrow> int \<Rightarrow> int \<Rightarrow> int option \<Rightarrow> int list" where
  "get_comparable_active_prices db otype stype commodity_id quantity user_id =
     (case get_quantity_bounds quantity of
        None \<Rightarrow> []
      | Some (min_qty, max_qty) \<Rightarrow>
          map row_price
            (filter
               (\<lambda>r. row_commodity_id r = commodity_id
                  \<and> row_offer_type r = (if otype = ''sell'' then SELL else BUY)
                  \<and> row_settlement_type r = normalize_settlement_type stype
                  \<and> row_status r = OFFER_ACTIVE
                  \<and> row_quantity r \<ge> min_qty
                  \<and> row_quantity r \<le> max_qty
                  \<and> \<not> row_exclude_from_competitive_price r
                  \<and> (case user_id of None \<Rightarrow> True | Some u \<Rightarrow> row_user_id r \<noteq> u))
               db))"

definition MIN_SIMILAR_OFFERS :: nat where
  "MIN_SIMILAR_OFFERS = 3"

text \<open>\<open>int(round(PRICE_TOLERANCE * 1000))\<close> with the tolerance 0.004.\<close>

definition PRICE_TOLERANCE :: rat where
  "PRICE_TOLERANCE = 4 / 1000"

definition tolerance_per_thousand :: int where
  "tolerance_per_thousand = round_half_even (PRICE_TOLERANCE * 1000)"

datatype competitive_message = CompetitiveOk | CheaperSellerExists | HigherBuyerExists

definition validate_competitive_price ::
  "trading_settings \<Rightarrow> offer_row list \<Rightarrow> string \<Rightarrow> settlement_arg \<Rightarrow> int \<Rightarrow> int \<Rightarrow> int \<Rightarrow> int
     \<Rightarrow> bool \<times> competitive_message" where
  "validate_competitive_price st db otype stype commodity_id quantity proposed_price user_id =
     (if \<not> competitive_price_validation_enabled st then (True, CompetitiveOk)
      else if get_quantity_bounds quantity = None then (True, CompetitiveOk)
      else
        let prices = get_comparable_active_prices db otype stype commodity_id quantity (Some user_id)
        in if length prices < MIN_SIMILAR_OFFERS then (True, CompetitiveOk)
           else
             let price_sum = sum_list prices; price_count = int (length prices)
             in if otype = ''sell'' then
                  (if proposed_price * price_count * 1000 > price_sum * (1000 + tolerance_per_thousand)
                   then (False, CheaperSellerExists) else (True, CompetitiveOk))
                else
                  (if proposed_price * price_count * 1000 < price_sum * (1000 - tolerance_per_thousand)
                   then (False, HigherBuyerExists) else (True, CompetitiveOk)))"

section \<open>The price warning\<close>

datatype warning_type = SELL_BELOW_LOWEST_ACTIVE | BUY_ABOVE_HIGHEST_ACTIVE

record price_warning =
  warning_type :: warning_type
  warned_offer_type :: string
  reference_price :: int
  proposed_price :: int
  difference_amount :: int
  difference_percent :: rat
  comparable_count :: nat

text \<open>\<open>round2\<close> stands for Python's floating-point \<open>round(x, 2)\<close>.\<close>

definition build_price_warning_payload ::
  "(rat \<Rightarrow> rat) \<Rightarrow> warning_type \<Rightarrow> string \<Rightarrow> int \<Rightarrow> int \<Rightarrow> nat \<Rightarrow> price_warning" where
  "build_price_warning_payload round2 wtype otype proposed reference n_comparable =
     \<lparr>warning_type = wtype,
      warned_offer_type = otype,
      reference_price = reference,
      proposed_price = proposed,
      difference_amount = \<bar>proposed - reference\<bar>,
      difference_percent =
        (if reference \<le> 0 then 0
         else round2 (of_int \<bar>proposed - reference\<bar> / of_int reference * 100)),
      comparable_count = n_comparable\<rparr>"

definition detect_offer_price_warning ::
  "(rat \<Rightarrow> rat) \<Rightarrow> trading_settings \<Rightarrow> offer_row list \<Rightarrow> string \<Rightarrow> settlement_arg \<Rightarrow> int \<Rightarrow> int \<Rightarrow> int
     \<Rightarrow> int option \<Rightarrow> price_warning option" where
  "detect_offer_price_warning round2 st db otype stype commodity_id quantity proposed user_id =
     (if \<not> offer_price_warning_enabled st then None
      else
        let prices = get_comparable_active_prices db otype stype commodity_id quantity user_id
        in if prices = [] then None
           else if otype = ''sell'' then
             (let lowest_price = Min (set prices)
              in if proposed < lowest_price
                 then Some (build_price_warning_payload round2 SELL_BELOW_LOWEST_ACTIVE otype
                              proposed lowest_price (length prices))
                 else None)
           else
             (let highest_price = Max (set prices)
              in if proposed > highest_price
                 then Some (build_price_warning_payload round2 BUY_ABOVE_HIGHEST_ACTIVE otype
                              proposed highest_price (length prices))
                 else None))"

section \<open>Lemmas on lots\<close>

lemma reduce_lots_length [simp]: "length (reduce_lots mn r ls) = length ls"
  by (induction mn r ls rule: reduce_lots.induct) (auto simp: Let_def)

text \<open>On lots that all reach the minimum, the loop removes the excess when there is room for it and
  otherwise cuts every lot to the minimum.\<close>

lemma reduce_lots_min:
  assumes "\<forall>l \<in> set ls. mn \<le> l" and "0 < r"
  shows "(\<forall>l \<in> set (reduce_lots mn r ls). mn \<le> l) \<and>
         sum_list (reduce_lots mn r ls) = max (sum_list ls - r) (mn * int (length ls))"
  using assms
proof (induction mn r ls rule: reduce_lots.induct)
  case (1 mn r)
  then show ?case by simp
next
  case (2 mn r l ls)
  have ge: "mn * int (length ls) \<le> sum_list ls" using "2.prems"(1)
    by (induction ls) (auto simp: algebra_simps)
  show ?case
  proof (cases "r \<le> l - mn")
    case True
    with "2.prems" ge show ?thesis by (auto simp: Let_def algebra_simps)
  next
    case False
    with "2.prems" have step: "reduce_lots mn r (l # ls) = mn # reduce_lots mn (r - (l - mn)) ls"
      by (auto simp: Let_def)
    have IH: "(\<forall>x \<in> set (reduce_lots mn (r - (l - mn)) ls). mn \<le> x) \<and>
        sum_list (reduce_lots mn (r - (l - mn)) ls) =
        max (sum_list ls - (r - (l - mn))) (mn * int (length ls))"
      using "2.IH" [OF refl refl] False "2.prems" by (simp add: max_def min_def)
    have "sum_list (reduce_lots mn r (l # ls)) =
        mn + max (sum_list ls - (r - (l - mn))) (mn * int (length ls))"
      using IH unfolding step by simp
    moreover have "\<dots> = max (sum_list (l # ls) - r) (mn * int (length (l # ls)))"
      by (simp add: max_def algebra_simps)
    ultimately show ?thesis using IH unfolding step by simp
  qed
qed

lemma sum_list_ge_min: "\<forall>l \<in> set ls. (mn :: int) \<le> l \<Longrightarrow> mn * int (length ls) \<le> sum_list ls"
  by (induction ls) (auto simp: algebra_simps)

lemma suggest_lots_Some:
  assumes "suggest_lots st t ls = Some s"
  shows "sum_list s = t \<and> sorted_wrt (\<ge>) s \<and> length s \<le> length ls \<and>
         (sum_list ls \<noteq> t \<longrightarrow> (\<forall>l \<in> set s. lot_min_size st \<le> l))"
proof (cases "sum_list ls = t")
  case True
  with assms show ?thesis by (auto simp: suggest_lots_def split: if_splits)
next
  case False
  define changed where "changed =
    (if t - sum_list ls > 0 then (hd (sort_desc ls) + (t - sum_list ls)) # tl (sort_desc ls)
     else reduce_lots (lot_min_size st) (- (t - sum_list ls)) (sort_desc ls))"
  define kept where "kept = filter (\<lambda>l. l \<ge> lot_min_size st) changed"
  from assms False have ne: "ls \<noteq> []" and kept: "sum_list kept = t" "s = sort_desc kept"
    by (auto simp: suggest_lots_def changed_def kept_def Let_def split: if_splits)
  have "length changed = length ls" using ne by (auto simp: changed_def)
  then have "length kept \<le> length ls" unfolding kept_def by (metis length_filter_le)
  with kept show ?thesis by (auto simp: kept_def)
qed

lemma filter_all_eq: "\<forall>l \<in> set ls. P l \<Longrightarrow> filter P ls = ls"
  by (induction ls) auto

lemma suggest_lots_iff:
  assumes ge: "\<forall>l \<in> set ls. lot_min_size st \<le> l" and ne: "ls \<noteq> []"
  shows "(\<exists>s. suggest_lots st t ls = Some s) \<longleftrightarrow> lot_min_size st * int (length ls) \<le> t"
proof -
  let ?mn = "lot_min_size st"
  have low: "?mn * int (length ls) \<le> sum_list ls" using ge by (rule sum_list_ge_min)
  consider (eq) "sum_list ls = t" | (short) "sum_list ls < t" | (excess) "t < sum_list ls" by linarith
  then show ?thesis
  proof cases
    case eq
    with ne low show ?thesis by (auto simp: suggest_lots_def)
  next
    case short
    have nes: "sort_desc ls \<noteq> []" using ne by simp
    then have hdm: "?mn \<le> hd (sort_desc ls)"
      using ge by (metis list.set_sel(1) set_sort_desc)
    have tlm: "\<forall>l \<in> set (tl (sort_desc ls)). ?mn \<le> l"
      using ge nes by (metis list.set_sel(2) set_sort_desc)
    have split: "hd (sort_desc ls) + sum_list (tl (sort_desc ls)) = sum_list ls"
      using nes by (metis list.collapse sum_list.Cons sum_list_sort_desc)
    from short ne hdm tlm split low show ?thesis
      by (auto simp: suggest_lots_def Let_def filter_all_eq)
  next
    case excess
    let ?r = "reduce_lots ?mn (sum_list ls - t) (sort_desc ls)"
    have R: "(\<forall>l \<in> set ?r. ?mn \<le> l) \<and>
        sum_list ?r = max (sum_list (sort_desc ls) - (sum_list ls - t)) (?mn * int (length (sort_desc ls)))"
      using ge excess by (intro reduce_lots_min) auto
    then have "filter (\<lambda>l. ?mn \<le> l) ?r = ?r" by (simp add: filter_all_eq)
    with R excess ne show ?thesis by (auto simp: suggest_lots_def Let_def max_def)
  qed
qed

lemma find_None_iff_ge: "find (\<lambda>l. l < (mn :: int)) ls = None \<longleftrightarrow> (\<forall>l \<in> set ls. mn \<le> l)"
  by (auto simp: find_None_iff not_less)

lemma check_lot_sizes_True_iff:
  "check_lot_sizes st t ls = (True, m, r) \<longleftrightarrow>
     m = NoMessage \<and> r = Some ls \<and> int (length ls) \<le> lot_max_count st \<and>
     (\<forall>l \<in> set ls. lot_min_size st \<le> l) \<and> sum_list ls = t"
  unfolding check_lot_sizes_def find_None_iff_ge [symmetric]
  by (auto simp: Let_def split: option.splits list.splits if_splits)

lemma check_lot_sizes_False_Some:
  assumes "check_lot_sizes st t ls = (False, m, Some s)"
  shows "s \<noteq> [] \<and> suggest_lots st t ls = Some s \<and> sum_list ls \<noteq> t \<and>
         int (length ls) \<le> lot_max_count st \<and> (\<forall>l \<in> set ls. lot_min_size st \<le> l)"
  using assms unfolding check_lot_sizes_def find_None_iff_ge [symmetric]
  by (auto simp: Let_def split: option.splits list.splits if_splits)

lemma validate_lot_sizes_Inr:
  assumes "validate_lot_sizes st tv lv = Inr (b, m, Some s)"
  shows "\<exists>t ls. ensure_int tv ''total'' = Inr t \<and> ensure_int_list lv ''lot_sizes'' = Inr ls \<and>
    check_lot_sizes st t ls = (b, m, Some s)"
  using assms by (auto simp: validate_lot_sizes_def split: sum.splits py_exn.splits)

lemma validate_lot_sizes_ints:
  "ensure_int tv ''total'' = Inr t \<Longrightarrow>
   validate_lot_sizes st tv (PList (map PInt ls)) = Inr (check_lot_sizes st t ls)"
  by (simp add: validate_lot_sizes_def)

section \<open>Properties of lots\<close>

text \<open>Whenever \<open>validate_lot_sizes\<close> rejects a combination and proposes another one, the proposal is
  itself accepted for the same total: it passes the count, minimum and sum checks unchanged.\<close>

theorem suggested_lots_are_accepted:
  assumes "validate_lot_sizes st tv lv = Inr (False, m, Some s)"
  shows "validate_lot_sizes st tv (PList (map PInt s)) = Inr (True, NoMessage, Some s)"
proof -
  obtain t ls where t: "ensure_int tv ''total'' = Inr t"
    and chk: "check_lot_sizes st t ls = (False, m, Some s)"
    using validate_lot_sizes_Inr [OF assms] by blast
  note bad = check_lot_sizes_False_Some [OF chk]
  then have sug: "sum_list s = t \<and> length s \<le> length ls \<and> (\<forall>l \<in> set s. lot_min_size st \<le> l)"
    using suggest_lots_Some [of st t ls s] by auto
  have "check_lot_sizes st t s = (True, NoMessage, Some s)"
    unfolding check_lot_sizes_True_iff using sug bad by auto
  with t show ?thesis by (simp add: validate_lot_sizes_ints)
qed

theorem suggested_lots_are_accepted_witness:
  "validate_lot_sizes default_settings (PInt 30) (PList [PInt 20, PInt 15]) =
     Inr (False, SumMismatch 35 30 (Some [15, 15]), Some [15, 15]) \<and>
   validate_lot_sizes default_settings (PInt 30) (PList [PInt 15, PInt 15]) =
     Inr (True, NoMessage, Some [15, 15])"
proof -
  have h: "validate_lot_sizes default_settings (PInt 30) (PList [PInt 20, PInt 15]) =
     Inr (False, SumMismatch 35 30 (Some [15, 15]), Some [15, 15])"
    by (simp add: validate_lot_sizes_def check_lot_sizes_def suggest_lots_def lot_min_size_def
        lot_max_count_def default_settings_def sort_desc_def Let_def)
  show ?thesis using h suggested_lots_are_accepted [OF h] by simp
qed

text \<open>C25: When every entered lot reaches the minimum, a correction exists exactly when the total can
  hold that many minimum lots, and the correction then sums to the total, is in descending order,
  keeps every lot at the minimum or above and has no more lots than were entered.\<close>

theorem suggestion_complete:
  assumes "ls \<noteq> []" and "\<forall>l \<in> set ls. lot_min_size st \<le> l"
  shows "if lot_min_size st * int (length ls) \<le> t
         then \<exists>s. suggest_lot_combination st (PInt t) (PList (map PInt ls)) = Inr (Some s) \<and>
                sum_list s = t \<and> sorted_wrt (\<ge>) s \<and> length s \<le> length ls \<and>
                (\<forall>l \<in> set s. lot_min_size st \<le> l)
         else suggest_lot_combination st (PInt t) (PList (map PInt ls)) = Inr None"
proof -
  have call: "suggest_lot_combination st (PInt t) (PList (map PInt ls)) = Inr (suggest_lots st t ls)"
    by (simp add: suggest_lot_combination_def)
  have low: "\<And>s. suggest_lots st t ls = Some s \<Longrightarrow> sum_list ls = t \<Longrightarrow> \<forall>l \<in> set s. lot_min_size st \<le> l"
    using assms by (auto simp: suggest_lots_def split: if_splits)
  show ?thesis
  proof (cases "lot_min_size st * int (length ls) \<le> t")
    case True
    then obtain s where s: "suggest_lots st t ls = Some s"
      using suggest_lots_iff [OF assms(2,1)] by blast
    with True call show ?thesis using suggest_lots_Some [OF s] low [OF s] by auto
  next
    case False
    then have "suggest_lots st t ls = None"
      using suggest_lots_iff [OF assms(2,1), of t] by (cases "suggest_lots st t ls") auto
    with False call show ?thesis by simp
  qed
qed

theorem suggestion_complete_witness:
  "suggest_lot_combination default_settings (PInt 12) (PList (map PInt [9, 8])) = Inr (Some [7, 5])
   \<and> suggest_lot_combination default_settings (PInt 9) (PList (map PInt [9, 8])) = Inr None"
proof -
  have h: "[9, 8] \<noteq> ([] :: int list)" "\<forall>l \<in> set [9, 8]. lot_min_size default_settings \<le> l"
    by (simp_all add: lot_min_size_def default_settings_def)
  have "suggest_lot_combination default_settings (PInt 9) (PList (map PInt [9, 8])) = Inr None"
    using suggestion_complete [OF h, of 9] by (simp add: lot_min_size_def default_settings_def)
  moreover have "suggest_lot_combination default_settings (PInt 12) (PList (map PInt [9, 8])) =
      Inr (Some [7, 5])"
    by (simp add: suggest_lot_combination_def suggest_lots_def lot_min_size_def
        default_settings_def sort_desc_def Let_def)
  ultimately show ?thesis by simp
qed

text \<open>The default split of a quantity that reaches the configured minimum is always accepted by
  \<open>validate_lot_sizes\<close>: at most three lots, none below the minimum, summing to the quantity.\<close>

theorem default_lots_are_valid:
  assumes "0 < offer_min_quantity st" and "offer_min_quantity st \<le> q"
  shows "\<exists>ls. generate_default_lots st (PInt q) = Inr (Some ls) \<and>
           validate_lot_sizes st (PInt q) (PList (map PInt ls)) = Inr (True, NoMessage, Some ls)"
proof -
  let ?ls = "default_lots st q"
  have "int (length ?ls) \<le> 3 \<and> (\<forall>l \<in> set ?ls. offer_min_quantity st \<le> l) \<and> sum_list ?ls = q"
    using assms by (auto simp: default_lots_def lot_min_size_def Let_def)
  then have "check_lot_sizes st q ?ls = (True, NoMessage, Some ?ls)"
    by (simp add: check_lot_sizes_True_iff lot_min_size_def lot_max_count_def)
  then show ?thesis by (simp add: generate_default_lots_def validate_lot_sizes_ints)
qed

theorem default_lots_are_valid_witness:
  "generate_default_lots default_settings (PInt 31) = Inr (Some [11, 10, 10]) \<and>
   (\<exists>ls. generate_default_lots default_settings (PInt 31) = Inr (Some ls) \<and>
      validate_lot_sizes default_settings (PInt 31) (PList (map PInt ls)) =
        Inr (True, NoMessage, Some ls))"
proof -
  have h: "0 < offer_min_quantity default_settings" "offer_min_quantity default_settings \<le> 31"
    by (simp_all add: default_settings_def)
  have e: "generate_default_lots default_settings (PInt 31) = Inr (Some [11, 10, 10])"
    by (simp add: generate_default_lots_def default_lots_def default_settings_def lot_min_size_def
        sort_desc_def Let_def)
  show ?thesis using default_lots_are_valid [OF h] e by simp
qed

section \<open>Available amounts\<close>

lemma collect_lots_spec:
  assumes "set available \<subseteq> set seen" and "distinct available"
  shows "distinct (collect_lots r seen available lots) \<and>
         set (collect_lots r seen available lots) =
           set available \<union> ({l \<in> set lots. 0 < l \<and> l \<le> r} - set seen)"
  using assms
proof (induction r seen available lots rule: collect_lots.induct)
  case (2 r seen available lot lots)
  show ?case
  proof (cases "lot \<le> 0 \<or> lot > r \<or> lot \<in> set seen")
    case True
    with "2.IH"(1) "2.prems" show ?thesis by auto
  next
    case False
    with "2.prems" have "set (available @ [lot]) \<subseteq> set (lot # seen)" "distinct (available @ [lot])"
      by auto
    with "2.IH"(2) False show ?thesis by auto
  qed
qed simp

definition offered_amounts :: "int \<Rightarrow> bool \<Rightarrow> int list \<Rightarrow> int set" where
  "offered_amounts remaining is_wholesale lots =
     (if remaining \<le> 0 then {}
      else if is_wholesale then {remaining}
      else insert remaining {l \<in> set lots. 0 < l \<and> l \<le> remaining})"

lemma amounts_of_remaining_spec:
  "\<exists>xs. amounts_of_remaining r w (PList (map PInt lots)) = Inr xs \<and>
     set xs = offered_amounts r w lots \<and> distinct xs \<and> sorted_wrt (\<ge>) xs"
proof -
  have "distinct (collect_lots r [r] [r] lots) \<and>
      set (collect_lots r [r] [r] lots) = {r} \<union> ({l \<in> set lots. 0 < l \<and> l \<le> r} - {r})"
    using collect_lots_spec [of "[r]" "[r]" r lots] by simp
  then show ?thesis
    by (auto simp: amounts_of_remaining_def offered_amounts_def)
qed

text \<open>On an offer with integer columns, a requested amount is accepted exactly when it is one of the
  offered amounts: the whole remainder, or for a retail offer one of the owner's lots that still fits.
  The returned list enumerates exactly those amounts, without repetition, in descending order.\<close>

theorem trade_amount_accepted_iff:
  "\<exists>v. validate_offer_trade_amount (PInt q) (PInt r) w (PList (map PInt lots)) (PInt a) = Inr v \<and>
     (fst v \<longleftrightarrow> a \<in> offered_amounts r w lots) \<and>
     (fst v \<longrightarrow> 0 < a \<and> a \<le> r \<and> set (snd (snd (snd v))) = offered_amounts r w lots \<and>
        distinct (snd (snd (snd v))) \<and> sorted_wrt (\<ge>) (snd (snd (snd v))))"
proof -
  obtain xs where xs: "amounts_of_remaining r w (PList (map PInt lots)) = Inr xs"
    "set xs = offered_amounts r w lots" "distinct xs" "sorted_wrt (\<ge>) xs"
    using amounts_of_remaining_spec by blast
  have get: "get_available_trade_amounts (PInt q) (PInt r) w (PList (map PInt lots)) = Inr xs"
    using xs(1) by (simp add: get_available_trade_amounts_def remaining_or_total_def)
  have bounds: "a \<in> offered_amounts r w lots \<Longrightarrow> 0 < a \<and> a \<le> r"
    by (auto simp: offered_amounts_def split: if_splits)
  show ?thesis
    using xs get bounds
    by (auto simp: validate_offer_trade_amount_def remaining_or_total_def)
qed

text \<open>An instance of the previous property, with the hypothesis that the verdict is positive.\<close>

theorem trade_amount_accepted_iff_witness:
  "validate_offer_trade_amount (PInt 30) (PInt 30) False (PList (map PInt [20, 10])) (PInt 10) =
     Inr (True, AmountOk, 10, [30, 20, 10]) \<and> 10 \<in> offered_amounts 30 False [20, 10]"
proof -
  have e: "validate_offer_trade_amount (PInt 30) (PInt 30) False (PList (map PInt [20, 10])) (PInt 10) =
     Inr (True, AmountOk, 10, [30, 20, 10])"
    by (simp add: validate_offer_trade_amount_def get_available_trade_amounts_def
        amounts_of_remaining_def remaining_or_total_def sort_desc_def)
  then show ?thesis
    using trade_amount_accepted_iff [of 30 30 False "[20, 10]" 10] by auto
qed

section \<open>Prices\<close>

lemma digits_le_iff: "0 < p \<Longrightarrow> length (py_str_int p) \<le> Suc k \<longleftrightarrow> p < 10 ^ Suc k"
  by (rule length_py_str_int) simp

lemma digits_eq_iff:
  assumes "0 < p"
  shows "length (py_str_int p) = Suc (Suc k) \<longleftrightarrow> 10 ^ Suc k \<le> p \<and> p < 10 ^ Suc (Suc k)"
proof -
  have "length (py_str_int p) = Suc (Suc k) \<longleftrightarrow>
      length (py_str_int p) \<le> Suc (Suc k) \<and> \<not> length (py_str_int p) \<le> Suc k" by auto
  then show ?thesis unfolding digits_le_iff [OF assms] by auto
qed

lemma digits_5: "0 < p \<Longrightarrow> length (py_str_int p) = 5 \<longleftrightarrow> 10000 \<le> p \<and> p < 100000"
  using digits_eq_iff [of p 3] by (simp add: eval_nat_numeral)

lemma digits_6: "0 < p \<Longrightarrow> length (py_str_int p) = 6 \<longleftrightarrow> 100000 \<le> p \<and> p < 1000000"
  using digits_eq_iff [of p 4] by (simp add: eval_nat_numeral)

lemma digits_4: "0 < p \<Longrightarrow> length (py_str_int p) = 4 \<longleftrightarrow> 1000 \<le> p \<and> p < 10000"
  using digits_eq_iff [of p 2] by (simp add: eval_nat_numeral)

lemma digits_le_3: "0 < p \<Longrightarrow> length (py_str_int p) \<le> 3 \<longleftrightarrow> p < 1000"
  using digits_le_iff [of p 2] by (simp add: eval_nat_numeral)

lemma check_price_iff: "fst (check_price p) \<longleftrightarrow> 10000 \<le> p \<and> p < 1000000"
  using digits_5 [of p] digits_6 [of p] by (auto simp: check_price_def)

lemma check_price_True: "check_price p = (True, m) \<longleftrightarrow> m = PriceOk \<and> 10000 \<le> p \<and> p < 1000000"
  using check_price_iff [of p] by (auto simp: check_price_def split: if_splits)

lemma normalize_price_small:
  assumes "0 < p" and "p < 1000"
  shows "normalize_price p = (if 10 \<le> p then (Some (p * 1000), PriceOk)
                              else (None, snd (check_price (p * 1000))))"
proof -
  have d: "length (py_str_int p) \<le> 3" using assms by (simp add: digits_le_3)
  show ?thesis
  proof (cases "check_price (p * 1000)")
    case (Pair ok m)
    then have "ok \<longleftrightarrow> 10 \<le> p" using check_price_iff [of "p * 1000"] assms by simp
    with Pair d assms show ?thesis by (cases ok) (simp_all add: normalize_price_def)
  qed
qed

lemma normalize_price_large:
  assumes "1000 \<le> p"
  shows "normalize_price p = (if p < 10000 then (None, PriceFourDigits)
                              else if p < 1000000 then (Some p, PriceOk)
                              else (None, snd (check_price p)))"
proof -
  have d: "\<not> length (py_str_int p) \<le> 3" "length (py_str_int p) = 4 \<longleftrightarrow> p < 10000"
    using assms by (simp_all add: digits_le_3 digits_4)
  show ?thesis
  proof (cases "check_price p")
    case (Pair ok m)
    then have "ok \<longleftrightarrow> 10000 \<le> p \<and> p < 1000000" using check_price_iff [of p] by simp
    with Pair d assms show ?thesis by (cases ok) (simp_all add: normalize_price_def)
  qed
qed

lemma normalize_price_Some:
  "normalize_price p = (Some q, m) \<longleftrightarrow>
     m = PriceOk \<and> (10 \<le> p \<and> p < 1000 \<and> q = p * 1000 \<or> 10000 \<le> p \<and> p < 1000000 \<and> q = p)"
proof -
  consider (none) "p \<le> 0" | (small) "0 < p" "p < 1000" | (large) "1000 \<le> p" by linarith
  then show ?thesis
  proof cases
    case none
    then show ?thesis by (auto simp: normalize_price_def)
  next
    case small
    then show ?thesis by (auto simp: normalize_price_small)
  next
    case large
    then show ?thesis by (auto simp: normalize_price_large)
  qed
qed

text \<open>The price a user may enter and the canonical price it becomes: a two- or three-digit entry is
  read in thousands, a five- or six-digit entry is taken as it is, and nothing else is accepted.  The
  docstring announces that one-digit entries are multiplied as well; they never pass the final check.\<close>

theorem price_normalisation_exact:
  "(\<exists>m. normalize_offer_price_input (PInt p) = Inr (Some c, m)) \<longleftrightarrow>
     (10 \<le> p \<and> p \<le> 999 \<and> c = 1000 * p \<or> 10000 \<le> p \<and> p \<le> 999999 \<and> c = p)"
  by (auto simp: normalize_offer_price_input_def normalize_price_Some)

text \<open>A canonical price is a fixed point of the normalisation and passes \<open>validate_price\<close>.\<close>

theorem price_normalisation_idempotent:
  assumes "normalize_offer_price_input v = Inr (Some c, m)"
  shows "normalize_offer_price_input (PInt c) = Inr (Some c, PriceOk) \<and>
         validate_price (PInt c) = Inr (True, PriceOk)"
proof -
  obtain p where "normalize_price p = (Some c, m)"
    using assms by (auto simp: normalize_offer_price_input_def split: sum.splits py_exn.splits)
  then have range: "10000 \<le> c \<and> c < 1000000" by (auto simp: normalize_price_Some)
  then have "normalize_price c = (Some c, PriceOk)" "check_price c = (True, PriceOk)"
    by (auto simp: normalize_price_Some check_price_True)
  then show ?thesis by (simp add: normalize_offer_price_input_def validate_price_def)
qed

lemma normalize_price_758: "normalize_price 758 = (Some 758000, PriceOk)"
  by (simp add: normalize_price_Some)

theorem price_normalisation_idempotent_witness:
  "normalize_offer_price_input (PInt 758) = Inr (Some 758000, PriceOk) \<and>
   normalize_offer_price_input (PInt 758000) = Inr (Some 758000, PriceOk) \<and>
   validate_price (PInt 758000) = Inr (True, PriceOk)"
proof -
  have h: "normalize_offer_price_input (PInt 758) = Inr (Some 758000, PriceOk)"
    by (simp add: normalize_offer_price_input_def normalize_price_758)
  show ?thesis using h price_normalisation_idempotent [OF h] by simp
qed

lemma tolerance_per_thousand_value [simp]: "tolerance_per_thousand = 4"
proof -
  have "PRICE_TOLERANCE * 1000 = of_int 4" by (simp add: PRICE_TOLERANCE_def)
  then show ?thesis unfolding tolerance_per_thousand_def by (simp only: round_half_even_int)
qed

definition mean_price :: "int list \<Rightarrow> rat" where
  "mean_price prices = of_int (sum_list prices) / of_nat (length prices)"

text \<open>The scaled integer comparisons of the code compare with the mean.\<close>

lemma scaled_gt_iff:
  "prices \<noteq> [] \<Longrightarrow> p * int (length prices) * 1000 > sum_list prices * 1004 \<longleftrightarrow>
   (of_int p :: rat) > mean_price prices * (1 + PRICE_TOLERANCE)"
proof -
  assume "prices \<noteq> []"
  then have n: "(0 :: rat) < of_nat (length prices)" by simp
  have "(of_int p :: rat) > mean_price prices * (1 + PRICE_TOLERANCE) \<longleftrightarrow>
      (of_int p * of_nat (length prices) * 1000 :: rat) > of_int (sum_list prices) * 1004"
    using n by (simp add: mean_price_def PRICE_TOLERANCE_def field_simps)
  also have "\<dots> \<longleftrightarrow> of_int (p * int (length prices) * 1000) > (of_int (sum_list prices * 1004) :: rat)"
    by simp
  also have "\<dots> \<longleftrightarrow> p * int (length prices) * 1000 > sum_list prices * 1004"
    by (simp only: of_int_less_iff)
  finally show ?thesis by simp
qed

lemma scaled_lt_iff:
  "prices \<noteq> [] \<Longrightarrow> p * int (length prices) * 1000 < sum_list prices * 996 \<longleftrightarrow>
   (of_int p :: rat) < mean_price prices * (1 - PRICE_TOLERANCE)"
proof -
  assume "prices \<noteq> []"
  then have n: "(0 :: rat) < of_nat (length prices)" by simp
  have "(of_int p :: rat) < mean_price prices * (1 - PRICE_TOLERANCE) \<longleftrightarrow>
      (of_int p * of_nat (length prices) * 1000 :: rat) < of_int (sum_list prices) * 996"
    using n by (simp add: mean_price_def PRICE_TOLERANCE_def field_simps)
  also have "\<dots> \<longleftrightarrow> of_int (p * int (length prices) * 1000) < (of_int (sum_list prices * 996) :: rat)"
    by simp
  also have "\<dots> \<longleftrightarrow> p * int (length prices) * 1000 < sum_list prices * 996"
    by (simp only: of_int_less_iff)
  finally show ?thesis by simp
qed

text \<open>The competitive price check, carried out on scaled integers, rejects a price exactly when
  validation is on, the quantity falls in a range, at least three comparable offers of other users
  exist, and the price lies more than 0.4 percent on the wrong side of their exact mean: above it for
  a sale, below it for a purchase.\<close>

theorem competitive_price_rejects_iff:
  "fst (validate_competitive_price st db ot sty c q p u) \<longleftrightarrow>
     \<not> (competitive_price_validation_enabled st \<and> get_quantity_bounds q \<noteq> None \<and>
        (let prices = get_comparable_active_prices db ot sty c q (Some u)
         in 3 \<le> length prices \<and>
            (if ot = ''sell'' then of_int p > mean_price prices * (1 + PRICE_TOLERANCE)
             else of_int p < mean_price prices * (1 - PRICE_TOLERANCE))))"
proof -
  obtain prices where P: "get_comparable_active_prices db ot sty c q (Some u) = prices" by blast
  show ?thesis
  proof (cases "competitive_price_validation_enabled st \<and> get_quantity_bounds q \<noteq> None \<and>
      3 \<le> length prices")
    case True
    then have ne: "prices \<noteq> []" by auto
    have eq: "fst (validate_competitive_price st db ot sty c q p u) \<longleftrightarrow>
        \<not> (if ot = ''sell'' then p * int (length prices) * 1000 > sum_list prices * 1004
           else p * int (length prices) * 1000 < sum_list prices * 996)"
      unfolding validate_competitive_price_def P Let_def tolerance_per_thousand_value
      using True by (auto simp: MIN_SIMILAR_OFFERS_def)
    show ?thesis
      unfolding eq scaled_gt_iff [OF ne] scaled_lt_iff [OF ne] P Let_def using True by simp
  next
    case False
    then have "validate_competitive_price st db ot sty c q p u = (True, CompetitiveOk)"
      unfolding validate_competitive_price_def P Let_def by (auto simp: MIN_SIMILAR_OFFERS_def)
    with False show ?thesis unfolding P Let_def by auto
  qed
qed

text \<open>A price warning is raised exactly when warnings are on, comparable offers exist and the
  proposed price undercuts every comparable sale (or outbids every comparable purchase); the payload
  then names the extreme comparable price and the distance to it.\<close>

theorem price_warning_iff:
  "(\<exists>w. detect_offer_price_warning rnd st db ot sty c q p u = Some w \<and>
        reference_price w = ref \<and> difference_amount w = \<bar>p - ref\<bar>) \<longleftrightarrow>
     offer_price_warning_enabled st \<and>
     (let prices = get_comparable_active_prices db ot sty c q u
      in ref \<in> set prices \<and>
         (if ot = ''sell'' then p < ref \<and> (\<forall>x \<in> set prices. ref \<le> x)
          else ref < p \<and> (\<forall>x \<in> set prices. x \<le> ref)))"
proof -
  let ?P = "set (get_comparable_active_prices db ot sty c q u)"
  have mn: "?P \<noteq> {} \<Longrightarrow> Min ?P = ref \<longleftrightarrow> ref \<in> ?P \<and> (\<forall>x \<in> ?P. ref \<le> x)"
    by (rule Min_eq_iff) simp_all
  have mx: "?P \<noteq> {} \<Longrightarrow> Max ?P = ref \<longleftrightarrow> ref \<in> ?P \<and> (\<forall>x \<in> ?P. x \<le> ref)"
    by (rule Max_eq_iff) simp_all
  show ?thesis
  proof (cases "?P = {}")
    case True
    then show ?thesis by (auto simp: detect_offer_price_warning_def Let_def)
  next
    case False
    then have ne: "get_comparable_active_prices db ot sty c q u \<noteq> []" by auto
    show ?thesis
      using ne mn [OF False] mx [OF False]
      by (auto simp: detect_offer_price_warning_def build_price_warning_payload_def Let_def)
  qed
qed

theorem price_warning_iff_witness:
  "\<exists>w. detect_offer_price_warning (\<lambda>x. x) default_settings
        [\<lparr>row_user_id = 7, row_commodity_id = 1, row_offer_type = SELL, row_settlement_type = CASH,
          row_status = OFFER_ACTIVE, row_quantity = 10, row_price = 76000,
          row_exclude_from_competitive_price = False\<rparr>]
        ''sell'' (SettlementMember CASH) 1 12 75000 (Some 9) = Some w \<and>
      reference_price w = 76000 \<and> difference_amount w = \<bar>75000 - 76000\<bar>"
  unfolding price_warning_iff
  by (simp add: get_comparable_active_prices_def get_quantity_bounds_def get_quantity_range_def
      QUANTITY_RANGES_def default_settings_def)

section \<open>Round trip of the suggestion text\<close>

text \<open>\<open>' '.join(map(str, suggested))\<close>, the text the rejection message proposes.\<close>

definition lots_text :: "int list \<Rightarrow> string" where
  "lots_text ls = concat (separate_by '' '' (map py_str_int ls))"

lemma parse_lot_parts_str: "\<forall>l \<in> set ls. 0 < l \<Longrightarrow> parse_lot_parts (map py_str_int ls) = Inr ls"
  by (induction ls) (auto simp: py_int_of_string_str)

text \<open>The lot combination a rejection proposes can be typed back: parsing the proposed text yields
  exactly the proposed lots.\<close>

theorem suggestion_text_roundtrip:
  assumes "ls \<noteq> []" and "\<forall>l \<in> set ls. 0 < l" and "sorted_wrt (\<ge>) ls"
  shows "parse_lot_sizes_text (PStr (lots_text ls)) = (True, ParseOk, Some ls)"
proof -
  have words: "\<forall>w \<in> set (map py_str_int ls). py_word w"
    using assms(2) by (auto intro: py_word_str)
  have strip: "py_strip (lots_text ls) = lots_text ls" "lots_text ls \<noteq> []"
    using py_strip_join [OF words] assms(1) by (simp_all add: lots_text_def)
  have split: "py_split (lots_text ls) = map py_str_int ls"
    unfolding lots_text_def by (rule py_split_join [OF words])
  show ?thesis
    using strip split parse_lot_parts_str [OF assms(2)] sort_desc_eq [OF assms(3)] by simp
qed

theorem suggestion_text_roundtrip_witness:
  "lots_text [15, 10] = ''15 10'' \<and>
   parse_lot_sizes_text (PStr (lots_text [15, 10])) = (True, ParseOk, Some [15, 10])"
proof -
  have h: "[15, 10] \<noteq> ([] :: int list)" "\<forall>l \<in> set [15, 10 :: int]. 0 < l"
    "sorted_wrt (\<ge>) [15, 10 :: int]" by simp_all
  have "lots_text [15, 10] = ''15 10''" by code_simp
  with suggestion_text_roundtrip [OF h] show ?thesis by (simp only: simp_thms)
qed

end
