(* ===== verification/OfferLifecycle.thy ===== *)
theory OfferLifecycle
  imports TradeLots
begin

text \<open>
  The offer lifetime projection of \<open>core/offer_lifecycle.py\<close>: deadlines, the intake phase of a trade
  request, the display phase with its interaction flags, and the derived cut-off times.  Date-times
  are microseconds (\<open>pydt\<close>); \<open>utcnow\<close> is the wall clock the code reads when no \<open>as_of\<close> is
  given.  The attributes the code reads from an offer are the record \<open>offer_view\<close>; the snapshot
  column is a loosely typed value because the code guards its type.  Values outside the years that
  \<open>datetime\<close> can represent are not modelled.
\<close>

section \<open>Data\<close>

datatype lifecycle_phase = PHASE_NORMAL | PHASE_OVERTIME | PHASE_FINAL_TAIL | PHASE_EXPIRED
  | PHASE_UNAVAILABLE

datatype intake_phase = AUTOMATIC | APPROVAL | REJECTED

record offer_view =
  ov_created_at :: "pydt option"
  ov_status :: "offer_status option"
  ov_overtime_minutes_snapshot :: pyval

record lifecycle_projection =
  normal_lifetime_minutes :: int
  overtime_minutes_snapshot :: int
  normal_deadline_at :: "int option"
  final_deadline_at :: "int option"
  normal_deadline_ts :: "int option"
  final_deadline_ts :: "int option"
  expires_at_ts :: "int option"
  timer_total_seconds :: "int option"
  phase :: lifecycle_phase
  accepts_automatic_trade :: bool
  accepts_overtime_request :: bool
  accepts_new_public_interaction :: bool
  terminal_expiry_due :: bool

section \<open>Operations\<close>

text \<open>\<open>_as_naive_utc\<close>: the result is always naive, so only its wall clock is kept.\<close>

fun as_naive_utc :: "pydt \<Rightarrow> int" where
  "as_naive_utc (Naive wall) = wall"
| "as_naive_utc (Aware wall utcoffset) = wall - utcoffset"

definition timestamp :: "int \<Rightarrow> int" where
  "timestamp us = trunc_div us us_per_second"

fun read_overtime_minutes_snapshot :: "offer_view \<Rightarrow> int" where
  "read_overtime_minutes_snapshot ov =
     (case ov_overtime_minutes_snapshot ov of PInt raw \<Rightarrow> max 0 (min 10 raw) | _ \<Rightarrow> 0)"

text \<open>The argument of \<open>read_normal_lifetime_minutes\<close>: an integer, a boolean, or a settings object with
  the value of its \<open>offer_expiry_minutes\<close> attribute.\<close>

datatype lifetime_arg = LifetimeInt int | LifetimeBool bool | LifetimeSettings pyval

definition int_or_zero :: "pyval \<Rightarrow> py_exn + int" where
  "int_or_zero raw =
     (if py_falsy raw then Inr 0
      else case raw of
             PInt i \<Rightarrow> Inr i
           | PFloat (FFin r) \<Rightarrow> Inr (rat_trunc r)
           | PFloat FInf \<Rightarrow> Inl OverflowErr
           | PFloat FNan \<Rightarrow> Inl ValueErr
           | PStr s \<Rightarrow> (case py_int_of_string s of Some i \<Rightarrow> Inr i | None \<Rightarrow> Inl ValueErr)
           | _ \<Rightarrow> Inl (TypeErr (NotAnInt [])))"

fun read_normal_lifetime_minutes :: "lifetime_arg \<Rightarrow> py_exn + int" where
  "read_normal_lifetime_minutes (LifetimeBool b) = Inr 0"
| "read_normal_lifetime_minutes (LifetimeInt i) = Inr (max 0 i)"
| "read_normal_lifetime_minutes (LifetimeSettings raw) =
     (case int_or_zero raw of
        Inr i \<Rightarrow> Inr (max 0 i)
      | Inl OverflowErr \<Rightarrow> Inl OverflowErr
      | Inl _ \<Rightarrow> Inr 0)"

definition compute_lifecycle_deadlines :: "pydt option \<Rightarrow> int \<Rightarrow> int \<Rightarrow> (int \<times> int) option" where
  "compute_lifecycle_deadlines created_at lifetime overtime_snapshot =
     (case created_at of
        None \<Rightarrow> None
      | Some dt \<Rightarrow>
          (if lifetime \<le> 0 then None
           else
             let created = as_naive_utc dt;
                 overtime = max 0 overtime_snapshot;
                 normal_deadline = created + lifetime * us_per_minute;
                 final_deadline = normal_deadline + overtime * us_per_minute
             in Some (normal_deadline, final_deadline)))"

definition classify_request_intake_phase ::
  "pydt option \<Rightarrow> int option \<Rightarrow> int option \<Rightarrow> int \<Rightarrow> intake_phase" where
  "classify_request_intake_phase receipt_at normal_deadline final_deadline overtime =
     (case (receipt_at, normal_deadline, final_deadline) of
        (Some rdt, Some normal, Some final) \<Rightarrow>
          (let receipt = as_naive_utc rdt
           in if receipt < normal then AUTOMATIC
              else if overtime > 0 \<and> receipt > normal \<and> receipt < final then APPROVAL
              else REJECTED)
      | _ \<Rightarrow> AUTOMATIC)"

definition offer_is_active :: "offer_view \<Rightarrow> bool" where
  "offer_is_active ov =
     (case ov_status ov of None \<Rightarrow> True | Some s \<Rightarrow> s = OFFER_ACTIVE)"

text \<open>The chain of display phases: phase, automatic, overtime, public, terminal, timer.\<close>

definition display_phase ::
  "bool \<Rightarrow> int \<Rightarrow> int \<Rightarrow> int \<Rightarrow> int \<Rightarrow> int \<Rightarrow> bool
     \<Rightarrow> lifecycle_phase \<times> bool \<times> bool \<times> bool \<times> bool \<times> int option" where
  "display_phase is_active now normal_deadline final_deadline normal_minutes overtime has_tail =
     (if \<not> is_active then (PHASE_EXPIRED, False, False, False, False, None)
      else if now < normal_deadline
      then (PHASE_NORMAL, True, False, True, False, Some (normal_minutes * 60))
      else if overtime > 0 \<and> now < final_deadline
      then (PHASE_OVERTIME, False, True, True, False, Some (overtime * 60))
      else if has_tail \<and> now \<ge> final_deadline
      then (PHASE_FINAL_TAIL, False, False, False, False, Some 0)
      else (PHASE_EXPIRED, False, False, False,
            is_active \<and> now \<ge> final_deadline \<and> \<not> has_tail, Some 0))"

definition project_offer_lifecycle ::
  "offer_view \<Rightarrow> int \<Rightarrow> pydt option \<Rightarrow> int \<Rightarrow> bool \<Rightarrow> lifecycle_projection" where
  "project_offer_lifecycle ov lifetime as_of utcnow has_tail =
     (let normal_minutes = max 0 lifetime;
          overtime = read_overtime_minutes_snapshot ov;
          deadlines = compute_lifecycle_deadlines (ov_created_at ov) normal_minutes overtime;
          now = (case as_of of Some dt \<Rightarrow> as_naive_utc dt | None \<Rightarrow> utcnow);
          is_active = offer_is_active ov
      in (case deadlines of
            None \<Rightarrow>
              \<lparr>normal_lifetime_minutes = normal_minutes, overtime_minutes_snapshot = overtime,
               normal_deadline_at = None, final_deadline_at = None, normal_deadline_ts = None,
               final_deadline_ts = None, expires_at_ts = None, timer_total_seconds = None,
               phase = PHASE_UNAVAILABLE, accepts_automatic_trade = True,
               accepts_overtime_request = False, accepts_new_public_interaction = is_active,
               terminal_expiry_due = False\<rparr>
          | Some (normal_deadline, final_deadline) \<Rightarrow>
              (let (ph, auto0, over0, public0, terminal_due, timer_total) =
                     display_phase is_active now normal_deadline final_deadline normal_minutes
                       overtime has_tail;
                   intake = classify_request_intake_phase (Some (Naive now)) (Some normal_deadline)
                              (Some final_deadline) overtime;
                   aligned = is_active \<and> ph \<notin> {PHASE_FINAL_TAIL, PHASE_EXPIRED};
                   accepts_auto = (if aligned then intake = AUTOMATIC else auto0);
                   accepts_over = (if aligned then intake = APPROVAL else over0);
                   accepts_public = (if aligned then accepts_auto \<or> accepts_over else public0)
               in \<lparr>normal_lifetime_minutes = normal_minutes, overtime_minutes_snapshot = overtime,
                   normal_deadline_at = Some normal_deadline, final_deadline_at = Some final_deadline,
                   normal_deadline_ts = Some (timestamp normal_deadline),
                   final_deadline_ts = Some (timestamp final_deadline),
                   expires_at_ts = Some (timestamp final_deadline),
                   timer_total_seconds = timer_total, phase = ph,
                   accepts_automatic_trade = accepts_auto, accepts_overtime_request = accepts_over,
                   accepts_new_public_interaction = accepts_public,
                   terminal_expiry_due = terminal_due\<rparr>)))"

definition stale_final_cutoff_time :: "pydt \<Rightarrow> int \<Rightarrow> int \<Rightarrow> int option" where
  "stale_final_cutoff_time now lifetime overtime_snapshot =
     (let normal_minutes = max 0 lifetime
      in if normal_minutes \<le> 0 then None
         else
           let total_minutes = normal_minutes + max 0 overtime_snapshot
           in Some (as_naive_utc now - total_minutes * us_per_minute))"

text \<open>The SQL expression of \<open>offer_lifetime_end_epoch_sql\<close>, in microseconds; the overtime column is
  nullable.\<close>

definition offer_lifetime_end_us :: "int \<Rightarrow> int option \<Rightarrow> int \<Rightarrow> int" where
  "offer_lifetime_end_us created_at overtime_column lifetime =
     created_at + (lifetime + (case overtime_column of None \<Rightarrow> 0 | Some o' \<Rightarrow> o')) * 60 * us_per_second"

datatype deadline_error = DeadlineUnavailable

definition publication_freshness_deadline_at ::
  "pydt option \<Rightarrow> int \<Rightarrow> int \<Rightarrow> rat \<Rightarrow> deadline_error + int" where
  "publication_freshness_deadline_at created_at lifetime overtime_snapshot safety_seconds =
     (case compute_lifecycle_deadlines created_at lifetime overtime_snapshot of
        None \<Rightarrow> Inl DeadlineUnavailable
      | Some (normal_deadline, final_deadline) \<Rightarrow> Inr (final_deadline - seconds_us safety_seconds))"

section \<open>Lemmas\<close>

lemma snapshot_range: "0 \<le> read_overtime_minutes_snapshot ov \<and> read_overtime_minutes_snapshot ov \<le> 10"
  by (auto split: pyval.splits)

lemma compute_deadlines_Some:
  "compute_lifecycle_deadlines c m o' = Some (n, f) \<longleftrightarrow>
     (\<exists>dt. c = Some dt \<and> 0 < m \<and> n = as_naive_utc dt + m * us_per_minute \<and>
        f = n + max 0 o' * us_per_minute)"
  by (auto simp: compute_lifecycle_deadlines_def Let_def split: option.splits)

lemma compute_deadlines_le: "compute_lifecycle_deadlines c m o' = Some (n, f) \<Longrightarrow> n \<le> f"
  by (auto simp: compute_deadlines_Some)

lemma compute_deadlines_eq: "compute_lifecycle_deadlines c m o' = Some (n, f) \<Longrightarrow> o' \<le> 0 \<Longrightarrow> n = f"
  by (auto simp: compute_deadlines_Some)

lemma intake_known [simp]:
  "classify_request_intake_phase (Some r) (Some n) (Some f) o' =
     (if as_naive_utc r < n then AUTOMATIC
      else if 0 < o' \<and> n < as_naive_utc r \<and> as_naive_utc r < f then APPROVAL else REJECTED)"
  by (simp add: classify_request_intake_phase_def Let_def)

text \<open>The projection as one case distinction; the component proofs work from this form.\<close>

lemma project_unavailable:
  assumes "compute_lifecycle_deadlines (ov_created_at ov) (max 0 m) (read_overtime_minutes_snapshot ov) = None"
  shows "phase (project_offer_lifecycle ov m a u t) = PHASE_UNAVAILABLE \<and>
         accepts_automatic_trade (project_offer_lifecycle ov m a u t) \<and>
         \<not> accepts_overtime_request (project_offer_lifecycle ov m a u t) \<and>
         \<not> terminal_expiry_due (project_offer_lifecycle ov m a u t) \<and>
         final_deadline_at (project_offer_lifecycle ov m a u t) = None \<and>
         accepts_new_public_interaction (project_offer_lifecycle ov m a u t) = offer_is_active ov"
  using assms unfolding project_offer_lifecycle_def Let_def by simp

definition projected_phase :: "bool \<Rightarrow> int \<Rightarrow> int \<Rightarrow> int \<Rightarrow> int \<Rightarrow> bool \<Rightarrow> lifecycle_phase" where
  "projected_phase act now n f o' t =
     (if \<not> act then PHASE_EXPIRED
      else if now < n then PHASE_NORMAL
      else if 0 < o' \<and> now < f then PHASE_OVERTIME
      else if t \<and> f \<le> now then PHASE_FINAL_TAIL
      else PHASE_EXPIRED)"

text \<open>The overtime window is empty exactly when the two deadlines coincide.\<close>

lemma deadline_order:
  assumes "compute_lifecycle_deadlines (ov_created_at ov) (max 0 m) (read_overtime_minutes_snapshot ov) =
      Some (n, f)"
  shows "n \<le> f \<and> (n < f \<longleftrightarrow> 0 < read_overtime_minutes_snapshot ov)"
  using assms snapshot_range [of ov]
  by (auto simp: compute_deadlines_Some simp del: read_overtime_minutes_snapshot.simps)

lemma project_known:
  assumes D: "compute_lifecycle_deadlines (ov_created_at ov) (max 0 m) (read_overtime_minutes_snapshot ov) =
      Some (n, f)"
    and O: "read_overtime_minutes_snapshot ov = o'" and A: "offer_is_active ov = act"
    and N: "(case a of Some dt \<Rightarrow> as_naive_utc dt | None \<Rightarrow> u) = now"
  shows "phase (project_offer_lifecycle ov m a u t) = projected_phase act now n f o' t \<and>
    (accepts_automatic_trade (project_offer_lifecycle ov m a u t) \<longleftrightarrow> act \<and> now < n) \<and>
    (accepts_overtime_request (project_offer_lifecycle ov m a u t) \<longleftrightarrow>
           act \<and> 0 < o' \<and> n < now \<and> now < f) \<and>
    (accepts_new_public_interaction (project_offer_lifecycle ov m a u t) \<longleftrightarrow>
           act \<and> (now < n \<or> 0 < o' \<and> n < now \<and> now < f)) \<and>
    (terminal_expiry_due (project_offer_lifecycle ov m a u t) \<longleftrightarrow> act \<and> f \<le> now \<and> \<not> t) \<and>
    final_deadline_at (project_offer_lifecycle ov m a u t) = Some f"
proof -
  have ord: "n \<le> f" "n < f \<longleftrightarrow> 0 < o'" using deadline_order [OF D] O by simp_all
  have D': "compute_lifecycle_deadlines (ov_created_at ov) (max 0 m) o' = Some (n, f)" using D O by simp
  note unf = project_offer_lifecycle_def Let_def O A N D' option.case prod.case
  consider (off) "\<not> act" | (normal) "act" "now < n" | (over) "act" "\<not> now < n" "0 < o'" "now < f"
    | (tail) "act" "\<not> now < n" "f \<le> now" "t" | (ended) "act" "\<not> now < n" "f \<le> now" "\<not> t"
    using ord by linarith
  then show ?thesis
  proof cases
    case off
    then show ?thesis unfolding unf by (simp add: display_phase_def projected_phase_def)
  next
    case normal
    then show ?thesis using ord unfolding unf by (simp add: display_phase_def projected_phase_def)
  next
    case over
    then show ?thesis using ord unfolding unf by (auto simp: display_phase_def projected_phase_def)
  next
    case tail
    then show ?thesis using ord unfolding unf by (simp add: display_phase_def projected_phase_def)
  next
    case ended
    then show ?thesis using ord unfolding unf by (simp add: display_phase_def projected_phase_def)
  qed
qed

section \<open>Properties of the lifetime\<close>

text \<open>Intake by receipt time.  For a known lifetime a request is automatic strictly before the
  normal deadline, needs the owner's approval strictly between the two deadlines, and is rejected at
  either boundary and afterwards; without a snapshot there is no approval window at all.\<close>

theorem intake_phase_windows:
  assumes "compute_lifecycle_deadlines c m o' = Some (n, f)"
  shows "(classify_request_intake_phase (Some r) (Some n) (Some f) o' = AUTOMATIC \<longleftrightarrow> as_naive_utc r < n) \<and>
    (classify_request_intake_phase (Some r) (Some n) (Some f) o' = APPROVAL \<longleftrightarrow>
       n < as_naive_utc r \<and> as_naive_utc r < f) \<and>
    (classify_request_intake_phase (Some r) (Some n) (Some f) o' = REJECTED \<longleftrightarrow>
       as_naive_utc r = n \<or> f \<le> as_naive_utc r) \<and>
    (o' \<le> 0 \<longrightarrow> n = f)"
proof -
  have "n \<le> f" "o' \<le> 0 \<longrightarrow> n = f"
    using compute_deadlines_le [OF assms] compute_deadlines_eq [OF assms] by simp_all
  then show ?thesis by auto
qed

theorem intake_phase_windows_witness:
  "compute_lifecycle_deadlines (Some (Naive 0)) 2 3 = Some (120000000, 300000000) \<and>
   classify_request_intake_phase (Some (Naive 120000001)) (Some 120000000) (Some 300000000) 3 = APPROVAL"
proof -
  have h: "compute_lifecycle_deadlines (Some (Naive 0)) 2 3 = Some (120000000, 300000000)"
    by (simp add: compute_lifecycle_deadlines_def)
  show ?thesis using h intake_phase_windows [OF h, of "Naive 120000001"] by simp
qed

text \<open>The interaction flags of the projection never contradict the intake rule: with a known
  lifetime an active offer accepts automatic trades exactly in the automatic window and overtime
  requests exactly in the approval window, never both, and public interaction is open exactly when
  one of them is; an inactive offer accepts nothing.\<close>

theorem projection_agrees_with_intake:
  assumes "compute_lifecycle_deadlines (ov_created_at ov) (max 0 m) (read_overtime_minutes_snapshot ov) =
      Some (n, f)"
  shows "let pr = project_offer_lifecycle ov m (Some t) u tail;
             intake = classify_request_intake_phase (Some t) (Some n) (Some f)
                        (read_overtime_minutes_snapshot ov)
         in (accepts_automatic_trade pr \<longleftrightarrow> offer_is_active ov \<and> intake = AUTOMATIC) \<and>
            (accepts_overtime_request pr \<longleftrightarrow> offer_is_active ov \<and> intake = APPROVAL) \<and>
            (accepts_new_public_interaction pr \<longleftrightarrow>
               accepts_automatic_trade pr \<or> accepts_overtime_request pr) \<and>
            \<not> (accepts_automatic_trade pr \<and> accepts_overtime_request pr)"
proof -
  note known = project_known [OF assms refl refl, where a = "Some t" and u = u and t = tail]
  show ?thesis
    using known [of "as_naive_utc t"] deadline_order [OF assms]
    by (auto simp: Let_def simp del: read_overtime_minutes_snapshot.simps)
qed

theorem projection_agrees_with_intake_witness:
  "let ov = \<lparr>ov_created_at = Some (Naive 0), ov_status = Some OFFER_ACTIVE,
             ov_overtime_minutes_snapshot = PInt 3\<rparr>;
       pr = project_offer_lifecycle ov 2 (Some (Naive 120000000)) 0 False
   in phase pr = PHASE_OVERTIME \<and> \<not> accepts_automatic_trade pr \<and> \<not> accepts_overtime_request pr"
proof -
  let ?ov = "\<lparr>ov_created_at = Some (Naive 0), ov_status = Some OFFER_ACTIVE,
             ov_overtime_minutes_snapshot = PInt 3\<rparr>"
  have h: "compute_lifecycle_deadlines (ov_created_at ?ov) (max 0 2) (read_overtime_minutes_snapshot ?ov)
      = Some (120000000, 300000000)"
    by (simp add: compute_lifecycle_deadlines_def)
  have "phase (project_offer_lifecycle ?ov 2 (Some (Naive 120000000)) 0 False) = PHASE_OVERTIME"
    by (simp add: project_offer_lifecycle_def display_phase_def compute_lifecycle_deadlines_def
        offer_is_active_def Let_def)
  then show ?thesis
    using projection_agrees_with_intake [OF h, of "Naive 120000000" 0 False]
    by (simp add: Let_def)
qed

text \<open>The order in which phases follow each other.\<close>

fun phase_rank :: "lifecycle_phase \<Rightarrow> nat" where
  "phase_rank PHASE_NORMAL = 0"
| "phase_rank PHASE_OVERTIME = 1"
| "phase_rank PHASE_FINAL_TAIL = 2"
| "phase_rank PHASE_EXPIRED = 2"
| "phase_rank PHASE_UNAVAILABLE = 0"

text \<open>Time only moves an offer forward: at a later instant the display phase is never an earlier
  one, and once the worker may expire the offer it may do so at every later instant.\<close>

theorem projection_monotone:
  assumes "as_naive_utc t1 \<le> as_naive_utc t2"
  shows "phase_rank (phase (project_offer_lifecycle ov m (Some t1) u tail)) \<le>
           phase_rank (phase (project_offer_lifecycle ov m (Some t2) u tail)) \<and>
         (terminal_expiry_due (project_offer_lifecycle ov m (Some t1) u tail) \<longrightarrow>
            terminal_expiry_due (project_offer_lifecycle ov m (Some t2) u tail))"
proof (cases "compute_lifecycle_deadlines (ov_created_at ov) (max 0 m) (read_overtime_minutes_snapshot ov)")
  case None
  show ?thesis
    using project_unavailable [OF None, of "Some t1" u tail]
      project_unavailable [OF None, of "Some t2" u tail] by simp
next
  case (Some nf)
  then obtain n f where D: "compute_lifecycle_deadlines (ov_created_at ov) (max 0 m)
      (read_overtime_minutes_snapshot ov) = Some (n, f)" by (cases nf) auto
  have known: "phase (project_offer_lifecycle ov m (Some t) u tail) =
        projected_phase (offer_is_active ov) (as_naive_utc t) n f (read_overtime_minutes_snapshot ov) tail"
    "terminal_expiry_due (project_offer_lifecycle ov m (Some t) u tail) \<longleftrightarrow>
        offer_is_active ov \<and> f \<le> as_naive_utc t \<and> \<not> tail" for t
    using project_known [OF D refl refl, where a = "Some t" and u = u and t = tail and
        now = "as_naive_utc t"] by simp_all
  show ?thesis
    unfolding known using assms deadline_order [OF D]
    by (simp add: projected_phase_def del: read_overtime_minutes_snapshot.simps split: if_split)
qed

theorem projection_monotone_witness:
  "phase_rank (phase (project_offer_lifecycle
      \<lparr>ov_created_at = Some (Naive 0), ov_status = None, ov_overtime_minutes_snapshot = PInt 1\<rparr>
      2 (Some (Naive 5)) 0 False)) \<le>
   phase_rank (phase (project_offer_lifecycle
      \<lparr>ov_created_at = Some (Naive 0), ov_status = None, ov_overtime_minutes_snapshot = PInt 1\<rparr>
      2 (Some (Aware 3600000007 3600000000)) 0 False))"
proof -
  have h: "as_naive_utc (Naive 5) \<le> as_naive_utc (Aware 3600000007 3600000000)" by simp
  show ?thesis using projection_monotone [OF h] by blast
qed

text \<open>The cut-off used to select stale offers is the deadline rule in another form: an offer was
  created at or before the cut-off exactly when its final deadline has been reached, and the SQL
  lifetime expression gives that same deadline.\<close>

theorem stale_cutoff_is_final_deadline:
  assumes "0 < m" and "0 \<le> o'"
  shows "\<exists>cut n f. stale_final_cutoff_time now m o' = Some cut \<and>
           compute_lifecycle_deadlines (Some (Naive created)) m o' = Some (n, f) \<and>
           (created \<le> cut \<longleftrightarrow> f \<le> as_naive_utc now) \<and>
           offer_lifetime_end_us created (Some o') m = f"
proof -
  have "stale_final_cutoff_time now m o' = Some (as_naive_utc now - (m + o') * us_per_minute)"
    "compute_lifecycle_deadlines (Some (Naive created)) m o' =
       Some (created + m * us_per_minute, created + m * us_per_minute + o' * us_per_minute)"
    "offer_lifetime_end_us created (Some o') m = created + m * us_per_minute + o' * us_per_minute"
    using assms
    by (simp_all add: stale_final_cutoff_time_def compute_lifecycle_deadlines_def
        offer_lifetime_end_us_def algebra_simps)
  moreover have "created \<le> as_naive_utc now - (m + o') * us_per_minute \<longleftrightarrow>
      created + m * us_per_minute + o' * us_per_minute \<le> as_naive_utc now"
    by (simp add: algebra_simps)
  ultimately show ?thesis by blast
qed

theorem stale_cutoff_is_final_deadline_witness:
  "stale_final_cutoff_time (Naive 180000000) 2 1 = Some 0 \<and>
   (\<exists>cut n f. stale_final_cutoff_time (Naive 180000000) 2 1 = Some cut \<and>
      compute_lifecycle_deadlines (Some (Naive 0)) 2 1 = Some (n, f) \<and>
      ((0 :: int) \<le> cut \<longleftrightarrow> f \<le> as_naive_utc (Naive 180000000)) \<and>
      offer_lifetime_end_us 0 (Some 1) 2 = f)"
proof -
  have h: "(0 :: int) < 2" "(0 :: int) \<le> 1" by simp_all
  have "stale_final_cutoff_time (Naive 180000000) 2 1 = Some 0"
    by (simp add: stale_final_cutoff_time_def)
  with stale_cutoff_is_final_deadline [OF h, of "Naive 180000000" 0] show ?thesis by simp
qed

end
