(* ===== verification/CustomerPolicy.thy ===== *)
theory CustomerPolicy
  imports OfferLifecycle
begin

text \<open>
  The customer policy of \<open>core/services/customer_relation_service.py\<close>: commission and price rounding,
  the read model of a customer's price, the limits on offers and on trades, and their enforcement at
  trade time.  \<open>Decimal\<close> values are rationals (the 28-digit context of \<open>Decimal\<close> is not modelled).
  The rows of \<open>customer_relations\<close> and \<open>trades\<close> that the enforcement selects are lists; \<open>day_bounds\<close>
  stands for the time-zone arithmetic of \<open>customer_trade_day_bounds\<close>, whose \<open>ZoneInfo\<close> data is not
  part of the repository.
\<close>

section \<open>Data\<close>

datatype customer_tier = TIER_1 | TIER_2

datatype relation_status = REL_PENDING | REL_ACTIVE | REL_EXPIRED | REL_REVOKED | REL_DELETED

record customer_relation =
  rel_id :: int
  rel_owner_user_id :: int
  rel_customer_user_id :: "int option"
  rel_management_name :: string
  rel_customer_tier :: customer_tier
  rel_commission_rate :: "rat option"
  rel_min_trade_quantity :: "int option"
  rel_max_trade_quantity :: "int option"
  rel_max_daily_trades :: "int option"
  rel_max_daily_commodity_volume :: "int option"
  rel_trading_restricted_until :: "pydt option"
  rel_status :: relation_status
  rel_deleted :: bool

datatype policy_error = ValueInvalid string | NotPositive string | NegativeValue string
  | RelationIdentityInvalid | DbError db_error

section \<open>Prices\<close>

abbreviation PRICE_ROUNDING_UNIT :: rat where
  "PRICE_ROUNDING_UNIT \<equiv> 100"

definition round_customer_price :: "rat \<Rightarrow> offer_type \<Rightarrow> int" where
  "round_customer_price adjusted_price ot =
     (let rounded_units =
        (if ot = BUY then \<lfloor>adjusted_price / PRICE_ROUNDING_UNIT\<rfloor>
         else \<lceil>adjusted_price / PRICE_ROUNDING_UNIT\<rceil>)
      in rounded_units * 100)"

definition apply_customer_commission :: "rat \<Rightarrow> rat option \<Rightarrow> offer_type \<Rightarrow> policy_error + int" where
  "apply_customer_commission raw_price rate ot =
     (if raw_price \<le> 0 then Inl (NotPositive ''raw_price'')
      else
        (case rate of
           None \<Rightarrow> Inr (rat_trunc raw_price)
         | Some r \<Rightarrow>
             (if r \<le> 0 then Inr (rat_trunc raw_price)
              else
                let delta = raw_price * r / 100;
                    adjusted_price = (if ot = BUY then raw_price - delta else raw_price + delta)
                in Inr (round_customer_price adjusted_price ot))))"

record offer_read_model =
  rm_raw_price :: int
  rm_market_published_price :: int
  rm_viewer_effective_price :: int
  rm_customer_badge_visible :: bool
  rm_customer_management_name :: "string option"
  rm_customer_tier :: "customer_tier option"

definition build_customer_offer_read_model ::
  "rat \<Rightarrow> offer_type \<Rightarrow> int option \<Rightarrow> customer_relation option \<Rightarrow> customer_relation option
     \<Rightarrow> policy_error + offer_read_model" where
  "build_customer_offer_read_model raw_price ot viewer_user_id offer_owner_relation
     viewer_customer_relation =
     (let normalized_raw_price = rat_trunc raw_price
      in if normalized_raw_price \<le> 0 then Inl (NotPositive ''raw_price'')
         else
           let badge =
                 (case (offer_owner_relation, viewer_user_id) of
                    (Some rel, Some viewer) \<Rightarrow> rel_status rel = REL_ACTIVE \<and> rel_owner_user_id rel = viewer
                  | _ \<Rightarrow> False);
               effective =
                 (case viewer_customer_relation of
                    Some vrel \<Rightarrow>
                      (if rel_status vrel = REL_ACTIVE \<and> rel_customer_tier vrel = TIER_2
                       then apply_customer_commission (of_int normalized_raw_price)
                              (rel_commission_rate vrel) ot
                       else Inr normalized_raw_price)
                  | None \<Rightarrow> Inr normalized_raw_price)
           in (case effective of
                 Inl e \<Rightarrow> Inl e
               | Inr p \<Rightarrow>
                   Inr \<lparr>rm_raw_price = normalized_raw_price,
                        rm_market_published_price = normalized_raw_price,
                        rm_viewer_effective_price = p,
                        rm_customer_badge_visible = badge,
                        rm_customer_management_name =
                          (if badge then map_option rel_management_name offer_owner_relation else None),
                        rm_customer_tier =
                          (if badge then map_option rel_customer_tier offer_owner_relation else None)\<rparr>))"

section \<open>Limits\<close>

datatype limit_code =
    RELATION_REQUIRED | RELATION_NOT_ACTIVE | QUANTITY_NOT_POSITIVE | TEMPORARILY_RESTRICTED
  | BELOW_MINIMUM | ABOVE_MAXIMUM | DAILY_TRADE_LIMIT | DAILY_VOLUME_LIMIT
  | OFFER_NOT_ALLOWED_FOR_TIER | OFFER_BELOW_MINIMUM | OFFER_ABOVE_MAXIMUM
  | LOT_BELOW_MINIMUM | LOT_ABOVE_MAXIMUM

definition normalize_non_negative_int :: "int \<Rightarrow> string \<Rightarrow> policy_error + int" where
  "normalize_non_negative_int v name = (if v < 0 then Inl (NegativeValue name) else Inr v)"

definition below_limit :: "int \<Rightarrow> int option \<Rightarrow> bool" where
  "below_limit q bound = (case bound of None \<Rightarrow> False | Some l \<Rightarrow> q < l)"

definition above_limit :: "int \<Rightarrow> int option \<Rightarrow> bool" where
  "above_limit q bound = (case bound of None \<Rightarrow> False | Some l \<Rightarrow> q > l)"

definition restricted_at :: "customer_relation \<Rightarrow> int \<Rightarrow> bool" where
  "restricted_at rel current_time =
     (case rel_trading_restricted_until rel of None \<Rightarrow> False | Some u \<Rightarrow> as_naive_utc u > current_time)"

fun lots_limit_code :: "customer_relation \<Rightarrow> int list \<Rightarrow> policy_error + limit_code option" where
  "lots_limit_code rel [] = Inr None"
| "lots_limit_code rel (raw # raws) =
     (case normalize_non_negative_int raw ''lot_size'' of
        Inl e \<Rightarrow> Inl e
      | Inr lot_size \<Rightarrow>
          (if below_limit lot_size (rel_min_trade_quantity rel) then Inr (Some LOT_BELOW_MINIMUM)
           else if above_limit lot_size (rel_max_trade_quantity rel) then Inr (Some LOT_ABOVE_MAXIMUM)
           else lots_limit_code rel raws))"

definition customer_offer_limit_failure_code ::
  "customer_relation option \<Rightarrow> int \<Rightarrow> bool \<Rightarrow> int list \<Rightarrow> pydt \<Rightarrow> policy_error + limit_code option" where
  "customer_offer_limit_failure_code relation quantity is_wholesale lot_sizes now =
     (case relation of
        None \<Rightarrow> Inr None
      | Some rel \<Rightarrow>
          (if rel_status rel \<noteq> REL_ACTIVE then Inr (Some RELATION_NOT_ACTIVE)
           else if rel_customer_tier rel = TIER_2 then Inr (Some OFFER_NOT_ALLOWED_FOR_TIER)
           else
             (case normalize_non_negative_int quantity ''quantity'' of
                Inl e \<Rightarrow> Inl e
              | Inr normalized_quantity \<Rightarrow>
                  (if normalized_quantity \<le> 0 then Inr (Some QUANTITY_NOT_POSITIVE)
                   else if restricted_at rel (as_naive_utc now)
                   then Inr (Some TEMPORARILY_RESTRICTED)
                   else if below_limit normalized_quantity (rel_min_trade_quantity rel)
                   then Inr (Some OFFER_BELOW_MINIMUM)
                   else if above_limit normalized_quantity (rel_max_trade_quantity rel)
                   then Inr (Some OFFER_ABOVE_MAXIMUM)
                   else if \<not> is_wholesale then lots_limit_code rel lot_sizes
                   else Inr None))))"

definition customer_trade_limit_failure_code ::
  "customer_relation option \<Rightarrow> int \<Rightarrow> int \<Rightarrow> int \<Rightarrow> pydt \<Rightarrow> policy_error + limit_code option" where
  "customer_trade_limit_failure_code relation quantity trades_today commodity_volume_today now =
     (case relation of
        None \<Rightarrow> Inr (Some RELATION_REQUIRED)
      | Some rel \<Rightarrow>
          (if rel_status rel \<noteq> REL_ACTIVE then Inr (Some RELATION_NOT_ACTIVE)
           else
             (case normalize_non_negative_int quantity ''quantity'' of
                Inl e \<Rightarrow> Inl e
              | Inr q \<Rightarrow>
                  (if q \<le> 0 then Inr (Some QUANTITY_NOT_POSITIVE)
                   else if restricted_at rel (as_naive_utc now) then Inr (Some TEMPORARILY_RESTRICTED)
                   else if below_limit q (rel_min_trade_quantity rel) then Inr (Some BELOW_MINIMUM)
                   else if above_limit q (rel_max_trade_quantity rel) then Inr (Some ABOVE_MAXIMUM)
                   else
                     (case normalize_non_negative_int trades_today ''trades_today'' of
                        Inl e \<Rightarrow> Inl e
                      | Inr trades \<Rightarrow>
                          (if (case rel_max_daily_trades rel of None \<Rightarrow> False | Some l \<Rightarrow> trades \<ge> l)
                           then Inr (Some DAILY_TRADE_LIMIT)
                           else
                             (case normalize_non_negative_int commodity_volume_today
                                     ''commodity_volume_today'' of
                                Inl e \<Rightarrow> Inl e
                              | Inr volume \<Rightarrow>
                                  (if above_limit (volume + q) (rel_max_daily_commodity_volume rel)
                                   then Inr (Some DAILY_VOLUME_LIMIT)
                                   else Inr None))))))))"

definition relation_has_customer_trade_policy :: "customer_relation \<Rightarrow> bool" where
  "relation_has_customer_trade_policy rel \<longleftrightarrow>
     rel_trading_restricted_until rel \<noteq> None \<or> rel_min_trade_quantity rel \<noteq> None \<or>
     rel_max_trade_quantity rel \<noteq> None \<or> rel_max_daily_trades rel \<noteq> None \<or>
     rel_max_daily_commodity_volume rel \<noteq> None"

section \<open>Enforcement at trade time\<close>

record usage_trade =
  ut_completed :: bool
  ut_created_at :: int
  ut_offer_user_id :: int
  ut_responder_user_id :: int
  ut_quantity :: int

definition load_customer_daily_trade_usage ::
  "usage_trade list \<Rightarrow> int \<Rightarrow> int \<Rightarrow> int \<Rightarrow> int \<times> int" where
  "load_customer_daily_trade_usage trades customer_user_id day_start day_end =
     (let mine = filter (\<lambda>t. ut_completed t \<and> ut_created_at t \<ge> day_start \<and> ut_created_at t < day_end \<and>
                           (ut_offer_user_id t = customer_user_id \<or>
                            ut_responder_user_id t = customer_user_id)) trades
      in (int (length mine), sum_list (map ut_quantity mine)))"

datatype enforcement_result =
    Enforced
  | PolicyError policy_error
  | LimitViolation int int limit_code

text \<open>The pairs (customer, relation id) of the relations that are present.\<close>

fun expected_relations ::
  "(int, customer_relation option) dict \<Rightarrow> policy_error + (int \<times> int) list" where
  "expected_relations [] = Inr []"
| "expected_relations ((uid, None) # rest) = expected_relations rest"
| "expected_relations ((uid, Some rel) # rest) =
     (if uid \<le> 0 \<or> rel_id rel \<le> 0 then Inl RelationIdentityInvalid
      else (case expected_relations rest of Inl e \<Rightarrow> Inl e | Inr es \<Rightarrow> Inr ((uid, rel_id rel) # es)))"

definition locked_relation :: "customer_relation list \<Rightarrow> int \<Rightarrow> customer_relation option" where
  "locked_relation rows rid =
     find (\<lambda>r. rel_id r = rid \<and> rel_status r = REL_ACTIVE \<and> \<not> rel_deleted r) rows"

fun enforce_expected ::
  "customer_relation list \<Rightarrow> usage_trade list \<Rightarrow> (int \<times> int) \<Rightarrow> int \<Rightarrow> pydt \<Rightarrow> (int \<times> int) list
     \<Rightarrow> enforcement_result" where
  "enforce_expected rows trades day_bounds quantity now [] = Enforced"
| "enforce_expected rows trades day_bounds quantity now ((uid, rid) # rest) =
     (case locked_relation rows rid of
        None \<Rightarrow> LimitViolation uid rid RELATION_NOT_ACTIVE
      | Some rel \<Rightarrow>
          (if (case rel_customer_user_id rel of None \<Rightarrow> 0 | Some c \<Rightarrow> c) \<noteq> uid
           then LimitViolation uid rid RELATION_NOT_ACTIVE
           else if \<not> relation_has_customer_trade_policy rel
           then enforce_expected rows trades day_bounds quantity now rest
           else
             (let (trades_today, volume_today) =
                (if rel_max_daily_trades rel \<noteq> None \<or> rel_max_daily_commodity_volume rel \<noteq> None
                 then load_customer_daily_trade_usage trades uid (fst day_bounds) (snd day_bounds)
                 else (0, 0))
              in (case customer_trade_limit_failure_code (Some rel) quantity trades_today
                         volume_today now of
                    Inl e \<Rightarrow> PolicyError e
                  | Inr (Some code) \<Rightarrow> LimitViolation uid rid code
                  | Inr None \<Rightarrow> enforce_expected rows trades day_bounds quantity now rest))))"

definition enforce_customer_trade_limits_for_trade ::
  "customer_relation list \<Rightarrow> usage_trade list \<Rightarrow> (int \<times> int) \<Rightarrow> (int, customer_relation option) dict
     \<Rightarrow> int \<Rightarrow> pydt \<Rightarrow> enforcement_result" where
  "enforce_customer_trade_limits_for_trade rows trades day_bounds relations quantity now =
     (case expected_relations relations of
        Inl e \<Rightarrow> PolicyError e
      | Inr es \<Rightarrow> enforce_expected rows trades day_bounds quantity now es)"

definition get_active_customer_relation_for_customer ::
  "customer_relation list \<Rightarrow> int \<Rightarrow> db_error + customer_relation option" where
  "get_active_customer_relation_for_customer rows customer_user_id =
     scalar_one_or_none
       (filter (\<lambda>r. rel_customer_user_id r = Some customer_user_id \<and> rel_status r = REL_ACTIVE \<and>
                   \<not> rel_deleted r) rows)"

definition enforce_customer_offer_limits_for_creation ::
  "customer_relation list \<Rightarrow> int \<Rightarrow> int \<Rightarrow> bool \<Rightarrow> int list \<Rightarrow> pydt \<Rightarrow> enforcement_result" where
  "enforce_customer_offer_limits_for_creation rows customer_user_id quantity is_wholesale lot_sizes now =
     (case scalar_one_or_none
             (filter (\<lambda>r. rel_customer_user_id r = Some customer_user_id \<and> rel_status r = REL_ACTIVE \<and>
                        \<not> rel_deleted r) rows) of
        Inl e \<Rightarrow> PolicyError (DbError e)
      | Inr None \<Rightarrow> Enforced
      | Inr (Some rel) \<Rightarrow>
          (case customer_offer_limit_failure_code (Some rel) quantity is_wholesale lot_sizes now of
             Inl e \<Rightarrow> PolicyError e
           | Inr (Some code) \<Rightarrow> LimitViolation customer_user_id (rel_id rel) code
           | Inr None \<Rightarrow> Enforced))"

text \<open>The bounds check of \<open>_validate_customer_trade_limit_bounds\<close>; \<open>False\<close> is the HTTP 400.\<close>

definition validate_customer_trade_limit_bounds :: "int option \<Rightarrow> int option \<Rightarrow> bool" where
  "validate_customer_trade_limit_bounds mn mx =
     (case (mn, mx) of (Some a, Some b) \<Rightarrow> \<not> a > b | _ \<Rightarrow> True)"

section \<open>Lemmas\<close>

definition within_limits :: "customer_relation \<Rightarrow> int \<Rightarrow> bool" where
  "within_limits rel q \<longleftrightarrow>
     \<not> below_limit q (rel_min_trade_quantity rel) \<and> \<not> above_limit q (rel_max_trade_quantity rel)"

lemma within_limits_between:
  "within_limits rel a \<Longrightarrow> within_limits rel b \<Longrightarrow> a \<le> q \<Longrightarrow> q \<le> b \<Longrightarrow> within_limits rel q"
  by (auto simp: within_limits_def below_limit_def above_limit_def split: option.splits)

lemma lots_limit_code_None:
  "lots_limit_code rel lots = Inr None \<longleftrightarrow> (\<forall>l \<in> set lots. 0 \<le> l \<and> within_limits rel l)"
  by (induction rel lots rule: lots_limit_code.induct)
    (auto simp: normalize_non_negative_int_def within_limits_def)

lemma offer_limit_None:
  assumes "customer_offer_limit_failure_code (Some rel) q w lots now = Inr None"
  shows "rel_status rel = REL_ACTIVE \<and> rel_customer_tier rel = TIER_1 \<and> 0 < q \<and> within_limits rel q \<and>
    (\<not> w \<longrightarrow> (\<forall>l \<in> set lots. 0 \<le> l \<and> within_limits rel l))"
  using assms
  by (cases "rel_customer_tier rel")
    (auto simp: customer_offer_limit_failure_code_def normalize_non_negative_int_def
        lots_limit_code_None within_limits_def split: if_splits sum.splits)

lemma trade_limit_None_iff:
  "customer_trade_limit_failure_code (Some rel) q t v now = Inr None \<longleftrightarrow>
    rel_status rel = REL_ACTIVE \<and> 0 < q \<and> \<not> restricted_at rel (as_naive_utc now) \<and> within_limits rel q \<and>
    0 \<le> t \<and> 0 \<le> v \<and>
    (\<forall>l. rel_max_daily_trades rel = Some l \<longrightarrow> t < l) \<and>
    (\<forall>l. rel_max_daily_commodity_volume rel = Some l \<longrightarrow> v + q \<le> l)"
  by (auto simp: customer_trade_limit_failure_code_def normalize_non_negative_int_def within_limits_def
      above_limit_def split: option.splits)

lemma floor_unit: "of_int (\<lfloor>x / 100\<rfloor> * 100) \<le> (x :: rat) \<and> x < of_int (\<lfloor>x / 100\<rfloor> * 100) + 100"
proof -
  have "of_int \<lfloor>x / 100\<rfloor> \<le> x / 100" "x / 100 < of_int \<lfloor>x / 100\<rfloor> + 1" by linarith+
  then show ?thesis by simp
qed

lemma ceiling_unit: "(x :: rat) \<le> of_int (\<lceil>x / 100\<rceil> * 100) \<and> of_int (\<lceil>x / 100\<rceil> * 100) < x + 100"
proof -
  define c where "c = \<lceil>x / 100\<rceil>"
  have "x / 100 \<le> of_int c" "of_int c < x / 100 + 1" unfolding c_def by linarith+
  then have "x \<le> of_int (c * 100) \<and> of_int (c * 100) < x + 100" by simp
  then show ?thesis by (simp only: c_def)
qed

section \<open>Properties of the customer policy\<close>

text \<open>Commission rounds in the market's favour: for a positive price and rate the customer's price
  is a multiple of 100; on a purchase it is at most, on a sale at least, the exact commissioned price,
  and it differs from it by less than 100.\<close>

theorem commission_rounding:
  assumes "0 < p" and "0 < r"
  shows "\<exists>c. apply_customer_commission p (Some r) ot = Inr c \<and> 100 dvd c \<and>
    (if ot = BUY
     then of_int c \<le> p - p * r / 100 \<and> p - p * r / 100 < of_int c + 100 \<and> of_int c < p
     else p + p * r / 100 \<le> of_int c \<and> of_int c < p + p * r / 100 + 100 \<and> p < of_int c)"
proof -
  define d where "d = p * r / 100"
  have pos: "0 < d" using assms by (simp add: d_def)
  show ?thesis
  proof (cases "ot = BUY")
    case True
    then have "apply_customer_commission p (Some r) ot = Inr (\<lfloor>(p - d) / 100\<rfloor> * 100)"
      using assms by (simp add: apply_customer_commission_def round_customer_price_def d_def)
    moreover have "of_int (\<lfloor>(p - d) / 100\<rfloor> * 100) < p" using floor_unit [of "p - d"] pos by linarith
    ultimately show ?thesis
      using True floor_unit [of "p - d"] dvd_triv_right unfolding d_def by auto
  next
    case False
    then have "apply_customer_commission p (Some r) ot = Inr (\<lceil>(p + d) / 100\<rceil> * 100)"
      using assms by (simp add: apply_customer_commission_def round_customer_price_def d_def)
    moreover have "p < of_int (\<lceil>(p + d) / 100\<rceil> * 100)" using ceiling_unit [of "p + d"] pos by linarith
    ultimately show ?thesis
      using False ceiling_unit [of "p + d"] dvd_triv_right unfolding d_def by auto
  qed
qed

theorem commission_rounding_witness:
  "apply_customer_commission 75850 (Some (1 / 2)) SELL = Inr 76300 \<and>
   (\<exists>c. apply_customer_commission 75850 (Some (1 / 2)) SELL = Inr c \<and> 100 dvd c)"
proof -
  have h: "(0 :: rat) < 75850" "(0 :: rat) < 1 / 2" by simp_all
  have "apply_customer_commission 75850 (Some (1 / 2)) SELL = Inr 76300"
    by (simp add: apply_customer_commission_def round_customer_price_def ceiling_eq_iff)
  then show ?thesis using commission_rounding [OF h, of SELL] by auto
qed

end
