(* ===== verification/Blocks.thy ===== *)
theory Blocks
  imports CustomerPolicy
begin

text \<open>
  User blocks (\<open>core/services/block_service.py\<close>): who may block whom, the block and unblock commands,
  and the check of a trade through the principals of its two sides.  The tables the service selects
  from are the fields of \<open>block_db\<close>; a result message is a constructor of \<open>block_result\<close>.
\<close>

section \<open>Tables\<close>

record user_row =
  usr_id :: int
  usr_is_deleted :: bool
  usr_can_block_users :: bool
  usr_max_blocked_users :: int

record accountant_relation =
  acc_accountant_user_id :: "int option"
  acc_owner_user_id :: int
  acc_active :: bool
  acc_deleted :: bool

type_synonym block_row = "int \<times> int"

record block_db =
  bdb_users :: "user_row list"
  bdb_customers :: "customer_relation list"
  bdb_accountants :: "accountant_relation list"
  bdb_blocks :: "block_row list"

definition get_user :: "user_row list \<Rightarrow> int \<Rightarrow> user_row option" where
  "get_user users uid = find (\<lambda>u. usr_id u = uid) users"

definition get_active_accountant_relation_for_accountant ::
  "accountant_relation list \<Rightarrow> int \<Rightarrow> db_error + accountant_relation option" where
  "get_active_accountant_relation_for_accountant rows uid =
     scalar_one_or_none
       (filter (\<lambda>r. acc_accountant_user_id r = Some uid \<and> acc_active r \<and> \<not> acc_deleted r) rows)"

definition is_user_customer :: "block_db \<Rightarrow> int \<Rightarrow> db_error + bool" where
  "is_user_customer db uid =
     map_sum (\<lambda>e. e) (\<lambda>r. r \<noteq> None)
       (get_active_customer_relation_for_customer (bdb_customers db) uid)"

definition is_user_accountant :: "block_db \<Rightarrow> int \<Rightarrow> db_error + bool" where
  "is_user_accountant db uid =
     map_sum (\<lambda>e. e) (\<lambda>r. r \<noteq> None)
       (get_active_accountant_relation_for_accountant (bdb_accountants db) uid)"

section \<open>Capacity\<close>

datatype block_reason = CapabilityDisabled | LimitReached | CustomerDelegated | AccountantDelegated

record block_status =
  bs_can_block :: bool
  bs_can_block_now :: bool
  bs_max_blocked :: int
  bs_current_blocked :: int
  bs_remaining :: int
  bs_reason_code :: "block_reason option"

definition delegated_block_status :: "block_reason \<Rightarrow> block_status" where
  "delegated_block_status reason =
     \<lparr>bs_can_block = False, bs_can_block_now = False, bs_max_blocked = 0, bs_current_blocked = 0,
      bs_remaining = 0, bs_reason_code = Some reason\<rparr>"

definition build_block_status_payload :: "user_row \<Rightarrow> int \<Rightarrow> block_status" where
  "build_block_status_payload u current_blocked =
     (let remaining =
            (if usr_can_block_users u then max 0 (usr_max_blocked_users u - current_blocked) else 0);
          can_block_now = (usr_can_block_users u \<and> remaining > 0)
      in \<lparr>bs_can_block = usr_can_block_users u, bs_can_block_now = can_block_now,
          bs_max_blocked = usr_max_blocked_users u, bs_current_blocked = current_blocked,
          bs_remaining = remaining,
          bs_reason_code =
            (if \<not> usr_can_block_users u then Some CapabilityDisabled
             else if remaining \<le> 0 then Some LimitReached else None)\<rparr>)"

definition count_blocked :: "block_row list \<Rightarrow> int \<Rightarrow> int" where
  "count_blocked blocks uid = int (length (filter (\<lambda>b. fst b = uid) blocks))"

datatype block_result =
    BlockSaved
  | BlockRemoved
  | CannotBlockSelf
  | BlockUserNotFound
  | AlreadyBlocked
  | NotBlocked
  | NonGroupCustomer
  | BlockNotAllowed block_reason
  | BlockDbFailure db_error

text \<open>\<open>Inr None\<close> is the answer \<open>True\<close> of \<open>can_user_block\<close>; its status payload is not used by the
  callers and is modelled by \<open>build_block_status_payload\<close> and \<open>get_block_status\<close>.\<close>

definition can_user_block :: "block_db \<Rightarrow> int \<Rightarrow> block_result option" where
  "can_user_block db uid =
     (case get_user (bdb_users db) uid of
        None \<Rightarrow> Some BlockUserNotFound
      | Some u \<Rightarrow>
          (case is_user_customer db uid of
             Inl e \<Rightarrow> Some (BlockDbFailure e)
           | Inr True \<Rightarrow> Some (BlockNotAllowed CustomerDelegated)
           | Inr False \<Rightarrow>
               (case is_user_accountant db uid of
                  Inl e \<Rightarrow> Some (BlockDbFailure e)
                | Inr True \<Rightarrow> Some (BlockNotAllowed AccountantDelegated)
                | Inr False \<Rightarrow>
                    (if \<not> usr_can_block_users u then Some (BlockNotAllowed CapabilityDisabled)
                     else if usr_max_blocked_users u - count_blocked (bdb_blocks db) uid \<le> 0
                     then Some (BlockNotAllowed LimitReached)
                     else None))))"

definition get_block_status :: "block_db \<Rightarrow> int \<Rightarrow> db_error + block_status option" where
  "get_block_status db uid =
     (case get_user (bdb_users db) uid of
        None \<Rightarrow> Inr None
      | Some u \<Rightarrow>
          (case is_user_customer db uid of
             Inl e \<Rightarrow> Inl e
           | Inr True \<Rightarrow> Inr (Some (delegated_block_status CustomerDelegated))
           | Inr False \<Rightarrow>
               (case is_user_accountant db uid of
                  Inl e \<Rightarrow> Inl e
                | Inr True \<Rightarrow> Inr (Some (delegated_block_status AccountantDelegated))
                | Inr False \<Rightarrow>
                    Inr (Some (build_block_status_payload u (count_blocked (bdb_blocks db) uid))))))"

section \<open>Commands\<close>

definition is_same_customer_group_member ::
  "block_db \<Rightarrow> int \<Rightarrow> customer_relation \<Rightarrow> db_error + bool" where
  "is_same_customer_group_member db uid rel =
     (if uid = rel_owner_user_id rel then Inr True
      else map_sum (\<lambda>e. e)
             (\<lambda>r. case r of None \<Rightarrow> False | Some a \<Rightarrow> acc_owner_user_id a = rel_owner_user_id rel)
             (get_active_accountant_relation_for_accountant (bdb_accountants db) uid))"

definition target_refused :: "block_db \<Rightarrow> int \<Rightarrow> int \<Rightarrow> block_result option" where
  "target_refused db blocker blocked =
     (case get_active_customer_relation_for_customer (bdb_customers db) blocked of
        Inl e \<Rightarrow> Some (BlockDbFailure e)
      | Inr None \<Rightarrow> None
      | Inr (Some rel) \<Rightarrow>
          (case is_same_customer_group_member db blocker rel of
             Inl e \<Rightarrow> Some (BlockDbFailure e)
           | Inr same \<Rightarrow> (if same then None else Some NonGroupCustomer)))"

definition block_user :: "block_db \<Rightarrow> int \<Rightarrow> int \<Rightarrow> block_result \<times> block_db" where
  "block_user db blocker blocked =
     (if blocker = blocked then (CannotBlockSelf, db)
      else if (case get_user (bdb_users db) blocked of None \<Rightarrow> True | Some u \<Rightarrow> usr_is_deleted u)
      then (BlockUserNotFound, db)
      else if (blocker, blocked) \<in> set (bdb_blocks db) then (AlreadyBlocked, db)
      else
        (case target_refused db blocker blocked of
           Some r \<Rightarrow> (r, db)
         | None \<Rightarrow>
             (case can_user_block db blocker of
                Some r \<Rightarrow> (r, db)
              | None \<Rightarrow> (BlockSaved, db\<lparr>bdb_blocks := bdb_blocks db @ [(blocker, blocked)]\<rparr>))))"

definition unblock_user :: "block_db \<Rightarrow> int \<Rightarrow> int \<Rightarrow> block_result \<times> block_db" where
  "unblock_user db blocker blocked =
     (if (blocker, blocked) \<notin> set (bdb_blocks db) then (NotBlocked, db)
      else (BlockRemoved, db\<lparr>bdb_blocks := remove1 (blocker, blocked) (bdb_blocks db)\<rparr>))"

section \<open>Blocks between the sides of a trade\<close>

definition is_blocked :: "block_row list \<Rightarrow> int \<Rightarrow> int \<Rightarrow> int option" where
  "is_blocked blocks a b =
     (if (a, b) \<in> set blocks then Some a else if (b, a) \<in> set blocks then Some b else None)"

definition trade_block_principal_user_id :: "int \<Rightarrow> customer_relation option \<Rightarrow> int" where
  "trade_block_principal_user_id uid relation =
     (case relation of
        None \<Rightarrow> uid
      | Some rel \<Rightarrow> (if rel_owner_user_id rel \<noteq> 0 then rel_owner_user_id rel else uid))"

definition append_unique_block_pair :: "block_row list \<Rightarrow> int \<Rightarrow> int \<Rightarrow> block_row list" where
  "append_unique_block_pair pairs a b =
     (if a = b then pairs
      else if (a, b) \<in> set pairs \<or> (b, a) \<in> set pairs then pairs
      else pairs @ [(a, b)])"

fun first_block :: "block_row list \<Rightarrow> block_row list \<Rightarrow> int option" where
  "first_block blocks [] = None"
| "first_block blocks ((l, r) # pairs) =
     (case is_blocked blocks l r of Some b \<Rightarrow> Some b | None \<Rightarrow> first_block blocks pairs)"

definition block_pairs ::
  "int \<Rightarrow> int \<Rightarrow> customer_relation option \<Rightarrow> customer_relation option \<Rightarrow> block_row list" where
  "block_pairs a b rel_a rel_b =
     (let pa = trade_block_principal_user_id a rel_a;
          pb = trade_block_principal_user_id b rel_b;
          p0 = append_unique_block_pair [] a b;
          p1 = (if rel_a \<noteq> None then append_unique_block_pair p0 a pa else p0);
          p2 = (if rel_b \<noteq> None then append_unique_block_pair p1 b pb else p1)
      in append_unique_block_pair p2 pa pb)"

definition is_trade_blocked_by_principals ::
  "block_row list \<Rightarrow> int \<Rightarrow> int \<Rightarrow> customer_relation option \<Rightarrow> customer_relation option
     \<Rightarrow> int option \<times> int \<times> int" where
  "is_trade_blocked_by_principals blocks a b rel_a rel_b =
     (first_block blocks (block_pairs a b rel_a rel_b),
      trade_block_principal_user_id a rel_a, trade_block_principal_user_id b rel_b)"

section \<open>Lemmas\<close>

definition some_block :: "block_row list \<Rightarrow> int \<Rightarrow> int \<Rightarrow> bool" where
  "some_block blocks a b \<longleftrightarrow> (a, b) \<in> set blocks \<or> (b, a) \<in> set blocks"

lemma some_block_sym: "some_block blocks a b = some_block blocks b a"
  by (auto simp: some_block_def)

definition hits :: "block_row list \<Rightarrow> block_row list \<Rightarrow> bool" where
  "hits blocks pairs \<longleftrightarrow> (\<exists>p \<in> set pairs. some_block blocks (fst p) (snd p))"

lemma is_blocked_iff: "is_blocked blocks a b = None \<longleftrightarrow> \<not> some_block blocks a b"
  by (auto simp: is_blocked_def some_block_def)

lemma first_block_iff: "first_block blocks pairs = None \<longleftrightarrow> \<not> hits blocks pairs"
proof (induction blocks pairs rule: first_block.induct)
  case (2 blocks l r pairs)
  then show ?case
    using is_blocked_iff [of blocks l r] by (auto simp: hits_def split: option.splits)
qed (simp add: hits_def)

lemma hits_Nil [simp]: "\<not> hits blocks []"
  by (simp add: hits_def)

lemma hits_append_pair:
  assumes "\<forall>u. (u, u) \<notin> set blocks"
  shows "hits blocks (append_unique_block_pair pairs a b) \<longleftrightarrow> hits blocks pairs \<or> some_block blocks a b"
proof -
  have "some_block blocks a b \<Longrightarrow> (a, b) \<in> set pairs \<or> (b, a) \<in> set pairs \<Longrightarrow> hits blocks pairs"
    using some_block_sym [of blocks a b] by (force simp: hits_def)
  then show ?thesis using assms by (auto simp: append_unique_block_pair_def hits_def some_block_def)
qed

text \<open>The invariant of the block table: no self-block, no duplicate, and every blocker is an existing
  user who is neither a customer nor an accountant and stays within the capacity of the account.\<close>

definition may_block :: "block_db \<Rightarrow> int \<Rightarrow> bool" where
  "may_block db uid \<longleftrightarrow>
     (\<exists>u. get_user (bdb_users db) uid = Some u \<and> usr_can_block_users u \<and>
        is_user_customer db uid = Inr False \<and> is_user_accountant db uid = Inr False \<and>
        count_blocked (bdb_blocks db) uid \<le> usr_max_blocked_users u)"

definition blocks_ok :: "block_db \<Rightarrow> bool" where
  "blocks_ok db \<longleftrightarrow> distinct (bdb_blocks db) \<and> (\<forall>u. (u, u) \<notin> set (bdb_blocks db)) \<and>
     (\<forall>b \<in> set (bdb_blocks db). may_block db (fst b))"

inductive block_step :: "block_db \<Rightarrow> block_db \<Rightarrow> bool" where
  step_block: "block_user db a b = (r, db') \<Longrightarrow> block_step db db'"
| step_unblock: "unblock_user db a b = (r, db') \<Longrightarrow> block_step db db'"

inductive_cases block_stepE: "block_step db db'"

definition block_init :: "block_db \<Rightarrow> bool" where
  "block_init db \<longleftrightarrow> bdb_blocks db = []"

lemma is_user_customer_blocks [simp]:
  "is_user_customer (db\<lparr>bdb_blocks := bs\<rparr>) uid = is_user_customer db uid"
  by (simp add: is_user_customer_def)

lemma is_user_accountant_blocks [simp]:
  "is_user_accountant (db\<lparr>bdb_blocks := bs\<rparr>) uid = is_user_accountant db uid"
  by (simp add: is_user_accountant_def)

lemma can_user_block_None:
  "can_user_block db uid = None \<longleftrightarrow>
     (\<exists>u. get_user (bdb_users db) uid = Some u \<and> usr_can_block_users u \<and>
        is_user_customer db uid = Inr False \<and> is_user_accountant db uid = Inr False \<and>
        count_blocked (bdb_blocks db) uid < usr_max_blocked_users u)"
  by (auto simp: can_user_block_def split: option.splits sum.splits bool.splits)

lemma block_user_blocks:
  assumes "block_user db a b = (r, db')"
  shows "db' = db \<or> (r = BlockSaved \<and> a \<noteq> b \<and> (a, b) \<notin> set (bdb_blocks db) \<and>
    can_user_block db a = None \<and> db' = db\<lparr>bdb_blocks := bdb_blocks db @ [(a, b)]\<rparr>)"
  using assms by (auto simp: block_user_def split: if_splits option.splits)

lemma may_block_add:
  assumes "may_block db c \<or> c = a" and "can_user_block db a = None"
  shows "may_block (db\<lparr>bdb_blocks := bdb_blocks db @ [(a, b)]\<rparr>) c"
  using assms by (auto simp: may_block_def can_user_block_None count_blocked_def)

lemma length_filter_remove1: "length (filter P (remove1 x xs)) \<le> length (filter P xs)"
  by (induction xs) auto

lemma may_block_remove:
  assumes "may_block db c"
  shows "may_block (db\<lparr>bdb_blocks := remove1 p (bdb_blocks db)\<rparr>) c"
proof -
  have "count_blocked (remove1 p (bdb_blocks db)) c \<le> count_blocked (bdb_blocks db) c"
    by (simp add: count_blocked_def length_filter_remove1)
  with assms show ?thesis by (auto simp: may_block_def)
qed

lemma blocks_ok_step: "blocks_ok db \<Longrightarrow> block_step db db' \<Longrightarrow> blocks_ok db'"
proof (elim block_stepE)
  fix a b r assume ok: "blocks_ok db" and b: "block_user db a b = (r, db')"
  consider "db' = db" | "a \<noteq> b" "(a, b) \<notin> set (bdb_blocks db)" "can_user_block db a = None"
      "db' = db\<lparr>bdb_blocks := bdb_blocks db @ [(a, b)]\<rparr>"
    using block_user_blocks [OF b] by auto
  then show "blocks_ok db'"
    by cases (use ok in \<open>auto simp: blocks_ok_def intro: may_block_add\<close>)
next
  fix a b r assume ok: "blocks_ok db" and "unblock_user db a b = (r, db')"
  then show "blocks_ok db'"
    by (auto simp: blocks_ok_def unblock_user_def intro: may_block_remove notin_set_remove1
        dest: notin_set_remove1 split: if_splits)
qed

interpretation blocks: invariant_system block_init block_step blocks_ok
proof unfold_locales
  show "blocks_ok db" if "block_init db" for db
    using that by (simp add: block_init_def blocks_ok_def)
qed (rule blocks_ok_step)

section \<open>Properties of blocks\<close>

text \<open>C24: In every state of the block table that block and unblock commands can produce, no user blocks
  himself, no pair is stored twice, and every blocker is a non-customer, non-accountant user with the
  capability who holds at most as many blocks as his account allows.\<close>

theorem block_table_invariant:
  assumes "reachable block_init block_step db" and "(a, b) \<in> set (bdb_blocks db)"
  shows "a \<noteq> b \<and> distinct (bdb_blocks db) \<and>
    is_user_customer db a = Inr False \<and> is_user_accountant db a = Inr False \<and>
    (\<exists>u. get_user (bdb_users db) a = Some u \<and> usr_can_block_users u \<and>
       count_blocked (bdb_blocks db) a \<le> usr_max_blocked_users u)"
  using blocks.reachable_invar [OF assms(1)] assms(2)
  by (fastforce simp: blocks_ok_def may_block_def)

definition sample_block_db :: block_db where
  "sample_block_db =
     \<lparr>bdb_users = [\<lparr>usr_id = 1, usr_is_deleted = False, usr_can_block_users = True,
                    usr_max_blocked_users = 2\<rparr>,
                   \<lparr>usr_id = 2, usr_is_deleted = False, usr_can_block_users = True,
                    usr_max_blocked_users = 2\<rparr>],
      bdb_customers = [], bdb_accountants = [], bdb_blocks = []\<rparr>"

theorem block_table_invariant_witness:
  "reachable block_init block_step (snd (block_user sample_block_db 1 2)) \<and>
   (1, 2) \<in> set (bdb_blocks (snd (block_user sample_block_db 1 2))) \<and>
   distinct (bdb_blocks (snd (block_user sample_block_db 1 2)))"
proof -
  let ?db = "snd (block_user sample_block_db 1 2)"
  have "block_step sample_block_db ?db" by (rule step_block) (rule prod.collapse [symmetric])
  moreover have "block_init sample_block_db" by (simp add: block_init_def sample_block_db_def)
  ultimately have r: "reachable block_init block_step ?db"
    by (meson reachable_init reachable_step)
  have m: "(1, 2) \<in> set (bdb_blocks ?db)" by code_simp
  show ?thesis using r m block_table_invariant [OF r m] by simp
qed

text \<open>A trade is refused exactly when there is a block, in either direction, between the two sides,
  between a customer and that customer's owner, or between the principals of the two sides; the verdict
  does not depend on the order of the two sides.\<close>

theorem trade_block_through_principals:
  assumes "\<forall>u. (u, u) \<notin> set blocks"
  shows "(fst (is_trade_blocked_by_principals blocks a b rel_a rel_b) \<noteq> None \<longleftrightarrow>
      some_block blocks a b \<or>
      rel_a \<noteq> None \<and> some_block blocks a (trade_block_principal_user_id a rel_a) \<or>
      rel_b \<noteq> None \<and> some_block blocks b (trade_block_principal_user_id b rel_b) \<or>
      some_block blocks (trade_block_principal_user_id a rel_a) (trade_block_principal_user_id b rel_b)) \<and>
    (fst (is_trade_blocked_by_principals blocks a b rel_a rel_b) = None \<longleftrightarrow>
     fst (is_trade_blocked_by_principals blocks b a rel_b rel_a) = None)"
proof -
  have iff: "fst (is_trade_blocked_by_principals blocks x y rel_x rel_y) \<noteq> None \<longleftrightarrow>
      some_block blocks x y \<or>
      rel_x \<noteq> None \<and> some_block blocks x (trade_block_principal_user_id x rel_x) \<or>
      rel_y \<noteq> None \<and> some_block blocks y (trade_block_principal_user_id y rel_y) \<or>
      some_block blocks (trade_block_principal_user_id x rel_x) (trade_block_principal_user_id y rel_y)"
    for x y rel_x rel_y
    using first_block_iff [of blocks "block_pairs x y rel_x rel_y"]
    by (auto simp: is_trade_blocked_by_principals_def block_pairs_def Let_def hits_append_pair [OF assms])
  show ?thesis using iff [of a b rel_a rel_b] iff [of b a rel_b rel_a] some_block_sym [of blocks]
    by (metis (no_types))
qed

text \<open>A block between two owners stops the trade of their customers 11 and 12.\<close>

theorem trade_block_through_principals_witness:
  "fst (is_trade_blocked_by_principals [(1, 2)] 12 11
     (Some \<lparr>rel_id = 7, rel_owner_user_id = 2, rel_customer_user_id = Some 12, rel_management_name = [],
        rel_customer_tier = TIER_1, rel_commission_rate = None, rel_min_trade_quantity = None,
        rel_max_trade_quantity = None, rel_max_daily_trades = None,
        rel_max_daily_commodity_volume = None, rel_trading_restricted_until = None,
        rel_status = REL_ACTIVE, rel_deleted = False\<rparr>)
     (Some \<lparr>rel_id = 8, rel_owner_user_id = 1, rel_customer_user_id = Some 11, rel_management_name = [],
        rel_customer_tier = TIER_1, rel_commission_rate = None, rel_min_trade_quantity = None,
        rel_max_trade_quantity = None, rel_max_daily_trades = None,
        rel_max_daily_commodity_volume = None, rel_trading_restricted_until = None,
        rel_status = REL_ACTIVE, rel_deleted = False\<rparr>)) \<noteq> None"
proof -
  have h: "\<forall>u. (u, u) \<notin> set [(1 :: int, 2 :: int)]" by simp
  show ?thesis
    unfolding trade_block_through_principals [OF h, THEN conjunct1]
    by (simp add: some_block_def trade_block_principal_user_id_def)
qed

end
