(* ===== verification/TradeExecution.thy ===== *)
theory TradeExecution
  imports Blocks OfferSettlement
begin

text \<open>
  Trade execution (\<open>api/routers/trades.py\<close>): the intake guards, the terms of a trade (amount, limits,
  price, execution plan), the idempotent replay, trade numbers, the trade rows of a direct or a chained
  trade, and the mutation of the offer.  This is the direct path of
  \<open>_execute_trade_authoritatively\<close> from the locked offer row to the flush; the rows the handler
  selects are the fields of \<open>exec_env\<close> and \<open>exec_state\<close>.  \<open>ee_day_bounds\<close> stands for
  \<open>customer_trade_day_bounds\<close> (time-zone data) and \<open>Nextval\<close> for the PostgreSQL sequence.
  The market-schedule check and the user limits that precede the lock, the offer-request ledger and
  the deliveries that follow the flush are other components.
\<close>

section \<open>Data\<close>

record trade_user =
  tu_id :: int
  tu_mobile :: "string option"
  tu_inactive :: bool

record trade_offer =
  off_id :: int
  off_user_id :: int
  off_type :: offer_type
  off_commodity_id :: int
  off_settlement :: settlement_type
  off_quantity :: int
  off_remaining :: "int option"
  off_is_wholesale :: bool
  off_lot_sizes :: "int list option"
  off_status :: offer_status
  off_price :: int
  off_created_at :: "pydt option"
  off_overtime_snapshot :: pyval
  off_time_limit_expired :: bool

datatype trade_type = TRADE_BUY | TRADE_SELL

record trade =
  trd_number :: int
  trd_offer_id :: "int option"
  trd_offer_user_id :: int
  trd_offer_user_mobile :: "string option"
  trd_responder_user_id :: int
  trd_responder_user_mobile :: "string option"
  trd_actor_user_id :: "int option"
  trd_commodity_id :: int
  trd_type :: trade_type
  trd_settlement :: settlement_type
  trd_quantity :: int
  trd_price :: int
  trd_completed :: bool
  trd_idempotency_key :: "string option"
  trd_created_at :: int

record trade_request =
  rq_quantity :: int
  rq_idempotency_key :: "string option"
  rq_owner :: trade_user
  rq_actor_id :: int
  rq_edge_received_at :: "pydt option"

datatype number_source = Nextval "nat \<Rightarrow> int" | MaxRow

record exec_env =
  ee_relations :: "customer_relation list"
  ee_blocks :: "block_row list"
  ee_users :: "trade_user list"
  ee_day_bounds :: "int \<times> int"
  ee_now :: pydt
  ee_normal_minutes :: int
  ee_grace_seconds :: int
  ee_numbers :: number_source

datatype rejection =
    RejOvertimeApproval
  | RejOfferNotActive
  | RejOwnOffer
  | RejOfferOwnerInactive
  | RejBlockedPair
  | RejLotUnavailable "int list"
  | RejInvalidAmount amount_message
  | RejCustomerLimit int int limit_code
  | RejPrincipalMissing
  | RejPlan
  | RejIdempotencyConflict "string list"
  | RejAtomicity
  | RejRemainingMissing
  | RejPolicy policy_error
  | RejValue py_exn
  | RejDb db_error

section \<open>The execution plan\<close>

text \<open>User identifiers are integer columns or absent.\<close>

definition coerce_trade_user_id :: "int option \<Rightarrow> int option" where
  "coerce_trade_user_id v = (case v of None \<Rightarrow> None | Some i \<Rightarrow> if i > 0 then Some i else None)"

type_synonym plan_node = "int \<times> trade_user"

definition build_trade_execution_node :: "int \<Rightarrow> trade_user option \<Rightarrow> rejection + plan_node" where
  "build_trade_execution_node uid user =
     (case (coerce_trade_user_id (Some uid), user) of
        (Some i, Some u) \<Rightarrow> Inr (i, u)
      | _ \<Rightarrow> Inl RejPlan)"

definition append_trade_execution_node ::
  "plan_node list \<Rightarrow> int \<Rightarrow> trade_user option \<Rightarrow> rejection + plan_node list" where
  "append_trade_execution_node nodes uid user =
     (case coerce_trade_user_id (Some uid) of
        None \<Rightarrow> Inl RejPlan
      | Some i \<Rightarrow>
          (if nodes \<noteq> [] \<and> fst (last nodes) = i then Inr nodes
           else (case user of None \<Rightarrow> Inl RejPlan | Some u \<Rightarrow> Inr (nodes @ [(i, u)]))))"

definition build_trade_execution_plan ::
  "int \<Rightarrow> trade_user option \<Rightarrow> int \<Rightarrow> trade_user option \<Rightarrow> int \<Rightarrow> trade_user option
     \<Rightarrow> int \<Rightarrow> trade_user option \<Rightarrow> rejection + plan_node list" where
  "build_trade_execution_plan offer_uid offer_user source_uid source_user responder_uid responder_user
     owner_uid owner_user =
     (case build_trade_execution_node offer_uid offer_user of
        Inl e \<Rightarrow> Inl e
      | Inr n0 \<Rightarrow>
          (case (if source_uid \<noteq> offer_uid then append_trade_execution_node [n0] source_uid source_user
                 else Inr [n0]) of
             Inl e \<Rightarrow> Inl e
           | Inr ns1 \<Rightarrow>
               (case append_trade_execution_node ns1 responder_uid responder_user of
                  Inl e \<Rightarrow> Inl e
                | Inr ns2 \<Rightarrow> append_trade_execution_node ns2 owner_uid owner_user)))"

definition uses_customer_trade_chain :: "plan_node list \<Rightarrow> bool" where
  "uses_customer_trade_chain nodes \<longleftrightarrow> length nodes > 2"

section \<open>Trade numbers\<close>

text \<open>\<open>Nextval f\<close>: \<open>f k\<close> is the value of the \<open>k\<close>-th call of \<open>nextval\<close> in this transaction.  The other
  dialects take one more than the greatest number in the table.\<close>

definition max_trade_number :: "trade list \<Rightarrow> int" where
  "max_trade_number trades =
     (case map trd_number trades of
        [] \<Rightarrow> 9999
      | n # ns \<Rightarrow> (let m = fold max ns n in if m = 0 then 9999 else m))"

definition allocate_next_trade_number :: "number_source \<Rightarrow> trade list \<Rightarrow> nat \<Rightarrow> int" where
  "allocate_next_trade_number src trades k =
     (case src of Nextval f \<Rightarrow> f k | MaxRow \<Rightarrow> max_trade_number trades + 1)"

definition allocate_trade_numbers :: "number_source \<Rightarrow> trade list \<Rightarrow> nat \<Rightarrow> int list" where
  "allocate_trade_numbers src trades n =
     (case src of
        Nextval f \<Rightarrow> map (allocate_next_trade_number src trades) [0..<n]
      | MaxRow \<Rightarrow>
          (if n = 0 then []
           else let first_number = allocate_next_trade_number src trades 0
                in map (\<lambda>k. first_number + int k) [0..<n]))"

section \<open>The offer\<close>

definition coalesce_offer_remaining_quantity :: "int option \<Rightarrow> int \<Rightarrow> int" where
  "coalesce_offer_remaining_quantity remaining q = (case remaining of None \<Rightarrow> q | Some r \<Rightarrow> r)"

definition lots_value :: "int list option \<Rightarrow> pyval" where
  "lots_value lots = (case lots of None \<Rightarrow> PNone | Some ls \<Rightarrow> PList (map PInt ls))"

definition remaining_value :: "int option \<Rightarrow> pyval" where
  "remaining_value r = (case r of None \<Rightarrow> PNone | Some i \<Rightarrow> PInt i)"

text \<open>The boolean of the result is \<open>lot_sizes_modified\<close>.  Subtracting from a missing remainder is a
  \<open>TypeError\<close>.\<close>

definition apply_offer_trade_mutation :: "trade_offer \<Rightarrow> int \<Rightarrow> rejection + (trade_offer \<times> bool)" where
  "apply_offer_trade_mutation offer trade_quantity =
     (case off_remaining offer of
        None \<Rightarrow> Inl RejRemainingMissing
      | Some r \<Rightarrow>
          (let remaining = r - trade_quantity; offer1 = offer\<lparr>off_remaining := Some remaining\<rparr>
           in if remaining < 0 then Inl RejAtomicity
              else if remaining \<le> 0 then
                Inr (offer1\<lparr>off_lot_sizes := None, off_status := OFFER_COMPLETED\<rparr>,
                     off_lot_sizes offer \<noteq> None)
              else
                (case off_lot_sizes offer of
                   None \<Rightarrow> Inr (offer1, False)
                 | Some lots \<Rightarrow>
                     (if lots = [] then Inr (offer1, False)
                      else if \<not> off_is_wholesale offer \<and> trade_quantity \<notin> set lots then Inl RejAtomicity
                      else if trade_quantity \<in> set lots then
                        (let new_lots = remove1 trade_quantity lots
                         in Inr (offer1\<lparr>off_lot_sizes := (if new_lots = [] then None else Some new_lots)\<rparr>,
                                 True))
                      else Inr (offer1, False)))))"

section \<open>Idempotent replay\<close>

definition validate_idempotent_trade_replay ::
  "trade \<Rightarrow> trade_offer \<Rightarrow> int \<Rightarrow> int \<Rightarrow> int \<Rightarrow> int \<Rightarrow> bool \<Rightarrow> string list" where
  "validate_idempotent_trade_replay existing offer owner_id actor_id trade_quantity expected_price chain =
     (let actor = coerce_trade_user_id (trd_actor_user_id existing)
      in (if \<not> chain \<and> trd_offer_id existing \<noteq> Some (off_id offer) then [''offer_id''] else []) @
         (if chain \<and> trd_offer_id existing \<noteq> None \<and> trd_offer_id existing \<noteq> Some (off_id offer)
          then [''chain_offer_id''] else []) @
         (if \<not> chain \<and> coerce_trade_user_id (Some (trd_offer_user_id existing)) \<noteq>
               coerce_trade_user_id (Some (off_user_id offer)) then [''offer_user_id''] else []) @
         (if coerce_trade_user_id (Some (trd_responder_user_id existing)) \<noteq>
               coerce_trade_user_id (Some owner_id) then [''responder_user_id''] else []) @
         (if actor \<noteq> None \<and> actor \<noteq> coerce_trade_user_id (Some actor_id)
          then [''actor_user_id''] else []) @
         (if trd_commodity_id existing \<noteq> off_commodity_id offer then [''commodity_id''] else []) @
         (if trd_quantity existing \<noteq> trade_quantity then [''quantity''] else []) @
         (if trd_price existing \<noteq> expected_price then [''price''] else []))"

section \<open>Intake guards\<close>

definition offer_view_of :: "trade_offer \<Rightarrow> offer_view" where
  "offer_view_of offer =
     \<lparr>ov_created_at = off_created_at offer, ov_status = Some (off_status offer),
      ov_overtime_minutes_snapshot = off_overtime_snapshot offer\<rparr>"

definition receipt_time :: "exec_env \<Rightarrow> trade_request \<Rightarrow> int" where
  "receipt_time env rq =
     (case rq_edge_received_at rq of Some dt \<Rightarrow> as_naive_utc dt | None \<Rightarrow> as_naive_utc (ee_now env))"

definition classify_trade_request_intake :: "exec_env \<Rightarrow> trade_request \<Rightarrow> trade_offer \<Rightarrow> intake_phase" where
  "classify_trade_request_intake env rq offer =
     (if ee_normal_minutes env \<le> 0 \<or> off_created_at offer = None then AUTOMATIC
      else
        let overtime = read_overtime_minutes_snapshot (offer_view_of offer);
            deadlines = compute_lifecycle_deadlines (off_created_at offer) (ee_normal_minutes env) overtime
        in classify_request_intake_phase (Some (Naive (receipt_time env rq)))
             (map_option fst deadlines) (map_option snd deadlines) overtime)"

definition is_offer_expired_for_trade :: "exec_env \<Rightarrow> trade_request \<Rightarrow> trade_offer \<Rightarrow> bool" where
  "is_offer_expired_for_trade env rq offer \<longleftrightarrow> classify_trade_request_intake env rq offer = REJECTED"

definition is_time_limit_expired_offer :: "trade_offer \<Rightarrow> bool" where
  "is_time_limit_expired_offer offer \<longleftrightarrow> off_status offer = OFFER_EXPIRED \<and> off_time_limit_expired offer"

definition within_in_flight_finalization_grace :: "exec_env \<Rightarrow> trade_request \<Rightarrow> bool" where
  "within_in_flight_finalization_grace env rq =
     (case rq_edge_received_at rq of
        None \<Rightarrow> False
      | Some edge \<Rightarrow>
          max 0 (as_naive_utc (ee_now env) - as_naive_utc edge) \<le> ee_grace_seconds env * us_per_second)"

definition find_user :: "trade_user list \<Rightarrow> int \<Rightarrow> trade_user option" where
  "find_user users uid = find (\<lambda>u. tu_id u = uid) users"

definition trade_guards :: "exec_env \<Rightarrow> trade_request \<Rightarrow> trade_offer \<Rightarrow> rejection option" where
  "trade_guards env rq offer =
     (let expired = is_offer_expired_for_trade env rq offer;
          allow_in_flight = (is_time_limit_expired_offer offer \<and> \<not> expired \<and>
                             within_in_flight_finalization_grace env rq)
      in if classify_trade_request_intake env rq offer = APPROVAL then Some RejOvertimeApproval
         else if off_status offer \<noteq> OFFER_ACTIVE \<and> \<not> allow_in_flight \<or> expired then Some RejOfferNotActive
         else if off_user_id offer = tu_id (rq_owner rq) then Some RejOwnOffer
         else (case find_user (ee_users env) (off_user_id offer) of
                 None \<Rightarrow> Some RejOfferOwnerInactive
               | Some u \<Rightarrow> (if tu_inactive u then Some RejOfferOwnerInactive else None)))"

section \<open>Terms of the trade\<close>

record trade_terms =
  tt_quantity :: int
  tt_price :: int
  tt_tier2 :: bool
  tt_nodes :: "plan_node list"

definition usage_of :: "trade \<Rightarrow> usage_trade" where
  "usage_of t = \<lparr>ut_completed = trd_completed t, ut_created_at = trd_created_at t,
     ut_offer_user_id = trd_offer_user_id t, ut_responder_user_id = trd_responder_user_id t,
     ut_quantity = trd_quantity t\<rparr>"

definition trade_amount :: "trade_offer \<Rightarrow> int \<Rightarrow> rejection + int" where
  "trade_amount offer requested =
     (case validate_offer_trade_amount (PInt (off_quantity offer)) (remaining_value (off_remaining offer))
             (off_is_wholesale offer) (lots_value (off_lot_sizes offer)) (PInt requested) of
        Inl e \<Rightarrow> Inl (RejValue e)
      | Inr (True, _, amount, _) \<Rightarrow> Inr amount
      | Inr (False, msg, _, available) \<Rightarrow>
          (if \<not> off_is_wholesale offer \<and> available \<noteq> [] \<and> msg = LotNoLongerAvailable
           then Inl (RejLotUnavailable available) else Inl (RejInvalidAmount msg)))"

definition executed_price :: "trade_offer \<Rightarrow> customer_relation option \<Rightarrow> rejection + (int \<times> bool)" where
  "executed_price offer responder_relation =
     (case responder_relation of
        Some rel \<Rightarrow>
          (if rel_customer_tier rel = TIER_2
           then (case apply_customer_commission (of_int (off_price offer)) (rel_commission_rate rel)
                        (off_type offer) of
                   Inl e \<Rightarrow> Inl (RejPolicy e)
                 | Inr p \<Rightarrow> Inr (p, True))
           else Inr (off_price offer, False))
      | None \<Rightarrow> Inr (off_price offer, False))"

definition principal_users ::
  "exec_env \<Rightarrow> trade_offer \<Rightarrow> trade_user \<Rightarrow> int \<Rightarrow> int \<Rightarrow> rejection + (trade_user \<times> trade_user)" where
  "principal_users env offer owner responder_pid source_pid =
     (let offer_user = find_user (ee_users env) (off_user_id offer);
          responder =
            (if responder_pid = tu_id owner then Some owner
             else if responder_pid = off_user_id offer \<and> offer_user \<noteq> None then offer_user
             else find_user (ee_users env) responder_pid)
      in case responder of
           None \<Rightarrow> Inl RejPrincipalMissing
         | Some ru \<Rightarrow>
             (case (if source_pid = off_user_id offer \<and> offer_user \<noteq> None then offer_user
                    else if source_pid = responder_pid then Some ru
                    else find_user (ee_users env) source_pid) of
                None \<Rightarrow> Inl RejPrincipalMissing
              | Some su \<Rightarrow> Inr (ru, su)))"

definition limits_gate ::
  "exec_env \<Rightarrow> trade list \<Rightarrow> int \<Rightarrow> customer_relation option \<Rightarrow> int \<Rightarrow> customer_relation option \<Rightarrow> int
     \<Rightarrow> rejection option" where
  "limits_gate env trades owner_id responder_rel offer_uid source_rel quantity =
     (case enforce_customer_trade_limits_for_trade (ee_relations env) (map usage_of trades)
             (ee_day_bounds env)
             (dict_put offer_uid source_rel (dict_put owner_id responder_rel [])) quantity (ee_now env) of
        Enforced \<Rightarrow> None
      | PolicyError e \<Rightarrow> Some (RejPolicy e)
      | LimitViolation uid rid code \<Rightarrow> Some (RejCustomerLimit uid rid code))"

definition trade_terms_for ::
  "exec_env \<Rightarrow> trade_request \<Rightarrow> trade_offer \<Rightarrow> trade list \<Rightarrow> rejection + trade_terms" where
  "trade_terms_for env rq offer trades =
     (let owner = rq_owner rq in
      case get_active_customer_relation_for_customer (ee_relations env) (tu_id owner) of
        Inl e \<Rightarrow> Inl (RejDb e)
      | Inr responder_rel \<Rightarrow>
      (case get_active_customer_relation_for_customer (ee_relations env) (off_user_id offer) of
        Inl e \<Rightarrow> Inl (RejDb e)
      | Inr source_rel \<Rightarrow>
      (case is_trade_blocked_by_principals (ee_blocks env) (tu_id owner) (off_user_id offer)
              responder_rel source_rel of
        (Some _, _, _) \<Rightarrow> Inl RejBlockedPair
      | (None, responder_pid, source_pid) \<Rightarrow>
      (case trade_amount offer (rq_quantity rq) of
        Inl e \<Rightarrow> Inl e
      | Inr q \<Rightarrow>
      (case limits_gate env trades (tu_id owner) responder_rel (off_user_id offer) source_rel q of
        Some e \<Rightarrow> Inl e
      | None \<Rightarrow>
      (case executed_price offer responder_rel of
        Inl e \<Rightarrow> Inl e
      | Inr (price, tier2) \<Rightarrow>
      (case principal_users env offer owner responder_pid source_pid of
        Inl e \<Rightarrow> Inl e
      | Inr (ru, su) \<Rightarrow>
      (case build_trade_execution_plan (off_user_id offer)
              (find_user (ee_users env) (off_user_id offer)) source_pid (Some su) responder_pid (Some ru)
              (tu_id owner) (Some owner) of
        Inl e \<Rightarrow> Inl e
      | Inr nodes \<Rightarrow>
          Inr \<lparr>tt_quantity = q, tt_price = price, tt_tier2 = tier2, tt_nodes = nodes\<rparr>))))))))"

section \<open>Trade rows\<close>

definition responder_trade_type :: "trade_offer \<Rightarrow> trade_type" where
  "responder_trade_type offer = (if off_type offer = SELL then TRADE_BUY else TRADE_SELL)"

definition leg_trade ::
  "exec_env \<Rightarrow> trade_request \<Rightarrow> trade_offer \<Rightarrow> trade_terms \<Rightarrow> int list \<Rightarrow> nat \<Rightarrow> plan_node \<Rightarrow> plan_node \<Rightarrow> trade" where
  "leg_trade env rq offer terms numbers leg_index offer_node responder_node =
     (let final_leg_index = length (tt_nodes terms) - 2
      in \<lparr>trd_number = numbers ! leg_index,
          trd_offer_id = (if leg_index = 0 then Some (off_id offer) else None),
          trd_offer_user_id = fst offer_node,
          trd_offer_user_mobile = tu_mobile (snd offer_node),
          trd_responder_user_id = fst responder_node,
          trd_responder_user_mobile = tu_mobile (snd responder_node),
          trd_actor_user_id = Some (rq_actor_id rq),
          trd_commodity_id = off_commodity_id offer,
          trd_type = responder_trade_type offer,
          trd_settlement = off_settlement offer,
          trd_quantity = tt_quantity terms,
          trd_price = (if leg_index = final_leg_index \<and> tt_tier2 terms then tt_price terms
                       else off_price offer),
          trd_completed = True,
          trd_idempotency_key = (if leg_index = final_leg_index then rq_idempotency_key rq else None),
          trd_created_at = as_naive_utc (ee_now env)\<rparr>)"

fun chain_legs ::
  "(nat \<Rightarrow> plan_node \<Rightarrow> plan_node \<Rightarrow> trade) \<Rightarrow> nat \<Rightarrow> plan_node list \<Rightarrow> trade list" where
  "chain_legs mk k (a # b # rest) = mk k a b # chain_legs mk (Suc k) (b # rest)"
| "chain_legs mk k nodes = []"

definition direct_trade :: "exec_env \<Rightarrow> trade_request \<Rightarrow> trade_offer \<Rightarrow> trade_terms \<Rightarrow> int list \<Rightarrow> trade" where
  "direct_trade env rq offer terms numbers =
     \<lparr>trd_number = numbers ! 0,
      trd_offer_id = Some (off_id offer),
      trd_offer_user_id = off_user_id offer,
      trd_offer_user_mobile = Option.bind (find_user (ee_users env) (off_user_id offer)) tu_mobile,
      trd_responder_user_id = tu_id (rq_owner rq),
      trd_responder_user_mobile = tu_mobile (rq_owner rq),
      trd_actor_user_id = Some (rq_actor_id rq),
      trd_commodity_id = off_commodity_id offer,
      trd_type = responder_trade_type offer,
      trd_settlement = off_settlement offer,
      trd_quantity = tt_quantity terms,
      trd_price = tt_price terms,
      trd_completed = True,
      trd_idempotency_key = rq_idempotency_key rq,
      trd_created_at = as_naive_utc (ee_now env)\<rparr>"

definition new_trades :: "exec_env \<Rightarrow> trade_request \<Rightarrow> trade_offer \<Rightarrow> trade_terms \<Rightarrow> trade list \<Rightarrow> trade list" where
  "new_trades env rq offer terms trades =
     (let chain = uses_customer_trade_chain (tt_nodes terms);
          trade_number_count = (if chain then max 1 (length (tt_nodes terms) - 1) else 1);
          numbers = allocate_trade_numbers (ee_numbers env) trades trade_number_count
      in if chain then chain_legs (leg_trade env rq offer terms numbers) 0 (tt_nodes terms)
         else [direct_trade env rq offer terms numbers])"

section \<open>Execution\<close>

record exec_state =
  es_offer :: trade_offer
  es_trades :: "trade list"

datatype exec_outcome = Executed "trade list" | Replayed trade | Rejected rejection

definition find_by_key :: "trade list \<Rightarrow> string option \<Rightarrow> db_error + trade option" where
  "find_by_key trades key =
     (case key of
        None \<Rightarrow> Inr None
      | Some k \<Rightarrow>
          (if k = [] then Inr None
           else scalar_one_or_none (filter (\<lambda>t. trd_idempotency_key t = Some k) trades)))"

definition commit_trade ::
  "exec_env \<Rightarrow> trade_request \<Rightarrow> exec_state \<Rightarrow> trade_terms \<Rightarrow> exec_outcome \<times> exec_state" where
  "commit_trade env rq st terms =
     (case find_by_key (es_trades st) (rq_idempotency_key rq) of
        Inl e \<Rightarrow> (Rejected (RejDb e), st)
      | Inr (Some existing) \<Rightarrow>
          (case validate_idempotent_trade_replay existing (es_offer st) (tu_id (rq_owner rq))
                  (rq_actor_id rq) (tt_quantity terms) (tt_price terms)
                  (uses_customer_trade_chain (tt_nodes terms)) of
             [] \<Rightarrow> (Replayed existing, st)
           | ms \<Rightarrow> (Rejected (RejIdempotencyConflict ms), st))
      | Inr None \<Rightarrow>
          (case apply_offer_trade_mutation (es_offer st) (tt_quantity terms) of
             Inl e \<Rightarrow> (Rejected e, st)
           | Inr (offer', _) \<Rightarrow>
               (let ts = new_trades env rq (es_offer st) terms (es_trades st)
                in (Executed ts, st\<lparr>es_offer := offer', es_trades := es_trades st @ ts\<rparr>))))"

definition execute_trade :: "exec_env \<Rightarrow> trade_request \<Rightarrow> exec_state \<Rightarrow> exec_outcome \<times> exec_state" where
  "execute_trade env rq st =
     (case trade_guards env rq (es_offer st) of
        Some e \<Rightarrow> (Rejected e, st)
      | None \<Rightarrow>
          (case trade_terms_for env rq (es_offer st) (es_trades st) of
             Inl e \<Rightarrow> (Rejected e, st)
           | Inr terms \<Rightarrow> commit_trade env rq st terms))"

section \<open>Lemmas on the offer\<close>

definition lots_of :: "trade_offer \<Rightarrow> int list" where
  "lots_of offer = (case off_lot_sizes offer of None \<Rightarrow> [] | Some ls \<Rightarrow> ls)"

lemma validate_amount_of_offer:
  "\<exists>m av. validate_offer_trade_amount (PInt q) (PInt r) w (lots_value lots) (PInt a) =
     Inr (a \<in> offered_amounts r w (case lots of None \<Rightarrow> [] | Some ls \<Rightarrow> ls), m, a, av)"
proof -
  have lv: "amounts_of_remaining r w (lots_value lots) =
      amounts_of_remaining r w (PList (map PInt (case lots of None \<Rightarrow> [] | Some ls \<Rightarrow> ls)))"
    by (cases lots) (auto simp: lots_value_def amounts_of_remaining_def)
  obtain xs where xs: "amounts_of_remaining r w (lots_value lots) = Inr xs"
    "set xs = offered_amounts r w (case lots of None \<Rightarrow> [] | Some ls \<Rightarrow> ls)"
    unfolding lv using amounts_of_remaining_spec by blast
  have "get_available_trade_amounts (PInt q) (PInt r) w (lots_value lots) = Inr xs"
    using xs(1) by (simp add: get_available_trade_amounts_def remaining_or_total_def)
  then show ?thesis
    using xs by (auto simp: validate_offer_trade_amount_def remaining_or_total_def offered_amounts_def
        split: if_splits)
qed

lemma trade_amount_Inr:
  assumes "off_remaining offer = Some r"
  shows "trade_amount offer a = Inr q \<longleftrightarrow> q = a \<and> a \<in> offered_amounts r (off_is_wholesale offer) (lots_of offer)"
proof -
  obtain m av where v: "validate_offer_trade_amount (PInt (off_quantity offer)) (PInt r)
      (off_is_wholesale offer) (lots_value (off_lot_sizes offer)) (PInt a) =
      Inr (a \<in> offered_amounts r (off_is_wholesale offer) (lots_of offer), m, a, av)"
    using validate_amount_of_offer unfolding lots_of_def by blast
  show ?thesis
    using assms by (auto simp: trade_amount_def remaining_value_def v split: bool.splits)
qed

text \<open>The consistency of an offer row: the remainder is known and bounded, the offer is completed
  exactly when nothing remains, and the open lots of a retail offer are positive and add up to the
  remainder.\<close>

definition offer_ok :: "trade_offer \<Rightarrow> bool" where
  "offer_ok offer \<longleftrightarrow>
     (\<exists>r. off_remaining offer = Some r \<and> 0 \<le> r \<and> r \<le> off_quantity offer \<and>
        (off_status offer = OFFER_COMPLETED \<longleftrightarrow> r = 0) \<and>
        (\<not> off_is_wholesale offer \<and> lots_of offer \<noteq> [] \<longrightarrow>
           (\<forall>l \<in> set (lots_of offer). 0 < l) \<and> sum_list (lots_of offer) = r))"

lemma sum_list_remove1_int: "(x :: int) \<in> set xs \<Longrightarrow> sum_list (remove1 x xs) = sum_list xs - x"
  by (induction xs) auto

lemma mutation_of_offered:
  assumes "off_remaining offer = Some r"
    and "a \<in> offered_amounts r (off_is_wholesale offer) (lots_of offer)"
  shows "\<exists>offer' b. apply_offer_trade_mutation offer a = Inr (offer', b) \<and>
    off_remaining offer' = Some (r - a) \<and>
    (off_status offer' = (if a = r then OFFER_COMPLETED else off_status offer)) \<and>
    (lots_of offer' = (if a = r then [] else remove1 a (lots_of offer)))"
  using assms
  by (auto simp: apply_offer_trade_mutation_def offered_amounts_def lots_of_def Let_def
      split: option.splits if_splits)

lemma mutation_frame:
  assumes "apply_offer_trade_mutation offer a = Inr (offer', b)"
  shows "off_id offer' = off_id offer \<and> off_quantity offer' = off_quantity offer \<and>
    off_is_wholesale offer' = off_is_wholesale offer \<and> off_price offer' = off_price offer \<and>
    off_user_id offer' = off_user_id offer"
  using assms by (auto simp: apply_offer_trade_mutation_def Let_def split: option.splits if_splits)

lemma mutation_ok:
  assumes ok: "offer_ok offer" and am: "trade_amount offer a = Inr q"
  shows "\<exists>offer' b r. apply_offer_trade_mutation offer q = Inr (offer', b) \<and> offer_ok offer' \<and>
    off_remaining offer = Some r \<and> off_remaining offer' = Some (r - q) \<and> 0 < q \<and> q \<le> r"
proof -
  obtain r where r: "off_remaining offer = Some r" "0 \<le> r" "r \<le> off_quantity offer"
    "off_status offer = OFFER_COMPLETED \<longleftrightarrow> r = 0"
    "\<not> off_is_wholesale offer \<and> lots_of offer \<noteq> [] \<longrightarrow>
       (\<forall>l \<in> set (lots_of offer). 0 < l) \<and> sum_list (lots_of offer) = r"
    using ok by (auto simp: offer_ok_def)
  have q: "q = a" "q \<in> offered_amounts r (off_is_wholesale offer) (lots_of offer)"
    using am trade_amount_Inr [OF r(1)] by auto
  then have b: "0 < q" "q \<le> r" by (auto simp: offered_amounts_def split: if_splits)
  obtain offer' f where m: "apply_offer_trade_mutation offer q = Inr (offer', f)"
    "off_remaining offer' = Some (r - q)"
    "off_status offer' = (if q = r then OFFER_COMPLETED else off_status offer)"
    "lots_of offer' = (if q = r then [] else remove1 q (lots_of offer))"
    using mutation_of_offered [OF r(1) q(2)] by blast
  have partial: "q \<noteq> r \<Longrightarrow> \<not> off_is_wholesale offer \<Longrightarrow> q \<in> set (lots_of offer)"
    using q(2) by (auto simp: offered_amounts_def split: if_splits)
  have "offer_ok offer'"
    unfolding offer_ok_def
    using m r b partial mutation_frame [OF m(1)]
    by (auto simp: sum_list_remove1_int dest: in_set_remove1 [THEN iffD1] set_remove1_subset [THEN subsetD])
  with m r(1) b show ?thesis by blast
qed

section \<open>Lemmas on plans and legs\<close>

definition plan_ok :: "plan_node list \<Rightarrow> bool" where
  "plan_ok nodes \<longleftrightarrow> nodes \<noteq> [] \<and> (\<forall>n \<in> set nodes. 0 < fst n) \<and>
     (\<forall>i. Suc i < length nodes \<longrightarrow> fst (nodes ! i) \<noteq> fst (nodes ! Suc i))"

lemma append_node_ok:
  assumes "append_trade_execution_node nodes uid u = Inr nodes'" and "plan_ok nodes"
  shows "plan_ok nodes' \<and> hd nodes' = hd nodes \<and> fst (last nodes') = uid \<and>
    length nodes \<le> length nodes' \<and> length nodes' \<le> Suc (length nodes)"
proof -
  have "plan_ok (nodes @ [(uid, v)])" if "fst (last nodes) \<noteq> uid" "0 < uid" for v
    using that assms(2)
    by (auto simp: plan_ok_def nth_append last_conv_nth less_Suc_eq) (metis diff_Suc_Suc diff_zero)
  then show ?thesis
    using assms by (auto simp: append_trade_execution_node_def coerce_trade_user_id_def plan_ok_def
        split: if_splits option.splits)
qed

lemma build_plan_ok:
  assumes "build_trade_execution_plan ou oU su sU ru rU wu wU = Inr nodes"
  shows "plan_ok nodes \<and> fst (hd nodes) = ou \<and> fst (last nodes) = wu \<and> length nodes \<le> 4"
proof -
  obtain n0 ns1 ns2 where b: "build_trade_execution_node ou oU = Inr n0"
    "(if su \<noteq> ou then append_trade_execution_node [n0] su sU else Inr [n0]) = Inr ns1"
    "append_trade_execution_node ns1 ru rU = Inr ns2"
    "append_trade_execution_node ns2 wu wU = Inr nodes"
    using assms by (auto simp: build_trade_execution_plan_def split: sum.splits)
  have n0: "plan_ok [n0]" "fst n0 = ou"
    using b(1) by (auto simp: build_trade_execution_node_def coerce_trade_user_id_def plan_ok_def
        split: option.splits if_splits)
  have ns1: "plan_ok ns1 \<and> hd ns1 = n0 \<and> length ns1 \<le> 2"
    using b(2) n0 append_node_ok [of "[n0]" su sU ns1] by (auto split: if_splits)
  show ?thesis
    using ns1 n0 append_node_ok [OF b(3)] append_node_ok [OF b(4)] by auto
qed

lemma length_chain_legs [simp]: "length (chain_legs mk k nodes) = length nodes - 1"
  by (induction mk k nodes rule: chain_legs.induct) auto

lemma nth_chain_legs:
  "Suc i < length nodes \<Longrightarrow> chain_legs mk k nodes ! i = mk (k + i) (nodes ! i) (nodes ! Suc i)"
proof (induction mk k nodes arbitrary: i rule: chain_legs.induct)
  case (1 mk k a b rest)
  then show ?case by (cases i) auto
qed auto

text \<open>The shape of the rows of one execution, in terms of the plan.\<close>

definition legs_ok ::
  "trade_request \<Rightarrow> trade_offer \<Rightarrow> trade_terms \<Rightarrow> trade list \<Rightarrow> bool" where
  "legs_ok rq offer terms ts \<longleftrightarrow>
     ts \<noteq> [] \<and> length ts = length (tt_nodes terms) - 1 \<and>
     trd_offer_user_id (hd ts) = off_user_id offer \<and>
     trd_responder_user_id (last ts) = tu_id (rq_owner rq) \<and>
     (\<forall>i. Suc i < length ts \<longrightarrow> trd_responder_user_id (ts ! i) = trd_offer_user_id (ts ! Suc i)) \<and>
     (\<forall>i < length ts.
        trd_offer_user_id (ts ! i) \<noteq> trd_responder_user_id (ts ! i) \<and>
        trd_offer_id (ts ! i) = (if i = 0 then Some (off_id offer) else None) \<and>
        trd_idempotency_key (ts ! i) = (if Suc i = length ts then rq_idempotency_key rq else None) \<and>
        trd_quantity (ts ! i) = tt_quantity terms \<and> trd_completed (ts ! i) \<and>
        trd_price (ts ! i) = (if Suc i = length ts then tt_price terms else off_price offer))"

lemma chain_legs_ok:
  assumes plan: "plan_ok (tt_nodes terms)" "fst (hd (tt_nodes terms)) = off_user_id offer"
      "fst (last (tt_nodes terms)) = tu_id (rq_owner rq)" "2 < length (tt_nodes terms)"
    and price: "\<not> tt_tier2 terms \<Longrightarrow> tt_price terms = off_price offer"
  shows "legs_ok rq offer terms (chain_legs (leg_trade env rq offer terms numbers) 0 (tt_nodes terms))"
proof -
  let ?ts = "chain_legs (leg_trade env rq offer terms numbers) 0 (tt_nodes terms)"
  let ?ns = "tt_nodes terms"
  have "length ?ts \<noteq> 0" using plan(4) by simp
  then have ne: "?ts \<noteq> []" by fastforce
  have n: "?ts ! i = leg_trade env rq offer terms numbers i (?ns ! i) (?ns ! Suc i)"
    if "Suc i < length ?ns" for i using nth_chain_legs [OF that] by simp
  have first: "hd ?ts = leg_trade env rq offer terms numbers 0 (?ns ! 0) (?ns ! Suc 0)"
    using ne n [of 0] plan(4) by (simp add: hd_conv_nth)
  have last: "last ?ts = leg_trade env rq offer terms numbers (length ?ns - 2) (?ns ! (length ?ns - 2))
      (?ns ! (length ?ns - 1))"
    using ne n [of "length ?ns - 2"] plan(4) by (simp add: last_conv_nth Suc_diff_Suc numeral_2_eq_2)
  have hdns: "hd ?ns = ?ns ! 0" "last ?ns = ?ns ! (length ?ns - 1)"
    using plan(1) by (auto simp: plan_ok_def hd_conv_nth last_conv_nth)
  show ?thesis
    unfolding legs_ok_def
    using ne plan price first last hdns
    by (auto simp: n leg_trade_def plan_ok_def Let_def)
qed

lemma price_Inr:
  assumes "executed_price offer rel = Inr (p, t2)"
  shows "\<not> t2 \<Longrightarrow> p = off_price offer"
  using assms by (auto simp: executed_price_def split: option.splits if_splits sum.splits)

lemma terms_Inr:
  assumes "trade_terms_for env rq offer trades = Inr terms"
  shows "trade_amount offer (rq_quantity rq) = Inr (tt_quantity terms) \<and>
    plan_ok (tt_nodes terms) \<and> fst (hd (tt_nodes terms)) = off_user_id offer \<and>
    fst (last (tt_nodes terms)) = tu_id (rq_owner rq) \<and> length (tt_nodes terms) \<le> 4 \<and>
    (\<not> tt_tier2 terms \<longrightarrow> tt_price terms = off_price offer)"
  using assms price_Inr build_plan_ok
  unfolding trade_terms_for_def Let_def
  by (auto split: sum.splits option.splits prod.splits)

lemma terms_gates:
  assumes "trade_terms_for env rq offer trades = Inr terms"
  shows "\<exists>responder_rel source_rel.
    get_active_customer_relation_for_customer (ee_relations env) (tu_id (rq_owner rq)) = Inr responder_rel \<and>
    get_active_customer_relation_for_customer (ee_relations env) (off_user_id offer) = Inr source_rel \<and>
    fst (is_trade_blocked_by_principals (ee_blocks env) (tu_id (rq_owner rq)) (off_user_id offer)
      responder_rel source_rel) = None \<and>
    limits_gate env trades (tu_id (rq_owner rq)) responder_rel (off_user_id offer) source_rel
      (tt_quantity terms) = None \<and>
    executed_price offer responder_rel = Inr (tt_price terms, tt_tier2 terms)"
  using assms unfolding trade_terms_for_def Let_def
  by (auto split: sum.splits option.splits prod.splits)

lemma new_trades_ok:
  assumes "plan_ok (tt_nodes terms)" "fst (hd (tt_nodes terms)) = off_user_id offer"
    "fst (last (tt_nodes terms)) = tu_id (rq_owner rq)" "off_user_id offer \<noteq> tu_id (rq_owner rq)"
    "\<not> tt_tier2 terms \<longrightarrow> tt_price terms = off_price offer"
  shows "legs_ok rq offer terms (new_trades env rq offer terms trades)"
proof (cases "2 < length (tt_nodes terms)")
  case True
  then show ?thesis
    using chain_legs_ok [OF assms(1-3) True] assms(5)
    by (simp add: new_trades_def uses_customer_trade_chain_def Let_def)
next
  case False
  have "length (tt_nodes terms) \<noteq> 1" using assms(2-4) by (auto simp: length_Suc_conv)
  moreover have "length (tt_nodes terms) \<noteq> 0" using assms(1) by (simp add: plan_ok_def)
  ultimately have two: "length (tt_nodes terms) = 2" using False by linarith
  then show ?thesis
    using False assms(4)
    by (simp add: new_trades_def uses_customer_trade_chain_def Let_def legs_ok_def direct_trade_def)
qed

lemma execute_Executed:
  assumes "execute_trade env rq st = (Executed ts, st')"
  shows "\<exists>terms offer' b. trade_guards env rq (es_offer st) = None \<and>
    trade_terms_for env rq (es_offer st) (es_trades st) = Inr terms \<and>
    find_by_key (es_trades st) (rq_idempotency_key rq) = Inr None \<and>
    apply_offer_trade_mutation (es_offer st) (tt_quantity terms) = Inr (offer', b) \<and>
    ts = new_trades env rq (es_offer st) terms (es_trades st) \<and>
    st' = st\<lparr>es_offer := offer', es_trades := es_trades st @ ts\<rparr>"
  using assms
  by (auto simp: execute_trade_def commit_trade_def Let_def
      split: option.splits sum.splits list.splits prod.splits)

lemma execute_not_Executed:
  assumes "execute_trade env rq st = (out, st')" and "\<forall>ts. out \<noteq> Executed ts"
  shows "st' = st"
  using assms
  by (auto simp: execute_trade_def commit_trade_def Let_def
      split: option.splits sum.splits list.splits prod.splits)

lemma guards_None:
  assumes "trade_guards env rq offer = None"
  shows "off_user_id offer \<noteq> tu_id (rq_owner rq) \<and> classify_trade_request_intake env rq offer = AUTOMATIC \<and>
    (off_status offer = OFFER_ACTIVE \<or> is_time_limit_expired_offer offer) \<and>
    (\<exists>u. find_user (ee_users env) (off_user_id offer) = Some u \<and> \<not> tu_inactive u)"
  using assms
  by (cases "classify_trade_request_intake env rq offer")
    (auto simp: trade_guards_def Let_def is_offer_expired_for_trade_def split: if_splits option.splits)

lemma executed_legs:
  assumes "execute_trade env rq st = (Executed ts, st')"
  shows "\<exists>terms. trade_terms_for env rq (es_offer st) (es_trades st) = Inr terms \<and>
    legs_ok rq (es_offer st) terms ts"
  using execute_Executed [OF assms] terms_Inr guards_None new_trades_ok by metis

section \<open>The invariant of an offer and its trades\<close>

definition traded_quantity :: "exec_state \<Rightarrow> int" where
  "traded_quantity st =
     sum_list (map trd_quantity (filter (\<lambda>t. trd_offer_id t = Some (off_id (es_offer st))) (es_trades st)))"

definition live_keys :: "trade list \<Rightarrow> string list" where
  "live_keys ts = filter (\<lambda>k. k \<noteq> []) (List.map_filter trd_idempotency_key ts)"

definition exec_ok :: "exec_state \<Rightarrow> bool" where
  "exec_ok st \<longleftrightarrow> offer_ok (es_offer st) \<and> distinct (live_keys (es_trades st)) \<and>
     (\<forall>r. off_remaining (es_offer st) = Some r \<longrightarrow> traded_quantity st + r = off_quantity (es_offer st))"

text \<open>A new offer: nothing traded yet, and its lots, when it has any, were accepted by the validation
  of lots under settings with a positive minimum lot.\<close>

definition exec_init :: "exec_state \<Rightarrow> bool" where
  "exec_init st \<longleftrightarrow>
     distinct (live_keys (es_trades st)) \<and>
     (\<forall>t \<in> set (es_trades st). trd_offer_id t \<noteq> Some (off_id (es_offer st))) \<and>
     0 < off_quantity (es_offer st) \<and> off_remaining (es_offer st) = Some (off_quantity (es_offer st)) \<and>
     off_status (es_offer st) = OFFER_ACTIVE \<and>
     (lots_of (es_offer st) \<noteq> [] \<longrightarrow>
        (\<exists>settings m r. 0 < lot_min_size settings \<and>
           check_lot_sizes settings (off_quantity (es_offer st)) (lots_of (es_offer st)) = (True, m, r)))"

inductive exec_step :: "exec_state \<Rightarrow> exec_state \<Rightarrow> bool" where
  exec_stepI: "execute_trade env rq st = (out, st') \<Longrightarrow> exec_step st st'"

inductive_cases exec_stepE: "exec_step st st'"

lemma legs_offer_rows:
  assumes "legs_ok rq offer terms ts"
  shows "filter (\<lambda>t. trd_offer_id t = Some (off_id offer)) ts = [hd ts]"
proof -
  obtain t rest where ts: "ts = t # rest" using assms by (cases ts) (auto simp: legs_ok_def)
  have "trd_offer_id (ts ! i) = (if i = 0 then Some (off_id offer) else None)" if "i < length ts" for i
    using assms that by (simp add: legs_ok_def)
  then have "trd_offer_id t = Some (off_id offer)" "\<forall>x \<in> set rest. trd_offer_id x = None"
    using ts by (force simp: in_set_conv_nth)+
  then show ?thesis using ts by (simp add: filter_empty_conv)
qed

lemma legs_keys:
  assumes "legs_ok rq offer terms ts"
  shows "List.map_filter trd_idempotency_key ts =
    (case rq_idempotency_key rq of None \<Rightarrow> [] | Some k \<Rightarrow> [k])"
proof -
  obtain us u where ts: "ts = us @ [u]" using assms by (cases ts rule: rev_cases) (auto simp: legs_ok_def)
  have k: "trd_idempotency_key (ts ! i) = (if Suc i = length ts then rq_idempotency_key rq else None)"
    if "i < length ts" for i using assms that by (simp add: legs_ok_def)
  have "\<forall>x \<in> set us. trd_idempotency_key x = None"
  proof
    fix x assume "x \<in> set us"
    then obtain i where "i < length us" "us ! i = x" by (auto simp: in_set_conv_nth)
    then show "trd_idempotency_key x = None" using k [of i] ts by (simp add: nth_append)
  qed
  moreover have "trd_idempotency_key u = rq_idempotency_key rq"
    using k [of "length us"] ts by simp
  ultimately show ?thesis
    using ts by (simp add: List.map_filter_def filter_empty_conv split: option.splits)
qed

lemma find_by_key_None:
  assumes "find_by_key trades key = Inr None" and "key = Some k" and "k \<noteq> []"
  shows "k \<notin> set (live_keys trades)"
  using assms
  by (auto simp: find_by_key_def scalar_one_or_none_None live_keys_def List.map_filter_def
      filter_empty_conv)

lemma live_keys_append: "live_keys (xs @ ys) = live_keys xs @ live_keys ys"
  by (simp add: live_keys_def List.map_filter_def)

lemma exec_ok_step: "exec_ok st \<Longrightarrow> exec_step st st' \<Longrightarrow> exec_ok st'"
proof (elim exec_stepE)
  fix env rq out assume ok: "exec_ok st" and ex: "execute_trade env rq st = (out, st')"
  show "exec_ok st'"
  proof (cases "\<exists>ts. out = Executed ts")
    case False
    then show ?thesis using execute_not_Executed [OF ex] ok by simp
  next
    case True
    then obtain ts where ex': "execute_trade env rq st = (Executed ts, st')" using ex by blast
    obtain terms offer' b where e: "trade_terms_for env rq (es_offer st) (es_trades st) = Inr terms"
      "find_by_key (es_trades st) (rq_idempotency_key rq) = Inr None"
      "apply_offer_trade_mutation (es_offer st) (tt_quantity terms) = Inr (offer', b)"
      "st' = st\<lparr>es_offer := offer', es_trades := es_trades st @ ts\<rparr>"
      using execute_Executed [OF ex'] by blast
    have legs: "legs_ok rq (es_offer st) terms ts"
      using executed_legs [OF ex'] e(1) by auto
    obtain r where m: "offer_ok offer'" "off_remaining (es_offer st) = Some r"
      "off_remaining offer' = Some (r - tt_quantity terms)"
      using mutation_ok [of "es_offer st"] terms_Inr [OF e(1)] ok e(3) by (fastforce simp: exec_ok_def)
    have "trd_quantity (hd ts) = tt_quantity terms"
      using legs by (auto simp: legs_ok_def hd_conv_nth)
    then have "traded_quantity st' = traded_quantity st + tt_quantity terms"
      using mutation_frame [OF e(3)] legs_offer_rows [OF legs] e(4) by (simp add: traded_quantity_def)
    moreover have "distinct (live_keys (es_trades st @ ts))"
      using ok find_by_key_None [OF e(2)] legs_keys [OF legs]
      by (auto simp: exec_ok_def live_keys_append live_keys_def [of ts] split: option.splits)
    ultimately show ?thesis
      using ok m e(4) mutation_frame [OF e(3)] by (auto simp: exec_ok_def)
  qed
qed

lemma exec_ok_init: "exec_init st \<Longrightarrow> exec_ok st"
  by (force simp: exec_init_def exec_ok_def offer_ok_def traded_quantity_def check_lot_sizes_True_iff
      filter_empty_conv)

interpretation trading: invariant_system exec_init exec_step exec_ok
  by unfold_locales (auto intro: exec_ok_init exec_ok_step)

section \<open>Properties of trade execution\<close>

text \<open>C1: An offer is never oversold: in every state that trade executions reach from a new offer, the
  quantities of its trades and the remainder add up to the offered quantity, the remainder is not
  negative, the offer is completed exactly when nothing remains, and the open lots of a retail offer
  are positive and add up to the remainder.\<close>

theorem offer_never_oversold:
  assumes "reachable exec_init exec_step st"
  shows "\<exists>r. off_remaining (es_offer st) = Some r \<and> 0 \<le> r \<and>
    traded_quantity st + r = off_quantity (es_offer st) \<and>
    (off_status (es_offer st) = OFFER_COMPLETED \<longleftrightarrow> r = 0) \<and>
    (\<not> off_is_wholesale (es_offer st) \<and> lots_of (es_offer st) \<noteq> [] \<longrightarrow>
       (\<forall>l \<in> set (lots_of (es_offer st)). 0 < l) \<and> sum_list (lots_of (es_offer st)) = r)"
  using trading.reachable_invar [OF assms] by (auto simp: exec_ok_def offer_ok_def)

definition sample_env :: exec_env where
  "sample_env =
     \<lparr>ee_relations = [], ee_blocks = [],
      ee_users = [\<lparr>tu_id = 1, tu_mobile = None, tu_inactive = False\<rparr>,
                  \<lparr>tu_id = 2, tu_mobile = None, tu_inactive = False\<rparr>],
      ee_day_bounds = (0, 86400000000), ee_now = Naive 1000, ee_normal_minutes = 10,
      ee_grace_seconds = 3, ee_numbers = MaxRow\<rparr>"

definition sample_offer :: trade_offer where
  "sample_offer =
     \<lparr>off_id = 5, off_user_id = 1, off_type = SELL, off_commodity_id = 3, off_settlement = CASH,
      off_quantity = 30, off_remaining = Some 30, off_is_wholesale = False,
      off_lot_sizes = Some [20, 10], off_status = OFFER_ACTIVE, off_price = 75800,
      off_created_at = Some (Naive 0), off_overtime_snapshot = PInt 0, off_time_limit_expired = False\<rparr>"

definition sample_request :: "int \<Rightarrow> string \<Rightarrow> trade_request" where
  "sample_request q k =
     \<lparr>rq_quantity = q, rq_idempotency_key = Some k,
      rq_owner = \<lparr>tu_id = 2, tu_mobile = None, tu_inactive = False\<rparr>, rq_actor_id = 2,
      rq_edge_received_at = None\<rparr>"

definition sample_state :: exec_state where
  "sample_state = \<lparr>es_offer = sample_offer, es_trades = []\<rparr>"

lemma sample_init: "exec_init sample_state"
proof -
  have "check_lot_sizes default_settings 30 [20, 10] = (True, NoMessage, Some [20, 10])" by code_simp
  moreover have "0 < lot_min_size default_settings" by code_simp
  ultimately show ?thesis
    unfolding exec_init_def sample_state_def sample_offer_def lots_of_def live_keys_def List.map_filter_def
    by auto
qed

lemma sample_execution:
  "off_remaining (es_offer (snd (execute_trade sample_env (sample_request 10 ''k'') sample_state))) = Some 20"
  by code_simp

theorem offer_never_oversold_witness:
  "reachable exec_init exec_step (snd (execute_trade sample_env (sample_request 10 ''k'') sample_state)) \<and>
   traded_quantity (snd (execute_trade sample_env (sample_request 10 ''k'') sample_state)) = 10"
proof -
  let ?st = "snd (execute_trade sample_env (sample_request 10 ''k'') sample_state)"
  have "exec_step sample_state ?st" by (rule exec_stepI) (rule prod.collapse [symmetric])
  then have r: "reachable exec_init exec_step ?st"
    using sample_init by (meson reachable_init reachable_step)
  have "off_quantity (es_offer ?st) = 30" by code_simp
  then show ?thesis using r offer_never_oversold [OF r] sample_execution by auto
qed

text \<open>C10: An amount that the validation accepts on a consistent offer is never refused by the mutation
  of the offer: the remainder decreases by exactly that amount, the row stays consistent, a partial
  trade of a retail offer with lots removes exactly one lot of that size, and the offer is completed
  exactly when the amount is the whole remainder.\<close>

theorem accepted_amount_is_booked:
  assumes "offer_ok offer" and "off_remaining offer = Some r" and "trade_amount offer a = Inr q"
  shows "\<exists>offer' b. apply_offer_trade_mutation offer q = Inr (offer', b) \<and> offer_ok offer' \<and>
    q = a \<and> 0 < q \<and> off_remaining offer' = Some (r - q) \<and>
    (q = r \<longrightarrow> off_status offer' = OFFER_COMPLETED \<and> off_lot_sizes offer' = None) \<and>
    (q < r \<longrightarrow> off_status offer' = off_status offer \<and>
       mset (lots_of offer') + {#q#} = mset (lots_of offer))"
proof -
  have q: "q = a" "q \<in> offered_amounts r (off_is_wholesale offer) (lots_of offer)"
    using assms(3) trade_amount_Inr [OF assms(2)] by auto
  obtain offer' b where m: "apply_offer_trade_mutation offer q = Inr (offer', b)" "offer_ok offer'"
    "off_remaining offer' = Some (r - q)" "0 < q" "q \<le> r"
    using mutation_ok [OF assms(1,3)] assms(2) by auto
  have s: "off_status offer' = (if q = r then OFFER_COMPLETED else off_status offer)"
    "lots_of offer' = (if q = r then [] else remove1 q (lots_of offer))"
    using mutation_of_offered [OF assms(2) q(2)] m(1) by auto
  have "q = r \<Longrightarrow> off_lot_sizes offer' = None"
    using m(1) assms(2) by (auto simp: apply_offer_trade_mutation_def)
  moreover have "q < r \<Longrightarrow> q \<in> set (lots_of offer)"
    using q(2) by (auto simp: offered_amounts_def split: if_splits)
  ultimately show ?thesis using m s q(1) by auto
qed

theorem accepted_amount_is_booked_witness:
  "\<exists>offer' b. apply_offer_trade_mutation sample_offer 20 = Inr (offer', b) \<and>
     off_remaining offer' = Some 10 \<and> mset (lots_of offer') + {#20#} = {#20, 10#}"
proof -
  have ok: "offer_ok sample_offer" by (simp add: offer_ok_def sample_offer_def lots_of_def)
  have r: "off_remaining sample_offer = Some 30" by (simp add: sample_offer_def)
  have a: "trade_amount sample_offer 20 = Inr 20" by code_simp
  have "mset (lots_of sample_offer) = {#20, 10#}" by (simp add: lots_of_def sample_offer_def)
  then show ?thesis using accepted_amount_is_booked [OF ok r a] by auto
qed

text \<open>C18: The rows of an executed trade form a chain from the offer's owner to the responder: each leg
  starts where the previous one ended, no leg joins a user to himself, there are at most three legs,
  the offer is referenced by the first leg only and the idempotency key is stored on the last leg only,
  every leg carries the requested quantity, and only the last leg may differ from the offer's price.\<close>

theorem executed_trade_chain:
  assumes "execute_trade env rq st = (Executed ts, st')"
  shows "ts \<noteq> [] \<and> length ts \<le> 3 \<and> es_trades st' = es_trades st @ ts \<and>
    trd_offer_user_id (hd ts) = off_user_id (es_offer st) \<and>
    trd_responder_user_id (last ts) = tu_id (rq_owner rq) \<and>
    (\<forall>i. Suc i < length ts \<longrightarrow> trd_responder_user_id (ts ! i) = trd_offer_user_id (ts ! Suc i)) \<and>
    (\<forall>i < length ts.
       trd_offer_user_id (ts ! i) \<noteq> trd_responder_user_id (ts ! i) \<and>
       trd_offer_id (ts ! i) = (if i = 0 then Some (off_id (es_offer st)) else None) \<and>
       trd_idempotency_key (ts ! i) = (if Suc i = length ts then rq_idempotency_key rq else None) \<and>
       (Suc i < length ts \<longrightarrow> trd_price (ts ! i) = off_price (es_offer st)))"
proof -
  obtain terms where t: "trade_terms_for env rq (es_offer st) (es_trades st) = Inr terms"
    "legs_ok rq (es_offer st) terms ts" using executed_legs [OF assms] by blast
  have "length ts \<le> 3" using t(2) terms_Inr [OF t(1)] by (auto simp: legs_ok_def)
  moreover have "es_trades st' = es_trades st @ ts" using execute_Executed [OF assms] by auto
  ultimately show ?thesis using t(2) by (auto simp: legs_ok_def)
qed

text \<open>Two customers of two owners: the trade has three legs.\<close>

definition sample_relation :: "int \<Rightarrow> int \<Rightarrow> int \<Rightarrow> customer_tier \<Rightarrow> customer_relation" where
  "sample_relation rid owner customer tier =
     \<lparr>rel_id = rid, rel_owner_user_id = owner, rel_customer_user_id = Some customer,
      rel_management_name = [], rel_customer_tier = tier, rel_commission_rate = None,
      rel_min_trade_quantity = Some 5, rel_max_trade_quantity = Some 40, rel_max_daily_trades = Some 2,
      rel_max_daily_commodity_volume = Some 60, rel_trading_restricted_until = None,
      rel_status = REL_ACTIVE, rel_deleted = False\<rparr>"

definition chain_env :: exec_env where
  "chain_env = sample_env\<lparr>ee_relations := [sample_relation 7 3 1 TIER_1, sample_relation 8 4 2 TIER_2],
     ee_users := map (\<lambda>i. \<lparr>tu_id = i, tu_mobile = None, tu_inactive = False\<rparr>) [1, 2, 3, 4]\<rparr>"

lemma chain_execution:
  "\<exists>ts st'. execute_trade chain_env (sample_request 10 ''k'') sample_state = (Executed ts, st') \<and>
     length ts = 3"
proof -
  have "case execute_trade chain_env (sample_request 10 ''k'') sample_state of
      (Executed ts, st') \<Rightarrow> length ts = 3 | _ \<Rightarrow> False" by code_simp
  then show ?thesis by (auto split: prod.splits exec_outcome.splits)
qed

theorem executed_trade_chain_witness:
  "\<exists>ts st'. execute_trade chain_env (sample_request 10 ''k'') sample_state = (Executed ts, st') \<and>
     length ts = 3 \<and> trd_responder_user_id (ts ! 0) = trd_offer_user_id (ts ! 1) \<and>
     trd_responder_user_id (last ts) = 2"
proof -
  obtain ts st' where e: "execute_trade chain_env (sample_request 10 ''k'') sample_state = (Executed ts, st')"
    "length ts = 3" using chain_execution by blast
  show ?thesis
    using e executed_trade_chain [OF e(1)] by (auto simp: sample_request_def numeral_3_eq_3)
qed

lemma live_keys_mono: "exec_step\<^sup>*\<^sup>* st st' \<Longrightarrow> set (live_keys (es_trades st)) \<subseteq> set (live_keys (es_trades st'))"
proof (induction rule: rtranclp_induct)
  case (step y z)
  then obtain env rq out where ex: "execute_trade env rq y = (out, z)" by (auto elim: exec_stepE)
  show ?case
  proof (cases "\<exists>ts. out = Executed ts")
    case True
    then show ?thesis
      using execute_Executed ex step.IH by (fastforce simp: live_keys_append)
  next
    case False
    then show ?thesis using execute_not_Executed [OF ex] step.IH by auto
  qed
qed simp

lemma executed_key_live:
  assumes "execute_trade env rq st = (Executed ts, st')" "rq_idempotency_key rq = Some k" "k \<noteq> []"
  shows "k \<in> set (live_keys (es_trades st'))"
proof -
  obtain terms where "legs_ok rq (es_offer st) terms ts" using executed_legs [OF assms(1)] by blast
  then have "live_keys ts = [k]" using legs_keys assms(2,3) by (fastforce simp: live_keys_def)
  moreover have "es_trades st' = es_trades st @ ts" using execute_Executed [OF assms(1)] by auto
  ultimately show ?thesis by (simp add: live_keys_append)
qed

text \<open>C2: A request is executed at most once per idempotency key: after an execution with a key, no
  sequence of further executions makes a request with that key execute again; it is replayed or
  rejected and changes nothing.\<close>

theorem executed_at_most_once_per_key:
  assumes "execute_trade env rq st = (Executed ts, st1)"
    and "rq_idempotency_key rq = Some k" and "k \<noteq> []"
    and "exec_step\<^sup>*\<^sup>* st1 st2"
    and "rq_idempotency_key rq' = Some k"
  shows "(\<forall>us st'. execute_trade env' rq' st2 \<noteq> (Executed us, st')) \<and> snd (execute_trade env' rq' st2) = st2"
proof -
  have "k \<in> set (live_keys (es_trades st2))"
    using executed_key_live [OF assms(1-3)] live_keys_mono [OF assms(4)] by blast
  then have no: "execute_trade env' rq' st2 \<noteq> (Executed us, st')" for us st'
    using execute_Executed [of env' rq' st2 us st'] find_by_key_None [OF _ assms(5,3)] by blast
  obtain out st' where o: "execute_trade env' rq' st2 = (out, st')" by (cases "execute_trade env' rq' st2")
  then show ?thesis using no execute_not_Executed [OF o] by auto
qed

theorem executed_at_most_once_per_key_witness:
  "\<exists>ts st1. execute_trade chain_env (sample_request 10 ''k'') sample_state = (Executed ts, st1) \<and>
     snd (execute_trade chain_env (sample_request 20 ''k'') st1) = st1"
proof -
  obtain ts st1 where e: "execute_trade chain_env (sample_request 10 ''k'') sample_state = (Executed ts, st1)"
    using chain_execution by blast
  have k: "rq_idempotency_key (sample_request 10 ''k'') = Some ''k''"
    "rq_idempotency_key (sample_request 20 ''k'') = Some ''k''" by (simp_all add: sample_request_def)
  show ?thesis
    using e executed_at_most_once_per_key [OF e k(1) _ rtranclp.rtrancl_refl k(2)] by blast
qed

text \<open>The customers' limits at execution time.\<close>

lemma locked_relation_self:
  assumes "distinct (map rel_id rows)"
    and "get_active_customer_relation_for_customer rows uid = Inr (Some rel)"
  shows "locked_relation rows (rel_id rel) = Some rel \<and> rel_customer_user_id rel = Some uid"
proof -
  have "rel \<in> set (filter (\<lambda>r. rel_customer_user_id r = Some uid \<and> rel_status r = REL_ACTIVE \<and>
      \<not> rel_deleted r) rows)"
    using assms(2)
    by (simp add: get_active_customer_relation_for_customer_def scalar_one_or_none_Some)
  then have in_rows: "rel \<in> set rows" "rel_customer_user_id rel = Some uid" "rel_status rel = REL_ACTIVE"
    "\<not> rel_deleted rel" by auto
  have "find (\<lambda>r. rel_id r = rel_id rel \<and> rel_status r = REL_ACTIVE \<and> \<not> rel_deleted r) rows = Some rel"
    using assms(1) in_rows by (induction rows) (auto simp: rev_image_eqI)
  then show ?thesis using in_rows by (simp add: locked_relation_def)
qed

lemma enforce_expected_all:
  assumes "enforce_expected rows trades db q now es = Enforced" and "(uid, rid) \<in> set es"
    and "locked_relation rows rid = Some rel"
  shows "relation_has_customer_trade_policy rel \<longrightarrow>
    (\<exists>t v. customer_trade_limit_failure_code (Some rel) q t v now = Inr None \<and>
      ((rel_max_daily_trades rel \<noteq> None \<or> rel_max_daily_commodity_volume rel \<noteq> None) \<longrightarrow>
        (t, v) = load_customer_daily_trade_usage trades uid (fst db) (snd db)))"
  using assms
proof (induction rows trades db q now es rule: enforce_expected.induct)
  case (2 rows trades db q now u r rest)
  obtain rel' where l: "locked_relation rows r = Some rel'"
    using "2.prems"(1) by (auto split: option.splits)
  show ?case
  proof (cases "(uid, rid) \<in> set rest")
    case True
    then show ?thesis
      using 2 l by (auto split: if_splits option.splits sum.splits prod.splits)
  next
    case False
    then have "(uid, rid) = (u, r)" "rel' = rel" using "2.prems" l by auto
    then show ?thesis
      using "2.prems"(1) l
      by (cases "load_customer_daily_trade_usage trades uid (fst db) (snd db)")
        (auto split: if_splits option.splits sum.splits)
  qed
qed simp

lemma expected_relations_mem:
  "expected_relations d = Inr es \<Longrightarrow> (uid, Some rel) \<in> set d \<Longrightarrow> (uid, rel_id rel) \<in> set es"
  by (induction d arbitrary: es rule: expected_relations.induct) (auto split: if_splits sum.splits)

lemma no_policy_no_limits:
  "\<not> relation_has_customer_trade_policy rel \<Longrightarrow> within_limits rel q \<and>
     rel_max_daily_trades rel = None \<and> rel_max_daily_commodity_volume rel = None \<and>
     rel_trading_restricted_until rel = None"
  by (simp add: relation_has_customer_trade_policy_def within_limits_def below_limit_def above_limit_def)

definition party_within_limits :: "exec_env \<Rightarrow> trade list \<Rightarrow> int \<Rightarrow> customer_relation \<Rightarrow> int \<Rightarrow> bool" where
  "party_within_limits env trades uid rel q \<longleftrightarrow>
     (let usage = load_customer_daily_trade_usage (map usage_of trades) uid
            (fst (ee_day_bounds env)) (snd (ee_day_bounds env))
      in within_limits rel q \<and> \<not> restricted_at rel (as_naive_utc (ee_now env)) \<and>
         (\<forall>l. rel_max_daily_trades rel = Some l \<longrightarrow> fst usage < l) \<and>
         (\<forall>l. rel_max_daily_commodity_volume rel = Some l \<longrightarrow> snd usage + q \<le> l))"

lemma limits_gate_party:
  assumes gate: "limits_gate env trades uid responder_rel oid source_rel q = None" and "uid \<noteq> oid"
    and ids: "distinct (map rel_id (ee_relations env))"
    and party: "(p, Some rel) \<in> {(uid, responder_rel), (oid, source_rel)}"
    and act: "get_active_customer_relation_for_customer (ee_relations env) p = Inr (Some rel)"
  shows "party_within_limits env trades p rel q"
proof -
  let ?d = "dict_put oid source_rel (dict_put uid responder_rel [])"
  have "(p, Some rel) \<in> set ?d" using assms(2) party by auto
  moreover obtain es where es: "expected_relations ?d = Inr es"
    "enforce_expected (ee_relations env) (map usage_of trades) (ee_day_bounds env) q (ee_now env) es = Enforced"
    using gate
    by (auto simp: limits_gate_def enforce_customer_trade_limits_for_trade_def
        split: sum.splits enforcement_result.splits)
  ultimately have "(p, rel_id rel) \<in> set es" using expected_relations_mem by blast
  then have e: "relation_has_customer_trade_policy rel \<longrightarrow>
    (\<exists>t v. customer_trade_limit_failure_code (Some rel) q t v (ee_now env) = Inr None \<and>
      ((rel_max_daily_trades rel \<noteq> None \<or> rel_max_daily_commodity_volume rel \<noteq> None) \<longrightarrow>
        (t, v) = load_customer_daily_trade_usage (map usage_of trades) p
          (fst (ee_day_bounds env)) (snd (ee_day_bounds env))))"
    using enforce_expected_all [OF es(2)] locked_relation_self [OF ids act] by blast
  show ?thesis
  proof (cases "relation_has_customer_trade_policy rel")
    case True
    then show ?thesis
      using e by (auto simp: party_within_limits_def trade_limit_None_iff Let_def
          dest!: prod_eq_iff [THEN iffD1])
  next
    case False
    then show ?thesis
      using no_policy_no_limits by (auto simp: party_within_limits_def restricted_at_def Let_def)
  qed
qed

text \<open>C20: Every executed trade respects the policy of both sides: for the responder and for the offer's
  owner, when the user is a customer with an active relation, the quantity is within the customer's
  bounds, the customer is not restricted, and the day's number of trades and volume before the trade
  leave room for it.\<close>

theorem executed_trade_within_limits:
  assumes "execute_trade env rq st = (Executed ts, st')"
    and "distinct (map rel_id (ee_relations env))"
    and "p \<in> {tu_id (rq_owner rq), off_user_id (es_offer st)}"
    and "get_active_customer_relation_for_customer (ee_relations env) p = Inr (Some rel)"
  shows "party_within_limits env (es_trades st) p rel (trd_quantity (hd ts))"
proof -
  obtain terms where t: "trade_terms_for env rq (es_offer st) (es_trades st) = Inr terms"
    "legs_ok rq (es_offer st) terms ts" using executed_legs [OF assms(1)] by blast
  have "trd_quantity (hd ts) = tt_quantity terms" using t(2) by (auto simp: legs_ok_def hd_conv_nth)
  moreover have "tu_id (rq_owner rq) \<noteq> off_user_id (es_offer st)"
    using execute_Executed [OF assms(1)] guards_None by metis
  ultimately show ?thesis
    using terms_gates [OF t(1)] assms(3,4) limits_gate_party [OF _ _ assms(2) _ assms(4)]
    by fastforce
qed

theorem executed_trade_within_limits_witness:
  "\<exists>ts st'. execute_trade chain_env (sample_request 10 ''k'') sample_state = (Executed ts, st') \<and>
     party_within_limits chain_env (es_trades sample_state) 2 (sample_relation 8 4 2 TIER_2)
       (trd_quantity (hd ts))"
proof -
  obtain ts st' where e: "execute_trade chain_env (sample_request 10 ''k'') sample_state = (Executed ts, st')"
    using chain_execution by blast
  have d: "distinct (map rel_id (ee_relations chain_env))"
    by (simp add: chain_env_def sample_relation_def)
  have m: "2 \<in> {tu_id (rq_owner (sample_request 10 ''k'')), off_user_id (es_offer sample_state)}"
    by (simp add: sample_request_def)
  have g: "get_active_customer_relation_for_customer (ee_relations chain_env) 2 =
      Inr (Some (sample_relation 8 4 2 TIER_2))"
    by (simp add: chain_env_def sample_relation_def get_active_customer_relation_for_customer_def
        scalar_one_or_none_def)
  show ?thesis using e executed_trade_within_limits [OF e d m g] by blast
qed

section \<open>Offers created within the owner's limits\<close>

text \<open>The offers that \<open>customer_offer_limit_failure_code\<close> lets a customer create, and what stays true of
  them while they are traded.\<close>

definition limited_init :: "customer_relation \<Rightarrow> exec_state \<Rightarrow> bool" where
  "limited_init rel st \<longleftrightarrow> exec_init st \<and>
     (\<exists>now. customer_offer_limit_failure_code (Some rel) (off_quantity (es_offer st))
        (off_is_wholesale (es_offer st)) (lots_of (es_offer st)) now = Inr None)"

definition limited_ok :: "customer_relation \<Rightarrow> exec_state \<Rightarrow> bool" where
  "limited_ok rel st \<longleftrightarrow> exec_ok st \<and> within_limits rel (off_quantity (es_offer st)) \<and>
     (\<not> off_is_wholesale (es_offer st) \<longrightarrow> (\<forall>l \<in> set (lots_of (es_offer st)). within_limits rel l)) \<and>
     (off_is_wholesale (es_offer st) \<or> lots_of (es_offer st) = [] \<longrightarrow>
        off_remaining (es_offer st) \<in> {Some 0, Some (off_quantity (es_offer st))})"

lemma mem_le_sum_list: "\<forall>x \<in> set xs. (0 :: int) < x \<Longrightarrow> l \<in> set xs \<Longrightarrow> l \<le> sum_list xs"
proof (induction xs)
  case (Cons x xs)
  have "0 \<le> sum_list xs" using Cons.prems(1) by (intro sum_list_nonneg) (auto intro: less_imp_le)
  then show ?case using Cons by fastforce
qed simp

lemma limited_offered:
  assumes ok: "limited_ok rel st" and am: "trade_amount (es_offer st) a = Inr q"
  shows "within_limits rel q"
proof -
  let ?o = "es_offer st"
  obtain r where r: "off_remaining ?o = Some r" "r \<le> off_quantity ?o"
    "\<not> off_is_wholesale ?o \<and> lots_of ?o \<noteq> [] \<longrightarrow>
       (\<forall>l \<in> set (lots_of ?o). 0 < l) \<and> sum_list (lots_of ?o) = r"
    using ok by (auto simp: limited_ok_def exec_ok_def offer_ok_def)
  have q: "q \<in> offered_amounts r (off_is_wholesale ?o) (lots_of ?o)"
    using am trade_amount_Inr [OF r(1)] by auto
  show ?thesis
  proof (cases "off_is_wholesale ?o \<or> lots_of ?o = []")
    case True
    then have "q = off_quantity ?o"
      using q ok r(1) by (auto simp: offered_amounts_def limited_ok_def split: if_splits)
    then show ?thesis using ok by (simp add: limited_ok_def)
  next
    case False
    then obtain l where l: "l \<in> set (lots_of ?o)" by (cases "lots_of ?o") auto
    have lots: "\<forall>l \<in> set (lots_of ?o). within_limits rel l" using ok False by (simp add: limited_ok_def)
    have "l \<le> r" using mem_le_sum_list l r(3) False by blast
    then have "within_limits rel r"
      using within_limits_between lots l ok r(2) by (meson limited_ok_def)
    then show ?thesis using q lots by (auto simp: offered_amounts_def split: if_splits)
  qed
qed

lemma limited_step:
  assumes ok: "limited_ok rel st" and step: "exec_step st st'"
  shows "limited_ok rel st'"
proof -
  obtain env rq out where ex: "execute_trade env rq st = (out, st')" using step by (auto elim: exec_stepE)
  have ok': "exec_ok st" "exec_ok st'" using ok step exec_ok_step by (auto simp: limited_ok_def)
  show ?thesis
  proof (cases "\<exists>ts. out = Executed ts")
    case False
    then show ?thesis using execute_not_Executed [OF ex] ok by simp
  next
    case True
    then obtain terms b where e: "trade_terms_for env rq (es_offer st) (es_trades st) = Inr terms"
      "apply_offer_trade_mutation (es_offer st) (tt_quantity terms) = Inr (es_offer st', b)"
      using execute_Executed ex by fastforce
    let ?q = "tt_quantity terms"
    obtain r where r: "off_remaining (es_offer st) = Some r" using ok' by (auto simp: exec_ok_def offer_ok_def)
    have q: "?q \<in> offered_amounts r (off_is_wholesale (es_offer st)) (lots_of (es_offer st))"
      using terms_Inr [OF e(1)] trade_amount_Inr [OF r] by auto
    have m: "off_remaining (es_offer st') = Some (r - ?q)"
      "lots_of (es_offer st') = (if ?q = r then [] else remove1 ?q (lots_of (es_offer st)))"
      using mutation_of_offered [OF r q] e(2) by auto
    have full: "off_is_wholesale (es_offer st) \<or> lots_of (es_offer st) = [] \<Longrightarrow> ?q = r"
      using q by (auto simp: offered_amounts_def split: if_splits)
    have "lots_of (es_offer st') = [] \<Longrightarrow> ?q = r"
    proof (rule ccontr)
      assume none: "lots_of (es_offer st') = []" and ne: "?q \<noteq> r"
      then have c: "\<not> off_is_wholesale (es_offer st)" "lots_of (es_offer st) \<noteq> []" using full by auto
      then have "?q \<in> set (lots_of (es_offer st))" "sum_list (lots_of (es_offer st)) = r"
        using q ne ok' r by (auto simp: offered_amounts_def exec_ok_def offer_ok_def split: if_splits)
      then show False using none m(2) ne sum_list_remove1_int [of ?q "lots_of (es_offer st)"] by auto
    qed
    then have empty: "off_is_wholesale (es_offer st) \<or> lots_of (es_offer st') = [] \<Longrightarrow>
        off_remaining (es_offer st') = Some 0"
      using full m(1) by auto
    have "set (lots_of (es_offer st')) \<subseteq> set (lots_of (es_offer st))"
      using m(2) set_remove1_subset by (simp split: if_splits)
    then show ?thesis
      using ok ok'(2) empty mutation_frame [OF e(2)] unfolding limited_ok_def by auto
  qed
qed

lemma limited_start: "limited_init rel st \<Longrightarrow> limited_ok rel st"
proof -
  assume i: "limited_init rel st"
  then obtain now where "customer_offer_limit_failure_code (Some rel) (off_quantity (es_offer st))
      (off_is_wholesale (es_offer st)) (lots_of (es_offer st)) now = Inr None" and e: "exec_init st"
    by (auto simp: limited_init_def)
  from offer_limit_None [OF this(1)] show ?thesis
    using exec_ok_init [OF e] e by (simp add: limited_ok_def exec_init_def)
qed

interpretation limited: invariant_system "limited_init rel" exec_step "limited_ok rel" for rel
  by unfold_locales (auto intro: limited_start limited_step)

text \<open>A customer's offer that passed the limits at creation stays within them for its whole life:
  after any executions, every amount the validation still accepts lies between the customer's minimum
  and maximum, the remainder of a partly traded offer included.\<close>

theorem offer_amounts_stay_within_limits:
  assumes "reachable (limited_init rel) exec_step st" and "trade_amount (es_offer st) a = Inr q"
  shows "within_limits rel q"
  using limited_offered [OF limited.reachable_invar [OF assms(1)] assms(2)] .

theorem offer_amounts_stay_within_limits_witness:
  "reachable (limited_init (sample_relation 7 3 1 TIER_1)) exec_step sample_state \<and>
   within_limits (sample_relation 7 3 1 TIER_1) 20"
proof -
  have "customer_offer_limit_failure_code (Some (sample_relation 7 3 1 TIER_1)) 30 False [20, 10] (Naive 0) =
      Inr None"
    by (simp add: customer_offer_limit_failure_code_def sample_relation_def normalize_non_negative_int_def
        restricted_at_def below_limit_def above_limit_def)
  then have "limited_init (sample_relation 7 3 1 TIER_1) sample_state"
    using sample_init unfolding limited_init_def sample_state_def
    by (auto simp: sample_offer_def lots_of_def)
  then have r: "reachable (limited_init (sample_relation 7 3 1 TIER_1)) exec_step sample_state" by blast
  have a: "trade_amount (es_offer sample_state) 20 = Inr 20" by code_simp
  show ?thesis using r offer_amounts_stay_within_limits [OF r a] by simp
qed

section \<open>Selling out\<close>

text \<open>Trading a list of amounts one after the other, with the validation before each mutation.\<close>

fun trade_sequence :: "trade_offer \<Rightarrow> int list \<Rightarrow> rejection + trade_offer" where
  "trade_sequence offer [] = Inr offer"
| "trade_sequence offer (a # as) =
     (case trade_amount offer a of
        Inl e \<Rightarrow> Inl e
      | Inr q \<Rightarrow>
          (case apply_offer_trade_mutation offer q of
             Inl e \<Rightarrow> Inl e
           | Inr (offer', _) \<Rightarrow> trade_sequence offer' as))"

text \<open>C21: The lots of a retail offer can be taken in any order: every sequence of requests that is a
  permutation of the open lots is accepted and booked one by one, and leaves the offer completed with
  nothing remaining.\<close>

theorem lots_sell_out_in_any_order:
  assumes "offer_ok offer" and "\<not> off_is_wholesale offer" and "as \<noteq> []"
    and "mset as = mset (lots_of offer)"
  shows "\<exists>offer'. trade_sequence offer as = Inr offer' \<and> off_remaining offer' = Some 0 \<and>
    off_status offer' = OFFER_COMPLETED \<and> off_lot_sizes offer' = None"
  using assms
proof (induction as arbitrary: offer)
  case (Cons a as)
  have a: "a \<in> set (lots_of offer)" using Cons.prems(4) by (metis list.set_intros(1) mset_eq_setD)
  then have ne: "lots_of offer \<noteq> []" by auto
  then obtain r where r: "off_remaining offer = Some r" "\<forall>l \<in> set (lots_of offer). 0 < l"
    "sum_list (lots_of offer) = r" using Cons.prems(1,2) by (auto simp: offer_ok_def)
  have "0 < a" "a \<le> r" using a r mem_le_sum_list by auto
  then have off: "a \<in> offered_amounts r (off_is_wholesale offer) (lots_of offer)"
    using a Cons.prems(2) by (auto simp: offered_amounts_def)
  then have am: "trade_amount offer a = Inr a" using trade_amount_Inr [OF r(1)] by simp
  obtain offer1 b where m: "apply_offer_trade_mutation offer a = Inr (offer1, b)" "offer_ok offer1"
    using mutation_ok [OF Cons.prems(1) am] by auto
  have m2: "off_remaining offer1 = Some (r - a)"
    "off_status offer1 = (if a = r then OFFER_COMPLETED else off_status offer)"
    "lots_of offer1 = (if a = r then [] else remove1 a (lots_of offer))"
    using mutation_of_offered [OF r(1) off] m(1) by auto
  have rest: "mset as = mset (remove1 a (lots_of offer))"
    using Cons.prems(4) by (metis add_mset_remove_trivial mset.simps(2) mset_remove1)
  show ?case
  proof (cases "as = []")
    case True
    then have "lots_of offer = [a]" using Cons.prems(4) by (metis mset_single_iff mset.simps(1,2))
    then have "a = r" using r(3) by simp
    moreover have "a = r \<Longrightarrow> off_lot_sizes offer1 = None"
      using m(1) r(1) by (auto simp: apply_offer_trade_mutation_def)
    ultimately show ?thesis using True am m(1) m2 by simp
  next
    case False
    then have "remove1 a (lots_of offer) \<noteq> []" using rest by (metis mset_zero_iff)
    moreover have "\<forall>l \<in> set (remove1 a (lots_of offer)). 0 < l"
      using r(2) by (meson notin_set_remove1)
    ultimately have "0 < sum_list (remove1 a (lots_of offer))"
      by (metis hd_in_set less_le_trans mem_le_sum_list)
    then have "a \<noteq> r" using sum_list_remove1_int [OF a] r(3) by simp
    then show ?thesis
      using Cons.IH [of offer1] m m2 False rest am mutation_frame [OF m(1)] Cons.prems(2) by simp
  qed
qed simp

theorem lots_sell_out_in_any_order_witness:
  "\<exists>offer'. trade_sequence sample_offer [10, 20] = Inr offer' \<and> off_remaining offer' = Some 0 \<and>
     off_status offer' = OFFER_COMPLETED"
proof -
  have h: "offer_ok sample_offer" "\<not> off_is_wholesale sample_offer" "[10, 20] \<noteq> ([] :: int list)"
    "mset [10, 20] = mset (lots_of sample_offer)"
    by (simp_all add: offer_ok_def sample_offer_def lots_of_def)
  show ?thesis using lots_sell_out_in_any_order [OF h] by blast
qed

section \<open>Trade numbers\<close>

lemma max_trade_number_ge:
  assumes "t \<in> set trades"
  shows "trd_number t \<le> max_trade_number trades"
proof (cases trades)
  case (Cons u us)
  then have "trd_number t \<le> fold max (map trd_number us) (trd_number u)"
    using assms fold_max_ge [of "trd_number u" "map trd_number us"] by auto
  then show ?thesis using Cons by (auto simp: max_trade_number_def Let_def)
qed (use assms in simp)

lemma allocate_numbers_nth:
  "k < n \<Longrightarrow> allocate_trade_numbers src trades n ! k =
     (case src of Nextval f \<Rightarrow> f k | MaxRow \<Rightarrow> max_trade_number trades + 1 + int k)"
  by (cases src) (auto simp: allocate_trade_numbers_def allocate_next_trade_number_def Let_def)

lemma new_trades_number:
  assumes "i < length (new_trades env rq offer terms trades)"
  shows "trd_number (new_trades env rq offer terms trades ! i) =
    (case ee_numbers env of Nextval f \<Rightarrow> f i | MaxRow \<Rightarrow> max_trade_number trades + 1 + int i)"
proof (cases "uses_customer_trade_chain (tt_nodes terms)")
  case True
  then have n: "Suc i < length (tt_nodes terms)" "max 1 (length (tt_nodes terms) - 1) = length (tt_nodes terms) - 1"
    using assms by (auto simp: new_trades_def Let_def uses_customer_trade_chain_def)
  then show ?thesis
    using True by (simp add: new_trades_def Let_def nth_chain_legs leg_trade_def allocate_numbers_nth)
next
  case False
  then show ?thesis
    using assms by (auto simp: new_trades_def Let_def direct_trade_def allocate_numbers_nth
        split: number_source.splits)
qed

text \<open>The numbers of the legs of one execution are pairwise distinct; where they are taken from the
  table rather than from a database sequence, they are consecutive and greater than every number
  already stored.  The sequence is relied on to hand out a value once.\<close>

theorem trade_numbers_are_fresh:
  assumes "execute_trade env rq st = (Executed ts, st')"
    and "\<forall>f. ee_numbers env = Nextval f \<longrightarrow> inj f"
  shows "distinct (map trd_number ts) \<and>
    (ee_numbers env = MaxRow \<longrightarrow>
       (\<forall>i. Suc i < length ts \<longrightarrow> trd_number (ts ! Suc i) = trd_number (ts ! i) + 1) \<and>
       (\<forall>t \<in> set ts. \<forall>u \<in> set (es_trades st). trd_number u < trd_number t))"
proof -
  obtain terms where ts: "ts = new_trades env rq (es_offer st) terms (es_trades st)"
    using execute_Executed [OF assms(1)] by blast
  have n: "trd_number (ts ! i) =
      (case ee_numbers env of Nextval f \<Rightarrow> f i | MaxRow \<Rightarrow> max_trade_number (es_trades st) + 1 + int i)"
    if "i < length ts" for i using new_trades_number that ts by simp
  have "distinct (map trd_number ts)"
    using assms(2) n by (auto simp: distinct_conv_nth inj_eq split: number_source.splits)
  moreover have "trd_number u < trd_number t"
    if src: "ee_numbers env = MaxRow" and t: "t \<in> set ts" and u: "u \<in> set (es_trades st)" for t u
  proof -
    obtain i where "i < length ts" "t = ts ! i" using t by (auto simp: in_set_conv_nth)
    then show ?thesis using n [of i] src max_trade_number_ge [OF u] by simp
  qed
  ultimately show ?thesis using n by auto
qed

theorem trade_numbers_are_fresh_witness:
  "\<exists>ts st'. execute_trade chain_env (sample_request 10 ''k'') sample_state = (Executed ts, st') \<and>
     distinct (map trd_number ts)"
proof -
  obtain ts st' where e: "execute_trade chain_env (sample_request 10 ''k'') sample_state = (Executed ts, st')"
    using chain_execution by blast
  have "\<forall>f. ee_numbers chain_env = Nextval f \<longrightarrow> inj f" by (simp add: chain_env_def sample_env_def)
  then show ?thesis using e trade_numbers_are_fresh [OF e] by blast
qed
end
