(* ===== verification/DeliveryContract.thy ===== *)
theory DeliveryContract
  imports Prelude
begin

text \<open>
  The pure contract of the shared Telegram delivery queue (\<open>core/telegram_delivery_queue_contract.py\<close>):
  its enumerations and tables, the priority of an action, the deduplication key, the delivery job, the
  claim order, and the freshness decision before a send.  Date-times are aware UTC values, counted in
  microseconds; a payload is only compared, so it is a string.
\<close>

section \<open>Enumerations\<close>

datatype delivery_priority = M0 | M1 | M2 | M3 | M4 | M5 | M6 | M7

fun priority_level :: "delivery_priority \<Rightarrow> int" where
  "priority_level M0 = 0"
| "priority_level M1 = 1"
| "priority_level M2 = 2"
| "priority_level M3 = 3"
| "priority_level M4 = 4"
| "priority_level M5 = 5"
| "priority_level M6 = 6"
| "priority_level M7 = 7"

datatype feeder_kind = FEED_OFFER_CONTROL | FEED_OFFER_EDIT | FEED_TRADE | FEED_ADMIN_SYSTEM
  | FEED_MARKET_STATUS | FEED_TIMED_BOT | FEED_DIRECT

fun feeder_value :: "feeder_kind \<Rightarrow> string" where
  "feeder_value FEED_OFFER_CONTROL = ''offer_control''"
| "feeder_value FEED_OFFER_EDIT = ''offer_edit''"
| "feeder_value FEED_TRADE = ''trade''"
| "feeder_value FEED_ADMIN_SYSTEM = ''admin_system''"
| "feeder_value FEED_MARKET_STATUS = ''market_status''"
| "feeder_value FEED_TIMED_BOT = ''timed_bot''"
| "feeder_value FEED_DIRECT = ''direct''"

datatype destination_class = DEST_PRIVATE | DEST_CHANNEL | DEST_ADMIN

datatype delivery_action =
    CALLBACK_DEADLINE
  | OTP_DEADLINE
  | OVERTIME_OWNER_APPROVAL
  | OFFER_PUBLISH
  | OFFER_SUCCESS
  | OFFER_VALIDATION_RESPONSE
  | OFFER_EXPIRY_CALLBACK
  | OFFER_REPEAT_RESPONSE
  | GENERAL_IMMEDIATE
  | PREAUTH_INTERACTION
  | PREAUTH_INTERACTION_EDIT
  | TRADE_RESULT
  | TRADE_RESPONSE
  | TRADE_ALTERNATIVE
  | TRADE_UNAVAILABLE
  | TRADE_NONCRITICAL
  | PARTIAL_OFFER_EDIT
  | TRADED_OFFER_EDIT
  | EXPIRED_OFFER_EDIT
  | CANCELLED_OFFER_EDIT
  | OTHER_ACTIVE_OFFER_EDIT
  | OVERTIME_CHANNEL_EDIT
  | FINAL_TAIL_CHANNEL_EDIT
  | INVALID_ACTION_BUTTON_EDIT
  | RECONCILIATION_EDIT
  | NEW_USER_MEMBERSHIP
  | ACCOUNT_STATUS
  | CHANNEL_MEMBER_BAN
  | CHANNEL_MEMBER_UNBAN
  | TARGETED_ADMIN_MESSAGE
  | ADMIN_BROADCAST
  | GENERAL_ANNOUNCEMENT
  | MARKET_TRANSITION
  | MARKET_STATUS_CORRECTION
  | NONCRITICAL_MARKET
  | TIMED_SECURITY
  | DELAYED_RESTRICTION
  | TEMPORARY_CLEANUP
  | COSMETIC_CLEANUP

fun action_value :: "delivery_action \<Rightarrow> string" where
  "action_value CALLBACK_DEADLINE = ''callback_deadline''"
| "action_value OTP_DEADLINE = ''otp_deadline''"
| "action_value OVERTIME_OWNER_APPROVAL = ''overtime_owner_approval''"
| "action_value OFFER_PUBLISH = ''offer_publish''"
| "action_value OFFER_SUCCESS = ''offer_success''"
| "action_value OFFER_VALIDATION_RESPONSE = ''offer_validation_response''"
| "action_value OFFER_EXPIRY_CALLBACK = ''offer_expiry_callback''"
| "action_value OFFER_REPEAT_RESPONSE = ''offer_repeat_response''"
| "action_value GENERAL_IMMEDIATE = ''general_immediate''"
| "action_value PREAUTH_INTERACTION = ''preauth_interaction''"
| "action_value PREAUTH_INTERACTION_EDIT = ''preauth_interaction_edit''"
| "action_value TRADE_RESULT = ''trade_result''"
| "action_value TRADE_RESPONSE = ''trade_response''"
| "action_value TRADE_ALTERNATIVE = ''trade_alternative''"
| "action_value TRADE_UNAVAILABLE = ''trade_unavailable''"
| "action_value TRADE_NONCRITICAL = ''trade_noncritical''"
| "action_value PARTIAL_OFFER_EDIT = ''partial_offer_edit''"
| "action_value TRADED_OFFER_EDIT = ''traded_offer_edit''"
| "action_value EXPIRED_OFFER_EDIT = ''expired_offer_edit''"
| "action_value CANCELLED_OFFER_EDIT = ''cancelled_offer_edit''"
| "action_value OTHER_ACTIVE_OFFER_EDIT = ''other_active_offer_edit''"
| "action_value OVERTIME_CHANNEL_EDIT = ''overtime_channel_edit''"
| "action_value FINAL_TAIL_CHANNEL_EDIT = ''final_tail_channel_edit''"
| "action_value INVALID_ACTION_BUTTON_EDIT = ''invalid_action_button_edit''"
| "action_value RECONCILIATION_EDIT = ''reconciliation_edit''"
| "action_value NEW_USER_MEMBERSHIP = ''new_user_membership''"
| "action_value ACCOUNT_STATUS = ''account_status''"
| "action_value CHANNEL_MEMBER_BAN = ''channel_member_ban''"
| "action_value CHANNEL_MEMBER_UNBAN = ''channel_member_unban''"
| "action_value TARGETED_ADMIN_MESSAGE = ''targeted_admin_message''"
| "action_value ADMIN_BROADCAST = ''admin_broadcast''"
| "action_value GENERAL_ANNOUNCEMENT = ''general_announcement''"
| "action_value MARKET_TRANSITION = ''market_transition''"
| "action_value MARKET_STATUS_CORRECTION = ''market_status_correction''"
| "action_value NONCRITICAL_MARKET = ''noncritical_market''"
| "action_value TIMED_SECURITY = ''timed_security''"
| "action_value DELAYED_RESTRICTION = ''delayed_restriction''"
| "action_value TEMPORARY_CLEANUP = ''temporary_cleanup''"
| "action_value COSMETIC_CLEANUP = ''cosmetic_cleanup''"

definition all_actions :: "delivery_action list" where
  "all_actions =
     [CALLBACK_DEADLINE,
      OTP_DEADLINE,
      OVERTIME_OWNER_APPROVAL,
      OFFER_PUBLISH,
      OFFER_SUCCESS,
      OFFER_VALIDATION_RESPONSE,
      OFFER_EXPIRY_CALLBACK,
      OFFER_REPEAT_RESPONSE,
      GENERAL_IMMEDIATE,
      PREAUTH_INTERACTION,
      PREAUTH_INTERACTION_EDIT,
      TRADE_RESULT,
      TRADE_RESPONSE,
      TRADE_ALTERNATIVE,
      TRADE_UNAVAILABLE,
      TRADE_NONCRITICAL,
      PARTIAL_OFFER_EDIT,
      TRADED_OFFER_EDIT,
      EXPIRED_OFFER_EDIT,
      CANCELLED_OFFER_EDIT,
      OTHER_ACTIVE_OFFER_EDIT,
      OVERTIME_CHANNEL_EDIT,
      FINAL_TAIL_CHANNEL_EDIT,
      INVALID_ACTION_BUTTON_EDIT,
      RECONCILIATION_EDIT,
      NEW_USER_MEMBERSHIP,
      ACCOUNT_STATUS,
      CHANNEL_MEMBER_BAN,
      CHANNEL_MEMBER_UNBAN,
      TARGETED_ADMIN_MESSAGE,
      ADMIN_BROADCAST,
      GENERAL_ANNOUNCEMENT,
      MARKET_TRANSITION,
      MARKET_STATUS_CORRECTION,
      NONCRITICAL_MARKET,
      TIMED_SECURITY,
      DELAYED_RESTRICTION,
      TEMPORARY_CLEANUP,
      COSMETIC_CLEANUP]"

fun action_priority_and_rank :: "delivery_action \<Rightarrow> delivery_priority \<times> nat" where
  "action_priority_and_rank CALLBACK_DEADLINE = (M0, 0)"
| "action_priority_and_rank OTP_DEADLINE = (M0, 0)"
| "action_priority_and_rank OFFER_EXPIRY_CALLBACK = (M0, 0)"
| "action_priority_and_rank OVERTIME_OWNER_APPROVAL = (M0, 1)"
| "action_priority_and_rank OFFER_PUBLISH = (M0, 2)"
| "action_priority_and_rank OFFER_SUCCESS = (M1, 0)"
| "action_priority_and_rank TRADE_RESULT = (M1, 1)"
| "action_priority_and_rank OFFER_VALIDATION_RESPONSE = (M1, 2)"
| "action_priority_and_rank OFFER_REPEAT_RESPONSE = (M1, 2)"
| "action_priority_and_rank TRADE_RESPONSE = (M1, 3)"
| "action_priority_and_rank TRADE_ALTERNATIVE = (M1, 3)"
| "action_priority_and_rank TRADE_UNAVAILABLE = (M1, 3)"
| "action_priority_and_rank GENERAL_IMMEDIATE = (M1, 4)"
| "action_priority_and_rank PREAUTH_INTERACTION = (M0, 1)"
| "action_priority_and_rank PREAUTH_INTERACTION_EDIT = (M0, 1)"
| "action_priority_and_rank PARTIAL_OFFER_EDIT = (M2, 0)"
| "action_priority_and_rank NEW_USER_MEMBERSHIP = (M2, 1)"
| "action_priority_and_rank TRADED_OFFER_EDIT = (M3, 0)"
| "action_priority_and_rank MARKET_TRANSITION = (M4, 0)"
| "action_priority_and_rank MARKET_STATUS_CORRECTION = (M4, 0)"
| "action_priority_and_rank EXPIRED_OFFER_EDIT = (M4, 1)"
| "action_priority_and_rank CANCELLED_OFFER_EDIT = (M4, 2)"
| "action_priority_and_rank INVALID_ACTION_BUTTON_EDIT = (M4, 3)"
| "action_priority_and_rank ACCOUNT_STATUS = (M5, 0)"
| "action_priority_and_rank CHANNEL_MEMBER_BAN = (M5, 0)"
| "action_priority_and_rank CHANNEL_MEMBER_UNBAN = (M5, 1)"
| "action_priority_and_rank TIMED_SECURITY = (M5, 0)"
| "action_priority_and_rank DELAYED_RESTRICTION = (M5, 0)"
| "action_priority_and_rank TARGETED_ADMIN_MESSAGE = (M5, 1)"
| "action_priority_and_rank OTHER_ACTIVE_OFFER_EDIT = (M5, 2)"
| "action_priority_and_rank OVERTIME_CHANNEL_EDIT = (M5, 2)"
| "action_priority_and_rank FINAL_TAIL_CHANNEL_EDIT = (M5, 2)"
| "action_priority_and_rank TRADE_NONCRITICAL = (M5, 3)"
| "action_priority_and_rank ADMIN_BROADCAST = (M6, 0)"
| "action_priority_and_rank GENERAL_ANNOUNCEMENT = (M6, 1)"
| "action_priority_and_rank NONCRITICAL_MARKET = (M6, 2)"
| "action_priority_and_rank RECONCILIATION_EDIT = (M6, 3)"
| "action_priority_and_rank TEMPORARY_CLEANUP = (M7, 0)"
| "action_priority_and_rank COSMETIC_CLEANUP = (M7, 1)"

definition FEEDER_INTERNAL_RANK :: "((feeder_kind \<times> delivery_action) \<times> nat) list" where
  "FEEDER_INTERNAL_RANK =
     [((FEED_OFFER_CONTROL, OFFER_PUBLISH), 0),
      ((FEED_OFFER_CONTROL, OFFER_SUCCESS), 1),
      ((FEED_OFFER_CONTROL, OFFER_VALIDATION_RESPONSE), 2),
      ((FEED_OFFER_CONTROL, OFFER_EXPIRY_CALLBACK), 3),
      ((FEED_OFFER_CONTROL, INVALID_ACTION_BUTTON_EDIT), 4),
      ((FEED_OFFER_CONTROL, OFFER_REPEAT_RESPONSE), 5),
      ((FEED_OFFER_CONTROL, RECONCILIATION_EDIT), 6),
      ((FEED_OFFER_EDIT, PARTIAL_OFFER_EDIT), 0),
      ((FEED_OFFER_EDIT, TRADED_OFFER_EDIT), 1),
      ((FEED_OFFER_EDIT, EXPIRED_OFFER_EDIT), 2),
      ((FEED_OFFER_EDIT, CANCELLED_OFFER_EDIT), 3),
      ((FEED_OFFER_EDIT, OTHER_ACTIVE_OFFER_EDIT), 4),
      ((FEED_OFFER_EDIT, OVERTIME_CHANNEL_EDIT), 4),
      ((FEED_OFFER_EDIT, FINAL_TAIL_CHANNEL_EDIT), 4),
      ((FEED_OFFER_EDIT, RECONCILIATION_EDIT), 5),
      ((FEED_TRADE, TRADE_RESULT), 0),
      ((FEED_TRADE, TRADE_RESPONSE), 1),
      ((FEED_TRADE, TRADE_ALTERNATIVE), 2),
      ((FEED_TRADE, TRADE_UNAVAILABLE), 3),
      ((FEED_TRADE, INVALID_ACTION_BUTTON_EDIT), 4),
      ((FEED_TRADE, TRADE_NONCRITICAL), 5),
      ((FEED_ADMIN_SYSTEM, NEW_USER_MEMBERSHIP), 0),
      ((FEED_ADMIN_SYSTEM, ACCOUNT_STATUS), 1),
      ((FEED_ADMIN_SYSTEM, TARGETED_ADMIN_MESSAGE), 2),
      ((FEED_ADMIN_SYSTEM, ADMIN_BROADCAST), 3),
      ((FEED_ADMIN_SYSTEM, GENERAL_ANNOUNCEMENT), 4),
      ((FEED_ADMIN_SYSTEM, COSMETIC_CLEANUP), 5),
      ((FEED_ADMIN_SYSTEM, CHANNEL_MEMBER_BAN), 6),
      ((FEED_ADMIN_SYSTEM, CHANNEL_MEMBER_UNBAN), 7),
      ((FEED_MARKET_STATUS, MARKET_TRANSITION), 0),
      ((FEED_MARKET_STATUS, MARKET_STATUS_CORRECTION), 1),
      ((FEED_MARKET_STATUS, NONCRITICAL_MARKET), 2),
      ((FEED_TIMED_BOT, INVALID_ACTION_BUTTON_EDIT), 0),
      ((FEED_TIMED_BOT, TIMED_SECURITY), 1),
      ((FEED_TIMED_BOT, DELAYED_RESTRICTION), 2),
      ((FEED_TIMED_BOT, TEMPORARY_CLEANUP), 3),
      ((FEED_TIMED_BOT, COSMETIC_CLEANUP), 4),
      ((FEED_DIRECT, CALLBACK_DEADLINE), 0),
      ((FEED_DIRECT, GENERAL_IMMEDIATE), 0),
      ((FEED_DIRECT, OVERTIME_OWNER_APPROVAL), 0),
      ((FEED_DIRECT, PREAUTH_INTERACTION), 1),
      ((FEED_DIRECT, PREAUTH_INTERACTION_EDIT), 2)]"

datatype delivery_state = ST_PENDING | ST_LEASED | ST_PENDING_RETRY | ST_PENDING_RECONCILE
  | ST_AMBIGUOUS | ST_AMBIGUOUS_UNRESOLVED | ST_SENT | ST_SENT_NOOP | ST_SUPERSEDED
  | ST_EXPIRED_INTERACTION | ST_PERMANENT_UNDELIVERABLE | ST_TERMINAL_FAILED | ST_QUARANTINED
  | ST_BLOCKED_DESTINATION | ST_BLOCKED_BOT | ST_BLOCKED_GATEWAY

datatype delivery_outcome = OUT_SENT | OUT_SENT_NOOP | OUT_RETRY_PENDING | OUT_DESTINATION_PAUSED
  | OUT_BOT_PAUSED | OUT_GATEWAY_PAUSED | OUT_TERMINAL_FAILED | OUT_PERMANENT_UNDELIVERABLE
  | OUT_QUARANTINED | OUT_AMBIGUOUS | OUT_AMBIGUOUS_UNRESOLVED | OUT_SUPERSEDED
  | OUT_EXPIRED_INTERACTION | OUT_ALREADY_RESOLVED | OUT_STALE_LEASE

datatype freshness_outcome = FRESH_SEND | FRESH_WAIT_DEPENDENCY | FRESH_RECLASSIFY | FRESH_SENT_NOOP
  | FRESH_SUPERSEDED | FRESH_EXPIRED_INTERACTION | FRESH_QUARANTINED

datatype offer_business_state = BIZ_ACTIVE | BIZ_TRADED | BIZ_EXPIRED | BIZ_CANCELLED | BIZ_NEVER_PUBLISHED

definition FINAL_DELIVERY_STATES :: "delivery_state list" where
  "FINAL_DELIVERY_STATES =
     [ST_SENT, ST_SENT_NOOP, ST_SUPERSEDED, ST_EXPIRED_INTERACTION, ST_PERMANENT_UNDELIVERABLE,
      ST_TERMINAL_FAILED, ST_QUARANTINED]"

definition CLAIMABLE_DELIVERY_STATES :: "delivery_state list" where
  "CLAIMABLE_DELIVERY_STATES = [ST_PENDING, ST_PENDING_RETRY]"

section \<open>Errors\<close>

datatype delivery_error =
    ActionNotAllowedForFeeder feeder_kind delivery_action
  | DedupeConflict string
  | LeaseTooShort
  | BotIdentityRequired
  | UnknownJob
  | JobIsNotAmbiguous
  | DeliveredRequiresMessageId
  | RetryConfigInvalid
  | TerminalCannotRevert
  | DuplicateFeederRecord
  | HandoffInterrupted string
  | MainJobMismatch
  | DuplicateCampaign
  | NoInFlightRecipient

section \<open>Ranks and priorities\<close>

definition feeder_internal_rank :: "feeder_kind \<Rightarrow> delivery_action \<Rightarrow> delivery_error + nat" where
  "feeder_internal_rank feeder action =
     (case map_of FEEDER_INTERNAL_RANK (feeder, action) of
        Some r \<Rightarrow> Inr r
      | None \<Rightarrow> Inl (ActionNotAllowedForFeeder feeder action))"

definition priority_and_rank_for_action ::
  "delivery_action \<Rightarrow> int option \<Rightarrow> int option \<Rightarrow> destination_class option \<Rightarrow> delivery_priority \<times> nat" where
  "priority_and_rank_for_action action now deadline dest =
     (if action = OFFER_PUBLISH \<and> dest = Some DEST_CHANNEL then (M0, 0)
      else if action = TRADE_RESULT \<and>
        (case (now, deadline) of (Some n, Some d) \<Rightarrow> n \<ge> d | _ \<Rightarrow> False) then (M0, 1)
      else action_priority_and_rank action)"

section \<open>Deduplication key\<close>

definition netstring :: "string \<Rightarrow> string" where
  "netstring part = nat_str (length part) @ CHR '':'' # part"

definition build_delivery_dedupe_key ::
  "feeder_kind \<Rightarrow> string \<Rightarrow> int \<Rightarrow> delivery_action \<Rightarrow> string \<Rightarrow> string" where
  "build_delivery_dedupe_key feeder source_natural_id source_version action destination_identity =
     concat (separate_by [CHR 0x1F]
       (map netstring [feeder_value feeder, source_natural_id, py_str_int source_version,
                       action_value action, destination_identity]))"

section \<open>Jobs\<close>

record delivery_job =
  job_id :: int
  job_dedupe_key :: string
  job_feeder :: feeder_kind
  job_feeder_rank :: nat
  job_source_natural_id :: string
  job_source_version :: int
  job_destination_key :: string
  job_destination_class :: destination_class
  job_method :: string
  job_payload :: string
  job_action :: delivery_action
  job_created_sequence :: int
  job_bot_identity :: string
  job_delivery_deadline_at :: "int option"
  job_eligible_at :: "int option"
  job_freshness_deadline_at :: "int option"
  job_campaign_id :: "string option"
  job_state :: delivery_state
  job_attempt_count :: int
  job_provider_attempt_count :: int
  job_next_retry_at :: "int option"
  job_lease_until :: "int option"
  job_lease_token :: int
  job_worker_id :: "string option"
  job_last_error_class :: "string option"
  job_last_error_message :: "string option"
  job_telegram_message_id :: "int option"

definition is_terminal :: "delivery_job \<Rightarrow> bool" where
  "is_terminal job \<longleftrightarrow> job_state job \<in> set FINAL_DELIVERY_STATES"

definition effective_priority :: "delivery_job \<Rightarrow> int \<Rightarrow> delivery_priority" where
  "effective_priority job now =
     fst (priority_and_rank_for_action (job_action job) (Some now) (job_delivery_deadline_at job) None)"

text \<open>A deadline, or \<open>float("inf")\<close> where there is none.\<close>

datatype deadline = At int | Never

instantiation deadline :: linorder
begin

fun less_eq_deadline :: "deadline \<Rightarrow> deadline \<Rightarrow> bool" where
  "less_eq_deadline (At a) (At b) = (a \<le> b)"
| "less_eq_deadline x Never = True"
| "less_eq_deadline Never (At b) = False"

fun less_deadline :: "deadline \<Rightarrow> deadline \<Rightarrow> bool" where
  "less_deadline (At a) (At b) = (a < b)"
| "less_deadline (At a) Never = True"
| "less_deadline Never x = False"

instance
proof
  fix x y z :: deadline
  show "(x < y) = (x \<le> y \<and> \<not> y \<le> x)" by (cases x; cases y) auto
  show "x \<le> x" by (cases x) auto
  show "x \<le> y \<Longrightarrow> y \<le> z \<Longrightarrow> x \<le> z" by (cases x; cases y; cases z) auto
  show "x \<le> y \<Longrightarrow> y \<le> x \<Longrightarrow> x = y" by (cases x; cases y) auto
  show "x \<le> y \<or> y \<le> x" by (cases x; cases y) auto
qed

end

definition delivery_order_key :: "int \<Rightarrow> delivery_job \<Rightarrow> int \<times> int \<times> deadline \<times> int" where
  "delivery_order_key now job =
     (let (priority, rank) =
        priority_and_rank_for_action (job_action job) (Some now) (job_delivery_deadline_at job)
          (Some (job_destination_class job))
      in (priority_level priority, int rank,
          (case job_delivery_deadline_at job of Some d \<Rightarrow> At d | None \<Rightarrow> Never),
          job_created_sequence job))"

section \<open>Keyboards\<close>

record keyboard_decision =
  kd_delete_active_anchor :: bool
  kd_remove_reply_keyboard :: bool
  kd_restore_persistent_main_menu :: bool
  kd_remove_stale_business_inline_keyboard :: bool

definition authenticated_keyboard_policy :: "bool \<Rightarrow> bool \<Rightarrow> bool \<Rightarrow> keyboard_decision" where
  "authenticated_keyboard_policy authenticated temporary stale =
     \<lparr>kd_delete_active_anchor = (if authenticated then False else temporary),
      kd_remove_reply_keyboard = (if authenticated then False else temporary),
      kd_restore_persistent_main_menu = (authenticated \<and> temporary),
      kd_remove_stale_business_inline_keyboard = stale\<rparr>"

section \<open>Freshness\<close>

record freshness_snapshot =
  fs_offer_state :: offer_business_state
  fs_interaction_valid :: bool
  fs_channel_message_exists :: bool
  fs_ttl_valid :: bool
  fs_run_id_allowed :: bool

record freshness_decision =
  fd_outcome :: freshness_outcome
  fd_replacement_action :: "delivery_action option"

definition plain_freshness :: "freshness_outcome \<Rightarrow> freshness_decision" where
  "plain_freshness out = \<lparr>fd_outcome = out, fd_replacement_action = None\<rparr>"

fun terminal_edit_replacement :: "offer_business_state \<Rightarrow> delivery_action option" where
  "terminal_edit_replacement BIZ_TRADED = Some TRADED_OFFER_EDIT"
| "terminal_edit_replacement BIZ_EXPIRED = Some EXPIRED_OFFER_EDIT"
| "terminal_edit_replacement BIZ_CANCELLED = Some CANCELLED_OFFER_EDIT"
| "terminal_edit_replacement BIZ_ACTIVE = None"
| "terminal_edit_replacement BIZ_NEVER_PUBLISHED = None"

definition passed :: "int \<Rightarrow> int option \<Rightarrow> bool" where
  "passed now d = (case d of None \<Rightarrow> False | Some t \<Rightarrow> now \<ge> t)"

definition revalidate_delivery :: "delivery_job \<Rightarrow> freshness_snapshot \<Rightarrow> int \<Rightarrow> freshness_decision" where
  "revalidate_delivery job snapshot now =
     (let action = job_action job; biz = fs_offer_state snapshot
      in if action \<in> {CALLBACK_DEADLINE, OTP_DEADLINE, OFFER_EXPIRY_CALLBACK} then
           (if \<not> fs_interaction_valid snapshot \<or> passed now (job_delivery_deadline_at job)
            then plain_freshness FRESH_EXPIRED_INTERACTION else plain_freshness FRESH_SEND)
         else if action = OFFER_PUBLISH \<and>
           (biz \<noteq> BIZ_ACTIVE \<or> passed now (job_freshness_deadline_at job))
         then plain_freshness FRESH_SUPERSEDED
         else if action = PARTIAL_OFFER_EDIT \<and> \<not> fs_channel_message_exists snapshot
         then (if biz = BIZ_NEVER_PUBLISHED then plain_freshness FRESH_SENT_NOOP
               else plain_freshness FRESH_WAIT_DEPENDENCY)
         else if action = PARTIAL_OFFER_EDIT \<and> biz \<noteq> BIZ_ACTIVE
         then \<lparr>fd_outcome = FRESH_RECLASSIFY, fd_replacement_action = terminal_edit_replacement biz\<rparr>
         else if action \<in> {TRADED_OFFER_EDIT, EXPIRED_OFFER_EDIT, CANCELLED_OFFER_EDIT} \<and>
           \<not> fs_channel_message_exists snapshot
         then plain_freshness FRESH_SENT_NOOP
         else if action \<in> {OFFER_SUCCESS, TRADE_ALTERNATIVE, INVALID_ACTION_BUTTON_EDIT} \<and>
           (\<not> fs_interaction_valid snapshot \<or> biz \<noteq> BIZ_ACTIVE)
         then plain_freshness FRESH_SUPERSEDED
         else if action \<in> {ADMIN_BROADCAST, GENERAL_ANNOUNCEMENT} \<and> \<not> fs_ttl_valid snapshot
         then plain_freshness FRESH_SUPERSEDED
         else if action \<in> {TEMPORARY_CLEANUP, COSMETIC_CLEANUP} \<and> \<not> fs_run_id_allowed snapshot
         then plain_freshness FRESH_SUPERSEDED
         else plain_freshness FRESH_SEND)"

text \<open>The job after the decision; the error is the \<open>ValueError\<close> of \<open>feeder_internal_rank\<close>, which is raised
  after the action has been replaced.\<close>

definition apply_freshness_decision ::
  "delivery_job \<Rightarrow> freshness_decision \<Rightarrow> delivery_job \<times> delivery_error option" where
  "apply_freshness_decision job decision =
     (case fd_outcome decision of
        FRESH_SUPERSEDED \<Rightarrow> (job\<lparr>job_state := ST_SUPERSEDED\<rparr>, None)
      | FRESH_EXPIRED_INTERACTION \<Rightarrow> (job\<lparr>job_state := ST_EXPIRED_INTERACTION\<rparr>, None)
      | FRESH_SENT_NOOP \<Rightarrow> (job\<lparr>job_state := ST_SENT_NOOP\<rparr>, None)
      | FRESH_QUARANTINED \<Rightarrow> (job\<lparr>job_state := ST_QUARANTINED\<rparr>, None)
      | FRESH_WAIT_DEPENDENCY \<Rightarrow> (job\<lparr>job_state := ST_PENDING\<rparr>, None)
      | FRESH_RECLASSIFY \<Rightarrow>
          (case fd_replacement_action decision of
             None \<Rightarrow> (job\<lparr>job_state := ST_SUPERSEDED\<rparr>, None)
           | Some a \<Rightarrow>
               (case feeder_internal_rank (job_feeder job) a of
                  Inl e \<Rightarrow> (job\<lparr>job_action := a\<rparr>, Some e)
                | Inr r \<Rightarrow> (job\<lparr>job_action := a, job_feeder_rank := r\<rparr>, None)))
      | FRESH_SEND \<Rightarrow> (job, None))"

section \<open>Lemmas on the key\<close>

lemma all_actions_complete: "a \<in> set all_actions"
  by (cases a) (simp_all add: all_actions_def)

lemma distinct_action_values: "distinct (map action_value all_actions)"
  by code_simp

lemma action_value_inj: "action_value a = action_value b \<longleftrightarrow> a = b"
  using distinct_action_values all_actions_complete [of a] all_actions_complete [of b]
  by (auto simp: distinct_map inj_on_def)

lemma feeder_value_inj: "feeder_value a = feeder_value b \<longleftrightarrow> a = b"
  by (cases a; cases b) simp_all

lemma digit_not_colon: "d < 10 \<Longrightarrow> CHR '':'' \<noteq> char_of (48 + d :: nat)"
proof
  assume d: "d < 10" and "CHR '':'' = char_of (48 + d)"
  then have "(of_char CHR '':'' :: nat) = of_char (char_of (48 + d) :: char)" by simp
  then show False using d by simp
qed

lemma colon_not_in_nat_str: "CHR '':'' \<notin> set (nat_str n)"
proof (induction n rule: nat_str.induct)
  case (1 n)
  then show ?case
    using digit_not_colon [of n] digit_not_colon [of "n mod 10"] by (subst nat_str.simps) simp
qed

lemma nat_str_inj: "nat_str a = nat_str b \<longleftrightarrow> a = b"
  by (metis of_nat_eq_iff option.inject parse_unsigned_nat_str)

lemma py_str_int_inj: "py_str_int a = py_str_int b \<longleftrightarrow> a = b"
proof -
  have minus: "nat_str n \<noteq> CHR ''-'' # xs" for n xs
  proof
    assume "nat_str n = CHR ''-'' # xs"
    then obtain d where "char_of (48 + d) = CHR ''-''" "d < (10 :: nat)" using hd_nat_str [of n] by auto
    then have "of_char (char_of (48 + d) :: char) = (of_char CHR ''-'' :: nat)" by simp
    then show False using \<open>d < 10\<close> by simp
  qed
  show ?thesis
    using minus minus [symmetric] by (auto simp: py_str_int_def nat_str_inj split: if_splits)
qed

lemma append_sep_cancel:
  assumes "xs @ c # ys = xs' @ c # ys'" and "c \<notin> set xs" and "c \<notin> set xs'"
  shows "xs = xs' \<and> ys = ys'"
  using assms by (induction xs arbitrary: xs') (auto simp: Cons_eq_append_conv append_eq_Cons_conv)

lemma netstring_cancel:
  assumes "netstring p @ r = netstring p' @ r'"
  shows "p = p' \<and> r = r'"
proof -
  have "nat_str (length p) @ CHR '':'' # (p @ r) = nat_str (length p') @ CHR '':'' # (p' @ r')"
    using assms by (simp add: netstring_def)
  then have "nat_str (length p) = nat_str (length p')" "p @ r = p' @ r'"
    using append_sep_cancel colon_not_in_nat_str by metis+
  then show ?thesis using nat_str_inj by simp
qed

section \<open>Properties of the contract\<close>

text \<open>The deduplication key identifies a delivery: two keys are equal only when the feeder, the
  source identity, the source version, the action and the destination are all equal, whatever characters
  the identities contain.\<close>

theorem dedupe_key_injective:
  "build_delivery_dedupe_key f s v a d = build_delivery_dedupe_key f' s' v' a' d' \<longleftrightarrow>
   f = f' \<and> s = s' \<and> v = v' \<and> a = a' \<and> d = d'"
proof
  assume "build_delivery_dedupe_key f s v a d = build_delivery_dedupe_key f' s' v' a' d'"
  then have eq: "netstring (feeder_value f) @ [CHR 0x1F] @ netstring s @ [CHR 0x1F] @
      netstring (py_str_int v) @ [CHR 0x1F] @ netstring (action_value a) @ [CHR 0x1F] @ netstring d @ [] =
    netstring (feeder_value f') @ [CHR 0x1F] @ netstring s' @ [CHR 0x1F] @
      netstring (py_str_int v') @ [CHR 0x1F] @ netstring (action_value a') @ [CHR 0x1F] @ netstring d' @ []"
    by (simp add: build_delivery_dedupe_key_def)
  note c1 = netstring_cancel [OF eq]
  then have "netstring s @ [CHR 0x1F] @ netstring (py_str_int v) @ [CHR 0x1F] @
      netstring (action_value a) @ [CHR 0x1F] @ netstring d @ [] =
    netstring s' @ [CHR 0x1F] @ netstring (py_str_int v') @ [CHR 0x1F] @
      netstring (action_value a') @ [CHR 0x1F] @ netstring d' @ []" by simp
  note c2 = netstring_cancel [OF this]
  then have "netstring (py_str_int v) @ [CHR 0x1F] @ netstring (action_value a) @ [CHR 0x1F] @
      netstring d @ [] = netstring (py_str_int v') @ [CHR 0x1F] @ netstring (action_value a') @
      [CHR 0x1F] @ netstring d' @ []" by simp
  note c3 = netstring_cancel [OF this]
  then have "netstring (action_value a) @ [CHR 0x1F] @ netstring d @ [] =
      netstring (action_value a') @ [CHR 0x1F] @ netstring d' @ []" by simp
  note c4 = netstring_cancel [OF this]
  then have "netstring d @ [] = netstring d' @ []" by simp
  note c5 = netstring_cancel [OF this]
  show "f = f' \<and> s = s' \<and> v = v' \<and> a = a' \<and> d = d'"
    using c1 c2 c3 c4 c5 feeder_value_inj py_str_int_inj action_value_inj by blast
qed simp

end
