(* ===== verification/DeliveryResult.thy ===== *)
theory DeliveryResult
  imports DeliveryContract TradeLots "HOL-Library.Word"
begin

text \<open>
  What the delivery queue does with the answer of the Telegram gateway
  (\<open>core/telegram_delivery_queue_contract.py\<close>): reading the response, the bounded backoff, the
  classification of every response into a job state and a decision, and the reconciliation of sends
  whose outcome is unknown.  The first eight bytes of the SHA-256 digest that drive the jitter are the
  parameter \<open>digest64\<close>.  Date-times are microseconds in UTC and saturate at \<open>datetime.max\<close> where the
  code does so.
\<close>

section \<open>Responses\<close>

record response_parameters =
  rp_retry_after :: pyval
  rp_has_migrate_to_chat_id :: bool

record response_json =
  rj_ok :: "bool option"
  rj_error_code :: pyval
  rj_parameters :: "response_parameters option"
  rj_description :: string
  rj_message :: string
  rj_error :: string

record gateway_result =
  gr_ok :: bool
  gr_method :: string
  gr_status_code :: "int option"
  gr_response_text :: string
  gr_json :: "response_json option"
  gr_error :: "string option"
  gr_transport_phase :: "string option"
  gr_message_id :: "int option"

text \<open>\<open>int(value)\<close> under \<open>except (TypeError, ValueError)\<close> on a JSON value.\<close>

fun int_of_json :: "pyval \<Rightarrow> int option" where
  "int_of_json (PInt i) = Some i"
| "int_of_json (PFloat (FFin r)) = Some (rat_trunc r)"
| "int_of_json (PStr s) = py_int_of_string s"
| "int_of_json v = None"

fun telegram_retry_after_integer :: "pyval \<Rightarrow> int option" where
  "telegram_retry_after_integer (PInt v) = (if 0 < v \<and> v \<le> 2147483647 then Some v else None)"
| "telegram_retry_after_integer v = None"

definition status_code_of :: "gateway_result \<Rightarrow> int option" where
  "status_code_of result =
     (case (case gr_json result of
              Some j \<Rightarrow> (if rj_ok j = Some False then int_of_json (rj_error_code j) else None)
            | None \<Rightarrow> None) of
        Some c \<Rightarrow> Some c
      | None \<Rightarrow>
          (case gr_status_code result of
             Some c \<Rightarrow> Some c
           | None \<Rightarrow> (case gr_json result of Some j \<Rightarrow> int_of_json (rj_error_code j) | None \<Rightarrow> None)))"

definition retry_after_seconds :: "gateway_result \<Rightarrow> int option" where
  "retry_after_seconds result =
     (case gr_json result of
        None \<Rightarrow> None
      | Some j \<Rightarrow>
          (case rj_parameters j of None \<Rightarrow> None | Some p \<Rightarrow> telegram_retry_after_integer (rp_retry_after p)))"

definition has_migrate_to_chat_id :: "gateway_result \<Rightarrow> bool" where
  "has_migrate_to_chat_id result =
     (case gr_json result of
        None \<Rightarrow> False
      | Some j \<Rightarrow> (case rj_parameters j of None \<Rightarrow> False | Some p \<Rightarrow> rp_has_migrate_to_chat_id p))"

definition text_or_empty :: "string option \<Rightarrow> string" where
  "text_or_empty s = (case s of None \<Rightarrow> [] | Some t \<Rightarrow> t)"

definition error_text :: "gateway_result \<Rightarrow> string" where
  "error_text result =
     (let parts = [gr_response_text result, text_or_empty (gr_error result)] @
            (case gr_json result of None \<Rightarrow> [] | Some j \<Rightarrow> [rj_description j, rj_message j, rj_error j])
      in py_lower (py_strip (concat (separate_by '' '' parts))))"

text \<open>\<open>pattern in text\<close> and \<open>text.startswith(pattern)\<close>.\<close>

definition starts_with :: "string \<Rightarrow> string \<Rightarrow> bool" where
  "starts_with pat s \<longleftrightarrow> take (length pat) s = pat"

fun py_contains :: "string \<Rightarrow> string \<Rightarrow> bool" where
  "py_contains pat [] = (pat = [])"
| "py_contains pat (c # cs) = (starts_with pat (c # cs) \<or> py_contains pat cs)"

definition contains_any :: "string list \<Rightarrow> string \<Rightarrow> bool" where
  "contains_any pats s \<longleftrightarrow> list_ex (\<lambda>p. py_contains p s) pats"

definition NON_IDEMPOTENT_SEND_METHODS :: "string list" where
  "NON_IDEMPOTENT_SEND_METHODS = [''sendMessage'', ''sendDocument'']"

definition AMBIGUOUS_SEND_ERRORS :: "string list" where
  "AMBIGUOUS_SEND_ERRORS = [''networkerror'', ''readerror'', ''readtimeout'', ''remoteprotocolerror'',
     ''timeouterror'', ''writeerror'', ''writetimeout'']"

definition SAFE_RETRY_TRANSPORT_ERRORS :: "string list" where
  "SAFE_RETRY_TRANSPORT_ERRORS = [''connecterror'', ''connecttimeout'', ''pooltimeout'']"

definition MALFORMED_PAYLOAD_PATTERNS :: "string list" where
  "MALFORMED_PAYLOAD_PATTERNS = [''can'' @ CHR 0x27 # ''t parse entities'', ''message is too long'',
     ''message text is empty'', ''parse mode'', ''text must be non-empty'']"

definition MESSAGE_NOT_FOUND_PATTERNS :: "string list" where
  "MESSAGE_NOT_FOUND_PATTERNS = [''message to edit not found'', ''message can'' @ CHR 0x27 # ''t be edited'',
     ''message cannot be edited'']"

definition CALLBACK_EXPIRED_PATTERNS :: "string list" where
  "CALLBACK_EXPIRED_PATTERNS = [''query is too old'', ''response timeout expired'', ''query id is invalid'']"

section \<open>Retry times\<close>

definition jittered ::
  "(string \<Rightarrow> 64 word) \<Rightarrow> int \<Rightarrow> string \<Rightarrow> rat \<Rightarrow> rat \<Rightarrow> rat \<Rightarrow> rat" where
  "jittered digest64 attempt_count identity maximum jitter delay =
     (let digest = digest64 (identity @ CHR '':'' # py_str_int attempt_count);
          fraction = of_int (uint digest) / (2 ^ 64 - 1);
          factor = 1 + (fraction * 2 - 1) * jitter
      in min maximum (max (1 / 1000) (delay * factor)))"

definition bounded_backoff_seconds ::
  "(string \<Rightarrow> 64 word) \<Rightarrow> int \<Rightarrow> pyfloat \<Rightarrow> pyfloat \<Rightarrow> pyfloat \<Rightarrow> string \<Rightarrow> delivery_error + rat" where
  "bounded_backoff_seconds digest64 attempt_count base_seconds max_seconds jitter_ratio identity =
     (case (base_seconds, max_seconds, jitter_ratio) of
        (FFin base, FFin maximum, FFin jitter) \<Rightarrow>
          (if base \<le> 0 \<or> maximum \<le> 0 \<or> base > maximum \<or> jitter < 0 \<or> jitter > 1
           then Inl RetryConfigInvalid
           else
             let exponent = min (max 0 (attempt_count - 1)) 16;
                 delay = min maximum (base * 2 ^ nat exponent)
             in if jitter \<noteq> 0 then Inr (jittered digest64 attempt_count identity maximum jitter delay)
                else Inr delay)
      | _ \<Rightarrow> Inl RetryConfigInvalid)"

text \<open>\<open>datetime.max\<close> in UTC, in microseconds since the epoch.  The argument of \<open>_safe_retry_at\<close> is finite
  at its callers.\<close>

definition dt_max :: int where
  "dt_max = 253402300799999999"

definition safe_retry_at :: "int \<Rightarrow> rat \<Rightarrow> delivery_error + int" where
  "safe_retry_at now seconds =
     (if seconds < 0 then Inl RetryConfigInvalid else Inr (min dt_max (now + seconds_us seconds)))"

section \<open>Decisions\<close>

record delivery_decision =
  dd_outcome :: delivery_outcome
  dd_next_retry_at :: "int option"
  dd_destination_cooldown_until :: "int option"
  dd_bot_cooldown_until :: "int option"
  dd_bot_probe_not_before :: "int option"
  dd_reason :: string

definition decide :: "delivery_outcome \<Rightarrow> string \<Rightarrow> delivery_decision" where
  "decide out reason =
     \<lparr>dd_outcome = out, dd_next_retry_at = None, dd_destination_cooldown_until = None,
      dd_bot_cooldown_until = None, dd_bot_probe_not_before = None, dd_reason = reason\<rparr>"

record retry_config =
  rc_safety_seconds :: pyfloat
  rc_base_seconds :: pyfloat
  rc_max_seconds :: pyfloat
  rc_jitter_ratio :: pyfloat
  rc_pause_seconds :: rat

type_synonym resolution = "delivery_error + (delivery_job \<times> delivery_decision)"

definition put_state :: "delivery_job \<Rightarrow> delivery_state \<Rightarrow> delivery_decision \<Rightarrow> resolution" where
  "put_state job st d = Inr (job\<lparr>job_state := st\<rparr>, d)"

definition config_invalid :: "delivery_job \<Rightarrow> resolution" where
  "config_invalid job = put_state job ST_QUARANTINED (decide OUT_QUARANTINED ''telegram_retry_config_invalid'')"

definition clear_lease :: "delivery_job \<Rightarrow> delivery_job" where
  "clear_lease job = job\<lparr>job_worker_id := None, job_lease_until := None\<rparr>"

definition job_backoff :: "(string \<Rightarrow> 64 word) \<Rightarrow> retry_config \<Rightarrow> delivery_job \<Rightarrow> delivery_error + rat" where
  "job_backoff digest64 cfg job =
     bounded_backoff_seconds digest64 (job_provider_attempt_count job) (rc_base_seconds cfg)
       (rc_max_seconds cfg) (rc_jitter_ratio cfg) (job_dedupe_key job)"

definition temporary_retry ::
  "(string \<Rightarrow> 64 word) \<Rightarrow> retry_config \<Rightarrow> int \<Rightarrow> delivery_job \<Rightarrow> string \<Rightarrow> resolution" where
  "temporary_retry digest64 cfg now job reason =
     (case job_backoff digest64 cfg job of
        Inl _ \<Rightarrow> config_invalid job
      | Inr delay \<Rightarrow>
          (case safe_retry_at now delay of
             Inl e \<Rightarrow> Inl e
           | Inr retry_at \<Rightarrow>
               Inr (job\<lparr>job_state := ST_PENDING_RETRY, job_next_retry_at := Some retry_at\<rparr>,
                    (decide OUT_RETRY_PENDING reason)\<lparr>dd_next_retry_at := Some retry_at\<rparr>)))"

definition rate_limited ::
  "(string \<Rightarrow> 64 word) \<Rightarrow> retry_config \<Rightarrow> int \<Rightarrow> delivery_job \<Rightarrow> gateway_result \<Rightarrow> resolution" where
  "rate_limited digest64 cfg now job result =
     (case (case retry_after_seconds result of
              Some s \<Rightarrow> Inr (of_int s)
            | None \<Rightarrow> job_backoff digest64 cfg job) of
        Inl _ \<Rightarrow> config_invalid job
      | Inr retry_after \<Rightarrow>
          (case rc_safety_seconds cfg of
             FFin safety \<Rightarrow>
               (if safety < 0 then config_invalid job
                else
                  (case safe_retry_at now (retry_after + safety) of
                     Inl e \<Rightarrow> Inl e
                   | Inr retry_at \<Rightarrow>
                       Inr (job\<lparr>job_state := ST_PENDING_RETRY, job_next_retry_at := Some retry_at\<rparr>,
                            (decide OUT_RETRY_PENDING ''telegram_rate_limited'')
                              \<lparr>dd_next_retry_at := Some retry_at,
                               dd_destination_cooldown_until := Some retry_at\<rparr>)))
           | _ \<Rightarrow> config_invalid job))"

definition forbidden :: "retry_config \<Rightarrow> int \<Rightarrow> delivery_job \<Rightarrow> resolution" where
  "forbidden cfg now job =
     (if job_destination_class job = DEST_PRIVATE
      then put_state job ST_PERMANENT_UNDELIVERABLE
             (decide OUT_PERMANENT_UNDELIVERABLE ''telegram_private_destination_forbidden'')
      else
        let pause_until = now + seconds_us (max 1 (rc_pause_seconds cfg))
        in Inr (job\<lparr>job_state := ST_BLOCKED_DESTINATION, job_next_retry_at := Some pause_until\<rparr>,
                (decide OUT_DESTINATION_PAUSED ''telegram_destination_forbidden'')
                  \<lparr>dd_next_retry_at := Some pause_until,
                   dd_destination_cooldown_until := Some pause_until\<rparr>))"

definition code_between :: "int \<Rightarrow> int option \<Rightarrow> int \<Rightarrow> bool" where
  "code_between lo c hi = (case c of None \<Rightarrow> False | Some v \<Rightarrow> lo \<le> v \<and> v \<le> hi)"

definition normalized_error :: "gateway_result \<Rightarrow> string" where
  "normalized_error result = py_norm (gr_error result)"

definition transport_phase :: "gateway_result \<Rightarrow> string" where
  "transport_phase result = py_norm (gr_transport_phase result)"

definition record_error :: "gateway_result \<Rightarrow> delivery_job \<Rightarrow> delivery_job" where
  "record_error result job =
     (let txt = take 500 (error_text result)
      in job\<lparr>job_last_error_class :=
             Some (if text_or_empty (gr_error result) \<noteq> [] then text_or_empty (gr_error result)
                   else case status_code_of result of
                          Some c \<Rightarrow> ''HTTP'' @ py_str_int c
                        | None \<Rightarrow> ''TelegramUnknownError''),
           job_last_error_message := (if txt = [] then None else Some txt)\<rparr>)"

text \<open>The cascade on a response that is not a valid success.\<close>

definition apply_failure ::
  "(string \<Rightarrow> 64 word) \<Rightarrow> retry_config \<Rightarrow> int \<Rightarrow> delivery_job \<Rightarrow> gateway_result \<Rightarrow> resolution" where
  "apply_failure digest64 cfg now job result =
     (let code = status_code_of result; txt = error_text result;
          err = normalized_error result; phase = transport_phase result;
          sends = job_method job \<in> set NON_IDEMPOTENT_SEND_METHODS
      in if code = Some 400 \<and> py_contains ''message is not modified'' txt \<and>
           starts_with ''edit'' (job_method job)
         then Inr (job\<lparr>job_state := ST_SENT_NOOP, job_next_retry_at := None\<rparr>,
                   decide OUT_SENT_NOOP ''telegram_edit_already_applied'')
         else if code = Some 400 \<and> job_method job = ''deleteMessage'' \<and>
           (py_contains ''message to delete not found'' txt \<or> py_contains ''message not found'' txt)
         then Inr (job\<lparr>job_state := ST_SENT_NOOP, job_next_retry_at := None\<rparr>,
                   decide OUT_SENT_NOOP ''telegram_delete_already_applied'')
         else if has_migrate_to_chat_id result
         then put_state job ST_BLOCKED_DESTINATION (decide OUT_DESTINATION_PAUSED ''telegram_destination_migrated'')
         else if code = Some 429 then rate_limited digest64 cfg now job result
         else if code = Some 401 \<or> code = Some 409
         then put_state job ST_BLOCKED_BOT (decide OUT_BOT_PAUSED ''telegram_bot_blocked_or_conflicted'')
         else if code = Some 403 then forbidden cfg now job
         else if code = Some 404 then
           (if py_contains ''method'' txt \<or> py_contains ''endpoint'' txt
            then put_state job ST_BLOCKED_GATEWAY (decide OUT_GATEWAY_PAUSED ''telegram_gateway_not_found'')
            else put_state job ST_PERMANENT_UNDELIVERABLE
                   (decide OUT_PERMANENT_UNDELIVERABLE ''telegram_resource_not_found''))
         else if job_method job = ''answerCallbackQuery'' \<and> code = Some 400 \<and>
           contains_any CALLBACK_EXPIRED_PATTERNS txt
         then Inr (job\<lparr>job_state := ST_EXPIRED_INTERACTION, job_next_retry_at := None\<rparr>,
                   decide OUT_EXPIRED_INTERACTION ''telegram_callback_query_expired'')
         else if code = Some 400 \<and> contains_any MESSAGE_NOT_FOUND_PATTERNS txt
         then put_state job ST_PERMANENT_UNDELIVERABLE
                (decide OUT_PERMANENT_UNDELIVERABLE ''telegram_message_uneditable'')
         else if code = Some 400 \<and> contains_any MALFORMED_PAYLOAD_PATTERNS txt
         then put_state job ST_TERMINAL_FAILED (decide OUT_TERMINAL_FAILED ''telegram_malformed_payload'')
         else if sends \<and> (phase = ''write_unknown'' \<or> err \<in> set AMBIGUOUS_SEND_ERRORS \<or>
           code_between 500 code 599 \<or> code_between 200 code 299)
         then Inr (job\<lparr>job_state := ST_AMBIGUOUS, job_next_retry_at := None\<rparr>,
                   decide OUT_AMBIGUOUS ''telegram_send_result_ambiguous'')
         else if code_between 200 code 299
         then temporary_retry digest64 cfg now job ''telegram_success_envelope_invalid''
         else if code_between 500 code 599 \<or> phase \<in> {''pre_write'', ''write_unknown''} \<or>
           err \<in> set SAFE_RETRY_TRANSPORT_ERRORS \<or> err \<in> set AMBIGUOUS_SEND_ERRORS
         then temporary_retry digest64 cfg now job ''telegram_temporary_failure''
         else if code_between 400 code 499
         then put_state job ST_QUARANTINED (decide OUT_QUARANTINED ''telegram_unknown_client_error'')
         else put_state job ST_QUARANTINED (decide OUT_QUARANTINED ''telegram_unclassified_response''))"

definition apply_gateway_result ::
  "(string \<Rightarrow> 64 word) \<Rightarrow> retry_config \<Rightarrow> int \<Rightarrow> delivery_job \<Rightarrow> gateway_result \<Rightarrow> resolution" where
  "apply_gateway_result digest64 cfg now job0 result =
     (if is_terminal job0 then Inr (job0, decide OUT_ALREADY_RESOLVED ''already_resolved'')
      else
        let job = clear_lease job0;
            envelope_ok = (case gr_json result of None \<Rightarrow> False | Some j \<Rightarrow> rj_ok j = Some True)
        in if gr_method result \<noteq> [] \<and> gr_method result \<noteq> job_method job
           then put_state job ST_QUARANTINED (decide OUT_QUARANTINED ''telegram_method_mismatch'')
           else if gr_ok result \<and> envelope_ok then
             (if job_method job \<in> set NON_IDEMPOTENT_SEND_METHODS \<and> gr_message_id result = None
              then put_state job ST_AMBIGUOUS (decide OUT_AMBIGUOUS ''telegram_send_success_without_message_id'')
              else Inr (job\<lparr>job_state := ST_SENT, job_next_retry_at := None, job_last_error_class := None,
                            job_last_error_message := None,
                            job_telegram_message_id := gr_message_id result\<rparr>,
                        decide OUT_SENT ''sent''))
           else apply_failure digest64 cfg now (record_error result job) result)"

section \<open>Reconciliation of ambiguous sends\<close>

definition reconcile_ambiguous_send ::
  "delivery_job \<Rightarrow> bool option \<Rightarrow> int \<Rightarrow> int option \<Rightarrow> int option \<Rightarrow> rat \<Rightarrow> resolution" where
  "reconcile_ambiguous_send job delivered now message_id resolution_deadline delay_seconds =
     (if job_state job \<notin> {ST_AMBIGUOUS, ST_AMBIGUOUS_UNRESOLVED} then Inl JobIsNotAmbiguous
      else
        (case delivered of
           None \<Rightarrow>
             (if passed now resolution_deadline
              then put_state job ST_AMBIGUOUS_UNRESOLVED
                     (decide OUT_AMBIGUOUS_UNRESOLVED ''telegram_send_reconciliation_deadline_passed'')
              else Inr (job, decide OUT_AMBIGUOUS ''telegram_send_reconciliation_inconclusive''))
         | Some True \<Rightarrow>
             (case message_id of
                None \<Rightarrow> Inl DeliveredRequiresMessageId
              | Some mid \<Rightarrow>
                  Inr (job\<lparr>job_state := ST_SENT, job_next_retry_at := None,
                           job_telegram_message_id := Some mid\<rparr>,
                       decide OUT_SENT ''telegram_send_reconciled_delivered''))
         | Some False \<Rightarrow>
             (let retry_at = now + seconds_us (max 0 delay_seconds)
              in Inr (job\<lparr>job_state := (if retry_at > now then ST_PENDING_RETRY else ST_PENDING),
                          job_next_retry_at := Some retry_at\<rparr>,
                      (decide OUT_RETRY_PENDING ''telegram_send_reconciled_absent'')
                        \<lparr>dd_next_retry_at := Some retry_at\<rparr>))))"

section \<open>Lemmas\<close>

fun outcome_state :: "delivery_outcome \<Rightarrow> delivery_state option" where
  "outcome_state OUT_SENT = Some ST_SENT"
| "outcome_state OUT_SENT_NOOP = Some ST_SENT_NOOP"
| "outcome_state OUT_RETRY_PENDING = Some ST_PENDING_RETRY"
| "outcome_state OUT_DESTINATION_PAUSED = Some ST_BLOCKED_DESTINATION"
| "outcome_state OUT_BOT_PAUSED = Some ST_BLOCKED_BOT"
| "outcome_state OUT_GATEWAY_PAUSED = Some ST_BLOCKED_GATEWAY"
| "outcome_state OUT_TERMINAL_FAILED = Some ST_TERMINAL_FAILED"
| "outcome_state OUT_PERMANENT_UNDELIVERABLE = Some ST_PERMANENT_UNDELIVERABLE"
| "outcome_state OUT_QUARANTINED = Some ST_QUARANTINED"
| "outcome_state OUT_AMBIGUOUS = Some ST_AMBIGUOUS"
| "outcome_state OUT_EXPIRED_INTERACTION = Some ST_EXPIRED_INTERACTION"
| "outcome_state out = None"

text \<open>What a resolution may change of a job.\<close>

definition same_delivery :: "delivery_job \<Rightarrow> delivery_job \<Rightarrow> bool" where
  "same_delivery job job' \<longleftrightarrow>
     job' = job\<lparr>job_state := job_state job', job_next_retry_at := job_next_retry_at job',
                job_last_error_class := job_last_error_class job',
                job_last_error_message := job_last_error_message job',
                job_telegram_message_id := job_telegram_message_id job'\<rparr>"

definition resolution_ok :: "delivery_job \<Rightarrow> resolution \<Rightarrow> bool" where
  "resolution_ok job r =
     (case r of
        Inl _ \<Rightarrow> False
      | Inr (job', d) \<Rightarrow>
          outcome_state (dd_outcome d) = Some (job_state job') \<and> same_delivery job job' \<and>
          dd_bot_cooldown_until d = None \<and> dd_bot_probe_not_before d = None \<and>
          (dd_next_retry_at d \<noteq> None \<longrightarrow> job_next_retry_at job' = dd_next_retry_at d) \<and>
          (dd_destination_cooldown_until d \<noteq> None \<longrightarrow>
             dd_destination_cooldown_until d = dd_next_retry_at d) \<and>
          (dd_reason d = ''telegram_rate_limited'' \<longrightarrow> dd_destination_cooldown_until d \<noteq> None))"

lemma uint_fraction: "0 \<le> (of_int (uint (w :: 64 word)) / (2 ^ 64 - 1) :: rat) \<and>
   (of_int (uint w) / (2 ^ 64 - 1) :: rat) \<le> 1"
proof -
  have "uint w < 2 ^ 64" using uint_lt2p [of w] by simp
  then have "uint w \<le> 2 ^ 64 - 1" by simp
  then have "(of_int (uint w) :: rat) \<le> of_int (2 ^ 64 - 1)" by (simp only: of_int_le_iff)
  moreover have "(0 :: rat) \<le> of_int (uint w)" by (simp only: of_int_0_le_iff unsigned_greater_eq)
  ultimately show ?thesis by (simp del: of_int_uint)
qed

lemma jittered_bounds:
  assumes "0 < maximum"
  shows "0 < jittered dg n i maximum jitter delay \<and> jittered dg n i maximum jitter delay \<le> maximum"
  using assms by (simp add: jittered_def Let_def less_max_iff_disj)

lemma backoff_bounds:
  assumes "bounded_backoff_seconds dg n b m j i = Inr d"
  shows "\<exists>base maximum jitter. b = FFin base \<and> m = FFin maximum \<and> j = FFin jitter \<and> 0 < base \<and>
    base \<le> maximum \<and> 0 \<le> jitter \<and> jitter \<le> 1 \<and> 0 < d \<and> d \<le> maximum \<and>
    (jitter = 0 \<longrightarrow> d = min maximum (base * 2 ^ nat (min (max 0 (n - 1)) 16)))"
proof -
  obtain base maximum jitter where f: "b = FFin base" "m = FFin maximum" "j = FFin jitter"
    using assms by (cases b; cases m; cases j) (simp_all add: bounded_backoff_seconds_def)
  define delay where "delay = min maximum (base * 2 ^ nat (min (max 0 (n - 1)) 16))"
  have e: "bounded_backoff_seconds dg n b m j i =
      (if base \<le> 0 \<or> maximum \<le> 0 \<or> base > maximum \<or> jitter < 0 \<or> jitter > 1 then Inl RetryConfigInvalid
       else if jitter \<noteq> 0 then Inr (jittered dg n i maximum jitter delay) else Inr delay)"
    unfolding bounded_backoff_seconds_def f Let_def delay_def by (simp only: prod.case pyfloat.case)
  have g: "0 < base" "base \<le> maximum" "0 \<le> jitter" "jitter \<le> 1"
    and d: "d = (if jitter \<noteq> 0 then jittered dg n i maximum jitter delay else delay)"
    using assms unfolding e by (auto split: if_splits)
  have "0 < delay" "delay \<le> maximum" using g by (simp_all add: delay_def)
  then have b: "0 < d" "d \<le> maximum" using d g jittered_bounds [of maximum dg n i jitter delay] by simp_all
  have z: "jitter = 0 \<longrightarrow> d = min maximum (base * 2 ^ nat (min (max 0 (n - 1)) 16))"
    using d unfolding delay_def by simp
  show ?thesis by (intro exI conjI) (rule f g b z)+
qed

lemma job_backoff_pos: "job_backoff dg cfg job = Inr d \<Longrightarrow> 0 < d"
  using backoff_bounds unfolding job_backoff_def by blast

lemma put_state_ok:
  "outcome_state (dd_outcome d) = Some st \<Longrightarrow> dd_next_retry_at d = None \<Longrightarrow>
   dd_destination_cooldown_until d = None \<Longrightarrow> dd_bot_cooldown_until d = None \<Longrightarrow>
   dd_bot_probe_not_before d = None \<Longrightarrow>
   dd_reason d \<noteq> ''telegram_rate_limited'' \<Longrightarrow> resolution_ok job (put_state job st d)"
  by (cases job) (simp add: resolution_ok_def put_state_def same_delivery_def)

lemma config_invalid_ok: "resolution_ok job (config_invalid job)"
  unfolding config_invalid_def by (rule put_state_ok) (simp_all add: decide_def)

lemma temporary_retry_ok:
  "reason \<noteq> ''telegram_rate_limited'' \<Longrightarrow> resolution_ok job (temporary_retry dg cfg now job reason)"
  using job_backoff_pos [of dg cfg job] config_invalid_ok [of job]
  by (cases job) (auto simp: temporary_retry_def safe_retry_at_def resolution_ok_def same_delivery_def
      decide_def split: sum.splits)

lemma rate_limited_ok: "resolution_ok job (rate_limited dg cfg now job result)"
proof -
  let ?r = "case retry_after_seconds result of Some s \<Rightarrow> Inr (of_int s) | None \<Rightarrow> job_backoff dg cfg job"
  have pos: "0 < r" if "?r = Inr r" for r
    using that job_backoff_pos
    by (auto simp: retry_after_seconds_def split: option.splits if_splits
        elim!: telegram_retry_after_integer.elims)
  show ?thesis
  proof (cases ?r)
    case (Inl e)
    then show ?thesis using config_invalid_ok by (simp add: rate_limited_def)
  next
    case (Inr r)
    then show ?thesis
      using pos [OF Inr] config_invalid_ok [of job]
      by (cases job) (auto simp: rate_limited_def safe_retry_at_def resolution_ok_def same_delivery_def
          decide_def split: pyfloat.splits)
  qed
qed

lemma forbidden_ok: "resolution_ok job (forbidden cfg now job)"
  by (cases job) (auto simp: forbidden_def resolution_ok_def same_delivery_def put_state_def decide_def Let_def)

lemma clear_retry_ok:
  "outcome_state out = Some st \<Longrightarrow> reason \<noteq> ''telegram_rate_limited'' \<Longrightarrow>
   resolution_ok job (Inr (job\<lparr>job_state := st, job_next_retry_at := None\<rparr>, decide out reason))"
  by (cases job) (simp add: resolution_ok_def same_delivery_def decide_def)

lemma if_resolution_ok:
  "(c \<Longrightarrow> resolution_ok job a) \<Longrightarrow> (\<not> c \<Longrightarrow> resolution_ok job b) \<Longrightarrow> resolution_ok job (if c then a else b)"
  by simp

lemma apply_failure_ok: "resolution_ok job (apply_failure dg cfg now job result)"
  unfolding apply_failure_def Let_def
  by (intro if_resolution_ok put_state_ok temporary_retry_ok rate_limited_ok forbidden_ok clear_retry_ok)
    (simp_all add: decide_def)

lemma same_delivery_trans:
  "same_delivery a b \<Longrightarrow> same_delivery b c \<Longrightarrow> same_delivery a c"
  by (cases a; cases b; cases c) (simp add: same_delivery_def)

lemma same_delivery_record_error: "same_delivery job (record_error result job)"
  by (cases job) (simp add: record_error_def same_delivery_def Let_def)

lemma gateway_result_ok:
  assumes "\<not> is_terminal job"
  shows "resolution_ok (clear_lease job) (apply_gateway_result dg cfg now job result)"
proof -
  have f: "resolution_ok (clear_lease job)
      (apply_failure dg cfg now (record_error result (clear_lease job)) result)"
    using apply_failure_ok [of "record_error result (clear_lease job)" dg cfg now result]
      same_delivery_trans [OF same_delivery_record_error]
    by (auto simp: resolution_ok_def split: sum.splits)
  have s: "resolution_ok (clear_lease job)
      (Inr ((clear_lease job)\<lparr>job_state := ST_SENT, job_next_retry_at := None, job_last_error_class := None,
          job_last_error_message := None, job_telegram_message_id := mid\<rparr>, decide OUT_SENT ''sent''))" for mid
    by (cases job) (simp add: resolution_ok_def same_delivery_def decide_def clear_lease_def)
  show ?thesis
    using assms unfolding apply_gateway_result_def Let_def
    by (simp only: if_False) (intro if_resolution_ok put_state_ok s f, simp_all add: decide_def)
qed

text \<open>Which results make a job claimable again.\<close>

definition retries :: "resolution \<Rightarrow> bool" where
  "retries r = (case r of Inl _ \<Rightarrow> False | Inr (job', d) \<Rightarrow> job_state job' \<in> set CLAIMABLE_DELIVERY_STATES)"

lemma retries_if [simp]: "retries (if c then a else b) = (if c then retries a else retries b)"
  by simp

lemma retries_put_state [simp]: "retries (put_state job st d) = (st \<in> set CLAIMABLE_DELIVERY_STATES)"
  by (simp add: retries_def put_state_def)

lemma retries_Inr [simp]:
  "retries (Inr (job\<lparr>job_state := st, job_next_retry_at := t\<rparr>, d)) = (st \<in> set CLAIMABLE_DELIVERY_STATES)"
  by (simp add: retries_def)

lemma claimable_iff [simp]:
  "st \<in> set CLAIMABLE_DELIVERY_STATES \<longleftrightarrow> st = ST_PENDING \<or> st = ST_PENDING_RETRY"
  by (auto simp: CLAIMABLE_DELIVERY_STATES_def)

lemma retries_forbidden [simp]: "\<not> retries (forbidden cfg now job)"
  by (simp add: forbidden_def Let_def)

lemma failure_retry_only:
  assumes "retries (apply_failure dg cfg now job result)"
  shows "status_code_of result = Some 429 \<or>
    \<not> (job_method job \<in> set NON_IDEMPOTENT_SEND_METHODS \<and>
       (transport_phase result = ''write_unknown'' \<or> normalized_error result \<in> set AMBIGUOUS_SEND_ERRORS \<or>
        code_between 500 (status_code_of result) 599 \<or> code_between 200 (status_code_of result) 299)) \<and>
    (code_between 200 (status_code_of result) 299 \<or> code_between 500 (status_code_of result) 599 \<or>
     transport_phase result \<in> {''pre_write'', ''write_unknown''} \<or>
     normalized_error result \<in> set SAFE_RETRY_TRANSPORT_ERRORS \<or>
     normalized_error result \<in> set AMBIGUOUS_SEND_ERRORS)"
  using assms unfolding apply_failure_def Let_def retries_if retries_put_state retries_Inr claimable_iff
  by (simp split: if_split_asm)

lemma same_delivery_fields:
  assumes "same_delivery job job'"
  shows "job_worker_id job' = job_worker_id job" "job_lease_until job' = job_lease_until job"
    "job_lease_token job' = job_lease_token job" "job_dedupe_key job' = job_dedupe_key job"
    "job_id job' = job_id job" "job_destination_key job' = job_destination_key job"
    "job_bot_identity job' = job_bot_identity job" "job_created_sequence job' = job_created_sequence job"
    "job_action job' = job_action job" "job_method job' = job_method job"
    "job_attempt_count job' = job_attempt_count job" "job_feeder job' = job_feeder job"
    "job_eligible_at job' = job_eligible_at job"
  using assms by (cases job; cases job'; simp add: same_delivery_def)+

lemma job_method_keep [simp]:
  "job_method (clear_lease job) = job_method job" "job_method (record_error result job) = job_method job"
  by (simp_all add: clear_lease_def record_error_def Let_def)

section \<open>Properties of results\<close>

text \<open>Every answer of the gateway settles a leased job: the classification never raises, the
  decision's outcome and the job's new state agree, the lease is released, nothing but the state, the
  retry time, the error fields and the message id changes, and the new state is neither leased nor
  pending, so the job cannot be claimed again before its retry time is set.\<close>

theorem gateway_result_settles_job:
  assumes "\<not> is_terminal job"
  shows "\<exists>job' d. apply_gateway_result dg cfg now job result = Inr (job', d) \<and>
    outcome_state (dd_outcome d) = Some (job_state job') \<and>
    job_worker_id job' = None \<and> job_lease_until job' = None \<and>
    job_lease_token job' = job_lease_token job \<and> job_dedupe_key job' = job_dedupe_key job \<and>
    job_state job' \<noteq> ST_LEASED \<and> job_state job' \<noteq> ST_PENDING \<and>
    (dd_next_retry_at d \<noteq> None \<longrightarrow> job_next_retry_at job' = dd_next_retry_at d)"
proof -
  obtain job' d where r: "apply_gateway_result dg cfg now job result = Inr (job', d)"
    "outcome_state (dd_outcome d) = Some (job_state job')" "same_delivery (clear_lease job) job'"
    "dd_next_retry_at d \<noteq> None \<longrightarrow> job_next_retry_at job' = dd_next_retry_at d"
    using gateway_result_ok [OF assms, of dg cfg now result]
    by (auto simp: resolution_ok_def split: sum.splits)
  have "job_state job' \<noteq> ST_LEASED \<and> job_state job' \<noteq> ST_PENDING"
    using r(2) by (cases "dd_outcome d") auto
  moreover have "job_worker_id job' = None" "job_lease_until job' = None"
    "job_lease_token job' = job_lease_token job" "job_dedupe_key job' = job_dedupe_key job"
    using same_delivery_fields [OF r(3)] by (simp_all add: clear_lease_def)
  ultimately show ?thesis using r by blast
qed

definition sample_job :: "int \<Rightarrow> string \<Rightarrow> delivery_job" where
  "sample_job i meth =
     \<lparr>job_id = i, job_dedupe_key = ''key'', job_feeder = FEED_TRADE, job_feeder_rank = 0,
      job_source_natural_id = ''trade-1'', job_source_version = 1, job_destination_key = ''chat-1'',
      job_destination_class = DEST_PRIVATE, job_method = meth, job_payload = ''p'',
      job_action = TRADE_RESULT, job_created_sequence = i, job_bot_identity = ''primary'',
      job_delivery_deadline_at = None, job_eligible_at = None, job_freshness_deadline_at = None,
      job_campaign_id = None, job_state = ST_LEASED, job_attempt_count = 1,
      job_provider_attempt_count = 1, job_next_retry_at = None, job_lease_until = Some 60000000,
      job_lease_token = 1, job_worker_id = Some ''w'', job_last_error_class = None,
      job_last_error_message = None, job_telegram_message_id = None\<rparr>"

definition sample_config :: retry_config where
  "sample_config = \<lparr>rc_safety_seconds = FFin (1 / 2), rc_base_seconds = FFin 1, rc_max_seconds = FFin 300,
     rc_jitter_ratio = FFin 0, rc_pause_seconds = 300\<rparr>"

definition sample_result :: "int \<Rightarrow> int \<Rightarrow> gateway_result" where
  "sample_result code retry_after =
     \<lparr>gr_ok = False, gr_method = ''sendMessage'', gr_status_code = Some code, gr_response_text = [],
      gr_json = Some \<lparr>rj_ok = Some False, rj_error_code = PInt code,
        rj_parameters = Some \<lparr>rp_retry_after = PInt retry_after, rp_has_migrate_to_chat_id = False\<rparr>,
        rj_description = [], rj_message = [], rj_error = []\<rparr>,
      gr_error = None, gr_transport_phase = None, gr_message_id = None\<rparr>"

lemma sample_job_not_terminal: "\<not> is_terminal (sample_job i meth)"
  by (simp add: is_terminal_def sample_job_def FINAL_DELIVERY_STATES_def)

theorem gateway_result_settles_job_witness:
  "\<exists>job' d. apply_gateway_result (\<lambda>_. 0) sample_config 0 (sample_job 1 ''sendMessage'') (sample_result 429 7) =
     Inr (job', d) \<and> job_worker_id job' = None \<and> job_state job' \<noteq> ST_LEASED"
  using gateway_result_settles_job [OF sample_job_not_terminal, where cfg = sample_config and now = 0
      and result = "sample_result 429 7" and dg = "\<lambda>_. 0" and i1 = 1 and meth1 = "''sendMessage''"]
  by blast


lemma sample_rate_limit:
  "\<exists>job' d. apply_gateway_result (\<lambda>_. 0) sample_config 0 (sample_job 1 ''sendMessage'') (sample_result 429 7) =
     Inr (job', d) \<and> job_state job' = ST_PENDING_RETRY"
proof -
  have "case apply_gateway_result (\<lambda>_. 0) sample_config 0 (sample_job 1 ''sendMessage'') (sample_result 429 7) of
      Inr (job', d) \<Rightarrow> job_state job' = ST_PENDING_RETRY | Inl _ \<Rightarrow> False" by code_simp
  then show ?thesis by (auto split: sum.splits)
qed


text \<open>A rate limit is honoured: on a 429 answer with Telegram's \<open>retry_after\<close>, the job waits at least
  that many whole seconds (or until the end of representable time), and the destination cools down until
  exactly the same moment.\<close>

theorem rate_limit_honoured:
  assumes "\<not> is_terminal job" and "gr_method result = job_method job" and "\<not> gr_ok result"
    and "status_code_of result = Some 429" and "\<not> has_migrate_to_chat_id result"
    and "retry_after_seconds result = Some s" and "rc_safety_seconds cfg = FFin safety" and "0 \<le> safety"
  shows "\<exists>job' d t. apply_gateway_result dg cfg now job result = Inr (job', d) \<and>
    job_state job' = ST_PENDING_RETRY \<and> job_next_retry_at job' = Some t \<and>
    dd_destination_cooldown_until d = Some t \<and>
    (now + s * us_per_second \<le> t \<or> t = dt_max)"
proof -
  have s: "0 < s"
    using assms(6) by (auto simp: retry_after_seconds_def split: option.splits if_splits
        elim!: telegram_retry_after_integer.elims)
  have "of_int (s * 1000000) \<le> (of_int s + safety) * 1000000" using assms(8) by simp
  then have "s * 1000000 \<le> seconds_us (of_int s + safety)"
    unfolding seconds_us_def by (rule round_half_even_ge_int)
  moreover have "apply_gateway_result dg cfg now job result =
      rate_limited dg cfg now (record_error result (clear_lease job)) result"
    using assms(1-5) by (simp add: apply_gateway_result_def apply_failure_def Let_def)
  ultimately show ?thesis
    using assms(6-8) s by (auto simp: rate_limited_def safe_retry_at_def decide_def)
qed

theorem rate_limit_honoured_witness:
  "\<exists>job' d t. apply_gateway_result (\<lambda>_. 0) sample_config 0 (sample_job 1 ''sendMessage'') (sample_result 429 7) =
     Inr (job', d) \<and> job_next_retry_at job' = Some t \<and> (7000000 \<le> t \<or> t = dt_max)"
proof -
  have h: "gr_method (sample_result 429 7) = job_method (sample_job 1 ''sendMessage'')"
    "\<not> gr_ok (sample_result 429 7)" "status_code_of (sample_result 429 7) = Some 429"
    "\<not> has_migrate_to_chat_id (sample_result 429 7)" "retry_after_seconds (sample_result 429 7) = Some 7"
    "rc_safety_seconds sample_config = FFin (1 / 2)" "(0 :: rat) \<le> 1 / 2"
    by (simp_all add: sample_result_def sample_job_def status_code_of_def has_migrate_to_chat_id_def
        retry_after_seconds_def sample_config_def)
  show ?thesis
    using rate_limit_honoured [OF sample_job_not_terminal h, where dg = "\<lambda>_. 0" and now = 0] by auto
qed

text \<open>The backoff is bounded and grows: with a valid configuration the delay is positive and never
  above the maximum, whatever the digest; without jitter it is the base doubled per attempt (at most
  sixteen times) and capped, hence monotone in the number of attempts.\<close>

theorem backoff_bounded_and_monotone:
  assumes "0 < base" and "base \<le> maximum" and "0 \<le> jitter" and "jitter \<le> 1" and "n \<le> n'"
  shows "\<exists>d d0 d1. bounded_backoff_seconds dg n (FFin base) (FFin maximum) (FFin jitter) i = Inr d \<and>
    0 < d \<and> d \<le> maximum \<and>
    bounded_backoff_seconds dg n (FFin base) (FFin maximum) (FFin 0) i = Inr d0 \<and>
    d0 = min maximum (base * 2 ^ nat (min (max 0 (n - 1)) 16)) \<and>
    bounded_backoff_seconds dg n' (FFin base) (FFin maximum) (FFin 0) i = Inr d1 \<and> d0 \<le> d1"
proof -
  have ok: "\<exists>d. bounded_backoff_seconds dg k (FFin base) (FFin maximum) (FFin j) i = Inr d \<and> 0 < d \<and>
      d \<le> maximum \<and> (j = 0 \<longrightarrow> d = min maximum (base * 2 ^ nat (min (max 0 (k - 1)) 16)))"
    if "0 \<le> j" "j \<le> 1" for k j
  proof -
    have "\<exists>d. bounded_backoff_seconds dg k (FFin base) (FFin maximum) (FFin j) i = Inr d"
      using assms(1,2) that by (simp add: bounded_backoff_seconds_def Let_def)
    then show ?thesis using backoff_bounds by fastforce
  qed
  define e where "e k = nat (min (max 0 (k - 1)) 16)" for k :: int
  have "e n \<le> e n'" using assms(5) by (auto simp: e_def intro!: nat_mono)
  then have "(2 :: rat) ^ e n \<le> 2 ^ e n'" by (rule power_increasing) simp
  then have "base * 2 ^ e n \<le> base * 2 ^ e n'" using assms(1) by simp
  then have "min maximum (base * 2 ^ e n) \<le> min maximum (base * 2 ^ e n')" by (simp add: min_le_iff_disj)
  then have mono: "min maximum (base * 2 ^ nat (min (max 0 (n - 1)) 16)) \<le>
      min maximum (base * 2 ^ nat (min (max 0 (n' - 1)) 16))" unfolding e_def .
  obtain d where d: "bounded_backoff_seconds dg n (FFin base) (FFin maximum) (FFin jitter) i = Inr d"
    "0 < d" "d \<le> maximum" using ok assms(3,4) by blast
  obtain d0 where d0: "bounded_backoff_seconds dg n (FFin base) (FFin maximum) (FFin 0) i = Inr d0"
    "d0 = min maximum (base * 2 ^ nat (min (max 0 (n - 1)) 16))" using ok [of 0 n] by auto
  obtain d1 where d1: "bounded_backoff_seconds dg n' (FFin base) (FFin maximum) (FFin 0) i = Inr d1"
    "d1 = min maximum (base * 2 ^ nat (min (max 0 (n' - 1)) 16))" using ok [of 0 n'] by auto
  have "d0 \<le> d1" unfolding d0(2) d1(2) by (rule mono)
  then show ?thesis by (intro exI conjI) (rule d d0 d1)+
qed

theorem backoff_bounded_and_monotone_witness:
  "\<exists>d d0 d1. bounded_backoff_seconds (\<lambda>_. 5) 2 (FFin 1) (FFin 300) (FFin (1 / 4)) ''k'' = Inr d \<and> d \<le> 300 \<and>
     bounded_backoff_seconds (\<lambda>_. 5) 2 (FFin 1) (FFin 300) (FFin 0) ''k'' = Inr d0 \<and>
     bounded_backoff_seconds (\<lambda>_. 5) 9 (FFin 1) (FFin 300) (FFin 0) ''k'' = Inr d1 \<and> d0 \<le> d1"
proof -
  have h: "(0 :: rat) < 1" "(1 :: rat) \<le> 300" "(0 :: rat) \<le> 1 / 4" "(1 / 4 :: rat) \<le> 1" "(2 :: int) \<le> 9"
    by simp_all
  show ?thesis using backoff_bounded_and_monotone [OF h, of "\<lambda>_. 5" "''k''"] by blast
qed
end
