(* ===== verification/DeliveryQueue.thy ===== *)
theory DeliveryQueue
  imports DeliveryResult
begin

text \<open>
  The reference delivery queue (\<open>InMemoryTelegramDeliveryQueue\<close> of
  \<open>core/telegram_delivery_queue_contract.py\<close>): enqueue with deduplication, claim, heartbeat, resolve with
  rate-limit bookkeeping, recovery of expired leases and the two operator commands.  Every operation
  holds the queue's lock for its whole body, so operations are atomic steps; \<open>queue_step\<close> is their
  interleaving.
\<close>

section \<open>State\<close>

record delivery_queue =
  q_jobs :: "(int, delivery_job) dict"
  q_destination_cooldowns :: "(string, int) dict"
  q_bot_cooldowns :: "(string, int) dict"
  q_bot_probe_not_before :: "(string, int) dict"
  q_recent_429 :: "(string, (string, int) dict) dict"
  q_dedupe_index :: "(string, int) dict"
  q_next_id :: int
  q_next_sequence :: int

definition empty_queue :: delivery_queue where
  "empty_queue =
     \<lparr>q_jobs = [], q_destination_cooldowns = [], q_bot_cooldowns = [], q_bot_probe_not_before = [],
      q_recent_429 = [], q_dedupe_index = [], q_next_id = 1, q_next_sequence = 1\<rparr>"

record enqueue_command =
  ec_feeder :: feeder_kind
  ec_source_natural_id :: string
  ec_source_version :: int
  ec_action :: delivery_action
  ec_destination_key :: string
  ec_destination_class :: destination_class
  ec_method :: string
  ec_payload :: string
  ec_bot_identity :: string
  ec_delivery_deadline_at :: "int option"
  ec_eligible_at :: "int option"
  ec_freshness_deadline_at :: "int option"
  ec_campaign_id :: "string option"

section \<open>Operations\<close>

definition command_key :: "enqueue_command \<Rightarrow> string" where
  "command_key c =
     build_delivery_dedupe_key (ec_feeder c) (ec_source_natural_id c) (ec_source_version c) (ec_action c)
       (ec_destination_key c)"

definition comparable :: "delivery_job \<Rightarrow> enqueue_command \<Rightarrow> bool" where
  "comparable existing c \<longleftrightarrow>
     job_bot_identity existing = ec_bot_identity c \<and>
     job_destination_class existing = ec_destination_class c \<and>
     job_method existing = ec_method c \<and> job_payload existing = ec_payload c \<and>
     job_delivery_deadline_at existing = ec_delivery_deadline_at c \<and>
     job_eligible_at existing = ec_eligible_at c \<and>
     job_freshness_deadline_at existing = ec_freshness_deadline_at c \<and>
     job_campaign_id existing = ec_campaign_id c"

definition new_job :: "int \<Rightarrow> int \<Rightarrow> nat \<Rightarrow> enqueue_command \<Rightarrow> delivery_job" where
  "new_job i sq rank c =
     \<lparr>job_id = i, job_dedupe_key = command_key c, job_feeder = ec_feeder c, job_feeder_rank = rank,
      job_source_natural_id = ec_source_natural_id c, job_source_version = ec_source_version c,
      job_destination_key = ec_destination_key c, job_destination_class = ec_destination_class c,
      job_method = ec_method c, job_payload = ec_payload c, job_action = ec_action c,
      job_created_sequence = sq, job_bot_identity = ec_bot_identity c,
      job_delivery_deadline_at = ec_delivery_deadline_at c, job_eligible_at = ec_eligible_at c,
      job_freshness_deadline_at = ec_freshness_deadline_at c, job_campaign_id = ec_campaign_id c,
      job_state = ST_PENDING, job_attempt_count = 0, job_provider_attempt_count = 0,
      job_next_retry_at = None, job_lease_until = None, job_lease_token = 0, job_worker_id = None,
      job_last_error_class = None, job_last_error_message = None, job_telegram_message_id = None\<rparr>"

definition enqueue ::
  "delivery_queue \<Rightarrow> enqueue_command \<Rightarrow> (delivery_error + (delivery_job \<times> bool)) \<times> delivery_queue" where
  "enqueue q c =
     (case feeder_internal_rank (ec_feeder c) (ec_action c) of
        Inl e \<Rightarrow> (Inl e, q)
      | Inr rank \<Rightarrow>
          (case dict_get (q_dedupe_index q) (command_key c) of
             Some existing_id \<Rightarrow>
               (case dict_get (q_jobs q) existing_id of
                  None \<Rightarrow> (Inl UnknownJob, q)
                | Some existing \<Rightarrow>
                    (if comparable existing c then (Inr (existing, False), q)
                     else (Inl (DedupeConflict (command_key c)), q)))
           | None \<Rightarrow>
               (let job = new_job (q_next_id q) (q_next_sequence q) rank c
                in (Inr (job, True),
                    q\<lparr>q_jobs := dict_put (job_id job) job (q_jobs q),
                      q_dedupe_index := dict_put (command_key c) (job_id job) (q_dedupe_index q),
                      q_next_id := q_next_id q + 1, q_next_sequence := q_next_sequence q + 1\<rparr>))))"

definition MINIMUM_LEASE_MARGIN_SECONDS :: rat where
  "MINIMUM_LEASE_MARGIN_SECONDS = 15"

definition cooling :: "(string, int) dict \<Rightarrow> string \<Rightarrow> int \<Rightarrow> bool" where
  "cooling d k now = (case dict_get d k of None \<Rightarrow> False | Some t \<Rightarrow> t > now)"

definition due :: "int option \<Rightarrow> int \<Rightarrow> bool" where
  "due t now = (case t of None \<Rightarrow> True | Some u \<Rightarrow> u \<le> now)"

definition claim_ready :: "delivery_queue \<Rightarrow> string \<Rightarrow> int \<Rightarrow> delivery_job \<Rightarrow> bool" where
  "claim_ready q lane now job \<longleftrightarrow>
     job_state job \<in> set CLAIMABLE_DELIVERY_STATES \<and> job_bot_identity job = lane \<and>
     due (job_eligible_at job) now \<and> due (job_next_retry_at job) now \<and>
     \<not> cooling (q_destination_cooldowns q) (job_destination_key job) now"

definition lease_job :: "string \<Rightarrow> int \<Rightarrow> rat \<Rightarrow> delivery_job \<Rightarrow> delivery_job" where
  "lease_job worker now lease_seconds job =
     job\<lparr>job_state := ST_LEASED, job_worker_id := Some worker,
         job_lease_token := job_lease_token job + 1,
         job_lease_until := Some (now + seconds_us lease_seconds),
         job_attempt_count := job_attempt_count job + 1\<rparr>"

definition put_job :: "delivery_queue \<Rightarrow> delivery_job \<Rightarrow> delivery_queue" where
  "put_job q job = q\<lparr>q_jobs := dict_put (job_id job) job (q_jobs q)\<rparr>"

definition claim_next ::
  "delivery_queue \<Rightarrow> int \<Rightarrow> string \<Rightarrow> rat \<Rightarrow> rat \<Rightarrow> string
     \<Rightarrow> (delivery_error + delivery_job option) \<times> delivery_queue" where
  "claim_next q now worker request_timeout_seconds lease_seconds bot_identity =
     (let lane = py_strip bot_identity
      in if lease_seconds < request_timeout_seconds + MINIMUM_LEASE_MARGIN_SECONDS then (Inl LeaseTooShort, q)
         else if lane = [] then (Inl BotIdentityRequired, q)
         else if cooling (q_bot_cooldowns q) lane now \<or> cooling (q_bot_probe_not_before q) lane now
         then (Inr None, q)
         else
           (case min_by (delivery_order_key now)
                   (filter (claim_ready q lane now) (dict_values (q_jobs q))) of
              None \<Rightarrow> (Inr None, q)
            | Some job \<Rightarrow>
                (let leased = lease_job worker now lease_seconds job
                 in (Inr (Some leased), put_job q leased))))"

definition holds_lease :: "delivery_job \<Rightarrow> string \<Rightarrow> int \<Rightarrow> bool" where
  "holds_lease job worker token \<longleftrightarrow>
     job_state job = ST_LEASED \<and> job_worker_id job = Some worker \<and> job_lease_token job = token"

definition heartbeat ::
  "delivery_queue \<Rightarrow> int \<Rightarrow> string \<Rightarrow> int \<Rightarrow> int \<Rightarrow> rat \<Rightarrow> rat \<Rightarrow> (delivery_error + bool) \<times> delivery_queue" where
  "heartbeat q i worker token now request_timeout_seconds lease_seconds =
     (if lease_seconds < request_timeout_seconds + MINIMUM_LEASE_MARGIN_SECONDS then (Inl LeaseTooShort, q)
      else
        (case dict_get (q_jobs q) i of
           None \<Rightarrow> (Inl UnknownJob, q)
         | Some job \<Rightarrow>
             (if \<not> holds_lease job worker token then (Inr False, q)
              else (Inr True, put_job q (job\<lparr>job_lease_until := Some (now + seconds_us lease_seconds)\<rparr>)))))"

text \<open>Raising a stored moment to a later one.\<close>

definition raise_until :: "string \<Rightarrow> int \<Rightarrow> (string, int) dict \<Rightarrow> (string, int) dict" where
  "raise_until k t d =
     (case dict_get d k of
        None \<Rightarrow> dict_put k t d
      | Some u \<Rightarrow> (if t > u then dict_put k t d else d))"

definition max_of :: "int list \<Rightarrow> int \<Rightarrow> int" where
  "max_of ts dflt = (case ts of [] \<Rightarrow> dflt | t # rest \<Rightarrow> fold max rest t)"

definition note_rate_limit ::
  "delivery_queue \<Rightarrow> delivery_job \<Rightarrow> delivery_decision \<Rightarrow> int \<Rightarrow> rat \<Rightarrow> rat \<Rightarrow> delivery_decision \<times> delivery_queue" where
  "note_rate_limit q job decision now probe_delay window_seconds =
     (let window = seconds_us (max 0 window_seconds);
          stored = (case dict_get (q_recent_429 q) (job_bot_identity job) of None \<Rightarrow> [] | Some d \<Rightarrow> d);
          recent = filter (\<lambda>(dest, seen_at). now - seen_at \<le> window) stored;
          distinct_other = list_ex (\<lambda>(dest, _). dest \<noteq> job_destination_key job) recent;
          recent' = dict_put (job_destination_key job) now recent;
          q1 = q\<lparr>q_recent_429 := dict_put (job_bot_identity job) recent' (q_recent_429 q)\<rparr>
      in if distinct_other then
           (let candidate =
                  max_of (List.map_filter (dict_get (q_destination_cooldowns q1)) (dict_keys recent'))
                    (case dd_destination_cooldown_until decision of Some t \<Rightarrow> t | None \<Rightarrow> now);
                bots = raise_until (job_bot_identity job) candidate (q_bot_cooldowns q1)
            in (decision\<lparr>dd_bot_cooldown_until := dict_get bots (job_bot_identity job)\<rparr>,
                q1\<lparr>q_bot_cooldowns := bots,
                   q_bot_probe_not_before := dict_del (job_bot_identity job) (q_bot_probe_not_before q1)\<rparr>))
         else
           (let probe_at = now + seconds_us (max 0 probe_delay);
                probes = raise_until (job_bot_identity job) probe_at (q_bot_probe_not_before q1)
            in (decision\<lparr>dd_bot_probe_not_before := dict_get probes (job_bot_identity job)\<rparr>,
                q1\<lparr>q_bot_probe_not_before := probes\<rparr>)))"

definition resolve ::
  "(string \<Rightarrow> 64 word) \<Rightarrow> retry_config \<Rightarrow> delivery_queue \<Rightarrow> int \<Rightarrow> gateway_result \<Rightarrow> string \<Rightarrow> int \<Rightarrow> int
     \<Rightarrow> rat \<Rightarrow> rat \<Rightarrow> (delivery_error + delivery_decision) \<times> delivery_queue" where
  "resolve digest64 cfg q i result worker token now probe_delay window_seconds =
     (case dict_get (q_jobs q) i of
        None \<Rightarrow> (Inl UnknownJob, q)
      | Some job \<Rightarrow>
          (if is_terminal job then
             (case apply_gateway_result digest64 cfg now job result of
                Inl e \<Rightarrow> (Inl e, q)
              | Inr (job', d) \<Rightarrow> (Inr d, put_job q job'))
           else if \<not> holds_lease job worker token
           then (Inr (decide OUT_STALE_LEASE ''stale_or_missing_lease''), q)
           else
             (case apply_gateway_result digest64 cfg now
                     (job\<lparr>job_provider_attempt_count := job_provider_attempt_count job + 1\<rparr>) result of
                Inl e \<Rightarrow> (Inl e, q)
              | Inr (job', d) \<Rightarrow>
                  (let q1 = put_job q job';
                       q2 = (case dd_destination_cooldown_until d of
                               None \<Rightarrow> q1
                             | Some t \<Rightarrow>
                                 q1\<lparr>q_destination_cooldowns :=
                                      raise_until (job_destination_key job') t (q_destination_cooldowns q1)\<rparr>)
                   in if dd_reason d = ''telegram_rate_limited'' then
                        (let (d', q3) = note_rate_limit q2 job' d now probe_delay window_seconds
                         in (Inr d', q3))
                      else (Inr d, q2)))))"

definition lease_expired :: "int \<Rightarrow> delivery_job \<Rightarrow> bool" where
  "lease_expired now job \<longleftrightarrow>
     job_state job = ST_LEASED \<and> (case job_lease_until job of None \<Rightarrow> False | Some t \<Rightarrow> t \<le> now)"

definition map_jobs :: "(delivery_job \<Rightarrow> delivery_job) \<Rightarrow> delivery_queue \<Rightarrow> delivery_queue" where
  "map_jobs f q = q\<lparr>q_jobs := map (\<lambda>(i, job). (i, f job)) (q_jobs q)\<rparr>"

definition recover_expired_leases :: "delivery_queue \<Rightarrow> int \<Rightarrow> int list \<times> delivery_queue" where
  "recover_expired_leases q now =
     (map job_id (filter (lease_expired now) (sort_key (delivery_order_key now) (dict_values (q_jobs q)))),
      map_jobs (\<lambda>job. if lease_expired now job
                       then job\<lparr>job_state := ST_PENDING, job_worker_id := None, job_lease_until := None\<rparr>
                       else job) q)"

definition resume_job :: "int \<Rightarrow> delivery_job \<Rightarrow> delivery_job" where
  "resume_job now job = job\<lparr>job_state := ST_PENDING, job_next_retry_at := Some now\<rparr>"

definition operator_resume_destination :: "delivery_queue \<Rightarrow> string \<Rightarrow> int \<Rightarrow> int list \<times> delivery_queue" where
  "operator_resume_destination q destination now =
     (let hit = (\<lambda>job. job_destination_key job = destination \<and> job_state job = ST_BLOCKED_DESTINATION)
      in (map job_id (filter hit (dict_values (q_jobs q))),
          map_jobs (\<lambda>job. if hit job then resume_job now job else job)
            (q\<lparr>q_destination_cooldowns := dict_del destination (q_destination_cooldowns q)\<rparr>)))"

definition operator_resume_global :: "delivery_queue \<Rightarrow> int \<Rightarrow> int list \<times> delivery_queue" where
  "operator_resume_global q now =
     (let hit = (\<lambda>job. job_state job \<in> {ST_BLOCKED_BOT, ST_BLOCKED_GATEWAY})
      in (map job_id (filter hit (dict_values (q_jobs q))),
          map_jobs (\<lambda>job. if hit job then resume_job now job else job)
            (q\<lparr>q_bot_cooldowns := [], q_bot_probe_not_before := [], q_recent_429 := []\<rparr>)))"

section \<open>Steps\<close>

inductive queue_step :: "delivery_queue \<Rightarrow> delivery_queue \<Rightarrow> bool" where
  step_enqueue: "enqueue q c = (r, q') \<Longrightarrow> queue_step q q'"
| step_claim: "claim_next q now w rt ls b = (r, q') \<Longrightarrow> queue_step q q'"
| step_heartbeat: "heartbeat q i w t now rt ls = (r, q') \<Longrightarrow> queue_step q q'"
| step_resolve: "resolve dg cfg q i res w t now pd ws = (r, q') \<Longrightarrow> queue_step q q'"
| step_recover: "recover_expired_leases q now = (is, q') \<Longrightarrow> queue_step q q'"
| step_resume_destination: "operator_resume_destination q d now = (is, q') \<Longrightarrow> queue_step q q'"
| step_resume_global: "operator_resume_global q now = (is, q') \<Longrightarrow> queue_step q q'"

inductive_cases queue_stepE: "queue_step q q'"

definition queue_init :: "delivery_queue \<Rightarrow> bool" where
  "queue_init q \<longleftrightarrow> q = empty_queue"

section \<open>Status transitions\<close>

text \<open>The transitions a job of the queue can make; a final state is left by none of them.\<close>

definition settle_targets :: "delivery_state list" where
  "settle_targets =
     [ST_SENT, ST_SENT_NOOP, ST_PENDING_RETRY, ST_BLOCKED_DESTINATION, ST_BLOCKED_BOT, ST_BLOCKED_GATEWAY,
      ST_TERMINAL_FAILED, ST_PERMANENT_UNDELIVERABLE, ST_QUARANTINED, ST_AMBIGUOUS, ST_EXPIRED_INTERACTION]"

fun job_transition :: "delivery_state \<Rightarrow> delivery_state \<Rightarrow> bool" where
  "job_transition ST_PENDING b = (b \<in> {ST_PENDING, ST_LEASED})"
| "job_transition ST_PENDING_RETRY b = (b \<in> {ST_PENDING_RETRY, ST_LEASED})"
| "job_transition ST_LEASED b = (b \<in> {ST_LEASED, ST_PENDING} \<or> b \<in> set settle_targets)"
| "job_transition ST_BLOCKED_DESTINATION b = (b \<in> {ST_BLOCKED_DESTINATION, ST_PENDING})"
| "job_transition ST_BLOCKED_BOT b = (b \<in> {ST_BLOCKED_BOT, ST_PENDING})"
| "job_transition ST_BLOCKED_GATEWAY b = (b \<in> {ST_BLOCKED_GATEWAY, ST_PENDING})"
| "job_transition a b = (b = a)"

definition final_state :: "delivery_state \<Rightarrow> bool" where
  "final_state st \<longleftrightarrow> st \<in> set FINAL_DELIVERY_STATES"

interpretation job_status: status_machine job_transition final_state
proof unfold_locales
  show "b = a" if "final_state a" "job_transition a b" for a b
    using that by (cases a) (auto simp: final_state_def FINAL_DELIVERY_STATES_def)
qed

lemma job_transition_refl [simp]: "job_transition a a"
  by (cases a) auto

lemma outcome_state_settles: "outcome_state out = Some st \<Longrightarrow> st \<in> set settle_targets"
  by (cases out) (auto simp: settle_targets_def)

section \<open>The queue invariant\<close>

text \<open>How one job may change in one step.\<close>

definition same_job :: "delivery_job \<Rightarrow> delivery_job \<Rightarrow> bool" where
  "same_job j j' \<longleftrightarrow>
     job_id j' = job_id j \<and> job_dedupe_key j' = job_dedupe_key j \<and>
     job_created_sequence j' = job_created_sequence j \<and> job_bot_identity j' = job_bot_identity j \<and>
     job_destination_key j' = job_destination_key j \<and> job_action j' = job_action j \<and>
     job_method j' = job_method j \<and> job_feeder j' = job_feeder j"

definition evolves :: "delivery_job \<Rightarrow> delivery_job \<Rightarrow> bool" where
  "evolves j j' \<longleftrightarrow> same_job j j' \<and> job_transition (job_state j) (job_state j') \<and>
     job_lease_token j \<le> job_lease_token j' \<and> (is_terminal j \<longrightarrow> j' = j)"

definition lease_ok :: "delivery_job \<Rightarrow> bool" where
  "lease_ok j \<longleftrightarrow> 0 \<le> job_lease_token j \<and>
     (job_state j = ST_LEASED \<longrightarrow> job_worker_id j \<noteq> None \<and> job_lease_until j \<noteq> None)"

definition queue_ok :: "delivery_queue \<Rightarrow> bool" where
  "queue_ok q \<longleftrightarrow> dict_wf (q_jobs q) \<and> q_next_sequence q = q_next_id q \<and>
     (\<forall>i j. dict_get (q_jobs q) i = Some j \<longrightarrow>
        job_id j = i \<and> job_created_sequence j = i \<and> i < q_next_id q \<and>
        dict_get (q_dedupe_index q) (job_dedupe_key j) = Some i \<and> lease_ok j) \<and>
     (\<forall>k i. dict_get (q_dedupe_index q) k = Some i \<longrightarrow>
        (\<exists>j. dict_get (q_jobs q) i = Some j \<and> job_dedupe_key j = k))"

lemma evolves_refl [simp]: "evolves j j"
  by (simp add: evolves_def same_job_def)

lemma dict_get_map_jobs: "dict_get (q_jobs (map_jobs f q)) i = map_option f (dict_get (q_jobs q) i)"
  unfolding map_jobs_def by (induction "q_jobs q" arbitrary: q) (auto simp: map_of_map)

lemma dict_wf_map_jobs [simp]: "dict_wf (q_jobs (map_jobs f q)) = dict_wf (q_jobs q)"
  by (simp add: map_jobs_def dict_wf_def dict_keys_def split_def comp_def)

lemma map_jobs_frame [simp]:
  "q_dedupe_index (map_jobs f q) = q_dedupe_index q" "q_next_id (map_jobs f q) = q_next_id q"
  "q_next_sequence (map_jobs f q) = q_next_sequence q"
  "q_destination_cooldowns (map_jobs f q) = q_destination_cooldowns q"
  by (simp_all add: map_jobs_def)

lemma put_job_frame [simp]:
  "q_dedupe_index (put_job q j) = q_dedupe_index q" "q_next_id (put_job q j) = q_next_id q"
  "q_next_sequence (put_job q j) = q_next_sequence q"
  "q_jobs (put_job q j) = dict_put (job_id j) j (q_jobs q)"
  "q_destination_cooldowns (put_job q j) = q_destination_cooldowns q"
  by (simp_all add: put_job_def)

text \<open>A step that changes jobs in place: the index, the counters and the set of jobs stay.\<close>

definition jobs_evolve :: "delivery_queue \<Rightarrow> delivery_queue \<Rightarrow> bool" where
  "jobs_evolve q q' \<longleftrightarrow>
     dict_wf (q_jobs q') \<and> q_dedupe_index q' = q_dedupe_index q \<and> q_next_id q' = q_next_id q \<and>
     q_next_sequence q' = q_next_sequence q \<and>
     (\<forall>i. (dict_get (q_jobs q') i = None \<longleftrightarrow> dict_get (q_jobs q) i = None)) \<and>
     (\<forall>i j j'. dict_get (q_jobs q) i = Some j \<longrightarrow> dict_get (q_jobs q') i = Some j' \<longrightarrow>
        evolves j j' \<and> (lease_ok j \<longrightarrow> lease_ok j'))"

lemma queue_ok_job:
  assumes "queue_ok q" and "dict_get (q_jobs q) i = Some j"
  shows "job_id j = i" "job_created_sequence j = i" "i < q_next_id q"
    "dict_get (q_dedupe_index q) (job_dedupe_key j) = Some i" "lease_ok j"
  using assms by (simp_all add: queue_ok_def)

lemma queue_ok_index:
  assumes "queue_ok q" and "dict_get (q_dedupe_index q) k = Some i"
  shows "\<exists>j. dict_get (q_jobs q) i = Some j \<and> job_dedupe_key j = k"
  using assms unfolding queue_ok_def by blast

lemma queue_ok_value:
  "queue_ok q \<Longrightarrow> j \<in> set (dict_values (q_jobs q)) \<Longrightarrow> dict_get (q_jobs q) (job_id j) = Some j"
  using dict_values_get [of "q_jobs q" j] queue_ok_job(1) unfolding queue_ok_def by metis

lemma jobs_evolve_None:
  "jobs_evolve q q' \<Longrightarrow> dict_get (q_jobs q') i = None \<longleftrightarrow> dict_get (q_jobs q) i = None"
  unfolding jobs_evolve_def by blast

lemma jobs_evolve_back:
  assumes "jobs_evolve q q'" and "dict_get (q_jobs q') i = Some j'"
  shows "\<exists>j. dict_get (q_jobs q) i = Some j \<and> evolves j j' \<and> (lease_ok j \<longrightarrow> lease_ok j')"
proof -
  obtain j where "dict_get (q_jobs q) i = Some j"
    using assms jobs_evolve_None by (metis not_None_eq)
  with assms show ?thesis unfolding jobs_evolve_def by blast
qed

lemma jobs_evolve_forth:
  assumes "jobs_evolve q q'" and "dict_get (q_jobs q) i = Some j"
  shows "\<exists>j'. dict_get (q_jobs q') i = Some j' \<and> evolves j j'"
proof -
  obtain j' where "dict_get (q_jobs q') i = Some j'"
    using assms jobs_evolve_None by (metis not_None_eq)
  with assms show ?thesis unfolding jobs_evolve_def by blast
qed

lemma jobs_evolve_ok:
  assumes ok: "queue_ok q" and ev: "jobs_evolve q q'"
  shows "queue_ok q'"
  unfolding queue_ok_def
proof (intro conjI allI impI)
  show "dict_wf (q_jobs q')" "q_next_sequence q' = q_next_id q'"
    using ok ev by (simp_all add: jobs_evolve_def queue_ok_def)
next
  fix i j' assume "dict_get (q_jobs q') i = Some j'"
  then obtain j where j: "dict_get (q_jobs q) i = Some j" "evolves j j'" "lease_ok j \<longrightarrow> lease_ok j'"
    using jobs_evolve_back [OF ev] by blast
  then show "job_id j' = i" "job_created_sequence j' = i" "i < q_next_id q'"
    "dict_get (q_dedupe_index q') (job_dedupe_key j') = Some i" "lease_ok j'"
    using queue_ok_job [OF ok j(1)] ev by (simp_all add: jobs_evolve_def evolves_def same_job_def)
next
  fix k i assume "dict_get (q_dedupe_index q') k = Some i"
  then have "dict_get (q_dedupe_index q) k = Some i" using ev by (simp add: jobs_evolve_def)
  then obtain j where "dict_get (q_jobs q) i = Some j" "job_dedupe_key j = k"
    using queue_ok_index [OF ok] by blast
  then show "\<exists>j. dict_get (q_jobs q') i = Some j \<and> job_dedupe_key j = k"
    using jobs_evolve_forth [OF ev] by (fastforce simp: evolves_def same_job_def)
qed

lemma jobs_evolve_refl: "queue_ok q \<Longrightarrow> jobs_evolve q q"
  by (auto simp: jobs_evolve_def queue_ok_def)

lemma jobs_evolve_cong:
  "jobs_evolve q q1 \<Longrightarrow> q_jobs q2 = q_jobs q1 \<Longrightarrow> q_dedupe_index q2 = q_dedupe_index q1 \<Longrightarrow>
   q_next_id q2 = q_next_id q1 \<Longrightarrow> q_next_sequence q2 = q_next_sequence q1 \<Longrightarrow> jobs_evolve q q2"
  by (simp add: jobs_evolve_def)

lemma jobs_evolve_put:
  assumes "queue_ok q" and "dict_get (q_jobs q) (job_id j') = Some j" and "evolves j j'"
    and "lease_ok j \<Longrightarrow> lease_ok j'"
  shows "jobs_evolve q (put_job q j')"
  using assms by (auto simp: jobs_evolve_def queue_ok_def pydict.get_put)

lemma jobs_evolve_map:
  assumes "queue_ok q" and "\<And>j. evolves j (f j)" and "\<And>j. lease_ok j \<Longrightarrow> lease_ok (f j)"
  shows "jobs_evolve q (map_jobs f q)"
  using assms by (auto simp: jobs_evolve_def queue_ok_def dict_get_map_jobs)

section \<open>Every operation keeps the invariant\<close>

lemma not_terminal_leased: "job_state j = ST_LEASED \<Longrightarrow> \<not> is_terminal j"
  by (simp add: is_terminal_def FINAL_DELIVERY_STATES_def)

lemma lease_evolves:
  assumes "job_state j \<in> set CLAIMABLE_DELIVERY_STATES"
  shows "evolves j (lease_job w now ls j) \<and> (lease_ok j \<longrightarrow> lease_ok (lease_job w now ls j))"
  using assms
  by (auto simp: evolves_def same_job_def lease_job_def lease_ok_def is_terminal_def FINAL_DELIVERY_STATES_def)

lemma claim_shape:
  assumes "claim_next q now w rt ls b = (r, q')"
  shows "q' = q \<and> (\<forall>j. r \<noteq> Inr (Some j)) \<or> (\<exists>job. r = Inr (Some (lease_job w now ls job)) \<and>
    rt + MINIMUM_LEASE_MARGIN_SECONDS \<le> ls \<and>
    \<not> cooling (q_bot_cooldowns q) (py_strip b) now \<and> \<not> cooling (q_bot_probe_not_before q) (py_strip b) now \<and>
    min_by (delivery_order_key now)
      (filter (claim_ready q (py_strip b) now) (dict_values (q_jobs q))) = Some job \<and>
    q' = put_job q (lease_job w now ls job))"
proof -
  let ?min = "min_by (delivery_order_key now) (filter (claim_ready q (py_strip b) now) (dict_values (q_jobs q)))"
  have "q' = q \<and> (\<forall>j. r \<noteq> Inr (Some j))" if "ls < rt + MINIMUM_LEASE_MARGIN_SECONDS \<or> py_strip b = [] \<or>
      cooling (q_bot_cooldowns q) (py_strip b) now \<or> cooling (q_bot_probe_not_before q) (py_strip b) now \<or>
      ?min = None"
    using assms that unfolding claim_next_def Let_def by (auto split: if_split_asm)
  moreover have "r = Inr (Some (lease_job w now ls job)) \<and> q' = put_job q (lease_job w now ls job)"
    if "\<not> ls < rt + MINIMUM_LEASE_MARGIN_SECONDS" "py_strip b \<noteq> []"
      "\<not> cooling (q_bot_cooldowns q) (py_strip b) now" "\<not> cooling (q_bot_probe_not_before q) (py_strip b) now"
      "?min = Some job" for job
    using assms that unfolding claim_next_def Let_def by simp
  ultimately show ?thesis by (cases ?min) (metis not_less)+
qed

lemma claimed_job:
  assumes "queue_ok q"
    and "min_by (delivery_order_key now) (filter (claim_ready q lane now) (dict_values (q_jobs q))) = Some job"
  shows "dict_get (q_jobs q) (job_id job) = Some job \<and> claim_ready q lane now job"
proof -
  have "job \<in> set (filter (claim_ready q lane now) (dict_values (q_jobs q)))"
    using min_by_in [OF assms(2)] .
  then show ?thesis using queue_ok_value [OF assms(1)] by simp
qed

lemma claim_evolves:
  assumes ok: "queue_ok q" and cl: "claim_next q now w rt ls b = (r, q')"
  shows "jobs_evolve q q'"
proof (cases "q' = q")
  case True
  then show ?thesis using jobs_evolve_refl [OF ok] by simp
next
  case False
  then obtain job where job: "min_by (delivery_order_key now)
      (filter (claim_ready q (py_strip b) now) (dict_values (q_jobs q))) = Some job"
    "q' = put_job q (lease_job w now ls job)"
    using claim_shape [OF cl] by blast
  have c: "dict_get (q_jobs q) (job_id (lease_job w now ls job)) = Some job"
    "job_state job \<in> set CLAIMABLE_DELIVERY_STATES"
    using claimed_job [OF ok job(1)] by (simp_all add: lease_job_def claim_ready_def)
  show ?thesis unfolding job(2) using jobs_evolve_put [OF ok c(1)] lease_evolves [OF c(2)] by blast
qed

lemma heartbeat_evolves:
  assumes ok: "queue_ok q" and h: "heartbeat q i w t now rt ls = (r, q')"
  shows "jobs_evolve q q'"
proof (cases "q' = q")
  case True
  then show ?thesis using jobs_evolve_refl [OF ok] by simp
next
  case False
  have "\<exists>j. dict_get (q_jobs q) i = Some j \<and> holds_lease j w t \<and>
      q' = put_job q (j\<lparr>job_lease_until := Some (now + seconds_us ls)\<rparr>)"
    using h False unfolding heartbeat_def by (simp split: if_split_asm option.split_asm)
  then obtain j where j: "dict_get (q_jobs q) i = Some j" "holds_lease j w t"
    "q' = put_job q (j\<lparr>job_lease_until := Some (now + seconds_us ls)\<rparr>)" by blast
  let ?j = "j\<lparr>job_lease_until := Some (now + seconds_us ls)\<rparr>"
  have g: "dict_get (q_jobs q) (job_id ?j) = Some j" using queue_ok_job(1) [OF ok j(1)] j(1) by simp
  have "evolves j ?j" "lease_ok j \<Longrightarrow> lease_ok ?j"
    using j(2) not_terminal_leased [of j]
    by (simp_all add: evolves_def same_job_def lease_ok_def holds_lease_def)
  then show ?thesis unfolding j(3) using jobs_evolve_put [OF ok g] by simp
qed

lemma gateway_evolves:
  assumes "job_state j = ST_LEASED"
    and "apply_gateway_result dg cfg now (j\<lparr>job_provider_attempt_count := n\<rparr>) res = Inr (j', d)"
  shows "evolves j j' \<and> (lease_ok j \<longrightarrow> lease_ok j') \<and> job_id j' = job_id j"
proof -
  let ?j = "j\<lparr>job_provider_attempt_count := n\<rparr>"
  have nt: "\<not> is_terminal ?j" "\<not> is_terminal j"
    using not_terminal_leased [of ?j] not_terminal_leased [of j] assms(1) by simp_all
  have r: "same_delivery (clear_lease ?j) j'" "outcome_state (dd_outcome d) = Some (job_state j')"
    using gateway_result_ok [OF nt(1), of dg cfg now res] assms(2) by (auto simp: resolution_ok_def)
  have st: "job_state j' \<in> set settle_targets" using outcome_state_settles [OF r(2)] .
  then have "job_state j' \<noteq> ST_LEASED" by (auto simp: settle_targets_def)
  then show ?thesis
    using same_delivery_fields [OF r(1)] st assms(1) nt(2)
    by (simp add: evolves_def same_job_def lease_ok_def clear_lease_def)
qed

lemma note_rate_limit_frame:
  assumes "note_rate_limit q job d now pd ws = (d', q')"
  shows "q_jobs q' = q_jobs q \<and> q_dedupe_index q' = q_dedupe_index q \<and> q_next_id q' = q_next_id q \<and>
    q_next_sequence q' = q_next_sequence q \<and> q_destination_cooldowns q' = q_destination_cooldowns q"
  using assms by (auto simp: note_rate_limit_def Let_def split: if_splits)

lemma resolve_shape:
  assumes "resolve dg cfg q i res w t now pd ws = (r, q')" and "queue_ok q"
  shows "q' = q \<or> (\<exists>j j' d. dict_get (q_jobs q) i = Some j \<and> holds_lease j w t \<and>
    apply_gateway_result dg cfg now
      (j\<lparr>job_provider_attempt_count := job_provider_attempt_count j + 1\<rparr>) res = Inr (j', d) \<and>
    q_jobs q' = q_jobs (put_job q j') \<and> q_dedupe_index q' = q_dedupe_index q \<and>
    q_next_id q' = q_next_id q \<and> q_next_sequence q' = q_next_sequence q)"
proof (cases "dict_get (q_jobs q) i")
  case (Some j)
  show ?thesis
  proof (cases "is_terminal j")
    case True
    have id: "job_id j = i" using queue_ok_job(1) [OF assms(2) Some] .
    have "dict_put i j (q_jobs q) = q_jobs q" using dict_put_same [OF Some] .
    then show ?thesis
      using assms(1) Some True id by (simp add: resolve_def apply_gateway_result_def put_job_def)
  next
    case False
    then show ?thesis
      using assms(1) Some note_rate_limit_frame
      by (auto simp: resolve_def Let_def split: if_splits sum.splits option.splits prod.splits)
  qed
qed (use assms in \<open>simp add: resolve_def\<close>)

lemma resolve_evolves:
  assumes ok: "queue_ok q" and rs: "resolve dg cfg q i res w t now pd ws = (r, q')"
  shows "jobs_evolve q q'"
proof (cases "q' = q")
  case True
  then show ?thesis using jobs_evolve_refl [OF ok] by simp
next
  case False
  then obtain j j' d where j: "dict_get (q_jobs q) i = Some j" "holds_lease j w t"
    "apply_gateway_result dg cfg now
       (j\<lparr>job_provider_attempt_count := job_provider_attempt_count j + 1\<rparr>) res = Inr (j', d)"
    "q_jobs q' = q_jobs (put_job q j')" "q_dedupe_index q' = q_dedupe_index q"
    "q_next_id q' = q_next_id q" "q_next_sequence q' = q_next_sequence q"
    using resolve_shape [OF rs ok] by blast
  have e: "evolves j j'" "lease_ok j \<longrightarrow> lease_ok j'" "job_id j' = job_id j"
    using gateway_evolves [OF _ j(3)] j(2) by (simp_all add: holds_lease_def)
  have g: "dict_get (q_jobs q) (job_id j') = Some j" using queue_ok_job(1) [OF ok j(1)] j(1) e(3) by simp
  have "jobs_evolve q (put_job q j')" using jobs_evolve_put [OF ok g e(1)] e(2) by blast
  then show ?thesis by (rule jobs_evolve_cong) (use j in simp_all)
qed

lemma recover_evolves:
  assumes ok: "queue_ok q"
  shows "jobs_evolve q (snd (recover_expired_leases q now))"
  unfolding recover_expired_leases_def snd_conv
  by (rule jobs_evolve_map [OF ok])
    (auto simp: lease_expired_def evolves_def same_job_def lease_ok_def dest: not_terminal_leased)

lemma resume_evolves:
  assumes "job_state j \<in> {ST_BLOCKED_DESTINATION, ST_BLOCKED_BOT, ST_BLOCKED_GATEWAY}"
  shows "evolves j (resume_job now j)" "lease_ok j \<Longrightarrow> lease_ok (resume_job now j)"
  using assms by (auto simp: resume_job_def evolves_def same_job_def lease_ok_def is_terminal_def
      FINAL_DELIVERY_STATES_def)

lemma resume_destination_evolves:
  assumes ok: "queue_ok q"
  shows "jobs_evolve q (snd (operator_resume_destination q d now))"
proof -
  let ?f = "\<lambda>job. if job_destination_key job = d \<and> job_state job = ST_BLOCKED_DESTINATION
    then resume_job now job else job"
  have "jobs_evolve q (map_jobs ?f q)"
    by (rule jobs_evolve_map [OF ok]) (simp_all add: resume_evolves)
  then show ?thesis
    by (rule jobs_evolve_cong) (simp_all add: operator_resume_destination_def Let_def map_jobs_def)
qed

lemma resume_global_evolves:
  assumes ok: "queue_ok q"
  shows "jobs_evolve q (snd (operator_resume_global q now))"
proof -
  let ?f = "\<lambda>job. if job_state job \<in> {ST_BLOCKED_BOT, ST_BLOCKED_GATEWAY} then resume_job now job else job"
  have "evolves j (?f j)" "lease_ok j \<Longrightarrow> lease_ok (?f j)" for j
    using resume_evolves [of j now] by auto
  then have "jobs_evolve q (map_jobs ?f q)" by (rule jobs_evolve_map [OF ok])
  then show ?thesis
    by (rule jobs_evolve_cong) (simp_all add: operator_resume_global_def Let_def map_jobs_def)
qed

text \<open>Enqueueing either leaves the queue or adds one job under a new key.\<close>

lemma enqueue_shape:
  assumes "enqueue q c = (r, q')"
  shows "q' = q \<or> (\<exists>rank. r = Inr (new_job (q_next_id q) (q_next_sequence q) rank c, True) \<and>
    feeder_internal_rank (ec_feeder c) (ec_action c) = Inr rank \<and>
    dict_get (q_dedupe_index q) (command_key c) = None \<and>
    q' = q\<lparr>q_jobs := dict_put (q_next_id q) (new_job (q_next_id q) (q_next_sequence q) rank c) (q_jobs q),
           q_dedupe_index := dict_put (command_key c) (q_next_id q) (q_dedupe_index q),
           q_next_id := q_next_id q + 1, q_next_sequence := q_next_sequence q + 1\<rparr>)"
  using assms unfolding enqueue_def Let_def
  by (auto simp: new_job_def split: sum.split_asm option.split_asm if_split_asm)

lemma enqueue_fresh_id: "queue_ok q \<Longrightarrow> dict_get (q_jobs q) (q_next_id q) = None"
  using queue_ok_job(3) by (metis less_irrefl not_None_eq)

lemma enqueue_ok:
  assumes ok: "queue_ok q" and en: "enqueue q c = (r, q')"
  shows "queue_ok q'"
proof (cases "q' = q")
  case False
  then obtain rank where n: "dict_get (q_dedupe_index q) (command_key c) = None"
    "q' = q\<lparr>q_jobs := dict_put (q_next_id q) (new_job (q_next_id q) (q_next_sequence q) rank c) (q_jobs q),
           q_dedupe_index := dict_put (command_key c) (q_next_id q) (q_dedupe_index q),
           q_next_id := q_next_id q + 1, q_next_sequence := q_next_sequence q + 1\<rparr>"
    using enqueue_shape [OF en] by blast
  let ?j = "new_job (q_next_id q) (q_next_sequence q) rank c"
  have seq: "q_next_sequence q = q_next_id q" using ok by (simp add: queue_ok_def)
  have new: "job_id ?j = q_next_id q" "job_created_sequence ?j = q_next_id q"
    "job_dedupe_key ?j = command_key c" "lease_ok ?j"
    using seq by (simp_all add: new_job_def lease_ok_def)
  have old: "job_dedupe_key j \<noteq> command_key c" if "dict_get (q_jobs q) i = Some j" for i j
    using queue_ok_job(4) [OF ok that] n(1) by auto
  have jobs: "dict_get (q_jobs q') = (dict_get (q_jobs q))(q_next_id q \<mapsto> ?j)"
    and index: "dict_get (q_dedupe_index q') = (dict_get (q_dedupe_index q))(command_key c \<mapsto> q_next_id q)"
    and nxt: "q_next_id q' = q_next_id q + 1" "q_next_sequence q' = q_next_id q + 1"
    using n(2) seq by (simp_all add: dict_get_put fun_eq_iff)
  have all: "job_id j = i \<and> job_created_sequence j = i \<and> i < q_next_id q' \<and>
      dict_get (q_dedupe_index q') (job_dedupe_key j) = Some i \<and> lease_ok j"
    if "dict_get (q_jobs q') i = Some j" for i j
  proof (cases "i = q_next_id q")
    case True
    then show ?thesis using that new by (simp add: jobs index nxt)
  next
    case False
    then have g: "dict_get (q_jobs q) i = Some j" using that by (simp add: jobs)
    then show ?thesis using queue_ok_job [OF ok g] old [OF g] by (simp add: index nxt)
  qed
  have idx: "\<exists>j. dict_get (q_jobs q') i = Some j \<and> job_dedupe_key j = k"
    if k: "dict_get (q_dedupe_index q') k = Some i" for i k
  proof (cases "k = command_key c")
    case True
    then show ?thesis using k new by (simp add: jobs index)
  next
    case False
    then have "dict_get (q_dedupe_index q) k = Some i" using k by (simp add: index)
    then obtain j where "dict_get (q_jobs q) i = Some j" "job_dedupe_key j = k"
      using queue_ok_index [OF ok] by blast
    moreover have "i \<noteq> q_next_id q" using calculation(1) enqueue_fresh_id [OF ok] by auto
    ultimately show ?thesis by (simp add: jobs)
  qed
  have "dict_wf (q_jobs q')" using ok n(2) by (simp add: queue_ok_def)
  then show ?thesis using all idx nxt unfolding queue_ok_def by simp
qed (use ok in simp)

lemma queue_step_cases:
  assumes "queue_ok q" and "queue_step q q'"
  shows "jobs_evolve q q' \<or> (\<exists>c r. enqueue q c = (r, q'))"
  using assms(2)
proof (cases rule: queue_step.cases)
  case (step_enqueue c r)
  then show ?thesis by blast
next
  case (step_claim now w rt ls b r)
  then show ?thesis using claim_evolves [OF assms(1)] by blast
next
  case (step_heartbeat i w t now rt ls r)
  then show ?thesis using heartbeat_evolves [OF assms(1)] by blast
next
  case (step_resolve dg cfg i res w t now pd ws r)
  then show ?thesis using resolve_evolves [OF assms(1)] by blast
next
  case (step_recover now "is")
  then show ?thesis using recover_evolves [OF assms(1), of now] by simp
next
  case (step_resume_destination d now "is")
  then show ?thesis using resume_destination_evolves [OF assms(1), of d now] by simp
next
  case (step_resume_global now "is")
  then show ?thesis using resume_global_evolves [OF assms(1), of now] by simp
qed

lemma queue_ok_step: "queue_ok q \<Longrightarrow> queue_step q q' \<Longrightarrow> queue_ok q'"
  using queue_step_cases jobs_evolve_ok enqueue_ok by blast

lemma queue_ok_empty: "queue_ok empty_queue"
  by (simp add: queue_ok_def empty_queue_def)

interpretation queue: invariant_system queue_init queue_step queue_ok
proof unfold_locales
  show "queue_ok q" if "queue_init q" for q
    using that queue_ok_empty by (simp add: queue_init_def)
qed (rule queue_ok_step)

lemma enqueue_keeps_jobs:
  assumes ok: "queue_ok q" and en: "enqueue q c = (r, q')" and j: "dict_get (q_jobs q) i = Some j"
  shows "dict_get (q_jobs q') i = Some j"
proof (cases "q' = q")
  case False
  then show ?thesis
    using enqueue_shape [OF en] enqueue_fresh_id [OF ok] j by (auto simp: dict_get_put)
qed (use j in simp)

lemma queue_step_job:
  assumes ok: "queue_ok q" and st: "queue_step q q'" and j: "dict_get (q_jobs q) i = Some j"
  shows "\<exists>j'. dict_get (q_jobs q') i = Some j' \<and> evolves j j'"
proof -
  consider "jobs_evolve q q'" | c r where "enqueue q c = (r, q')" using queue_step_cases [OF ok st] by blast
  then show ?thesis
  proof cases
    case 1
    then show ?thesis using jobs_evolve_forth j by blast
  next
    case 2
    then show ?thesis using enqueue_keeps_jobs [OF ok 2 j] evolves_refl by blast
  qed
qed

section \<open>Leases of the queue\<close>

definition queue_token :: "delivery_queue \<Rightarrow> int \<Rightarrow> int" where
  "queue_token q i = (case dict_get (q_jobs q) i of None \<Rightarrow> 0 | Some j \<Rightarrow> job_lease_token j)"

definition queue_holds :: "delivery_queue \<Rightarrow> int \<Rightarrow> string \<Rightarrow> int \<Rightarrow> bool" where
  "queue_holds q i w t \<longleftrightarrow> (\<exists>j. dict_get (q_jobs q) i = Some j \<and> holds_lease j w t)"

definition queue_grant :: "delivery_queue \<Rightarrow> int \<Rightarrow> delivery_queue \<Rightarrow> bool" where
  "queue_grant q i q' \<longleftrightarrow>
     (\<exists>now w rt ls b j. claim_next q now w rt ls b = (Inr (Some j), q') \<and> job_id j = i)"

lemma queue_token_mono:
  assumes ok: "queue_ok q" and st: "queue_step q q'"
  shows "queue_token q i \<le> queue_token q' i"
proof (cases "dict_get (q_jobs q) i")
  case None
  have "0 \<le> queue_token q' i"
    using queue_ok_step [OF ok st] queue_ok_job(5)
    by (auto simp: queue_token_def lease_ok_def split: option.splits)
  then show ?thesis using None by (simp add: queue_token_def)
next
  case (Some j)
  then show ?thesis using queue_step_job [OF ok st Some] by (auto simp: queue_token_def evolves_def)
qed

lemma claim_result:
  assumes ok: "queue_ok q" and cl: "claim_next q now w rt ls b = (Inr (Some j'), q')"
  shows "\<exists>j. j' = lease_job w now ls j \<and> dict_get (q_jobs q) (job_id j') = Some j \<and>
    claim_ready q (py_strip b) now j \<and> rt + MINIMUM_LEASE_MARGIN_SECONDS \<le> ls \<and>
    \<not> cooling (q_bot_cooldowns q) (py_strip b) now \<and>
    (\<forall>k \<in> set (dict_values (q_jobs q)). claim_ready q (py_strip b) now k \<longrightarrow>
       delivery_order_key now j \<le> delivery_order_key now k) \<and> q' = put_job q j'"
proof -
  obtain j where j: "j' = lease_job w now ls j" "rt + MINIMUM_LEASE_MARGIN_SECONDS \<le> ls"
    "\<not> cooling (q_bot_cooldowns q) (py_strip b) now"
    "min_by (delivery_order_key now)
      (filter (claim_ready q (py_strip b) now) (dict_values (q_jobs q))) = Some j"
    "q' = put_job q j'"
    using claim_shape [OF cl] by auto
  have "dict_get (q_jobs q) (job_id j') = Some j" "claim_ready q (py_strip b) now j"
    using claimed_job [OF ok j(4)] j(1) by (simp_all add: lease_job_def)
  moreover have "\<forall>k \<in> set (dict_values (q_jobs q)). claim_ready q (py_strip b) now k \<longrightarrow>
      delivery_order_key now j \<le> delivery_order_key now k"
    using min_by_le [OF j(4)] by simp
  ultimately show ?thesis using j by blast
qed

interpretation queue_lease: lease_fence queue_ok queue_step queue_token queue_grant queue_holds
proof unfold_locales
  show "queue_token q i < queue_token q' i" if ok: "queue_ok q" and gr: "queue_grant q i q'" for q i q'
  proof -
    obtain now w rt ls b j where cl: "claim_next q now w rt ls b = (Inr (Some j), q')" "job_id j = i"
      using gr by (auto simp: queue_grant_def)
    then obtain j0 where "j = lease_job w now ls j0" "dict_get (q_jobs q) i = Some j0" "q' = put_job q j"
      using claim_result [OF ok cl(1)] by auto
    then show ?thesis using cl(2) by (simp add: queue_token_def lease_job_def dict_get_put)
  qed
  show "queue_step q q'" if "queue_grant q i q'" for q i q'
    using that step_claim by (auto simp: queue_grant_def)
  show "k = queue_token q i" if "queue_holds q i w k" for q i w k
    using that by (auto simp: queue_holds_def queue_token_def holds_lease_def)
qed (auto intro: queue_ok_step queue_token_mono)

lemma queue_steps_job:
  assumes "queue_ok q" and "queue_step\<^sup>*\<^sup>* q q'" and "dict_get (q_jobs q) i = Some j"
  shows "\<exists>j'. dict_get (q_jobs q') i = Some j' \<and> same_job j j' \<and>
    job_transition\<^sup>*\<^sup>* (job_state j) (job_state j') \<and> (is_terminal j \<longrightarrow> j' = j)"
  using assms(2)
proof (induction rule: rtranclp_induct)
  case base
  then show ?case using assms(3) by (simp add: same_job_def)
next
  case (step y z)
  then obtain jy where y: "dict_get (q_jobs y) i = Some jy" "same_job j jy"
    "job_transition\<^sup>*\<^sup>* (job_state j) (job_state jy)" "is_terminal j \<longrightarrow> jy = j" by blast
  have "queue_ok y" using queue_lease.steps_ok [OF step.hyps(1) assms(1)] .
  then obtain jz where z: "dict_get (q_jobs z) i = Some jz" "evolves jy jz"
    using queue_step_job [OF _ step.hyps(2) y(1)] by blast
  have "job_transition\<^sup>*\<^sup>* (job_state j) (job_state jz)"
    using y(3) z(2) by (auto simp: evolves_def intro: rtranclp.rtrancl_into_rtrancl)
  then show ?case using z y(2,4) by (auto simp: evolves_def same_job_def)
qed

lemma enqueue_again:
  assumes "enqueue q c = (Inr (job, created), q1)"
  shows "enqueue q1 c = (Inr (job, False), q1)"
  using assms
  by (auto simp: enqueue_def Let_def comparable_def new_job_def dict_get_put
      split: sum.split_asm option.split_asm if_split_asm)

section \<open>Properties of the queue\<close>

text \<open>A claim hands out the most urgent deliverable job and nothing else: the claimed job was pending,
  eligible, past its retry time and not at a cooling destination; its order key is strictly below the key
  of every other deliverable job of the lane; the lease covers the request timeout and the safety margin;
  every other job is untouched.\<close>

theorem claim_is_most_urgent:
  assumes "queue_ok q" and "claim_next q now w rt ls b = (Inr (Some job), q')"
  shows "\<exists>j0. dict_get (q_jobs q) (job_id job) = Some j0 \<and> claim_ready q (py_strip b) now j0 \<and>
    (\<forall>k \<in> set (dict_values (q_jobs q)). k \<noteq> j0 \<longrightarrow> claim_ready q (py_strip b) now k \<longrightarrow>
       delivery_order_key now j0 < delivery_order_key now k) \<and>
    job_state job = ST_LEASED \<and> job_worker_id job = Some w \<and>
    job_lease_token job = job_lease_token j0 + 1 \<and>
    job_lease_until job = Some (now + seconds_us ls) \<and> rt + MINIMUM_LEASE_MARGIN_SECONDS \<le> ls \<and>
    (\<forall>i. i \<noteq> job_id job \<longrightarrow> dict_get (q_jobs q') i = dict_get (q_jobs q) i) \<and>
    dict_get (q_jobs q') (job_id job) = Some job"
proof -
  obtain j where j: "job = lease_job w now ls j" "dict_get (q_jobs q) (job_id job) = Some j"
    "claim_ready q (py_strip b) now j" "rt + MINIMUM_LEASE_MARGIN_SECONDS \<le> ls"
    "\<forall>k \<in> set (dict_values (q_jobs q)). claim_ready q (py_strip b) now k \<longrightarrow>
       delivery_order_key now j \<le> delivery_order_key now k" "q' = put_job q job"
    using claim_result [OF assms] by blast
  have "delivery_order_key now j < delivery_order_key now k"
    if k: "k \<in> set (dict_values (q_jobs q))" "k \<noteq> j" "claim_ready q (py_strip b) now k" for k
  proof -
    have g: "dict_get (q_jobs q) (job_id k) = Some k" using queue_ok_value [OF assms(1) k(1)] .
    have "job_id k \<noteq> job_id job" using g j(2) k(2) by auto
    then have "job_created_sequence k \<noteq> job_created_sequence j"
      using queue_ok_job(2) [OF assms(1) g] queue_ok_job(2) [OF assms(1) j(2)] by simp
    then have "delivery_order_key now j \<noteq> delivery_order_key now k"
      by (auto simp: delivery_order_key_def Let_def split: prod.splits)
    then show ?thesis using j(5) k(1,3) by (simp add: order_less_le)
  qed
  then show ?thesis using j by (auto simp: lease_job_def dict_get_put)
qed

definition sample_command :: "delivery_action \<Rightarrow> string \<Rightarrow> enqueue_command" where
  "sample_command a sid =
     \<lparr>ec_feeder = FEED_TRADE, ec_source_natural_id = sid, ec_source_version = 1, ec_action = a,
      ec_destination_key = ''chat-'' @ sid, ec_destination_class = DEST_PRIVATE, ec_method = ''sendMessage'',
      ec_payload = ''p'', ec_bot_identity = ''primary'', ec_delivery_deadline_at = None,
      ec_eligible_at = None, ec_freshness_deadline_at = None, ec_campaign_id = None\<rparr>"

definition sample_queue :: delivery_queue where
  "sample_queue =
     snd (enqueue (snd (enqueue empty_queue (sample_command TRADE_RESPONSE ''a'')))
            (sample_command TRADE_RESULT ''b''))"

lemma sample_queue_reachable: "reachable queue_init queue_step sample_queue"
proof -
  have "reachable queue_init queue_step empty_queue" by (rule reachable_init) (simp add: queue_init_def)
  moreover have "reachable queue_init queue_step (snd (enqueue q c))"
    if "reachable queue_init queue_step q" for q c
    by (rule reachable_step [OF that], rule step_enqueue) (rule prod.collapse [symmetric])
  ultimately show ?thesis unfolding sample_queue_def by blast
qed

lemma sample_claim:
  "\<exists>job q'. claim_next sample_queue 0 ''w'' 10 30 ''primary'' = (Inr (Some job), q') \<and> job_id job = 2"
proof -
  have "case claim_next sample_queue 0 ''w'' 10 30 ''primary'' of (Inr (Some job), q') \<Rightarrow> job_id job = 2
      | _ \<Rightarrow> False" by code_simp
  then show ?thesis by (auto split: prod.splits sum.splits option.splits)
qed

theorem claim_is_most_urgent_witness:
  "\<exists>job q'. claim_next sample_queue 0 ''w'' 10 30 ''primary'' = (Inr (Some job), q') \<and> job_id job = 2 \<and>
     job_state job = ST_LEASED \<and> dict_get (q_jobs q') 1 = dict_get (q_jobs sample_queue) 1"
proof -
  obtain job q' where c: "claim_next sample_queue 0 ''w'' 10 30 ''primary'' = (Inr (Some job), q')"
    "job_id job = 2" using sample_claim by blast
  have "queue_ok sample_queue" using queue.reachable_invar [OF sample_queue_reachable] .
  from claim_is_most_urgent [OF this c(1)] show ?thesis using c by auto
qed

text \<open>A worker that lost its lease cannot touch the job: once the job has been claimed again after the
  worker's token was issued, then in every later state of the queue, however many operations interleave,
  the worker's heartbeat is refused and its result is dropped, and neither changes the queue.\<close>

theorem stale_worker_is_fenced:
  assumes "queue_ok q" and "token \<le> queue_token q i" and "queue_grant q i q1" and "queue_step\<^sup>*\<^sup>* q1 q2"
    and "rt + MINIMUM_LEASE_MARGIN_SECONDS \<le> ls"
  shows "heartbeat q2 i w token now rt ls = (Inr False, q2) \<and>
    snd (resolve dg cfg q2 i res w token now pd ws) = q2 \<and>
    (\<exists>d. fst (resolve dg cfg q2 i res w token now pd ws) = Inr d \<and>
       dd_outcome d \<in> {OUT_STALE_LEASE, OUT_ALREADY_RESOLVED})"
proof -
  have no: "\<not> queue_holds q2 i w token" using queue_lease.stale_never_holds [OF assms(1-4)] .
  have st: "queue_step q q1" using assms(3) by (rule queue_lease.grant_step)
  have ok1: "queue_ok q1" "queue_ok q2"
    using queue_ok_step [OF assms(1) st] queue_lease.steps_ok [OF assms(4)] by auto
  obtain j1 where "dict_get (q_jobs q1) i = Some j1"
    using assms(1,3) claim_result by (force simp: queue_grant_def dict_get_put)
  then obtain j where j: "dict_get (q_jobs q2) i = Some j"
    using queue_steps_job [OF ok1(1) assms(4)] by blast
  then have nh: "\<not> holds_lease j w token" using no by (simp add: queue_holds_def)
  have h: "heartbeat q2 i w token now rt ls = (Inr False, q2)"
    using j nh assms(5) by (simp add: heartbeat_def)
  have same: "put_job q2 j = q2"
    using j queue_ok_job(1) [OF ok1(2) j] by (simp add: put_job_def dict_put_same)
  show ?thesis
    using h j nh same by (simp add: resolve_def apply_gateway_result_def decide_def)
qed

theorem stale_worker_is_fenced_witness:
  "\<exists>job q'. claim_next sample_queue 0 ''w'' 10 30 ''primary'' = (Inr (Some job), q') \<and>
     heartbeat q' 2 ''old'' 0 5 10 30 = (Inr False, q')"
proof -
  obtain job q' where c: "claim_next sample_queue 0 ''w'' 10 30 ''primary'' = (Inr (Some job), q')"
    "job_id job = 2" using sample_claim by blast
  have ok: "queue_ok sample_queue" using queue.reachable_invar [OF sample_queue_reachable] .
  have t: "0 \<le> queue_token sample_queue 2" by code_simp
  have g: "queue_grant sample_queue 2 q'" unfolding queue_grant_def using c by blast
  have m: "10 + MINIMUM_LEASE_MARGIN_SECONDS \<le> 30" by (simp add: MINIMUM_LEASE_MARGIN_SECONDS_def)
  show ?thesis
    using c stale_worker_is_fenced [OF ok t g rtranclp.rtrancl_refl m, of "''old''" 5] by blast
qed

text \<open>Deduplication: in every reachable queue two jobs with the same deduplication key are the same
  job, and enqueueing the same command again returns the stored job, creates nothing and leaves the
  queue unchanged, whatever happened to that job meanwhile.\<close>

theorem enqueue_is_idempotent:
  assumes "reachable queue_init queue_step q"
    and "dict_get (q_jobs q) i = Some j" and "dict_get (q_jobs q) k = Some j'"
    and "job_dedupe_key j = job_dedupe_key j'"
    and "enqueue q c = (Inr (job, created), q1)"
  shows "i = k \<and> j = j' \<and> enqueue q1 c = (Inr (job, False), q1)"
proof -
  have ok: "queue_ok q" using queue.reachable_invar [OF assms(1)] .
  have "i = k" using queue_ok_job(4) [OF ok assms(2)] queue_ok_job(4) [OF ok assms(3)] assms(4) by simp
  moreover have "enqueue q1 c = (Inr (job, False), q1)" using enqueue_again [OF assms(5)] .
  ultimately show ?thesis using assms(2,3) by simp
qed

theorem enqueue_is_idempotent_witness:
  "\<exists>job q1. enqueue sample_queue (sample_command TRADE_RESPONSE ''c'') = (Inr (job, True), q1) \<and>
     enqueue q1 (sample_command TRADE_RESPONSE ''c'') = (Inr (job, False), q1)"
proof -
  have "case enqueue sample_queue (sample_command TRADE_RESPONSE ''c'') of (Inr (job, True), q1) \<Rightarrow> True
      | _ \<Rightarrow> False" by code_simp
  then obtain job q1 where e: "enqueue sample_queue (sample_command TRADE_RESPONSE ''c'') = (Inr (job, True), q1)"
    by (auto split: prod.splits sum.splits bool.splits)
  have "dict_get (q_jobs sample_queue) 1 \<noteq> None" by code_simp
  then obtain j where j: "dict_get (q_jobs sample_queue) 1 = Some j" by blast
  show ?thesis
    using e enqueue_is_idempotent [OF sample_queue_reachable j j refl e] by blast
qed

text \<open>C19: A job in a final state is immutable and no job is ever lost: along every sequence of operations
  each job stays in the queue under its id with the same identity, moves only along the transition table,
  and once its state is final the whole record no longer changes.\<close>

theorem final_jobs_are_immutable:
  assumes "queue_ok q" and "queue_step\<^sup>*\<^sup>* q q'" and "dict_get (q_jobs q) i = Some j"
  shows "\<exists>j'. dict_get (q_jobs q') i = Some j' \<and> same_job j j' \<and>
    job_transition\<^sup>*\<^sup>* (job_state j) (job_state j') \<and> (is_terminal j \<longrightarrow> j' = j)"
  using queue_steps_job [OF assms] .

theorem final_jobs_are_immutable_witness:
  "\<exists>j'. dict_get (q_jobs (snd (claim_next sample_queue 0 ''w'' 10 30 ''primary''))) 2 = Some j' \<and>
     job_transition\<^sup>*\<^sup>* ST_PENDING (job_state j')"
proof -
  have ok: "queue_ok sample_queue" using queue.reachable_invar [OF sample_queue_reachable] .
  have s: "queue_step\<^sup>*\<^sup>* sample_queue (snd (claim_next sample_queue 0 ''w'' 10 30 ''primary''))"
    by (rule r_into_rtranclp, rule step_claim) (rule prod.collapse [symmetric])
  have "case dict_get (q_jobs sample_queue) 2 of Some j \<Rightarrow> job_state j = ST_PENDING | None \<Rightarrow> False"
    by code_simp
  then obtain j where j: "dict_get (q_jobs sample_queue) 2 = Some j" "job_state j = ST_PENDING"
    by (auto split: option.splits)
  show ?thesis using final_jobs_are_immutable [OF ok s j(1)] j(2) by auto
qed
end
