(* ===== verification/Feeders.thy ===== *)
theory Feeders
  imports DeliveryQueue "HOL-Library.List_Lexorder" "HOL-Library.Char_ord"
begin

text \<open>
  The feeders in front of the delivery queue (\<open>core/telegram_delivery_queue_contract.py\<close>): the offer-edit
  feeder with its catch-up rule, the coordinator that hands feeder records to the queue, and the
  administrative broadcast feeder.
\<close>

section \<open>The offer-edit feeder\<close>

record edit_item =
  ei_offer_id :: string
  ei_source_version :: int
  ei_action :: delivery_action
  ei_offer_created_at :: int
  ei_first_enqueued_at :: int
  ei_created_sequence :: int
  ei_channel_message_id :: "int option"

record edit_feeder =
  ef_items :: "(string, edit_item) dict"
  ef_next_sequence :: int
  ef_fresh_since_stale :: "(nat, int) dict"

definition EDIT_STALE_AFTER_SECONDS :: int where
  "EDIT_STALE_AFTER_SECONDS = 5 * 60"

definition EDIT_CATCH_UP_FRESH_COUNT :: int where
  "EDIT_CATCH_UP_FRESH_COUNT = 20"

definition internal_rank :: "edit_item \<Rightarrow> delivery_error + nat" where
  "internal_rank it = feeder_internal_rank FEED_OFFER_EDIT (ei_action it)"

definition is_stale :: "int \<Rightarrow> edit_item \<Rightarrow> bool" where
  "is_stale now it \<longleftrightarrow> now - ei_first_enqueued_at it \<ge> EDIT_STALE_AFTER_SECONDS * us_per_second"

definition edit_enqueue ::
  "edit_feeder \<Rightarrow> string \<Rightarrow> int \<Rightarrow> delivery_action \<Rightarrow> int \<Rightarrow> int \<Rightarrow> int option
     \<Rightarrow> (delivery_error + (edit_item \<times> bool)) \<times> edit_feeder" where
  "edit_enqueue f offer_id source_version action offer_created_at enqueued_at message_id =
     (case feeder_internal_rank FEED_OFFER_EDIT action of
        Inl e \<Rightarrow> (Inl e, f)
      | Inr _ \<Rightarrow>
          (case dict_get (ef_items f) offer_id of
             Some existing \<Rightarrow>
               (if source_version < ei_source_version existing then (Inr (existing, False), f)
                else if ei_action existing \<in> {TRADED_OFFER_EDIT, EXPIRED_OFFER_EDIT, CANCELLED_OFFER_EDIT} \<and>
                  action = PARTIAL_OFFER_EDIT
                then (Inl TerminalCannotRevert, f)
                else
                  (let changed = (ei_source_version existing \<noteq> source_version \<or> ei_action existing \<noteq> action \<or>
                                  ei_channel_message_id existing \<noteq> message_id);
                       updated = existing\<lparr>ei_source_version := source_version, ei_action := action,
                                          ei_channel_message_id := message_id\<rparr>
                   in (Inr (updated, changed), f\<lparr>ef_items := dict_put offer_id updated (ef_items f)\<rparr>)))
           | None \<Rightarrow>
               (let it = \<lparr>ei_offer_id = offer_id, ei_source_version = source_version, ei_action = action,
                          ei_offer_created_at = offer_created_at, ei_first_enqueued_at = enqueued_at,
                          ei_created_sequence = ef_next_sequence f, ei_channel_message_id = message_id\<rparr>
                in (Inr (it, True),
                    f\<lparr>ef_items := dict_put offer_id it (ef_items f),
                      ef_next_sequence := ef_next_sequence f + 1\<rparr>))))"

definition newest_key :: "edit_item \<Rightarrow> int \<times> int" where
  "newest_key it = (- ei_offer_created_at it, ei_created_sequence it)"

definition fresh_count :: "edit_feeder \<Rightarrow> nat \<Rightarrow> int" where
  "fresh_count f r = (case dict_get (ef_fresh_since_stale f) r of None \<Rightarrow> 0 | Some n \<Rightarrow> n)"

definition edit_eligible :: "edit_feeder \<Rightarrow> edit_item list" where
  "edit_eligible f = filter (\<lambda>it. ei_channel_message_id it \<noteq> None) (dict_values (ef_items f))"

definition take_edit :: "edit_feeder \<Rightarrow> nat \<Rightarrow> edit_item list \<Rightarrow> int \<Rightarrow> edit_item option \<times> edit_feeder" where
  "take_edit f rank candidates n =
     (case min_by newest_key candidates of
        None \<Rightarrow> (None, f)
      | Some it \<Rightarrow>
          (Some it, f\<lparr>ef_fresh_since_stale := dict_put rank n (ef_fresh_since_stale f),
                      ef_items := dict_del (ei_offer_id it) (ef_items f)\<rparr>))"

definition pop_next :: "edit_feeder \<Rightarrow> int \<Rightarrow> (delivery_error + edit_item option) \<times> edit_feeder" where
  "pop_next f now =
     (case min_by (\<lambda>it. projr (internal_rank it)) (edit_eligible f) of
        None \<Rightarrow> (Inr None, f)
      | Some best \<Rightarrow>
          (case find (\<lambda>it. isl (internal_rank it)) (edit_eligible f) of
             Some bad \<Rightarrow> (Inl (projl (internal_rank bad)), f)
           | None \<Rightarrow>
               (let rank = projr (internal_rank best);
                    same_rank = filter (\<lambda>it. projr (internal_rank it) = rank) (edit_eligible f);
                    fresh = filter (\<lambda>it. \<not> is_stale now it) same_rank;
                    stale = filter (is_stale now) same_rank;
                    n = fresh_count f rank;
                    (it, f') = (if stale \<noteq> [] \<and> (fresh = [] \<or> n \<ge> EDIT_CATCH_UP_FRESH_COUNT)
                                then take_edit f rank stale 0
                                else take_edit f rank fresh (n + 1))
                in (Inr it, f'))))"

section \<open>The coordinator\<close>

datatype feeder_record_state = REC_READY | REC_HANDED_OFF | REC_TERMINAL

record feeder_record =
  fr_id :: string
  fr_feeder :: feeder_kind
  fr_source_natural_id :: string
  fr_source_version :: int
  fr_action :: delivery_action
  fr_destination_key :: string
  fr_destination_class :: destination_class
  fr_method :: string
  fr_payload :: string
  fr_delivery_deadline_at :: "int option"
  fr_freshness_deadline_at :: "int option"
  fr_campaign_id :: "string option"
  fr_state :: feeder_record_state
  fr_main_job_id :: "int option"
  fr_terminal_job_state :: "delivery_state option"

type_synonym coordinator = "(string, feeder_record) dict"

text \<open>\<open>same_object\<close> is the identity test \<open>existing is record\<close>.\<close>

definition coordinator_add ::
  "coordinator \<Rightarrow> feeder_record \<Rightarrow> bool \<Rightarrow> delivery_error option \<times> coordinator" where
  "coordinator_add c rec same_object =
     (if dict_get c (fr_id rec) \<noteq> None \<and> \<not> same_object then (Some DuplicateFeederRecord, c)
      else
        (case feeder_internal_rank (fr_feeder rec) (fr_action rec) of
           Inl e \<Rightarrow> (Some e, c)
         | Inr _ \<Rightarrow> (None, dict_put (fr_id rec) rec c)))"

definition record_command :: "feeder_record \<Rightarrow> enqueue_command" where
  "record_command rec =
     \<lparr>ec_feeder = fr_feeder rec, ec_source_natural_id = fr_source_natural_id rec,
      ec_source_version = fr_source_version rec, ec_action = fr_action rec,
      ec_destination_key = fr_destination_key rec, ec_destination_class = fr_destination_class rec,
      ec_method = fr_method rec, ec_payload = fr_payload rec, ec_bot_identity = ''primary'',
      ec_delivery_deadline_at = fr_delivery_deadline_at rec, ec_eligible_at = None,
      ec_freshness_deadline_at = fr_freshness_deadline_at rec, ec_campaign_id = fr_campaign_id rec\<rparr>"

definition handoff ::
  "coordinator \<Rightarrow> delivery_queue \<Rightarrow> string \<Rightarrow> bool
     \<Rightarrow> (delivery_error + delivery_job) \<times> coordinator \<times> delivery_queue" where
  "handoff c q rid fail_after_enqueue =
     (case dict_get c rid of
        None \<Rightarrow> (Inl UnknownJob, c, q)
      | Some rec \<Rightarrow>
          (case enqueue q (record_command rec) of
             (Inl e, q') \<Rightarrow> (Inl e, c, q')
           | (Inr (job, _), q') \<Rightarrow>
               (if fail_after_enqueue then (Inl (HandoffInterrupted (fr_id rec)), c, q')
                else (Inr job,
                      dict_put rid (rec\<lparr>fr_main_job_id := Some (job_id job), fr_state := REC_HANDED_OFF\<rparr>) c,
                      q'))))"

definition reflect_main_result ::
  "coordinator \<Rightarrow> string \<Rightarrow> delivery_job \<Rightarrow> (delivery_error + feeder_record_state) \<times> coordinator" where
  "reflect_main_result c rid job =
     (case dict_get c rid of
        None \<Rightarrow> (Inl UnknownJob, c)
      | Some rec \<Rightarrow>
          (if fr_main_job_id rec \<noteq> Some (job_id job) then (Inl MainJobMismatch, c)
           else if is_terminal job then
             (Inr REC_TERMINAL,
              dict_put rid (rec\<lparr>fr_state := REC_TERMINAL, fr_terminal_job_state := Some (job_state job)\<rparr>) c)
           else (Inr (fr_state rec), c)))"

section \<open>Administrative broadcasts\<close>

record campaign =
  bc_id :: string
  bc_recipients :: "string list"
  bc_next_index :: nat
  bc_in_flight :: "string option"
  bc_last_released_at :: "int option"
  bc_paused :: bool

definition finished :: "campaign \<Rightarrow> bool" where
  "finished c \<longleftrightarrow> bc_next_index c \<ge> length (bc_recipients c) \<and> bc_in_flight c = None"

record broadcast_feeder =
  bf_max_global_in_flight :: int
  bf_campaigns :: "(string, campaign) dict"
  bf_globally_paused :: bool

text \<open>\<open>datetime.min\<close> in UTC.\<close>

definition dt_min :: int where
  "dt_min = -62135596800000000"

definition add_campaign ::
  "broadcast_feeder \<Rightarrow> string \<Rightarrow> string list \<Rightarrow> delivery_error option \<times> broadcast_feeder" where
  "add_campaign f cid recipients =
     (if dict_get (bf_campaigns f) cid \<noteq> None then (Some DuplicateCampaign, f)
      else (None, f\<lparr>bf_campaigns := dict_put cid
              \<lparr>bc_id = cid, bc_recipients = recipients, bc_next_index = 0, bc_in_flight = None,
               bc_last_released_at = None, bc_paused = False\<rparr> (bf_campaigns f)\<rparr>))"

definition in_flight_count :: "broadcast_feeder \<Rightarrow> int" where
  "in_flight_count f =
     int (length (filter (\<lambda>c. bc_in_flight c \<noteq> None) (dict_values (bf_campaigns f))))"

definition releasable :: "campaign \<Rightarrow> bool" where
  "releasable c \<longleftrightarrow> \<not> bc_paused c \<and> bc_in_flight c = None \<and> bc_next_index c < length (bc_recipients c)"

definition release_key :: "campaign \<Rightarrow> int \<times> string" where
  "release_key c = ((case bc_last_released_at c of None \<Rightarrow> dt_min | Some t \<Rightarrow> t), bc_id c)"

definition release_next ::
  "broadcast_feeder \<Rightarrow> int \<Rightarrow> (string \<times> string) option \<times> broadcast_feeder" where
  "release_next f now =
     (if bf_globally_paused f then (None, f)
      else if in_flight_count f \<ge> bf_max_global_in_flight f then (None, f)
      else
        (case min_by release_key (filter releasable (dict_values (bf_campaigns f))) of
           None \<Rightarrow> (None, f)
         | Some c \<Rightarrow>
             (let recipient = bc_recipients c ! bc_next_index c
              in (Some (bc_id c, recipient),
                  f\<lparr>bf_campaigns := dict_put (bc_id c)
                      (c\<lparr>bc_in_flight := Some recipient, bc_last_released_at := Some now\<rparr>)
                      (bf_campaigns f)\<rparr>))))"

definition apply_broadcast_result ::
  "broadcast_feeder \<Rightarrow> string \<Rightarrow> delivery_outcome \<Rightarrow> bool \<Rightarrow> delivery_error option \<times> broadcast_feeder" where
  "apply_broadcast_result f cid outcome systemic =
     (case dict_get (bf_campaigns f) cid of
        None \<Rightarrow> (Some UnknownJob, f)
      | Some c \<Rightarrow>
          (if systemic \<or> outcome \<in> {OUT_BOT_PAUSED, OUT_GATEWAY_PAUSED}
           then (None, f\<lparr>bf_globally_paused := True\<rparr>)
           else if outcome \<in> {OUT_RETRY_PENDING, OUT_AMBIGUOUS, OUT_AMBIGUOUS_UNRESOLVED, OUT_DESTINATION_PAUSED}
           then (None, f\<lparr>bf_campaigns := dict_put cid (c\<lparr>bc_paused := True\<rparr>) (bf_campaigns f)\<rparr>)
           else if bc_in_flight c = None then (Some NoInFlightRecipient, f)
           else (None, f\<lparr>bf_campaigns := dict_put cid
                   (c\<lparr>bc_next_index := bc_next_index c + 1, bc_in_flight := None\<rparr>) (bf_campaigns f)\<rparr>)))"

definition resume_campaign :: "broadcast_feeder \<Rightarrow> string \<Rightarrow> delivery_error option \<times> broadcast_feeder" where
  "resume_campaign f cid =
     (case dict_get (bf_campaigns f) cid of
        None \<Rightarrow> (Some UnknownJob, f)
      | Some c \<Rightarrow>
          (None, f\<lparr>bf_campaigns := dict_put cid (c\<lparr>bc_paused := False\<rparr>) (bf_campaigns f)\<rparr>))"

section \<open>The catch-up rule\<close>

lemma fresh_count_put: "fresh_count (f\<lparr>ef_fresh_since_stale := dict_put r n d, ef_items := x\<rparr>) r = n"
  by (simp add: fresh_count_def dict_get_put)

lemma take_edit_Some:
  assumes "take_edit f rank cs n = (Some it, f')"
  shows "it \<in> set cs \<and> fresh_count f' rank = n \<and> min_by newest_key cs = Some it \<and>
    ef_items f' = dict_del (ei_offer_id it) (ef_items f)"
  using assms min_by_in fresh_count_put
  by (force simp: take_edit_def split: option.splits)

lemma pop_next_Some:
  assumes "pop_next f now = (Inr (Some it), f')"
  shows "\<exists>rank. it \<in> set (edit_eligible f) \<and> projr (internal_rank it) = rank \<and>
    (\<forall>x \<in> set (edit_eligible f). rank \<le> projr (internal_rank x)) \<and>
    (\<forall>x \<in> set (edit_eligible f). projr (internal_rank x) = rank \<longrightarrow> is_stale now x = is_stale now it \<longrightarrow>
       newest_key it \<le> newest_key x) \<and>
    ef_items f' = dict_del (ei_offer_id it) (ef_items f) \<and>
    (is_stale now it \<longrightarrow> fresh_count f' rank = 0) \<and>
    (\<not> is_stale now it \<longrightarrow> fresh_count f' rank = fresh_count f rank + 1 \<and>
       (fresh_count f rank < EDIT_CATCH_UP_FRESH_COUNT \<or>
        (\<forall>x \<in> set (edit_eligible f). projr (internal_rank x) = rank \<longrightarrow> \<not> is_stale now x)))"
proof -
  obtain best where best: "min_by (\<lambda>it. projr (internal_rank it)) (edit_eligible f) = Some best"
    using assms by (auto simp: pop_next_def split: option.splits)
  define rank where "rank = projr (internal_rank best)"
  define same where "same = filter (\<lambda>it. projr (internal_rank it) = rank) (edit_eligible f)"
  define fresh where "fresh = filter (\<lambda>it. \<not> is_stale now it) same"
  define stale where "stale = filter (is_stale now) same"
  have le: "\<forall>x \<in> set (edit_eligible f). rank \<le> projr (internal_rank x)"
    using min_by_le [OF best] by (simp add: rank_def)
  have sel: "(if stale \<noteq> [] \<and> (fresh = [] \<or> fresh_count f rank \<ge> EDIT_CATCH_UP_FRESH_COUNT)
      then take_edit f rank stale 0 else take_edit f rank fresh (fresh_count f rank + 1)) = (Some it, f')"
    using assms best unfolding pop_next_def rank_def same_def fresh_def stale_def Let_def
    by (auto split: option.splits prod.splits)
  show ?thesis
  proof (cases "stale \<noteq> [] \<and> (fresh = [] \<or> fresh_count f rank \<ge> EDIT_CATCH_UP_FRESH_COUNT)")
    case True
    then have t: "take_edit f rank stale 0 = (Some it, f')" using sel by simp
    show ?thesis
      using take_edit_Some [OF t] le min_by_le [of newest_key stale it]
      by (auto simp: stale_def same_def)
  next
    case False
    have t: "take_edit f rank fresh (fresh_count f rank + 1) = (Some it, f')"
      by (rule sel [unfolded if_not_P [OF False]])
    then have "it \<in> set fresh" using take_edit_Some by blast
    then have "fresh_count f rank < EDIT_CATCH_UP_FRESH_COUNT \<or> stale = []" using False by auto
    then show ?thesis
      using take_edit_Some [OF t] le min_by_le [of newest_key fresh it]
      by (auto simp: fresh_def stale_def same_def filter_empty_conv)
  qed
qed

text \<open>A run at one rank: enqueues and pops, where every pop takes an item of that rank while a stale item
  of that rank is waiting.  The log pairs each popped item with whether it was stale.\<close>

inductive edit_run :: "nat \<Rightarrow> edit_feeder \<Rightarrow> (edit_item \<times> bool) list \<Rightarrow> edit_feeder \<Rightarrow> bool" for r :: nat where
  run_done: "edit_run r f [] f"
| run_enqueue: "edit_enqueue f oid v a ca ea mid = (res, f1) \<Longrightarrow> edit_run r f1 popped f2 \<Longrightarrow> edit_run r f popped f2"
| run_pop: "pop_next f now = (Inr (Some it), f1) \<Longrightarrow> projr (internal_rank it) = r \<Longrightarrow>
    s \<in> set (edit_eligible f) \<Longrightarrow> projr (internal_rank s) = r \<Longrightarrow> is_stale now s \<Longrightarrow>
    edit_run r f1 popped f2 \<Longrightarrow> edit_run r f ((it, is_stale now it) # popped) f2"

lemma edit_enqueue_count:
  assumes "edit_enqueue f oid v a ca ea mid = (res, f1)"
  shows "fresh_count f1 r = fresh_count f r"
  using assms by (auto simp: edit_enqueue_def fresh_count_def Let_def split: sum.splits option.splits if_splits)

lemma fresh_run_bound:
  assumes "edit_run r f popped f'" and "\<forall>p \<in> set popped. \<not> snd p"
  shows "popped = [] \<or> int (length popped) + fresh_count f r \<le> EDIT_CATCH_UP_FRESH_COUNT"
  using assms
proof (induction rule: edit_run.induct)
  case (run_enqueue f oid v a ca ea mid res f1 popped f2)
  then show ?case using edit_enqueue_count by metis
next
  case (run_pop f now it f1 s popped f2)
  have "\<not> is_stale now it" using run_pop.prems by simp
  then have "fresh_count f1 r = fresh_count f r + 1" "fresh_count f r < EDIT_CATCH_UP_FRESH_COUNT"
    using pop_next_Some [OF run_pop.hyps(1)] run_pop.hyps(2-5) by blast+
  then show ?case using run_pop.IH run_pop.prems by auto
qed simp

section \<open>Broadcast invariant\<close>

definition campaign_ok :: "campaign \<Rightarrow> bool" where
  "campaign_ok c \<longleftrightarrow> bc_next_index c \<le> length (bc_recipients c) \<and>
     (\<forall>x. bc_in_flight c = Some x \<longrightarrow>
        bc_next_index c < length (bc_recipients c) \<and> x = bc_recipients c ! bc_next_index c)"

definition broadcast_ok :: "broadcast_feeder \<Rightarrow> bool" where
  "broadcast_ok f \<longleftrightarrow> dict_wf (bf_campaigns f) \<and>
     (\<forall>k c. dict_get (bf_campaigns f) k = Some c \<longrightarrow> bc_id c = k \<and> campaign_ok c) \<and>
     in_flight_count f \<le> bf_max_global_in_flight f"

inductive broadcast_step :: "broadcast_feeder \<Rightarrow> broadcast_feeder \<Rightarrow> bool" where
  bstep_add: "add_campaign f cid rs = (e, f') \<Longrightarrow> broadcast_step f f'"
| bstep_release: "release_next f now = (r, f') \<Longrightarrow> broadcast_step f f'"
| bstep_result: "apply_broadcast_result f cid out sys = (e, f') \<Longrightarrow> broadcast_step f f'"
| bstep_resume: "resume_campaign f cid = (e, f') \<Longrightarrow> broadcast_step f f'"

inductive_cases broadcast_stepE: "broadcast_step f f'"

definition broadcast_init :: "broadcast_feeder \<Rightarrow> bool" where
  "broadcast_init f \<longleftrightarrow> bf_campaigns f = [] \<and> 0 \<le> bf_max_global_in_flight f"

lemma broadcast_put:
  assumes "broadcast_ok f" and "dict_get (bf_campaigns f) cid = Some c"
    and "bc_id c' = bc_id c" and "campaign_ok c'"
    and "bc_in_flight c' \<noteq> None \<Longrightarrow> bc_in_flight c = None \<Longrightarrow> in_flight_count f < bf_max_global_in_flight f"
  shows "broadcast_ok (f\<lparr>bf_campaigns := dict_put cid c' (bf_campaigns f)\<rparr>)"
proof -
  have "int (length (filter (\<lambda>c. bc_in_flight c \<noteq> None) (dict_values (dict_put cid c' (bf_campaigns f)))))
      \<le> bf_max_global_in_flight f"
    using filter_values_put_old [OF assms(2), of "\<lambda>c. bc_in_flight c \<noteq> None" c'] assms(1,5)
    by (auto simp: broadcast_ok_def in_flight_count_def split: if_splits)
  then show ?thesis
    using assms by (auto simp: broadcast_ok_def in_flight_count_def dict_get_put)
qed

lemma release_next_Some:
  assumes "broadcast_ok f" and "release_next f now = (Some (cid, x), f')"
  shows "\<exists>c. dict_get (bf_campaigns f) cid = Some c \<and> releasable c \<and> x = bc_recipients c ! bc_next_index c \<and>
    (\<forall>d \<in> set (dict_values (bf_campaigns f)). releasable d \<longrightarrow> release_key c \<le> release_key d) \<and>
    in_flight_count f < bf_max_global_in_flight f \<and>
    f' = f\<lparr>bf_campaigns := dict_put cid (c\<lparr>bc_in_flight := Some x, bc_last_released_at := Some now\<rparr>)
            (bf_campaigns f)\<rparr>"
proof -
  obtain c where c: "min_by release_key (filter releasable (dict_values (bf_campaigns f))) = Some c"
    "cid = bc_id c" "x = bc_recipients c ! bc_next_index c"
    "in_flight_count f < bf_max_global_in_flight f"
    "f' = f\<lparr>bf_campaigns := dict_put (bc_id c) (c\<lparr>bc_in_flight := Some x, bc_last_released_at := Some now\<rparr>)
            (bf_campaigns f)\<rparr>"
    using assms(2) unfolding release_next_def Let_def by (auto split: if_split_asm option.split_asm)
  have m: "c \<in> set (dict_values (bf_campaigns f))" "releasable c" using min_by_in [OF c(1)] by auto
  have "dict_get (bf_campaigns f) (bc_id c) = Some c"
    using m(1) assms(1) dict_values_get [of "bf_campaigns f" c] unfolding broadcast_ok_def by metis
  then show ?thesis using c m(2) min_by_le [OF c(1)] by auto
qed

lemma release_next_None: "release_next f now = (None, f') \<Longrightarrow> f' = f"
  by (auto simp: release_next_def Let_def split: if_split_asm option.split_asm)

lemma broadcast_ok_step:
  assumes ok: "broadcast_ok f" and st: "broadcast_step f f'"
  shows "broadcast_ok f'"
  using st
proof (cases rule: broadcast_step.cases)
  case (bstep_add cid rs e)
  then show ?thesis
    using ok filter_values_put_new [of "bf_campaigns f" cid "\<lambda>c. bc_in_flight c \<noteq> None"]
    by (auto simp: add_campaign_def broadcast_ok_def in_flight_count_def dict_get_put campaign_ok_def
        split: if_split_asm)
next
  case (bstep_release now r)
  show ?thesis
  proof (cases r)
    case None
    then show ?thesis using bstep_release release_next_None ok by blast
  next
    case (Some p)
    obtain cid x where p: "p = (cid, x)" by (cases p)
    obtain c where c: "dict_get (bf_campaigns f) cid = Some c" "releasable c"
      "x = bc_recipients c ! bc_next_index c" "in_flight_count f < bf_max_global_in_flight f"
      "f' = f\<lparr>bf_campaigns := dict_put cid (c\<lparr>bc_in_flight := Some x, bc_last_released_at := Some now\<rparr>)
            (bf_campaigns f)\<rparr>"
      using release_next_Some [OF ok] bstep_release Some p by blast
    show ?thesis
      unfolding c(5) by (rule broadcast_put [OF ok c(1)]) (use c in \<open>auto simp: releasable_def campaign_ok_def\<close>)
  qed
next
  case (bstep_result cid out sys e)
  show ?thesis
  proof (cases "dict_get (bf_campaigns f) cid")
    case None
    then show ?thesis using bstep_result ok by (simp add: apply_broadcast_result_def)
  next
    case (Some c)
    then have ck: "campaign_ok c" using ok by (simp add: broadcast_ok_def)
    consider "f' = f" | "f' = f\<lparr>bf_globally_paused := True\<rparr>"
      | "f' = f\<lparr>bf_campaigns := dict_put cid (c\<lparr>bc_paused := True\<rparr>) (bf_campaigns f)\<rparr>"
      | "bc_in_flight c \<noteq> None" "f' = f\<lparr>bf_campaigns := dict_put cid
          (c\<lparr>bc_next_index := bc_next_index c + 1, bc_in_flight := None\<rparr>) (bf_campaigns f)\<rparr>"
      using bstep_result Some unfolding apply_broadcast_result_def
      by (cases "bc_in_flight c"; simp split: if_split_asm)
    then show ?thesis
    proof cases
      case 1
      then show ?thesis using ok by simp
    next
      case 2
      then show ?thesis using ok by (simp add: broadcast_ok_def in_flight_count_def)
    next
      case 3
      show ?thesis unfolding 3 by (rule broadcast_put [OF ok Some]) (use ck in \<open>auto simp: campaign_ok_def\<close>)
    next
      case 4
      show ?thesis
        unfolding 4(2) by (rule broadcast_put [OF ok Some]) (use ck 4(1) in \<open>auto simp: campaign_ok_def\<close>)
    qed
  qed
next
  case (bstep_resume cid e)
  show ?thesis
  proof (cases "dict_get (bf_campaigns f) cid")
    case None
    then show ?thesis using bstep_resume ok by (simp add: resume_campaign_def)
  next
    case (Some c)
    then have ck: "campaign_ok c" using ok by (simp add: broadcast_ok_def)
    have f': "f' = f\<lparr>bf_campaigns := dict_put cid (c\<lparr>bc_paused := False\<rparr>) (bf_campaigns f)\<rparr>"
      using bstep_resume Some by (simp add: resume_campaign_def)
    show ?thesis unfolding f' by (rule broadcast_put [OF ok Some]) (use ck in \<open>auto simp: campaign_ok_def\<close>)
  qed
qed

interpretation broadcast: invariant_system broadcast_init broadcast_step broadcast_ok
proof unfold_locales
  show "broadcast_ok f" if "broadcast_init f" for f
    using that by (simp add: broadcast_init_def broadcast_ok_def in_flight_count_def dict_values_def)
qed (rule broadcast_ok_step)

section \<open>Properties of the feeders\<close>

text \<open>C23: Fresh edits cannot starve stale ones: while a stale edit of a rank is waiting, at most twenty
  consecutive pops of that rank take fresh edits, whatever edits are enqueued in between.\<close>

theorem stale_edits_catch_up:
  assumes "edit_run r f popped f'" and "\<forall>p \<in> set popped. \<not> snd p" and "0 \<le> fresh_count f r"
  shows "length popped \<le> 20"
  using fresh_run_bound [OF assms(1,2)] assms(3) by (auto simp: EDIT_CATCH_UP_FRESH_COUNT_def)

definition sample_edits :: edit_feeder where
  "sample_edits =
     snd (edit_enqueue (snd (edit_enqueue \<lparr>ef_items = [], ef_next_sequence = 1, ef_fresh_since_stale = []\<rparr>
       ''old'' 1 TRADED_OFFER_EDIT 0 0 (Some 1))) ''new'' 1 TRADED_OFFER_EDIT 5 300000000 (Some 2))"

theorem stale_edits_catch_up_witness:
  "\<exists>it f'. edit_run 1 sample_edits [(it, is_stale 300000000 it)] f' \<and> \<not> is_stale 300000000 it \<and>
     length [(it, is_stale 300000000 it)] \<le> 20"
proof -
  have "case pop_next sample_edits 300000000 of
      (Inr (Some it), f') \<Rightarrow> projr (internal_rank it) = 1 \<and> \<not> is_stale 300000000 it | _ \<Rightarrow> False" by code_simp
  then obtain it f' where p: "pop_next sample_edits 300000000 = (Inr (Some it), f')"
    "projr (internal_rank it) = 1" "\<not> is_stale 300000000 it"
    by (auto split: prod.splits sum.splits option.splits)
  have "list_ex (\<lambda>s. projr (internal_rank s) = 1 \<and> is_stale 300000000 s) (edit_eligible sample_edits)"
    by code_simp
  then obtain s where s: "s \<in> set (edit_eligible sample_edits)" "projr (internal_rank s) = 1"
    "is_stale 300000000 s" by (auto simp: list_ex_iff)
  have run: "edit_run 1 sample_edits [(it, is_stale 300000000 it)] f'"
    by (rule run_pop [OF p(1,2) s run_done])
  have "0 \<le> fresh_count sample_edits 1" by code_simp
  then have "length [(it, is_stale 300000000 it)] \<le> 20" using p(3) stale_edits_catch_up [OF run] by simp
  then show ?thesis using run p(3) by blast
qed

lemma enqueue_error_kind: "enqueue q c = (Inl e, q') \<Longrightarrow> e \<noteq> HandoffInterrupted x"
  by (auto simp: enqueue_def feeder_internal_rank_def Let_def
      split: sum.split_asm option.split_asm if_split_asm)

lemma enqueue_stored:
  assumes "queue_ok q" and "enqueue q c = (Inr (job, b), q1)"
  shows "dict_get (q_jobs q1) (job_id job) = Some job"
proof -
  have "\<exists>i. dict_get (q_jobs q1) i = Some job"
    using enqueue_again [OF assms(2)]
    by (auto simp: enqueue_def Let_def split: sum.split_asm option.split_asm if_split_asm)
  then show ?thesis using queue_ok_job(1) [OF enqueue_ok [OF assms]] by auto
qed

text \<open>A handoff is exactly-once across a crash: when the coordinator is interrupted after the queue
  accepted the job, the record is unchanged, and the next handoff finds the same job, adds none, and
  records its id.\<close>

theorem handoff_survives_crash:
  assumes "queue_ok q" and "handoff c q rid True = (Inl (HandoffInterrupted x), c1, q1)"
  shows "c1 = c \<and> (\<exists>job c2. handoff c1 q1 rid False = (Inr job, c2, q1) \<and>
    dict_get (q_jobs q1) (job_id job) = Some job \<and>
    (\<exists>rec. dict_get c2 rid = Some rec \<and> fr_main_job_id rec = Some (job_id job) \<and>
       fr_state rec = REC_HANDED_OFF))"
proof -
  obtain rec where rec: "dict_get c rid = Some rec"
    using assms(2) by (auto simp: handoff_def split: option.splits)
  obtain job b where e: "enqueue q (record_command rec) = (Inr (job, b), q1)" "c1 = c"
    using assms(2) rec enqueue_error_kind by (auto simp: handoff_def split: prod.split_asm sum.split_asm)
  show ?thesis
    using e(2) enqueue_again [OF e(1)] enqueue_stored [OF assms(1) e(1)] rec
    by (simp add: handoff_def dict_get_put)
qed

definition sample_record :: feeder_record where
  "sample_record =
     \<lparr>fr_id = ''r'', fr_feeder = FEED_TRADE, fr_source_natural_id = ''t'', fr_source_version = 1,
      fr_action = TRADE_RESULT, fr_destination_key = ''chat'', fr_destination_class = DEST_PRIVATE,
      fr_method = ''sendMessage'', fr_payload = ''p'', fr_delivery_deadline_at = None,
      fr_freshness_deadline_at = None, fr_campaign_id = None, fr_state = REC_READY, fr_main_job_id = None,
      fr_terminal_job_state = None\<rparr>"

theorem handoff_survives_crash_witness:
  "\<exists>q1 job c2. handoff [(''r'', sample_record)] empty_queue ''r'' True =
       (Inl (HandoffInterrupted ''r''), [(''r'', sample_record)], q1) \<and>
     handoff [(''r'', sample_record)] q1 ''r'' False = (Inr job, c2, q1)"
proof -
  have "case handoff [(''r'', sample_record)] empty_queue ''r'' True of
      (Inl (HandoffInterrupted x), c1, q1) \<Rightarrow> x = ''r'' | _ \<Rightarrow> False" by code_simp
  then obtain c1 q1 where h: "handoff [(''r'', sample_record)] empty_queue ''r'' True =
      (Inl (HandoffInterrupted ''r''), c1, q1)"
    by (auto split: prod.splits sum.splits delivery_error.splits)
  show ?thesis using h handoff_survives_crash [OF queue_ok_empty h] by blast
qed

text \<open>Broadcasts stay within the global limit and follow the recipient list: in every reachable state
  at most the configured number of messages is in flight, and a release goes to the first recipient not
  yet settled of an unpaused, idle campaign that was released least recently.\<close>

theorem broadcast_release_policy:
  assumes "reachable broadcast_init broadcast_step f" and "release_next f now = (Some (cid, x), f')"
  shows "in_flight_count f' \<le> bf_max_global_in_flight f' \<and>
    (\<exists>c. dict_get (bf_campaigns f) cid = Some c \<and> \<not> bc_paused c \<and> bc_in_flight c = None \<and>
       bc_next_index c < length (bc_recipients c) \<and> x = bc_recipients c ! bc_next_index c \<and>
       (\<forall>d \<in> set (dict_values (bf_campaigns f)). releasable d \<longrightarrow> release_key c \<le> release_key d))"
proof -
  have ok: "broadcast_ok f" using broadcast.reachable_invar [OF assms(1)] .
  have "broadcast_ok f'" using broadcast_ok_step [OF ok bstep_release [OF assms(2)]] .
  then show ?thesis
    using release_next_Some [OF ok assms(2)] unfolding broadcast_ok_def releasable_def by blast
qed

definition sample_broadcast :: broadcast_feeder where
  "sample_broadcast = \<lparr>bf_max_global_in_flight = 2, bf_campaigns = [], bf_globally_paused = False\<rparr>"

definition sample_campaign :: broadcast_feeder where
  "sample_campaign = snd (add_campaign sample_broadcast ''c'' [''u1'', ''u2''])"

theorem broadcast_release_policy_witness:
  "\<exists>f'. release_next sample_campaign 7 = (Some (''c'', ''u1''), f') \<and>
     in_flight_count f' \<le> bf_max_global_in_flight f'"
proof -
  have "broadcast_init sample_broadcast" by (simp add: broadcast_init_def sample_broadcast_def)
  then have r0: "reachable broadcast_init broadcast_step sample_broadcast" by (rule reachable_init)
  have "add_campaign sample_broadcast ''c'' [''u1'', ''u2''] =
      (fst (add_campaign sample_broadcast ''c'' [''u1'', ''u2'']), sample_campaign)"
    by (simp add: sample_campaign_def)
  then have st: "broadcast_step sample_broadcast sample_campaign" by (rule bstep_add)
  have r: "reachable broadcast_init broadcast_step sample_campaign" by (rule reachable_step [OF r0 st])
  have "fst (release_next sample_campaign 7) = Some (''c'', ''u1'')" by code_simp
  then have n: "release_next sample_campaign 7 = (Some (''c'', ''u1''), snd (release_next sample_campaign 7))"
    by (metis prod.collapse)
  show ?thesis using n broadcast_release_policy [OF r n] by blast
qed

end
