(* ===== verification/OfferRequestLedger.thy ===== *)
theory OfferRequestLedger
  imports CustomerPolicy "HOL-Library.Product_Lexorder"
begin

text \<open>
  The durable request ledger: the rows of \<open>models/offer_request.py\<close>, the server names of
  \<open>core/server_routing.py\<close> and the append-only helpers of
  \<open>core/services/offer_request_ledger_service.py\<close>.  The table is a list of rows in insertion order with the
  next primary key.  Time stamps are instants in microseconds; a naive stamp counts as UTC, which is how
  the comparisons of the code read it.  \<open>request_public_id\<close> is drawn at random by the code and is an
  argument of the insertion.
\<close>

section \<open>Servers\<close>

definition SERVER_FOREIGN :: string where
  "SERVER_FOREIGN = ''foreign''"

definition SERVER_IRAN :: string where
  "SERVER_IRAN = ''iran''"

definition normalize_server :: "string option \<Rightarrow> string \<Rightarrow> string" where
  "normalize_server value dflt =
     (let normalized = py_norm value
      in if normalized \<in> {''germany'', ''de'', ''foreign'', ''german''} then SERVER_FOREIGN
         else if normalized \<in> {''iran'', ''ir''} then SERVER_IRAN
         else dflt)"

definition known_server :: "string \<Rightarrow> bool" where
  "known_server s \<longleftrightarrow> s = SERVER_FOREIGN \<or> s = SERVER_IRAN"

lemma py_norm_servers: "py_norm (Some ''foreign'') = ''foreign''" "py_norm (Some ''iran'') = ''iran''"
  by code_simp+

lemma normalize_server_known: "known_server d \<Longrightarrow> known_server (normalize_server v d)"
  by (auto simp: normalize_server_def known_server_def Let_def)

lemma normalize_server_fixed: "known_server s \<Longrightarrow> normalize_server (Some s) d = s"
  by (auto simp: normalize_server_def known_server_def SERVER_FOREIGN_def SERVER_IRAN_def py_norm_servers)

section \<open>Rows\<close>

datatype request_status =
    RECEIVED | AUTHORIZED | REJECTED_BUSINESS_RULE | REJECTED_OFFER_EXPIRED | REJECTED_LOT_UNAVAILABLE
  | REJECTED_CONFLICT | COMPLETED_TRADE | DUPLICATE_REPLAY | FAILED_INTERNAL
  | OVERTIME_QUEUED | OVERTIME_DELIVERING | OVERTIME_PRESENTED | OVERTIME_REJECTED_BY_OWNER
  | OVERTIME_DECISION_EXPIRED | OVERTIME_CANCELLED_BY_REQUESTER | OVERTIME_INVALIDATED
  | OVERTIME_DELIVERY_EXPIRED | OVERTIME_REJECTED_REQUESTER_LIMIT

fun status_value :: "request_status \<Rightarrow> string" where
  "status_value RECEIVED = ''received''"
| "status_value AUTHORIZED = ''authorized''"
| "status_value REJECTED_BUSINESS_RULE = ''rejected_business_rule''"
| "status_value REJECTED_OFFER_EXPIRED = ''rejected_offer_expired''"
| "status_value REJECTED_LOT_UNAVAILABLE = ''rejected_lot_unavailable''"
| "status_value REJECTED_CONFLICT = ''rejected_conflict''"
| "status_value COMPLETED_TRADE = ''completed_trade''"
| "status_value DUPLICATE_REPLAY = ''duplicate_replay''"
| "status_value FAILED_INTERNAL = ''failed_internal''"
| "status_value OVERTIME_QUEUED = ''overtime_queued''"
| "status_value OVERTIME_DELIVERING = ''overtime_delivering''"
| "status_value OVERTIME_PRESENTED = ''overtime_presented''"
| "status_value OVERTIME_REJECTED_BY_OWNER = ''overtime_rejected_by_owner''"
| "status_value OVERTIME_DECISION_EXPIRED = ''overtime_decision_expired''"
| "status_value OVERTIME_CANCELLED_BY_REQUESTER = ''overtime_cancelled_by_requester''"
| "status_value OVERTIME_INVALIDATED = ''overtime_invalidated''"
| "status_value OVERTIME_DELIVERY_EXPIRED = ''overtime_delivery_expired''"
| "status_value OVERTIME_REJECTED_REQUESTER_LIMIT = ''overtime_rejected_requester_limit''"

definition all_statuses :: "request_status list" where
  "all_statuses =
     [RECEIVED, AUTHORIZED, REJECTED_BUSINESS_RULE, REJECTED_OFFER_EXPIRED, REJECTED_LOT_UNAVAILABLE,
      REJECTED_CONFLICT, COMPLETED_TRADE, DUPLICATE_REPLAY, FAILED_INTERNAL, OVERTIME_QUEUED,
      OVERTIME_DELIVERING, OVERTIME_PRESENTED, OVERTIME_REJECTED_BY_OWNER, OVERTIME_DECISION_EXPIRED,
      OVERTIME_CANCELLED_BY_REQUESTER, OVERTIME_INVALIDATED, OVERTIME_DELIVERY_EXPIRED,
      OVERTIME_REJECTED_REQUESTER_LIMIT]"

definition OVERTIME_NONTERMINAL_STATUSES :: "request_status list" where
  "OVERTIME_NONTERMINAL_STATUSES = [OVERTIME_QUEUED, OVERTIME_DELIVERING, OVERTIME_PRESENTED]"

definition OVERTIME_OWNER_OCCUPYING_STATUSES :: "request_status list" where
  "OVERTIME_OWNER_OCCUPYING_STATUSES = [OVERTIME_DELIVERING, OVERTIME_PRESENTED]"

definition OVERTIME_TERMINAL_STATUSES :: "request_status list" where
  "OVERTIME_TERMINAL_STATUSES =
     [OVERTIME_REJECTED_BY_OWNER, OVERTIME_DECISION_EXPIRED, OVERTIME_CANCELLED_BY_REQUESTER,
      OVERTIME_INVALIDATED, OVERTIME_DELIVERY_EXPIRED, OVERTIME_REJECTED_REQUESTER_LIMIT]"

definition OVERTIME_COOLDOWN_TRIGGER_STATUSES :: "request_status list" where
  "OVERTIME_COOLDOWN_TRIGGER_STATUSES = [OVERTIME_REJECTED_BY_OWNER, OVERTIME_DECISION_EXPIRED]"

definition TERMINAL_OFFER_REQUEST_STATUSES :: "request_status list" where
  "TERMINAL_OFFER_REQUEST_STATUSES =
     [REJECTED_BUSINESS_RULE, REJECTED_OFFER_EXPIRED, REJECTED_LOT_UNAVAILABLE, REJECTED_CONFLICT,
      COMPLETED_TRADE, DUPLICATE_REPLAY, FAILED_INTERNAL, OVERTIME_REJECTED_BY_OWNER,
      OVERTIME_DECISION_EXPIRED, OVERTIME_CANCELLED_BY_REQUESTER, OVERTIME_INVALIDATED,
      OVERTIME_DELIVERY_EXPIRED, OVERTIME_REJECTED_REQUESTER_LIMIT]"

lemmas status_sets = OVERTIME_NONTERMINAL_STATUSES_def OVERTIME_OWNER_OCCUPYING_STATUSES_def
  OVERTIME_TERMINAL_STATUSES_def OVERTIME_COOLDOWN_TRIGGER_STATUSES_def TERMINAL_OFFER_REQUEST_STATUSES_def

datatype workflow_kind = WF_DIRECT | WF_OVERTIME

datatype source_surface = WEBAPP | TELEGRAM_BOT | INTERNAL_FORWARD

record customer_snapshot =
  cs_relation_id :: "int option"
  cs_owner_user_id :: "int option"
  cs_tier :: "string option"
  cs_management_name :: "string option"
  cs_commission_rate :: "rat option"
  cs_commission_context :: "(string \<times> int option) list option"

record offer_request =
  req_id :: int
  req_public_id :: string
  req_home_server :: string
  req_local_offer_id :: "int option"
  req_offer_public_id :: string
  req_requester_user_id :: "int option"
  req_actor_user_id :: "int option"
  req_source_surface :: source_surface
  req_source_server :: string
  req_quantity :: int
  req_idempotency_key :: "string option"
  req_workflow :: workflow_kind
  req_owner_user_id :: "int option"
  req_queue_sequence :: "int option"
  req_presented_at :: "int option"
  req_decision_deadline_at :: "int option"
  req_decided_by_user_id :: "int option"
  req_terminal_reason :: "string option"
  req_delivery_job_id :: "int option"
  req_message_id :: "int option"
  req_received_at :: int
  req_decided_at :: "int option"
  req_status :: request_status
  req_public_failure_code :: "string option"
  req_public_failure_message :: "string option"
  req_internal_failure_code :: "string option"
  req_internal_failure_context :: "(string \<times> string) list option"
  req_resulting_trade_id :: "int option"
  req_customer :: customer_snapshot

record ledger_db =
  ldb_rows :: "offer_request list"
  ldb_next_id :: int

definition find_row :: "ledger_db \<Rightarrow> int \<Rightarrow> offer_request option" where
  "find_row db i = find (\<lambda>r. req_id r = i) (ldb_rows db)"

definition put_row :: "ledger_db \<Rightarrow> offer_request \<Rightarrow> ledger_db" where
  "put_row db row = db\<lparr>ldb_rows := map (\<lambda>r. if req_id r = req_id row then row else r) (ldb_rows db)\<rparr>"

definition add_row :: "ledger_db \<Rightarrow> offer_request \<Rightarrow> ledger_db" where
  "add_row db row = db\<lparr>ldb_rows := ldb_rows db @ [row], ldb_next_id := ldb_next_id db + 1\<rparr>"

definition request_live :: "offer_request \<Rightarrow> bool" where
  "request_live r \<longleftrightarrow> req_status r \<in> set OVERTIME_NONTERMINAL_STATUSES"

definition request_occupying :: "offer_request \<Rightarrow> bool" where
  "request_occupying r \<longleftrightarrow> req_status r \<in> set OVERTIME_OWNER_OCCUPYING_STATUSES"

section \<open>Ledger operations\<close>

datatype ledger_error =
    UnsupportedStatus
  | UnsupportedSurface
  | TerminalState
  | OfferPublicIdRequired
  | QuantityNotPositive
  | LedgerDb db_error

datatype status_arg = StatusMember request_status | StatusText "string option"

fun normalize_offer_request_status :: "status_arg \<Rightarrow> ledger_error + request_status" where
  "normalize_offer_request_status (StatusMember s) = Inr s"
| "normalize_offer_request_status (StatusText t) =
     (case find (\<lambda>s. status_value s = py_norm t) all_statuses of
        Some s \<Rightarrow> Inr s
      | None \<Rightarrow> Inl UnsupportedStatus)"

datatype surface_arg = SurfaceMember source_surface | SurfaceText "string option"

fun normalize_offer_request_source_surface :: "surface_arg \<Rightarrow> ledger_error + source_surface" where
  "normalize_offer_request_source_surface (SurfaceMember s) = Inr s"
| "normalize_offer_request_source_surface (SurfaceText t) =
     (let n = py_norm t
      in if n = ''webapp'' then Inr WEBAPP
         else if n = ''telegram_bot'' then Inr TELEGRAM_BOT
         else if n = ''internal_forward'' then Inr INTERNAL_FORWARD
         else Inl UnsupportedSurface)"

definition load_offer_request_by_idempotency ::
  "string \<Rightarrow> ledger_db \<Rightarrow> string \<Rightarrow> string option \<Rightarrow> db_error + offer_request option" where
  "load_offer_request_by_idempotency current db home key =
     (case py_strip_or_none key of
        None \<Rightarrow> Inr None
      | Some k \<Rightarrow>
          scalar_one_or_none
            (filter (\<lambda>r. req_home_server r = normalize_server (Some home) current \<and>
                         req_idempotency_key r = Some k) (ldb_rows db)))"

text \<open>The keyword arguments of \<open>apply_offer_request_decision\<close>; \<open>now\<close> is the clock it reads.\<close>

record request_decision =
  rd_status :: status_arg
  rd_decided_at :: "int option"
  rd_public_failure_code :: "string option"
  rd_public_failure_message :: "string option"
  rd_internal_failure_code :: "string option"
  rd_internal_failure_context :: "(string \<times> string) list option"
  rd_resulting_trade_id :: "int option"
  rd_terminal_reason :: "string option"
  rd_decided_by_user_id :: "int option"

definition plain_decision :: "request_status \<Rightarrow> request_decision" where
  "plain_decision s =
     \<lparr>rd_status = StatusMember s, rd_decided_at = None, rd_public_failure_code = None,
      rd_public_failure_message = None, rd_internal_failure_code = None,
      rd_internal_failure_context = None, rd_resulting_trade_id = None, rd_terminal_reason = None,
      rd_decided_by_user_id = None\<rparr>"

definition or_keep :: "'a option \<Rightarrow> 'a option \<Rightarrow> 'a option" where
  "or_keep new old = (if new = None then old else new)"

definition apply_offer_request_decision ::
  "int \<Rightarrow> offer_request \<Rightarrow> request_decision \<Rightarrow> ledger_error + offer_request" where
  "apply_offer_request_decision now row d =
     (case normalize_offer_request_status (rd_status d) of
        Inl e \<Rightarrow> Inl e
      | Inr new_status \<Rightarrow>
          (if req_status row \<in> set TERMINAL_OFFER_REQUEST_STATUSES \<and> new_status \<noteq> req_status row
           then Inl TerminalState
           else
             Inr (row\<lparr>req_status := new_status,
                      req_decided_at :=
                        (if new_status \<in> set TERMINAL_OFFER_REQUEST_STATUSES \<and> req_decided_at row = None
                         then (case rd_decided_at d of Some t \<Rightarrow> Some t | None \<Rightarrow> Some now)
                         else or_keep (rd_decided_at d) (req_decided_at row)),
                      req_public_failure_code := or_keep (rd_public_failure_code d) (req_public_failure_code row),
                      req_public_failure_message :=
                        or_keep (rd_public_failure_message d) (req_public_failure_message row),
                      req_internal_failure_code :=
                        or_keep (rd_internal_failure_code d) (req_internal_failure_code row),
                      req_internal_failure_context :=
                        or_keep (rd_internal_failure_context d) (req_internal_failure_context row),
                      req_resulting_trade_id := or_keep (rd_resulting_trade_id d) (req_resulting_trade_id row),
                      req_terminal_reason := or_keep (rd_terminal_reason d) (req_terminal_reason row),
                      req_decided_by_user_id :=
                        or_keep (rd_decided_by_user_id d) (req_decided_by_user_id row)\<rparr>)))"

definition no_customer :: customer_snapshot where
  "no_customer =
     \<lparr>cs_relation_id = None, cs_owner_user_id = None, cs_tier = None, cs_management_name = None,
      cs_commission_rate = None, cs_commission_context = None\<rparr>"

fun tier_value :: "customer_tier \<Rightarrow> string" where
  "tier_value TIER_1 = ''tier1''"
| "tier_value TIER_2 = ''tier2''"

definition customer_relation_snapshot :: "customer_relation option \<Rightarrow> customer_snapshot" where
  "customer_relation_snapshot relation =
     (case relation of
        None \<Rightarrow> no_customer
      | Some rel \<Rightarrow>
          \<lparr>cs_relation_id = Some (rel_id rel), cs_owner_user_id = Some (rel_owner_user_id rel),
           cs_tier = Some (tier_value (rel_customer_tier rel)),
           cs_management_name = Some (rel_management_name rel),
           cs_commission_rate = rel_commission_rate rel,
           cs_commission_context =
             Some [(''min_trade_quantity'', rel_min_trade_quantity rel),
                   (''max_trade_quantity'', rel_max_trade_quantity rel),
                   (''max_daily_trades'', rel_max_daily_trades rel),
                   (''max_daily_commodity_volume'', rel_max_daily_commodity_volume rel)]\<rparr>)"

record ledger_command =
  lc_local_offer_id :: "int option"
  lc_offer_public_id :: "string option"
  lc_requester_user_id :: "int option"
  lc_actor_user_id :: "int option"
  lc_source_surface :: surface_arg
  lc_source_server :: "string option"
  lc_quantity :: int
  lc_home_server :: "string option"
  lc_idempotency_key :: "string option"
  lc_received_at :: "int option"
  lc_status :: status_arg
  lc_public_failure_code :: "string option"
  lc_public_failure_message :: "string option"
  lc_internal_failure_code :: "string option"
  lc_internal_failure_context :: "(string \<times> string) list option"
  lc_resulting_trade_id :: "int option"
  lc_customer :: customer_snapshot

definition none_if_empty :: "'a list option \<Rightarrow> 'a list option" where
  "none_if_empty v = (case v of Some (x # xs) \<Rightarrow> Some (x # xs) | _ \<Rightarrow> None)"

definition ledger_row ::
  "string \<Rightarrow> int \<Rightarrow> string \<Rightarrow> int \<Rightarrow> ledger_command \<Rightarrow> string \<Rightarrow> request_status \<Rightarrow> source_surface \<Rightarrow> offer_request" where
  "ledger_row current now pid i c public_id status surface =
     \<lparr>req_id = i, req_public_id = pid, req_home_server = normalize_server (lc_home_server c) current,
      req_local_offer_id = lc_local_offer_id c, req_offer_public_id = public_id,
      req_requester_user_id = lc_requester_user_id c, req_actor_user_id = lc_actor_user_id c,
      req_source_surface = surface, req_source_server = normalize_server (lc_source_server c) current,
      req_quantity = lc_quantity c, req_idempotency_key = py_strip_or_none (lc_idempotency_key c),
      req_workflow = WF_DIRECT, req_owner_user_id = None, req_queue_sequence = None,
      req_presented_at = None, req_decision_deadline_at = None, req_decided_by_user_id = None,
      req_terminal_reason = None, req_delivery_job_id = None, req_message_id = None,
      req_received_at = (case lc_received_at c of Some t \<Rightarrow> t | None \<Rightarrow> now),
      req_decided_at = (if status \<in> set TERMINAL_OFFER_REQUEST_STATUSES then Some now else None),
      req_status = status,
      req_public_failure_code = lc_public_failure_code c,
      req_public_failure_message = lc_public_failure_message c,
      req_internal_failure_code = lc_internal_failure_code c,
      req_internal_failure_context = none_if_empty (lc_internal_failure_context c),
      req_resulting_trade_id = lc_resulting_trade_id c,
      req_customer = (lc_customer c)\<lparr>cs_commission_context := none_if_empty (cs_commission_context (lc_customer c))\<rparr>\<rparr>"

definition create_offer_request_ledger_entry ::
  "string \<Rightarrow> int \<Rightarrow> string \<Rightarrow> ledger_db \<Rightarrow> ledger_command
     \<Rightarrow> (ledger_error + (offer_request \<times> bool)) \<times> ledger_db" where
  "create_offer_request_ledger_entry current now pid db c =
     (case py_strip_or_none (lc_offer_public_id c) of
        None \<Rightarrow> (Inl OfferPublicIdRequired, db)
      | Some public_id \<Rightarrow>
          (if lc_quantity c \<le> 0 then (Inl QuantityNotPositive, db)
           else
             (case load_offer_request_by_idempotency current db
                     (normalize_server (lc_home_server c) current) (lc_idempotency_key c) of
                Inl e \<Rightarrow> (Inl (LedgerDb e), db)
              | Inr (Some existing) \<Rightarrow> (Inr (existing, True), db)
              | Inr None \<Rightarrow>
                  (case normalize_offer_request_status (lc_status c) of
                     Inl e \<Rightarrow> (Inl e, db)
                   | Inr status \<Rightarrow>
                       (case normalize_offer_request_source_surface (lc_source_surface c) of
                          Inl e \<Rightarrow> (Inl e, db)
                        | Inr surface \<Rightarrow>
                            (let row = ledger_row current now pid (ldb_next_id db) c public_id status surface
                             in (Inr (row, False), add_row db row)))))))"

section \<open>Facts about rows and the table\<close>

lemma all_statuses_all [simp]: "s \<in> set all_statuses"
  by (cases s) (simp_all add: all_statuses_def)

lemma find_row_Some: "find_row db i = Some r \<Longrightarrow> r \<in> set (ldb_rows db) \<and> req_id r = i"
  by (auto simp: find_row_def find_Some_iff)

lemma find_row_distinct:
  assumes "distinct (map req_id (ldb_rows db))" and "r \<in> set (ldb_rows db)"
  shows "find_row db (req_id r) = Some r"
proof -
  have "find (\<lambda>x. req_id x = req_id r) (ldb_rows db) \<noteq> None"
    using assms(2) by (auto simp: find_None_iff)
  then obtain x where x: "find (\<lambda>x. req_id x = req_id r) (ldb_rows db) = Some x" by blast
  then have "x \<in> set (ldb_rows db)" "req_id x = req_id r" by (auto simp: find_Some_iff)
  then have "x = r" using assms by (auto simp: distinct_map inj_on_def)
  then show ?thesis using x by (simp add: find_row_def)
qed

lemma put_row_ids [simp]: "map req_id (ldb_rows (put_row db row)) = map req_id (ldb_rows db)"
  by (simp add: put_row_def)

lemma put_row_next [simp]: "ldb_next_id (put_row db row) = ldb_next_id db"
  by (simp add: put_row_def)

lemma put_row_set:
  "req_id row \<in> req_id ` set (ldb_rows db) \<Longrightarrow>
   set (ldb_rows (put_row db row)) = insert row {r \<in> set (ldb_rows db). req_id r \<noteq> req_id row}"
  by (auto simp: put_row_def)

lemma put_row_put_row: "req_id a = req_id b \<Longrightarrow> put_row (put_row db a) b = put_row db b"
  by (simp add: put_row_def)

lemma find_replaced:
  "find (\<lambda>r. g r = i) xs \<noteq> None \<Longrightarrow> g y = i \<Longrightarrow>
   find (\<lambda>r. g r = i) (map (\<lambda>r. if g r = i then y else r) xs) = Some y"
  by (induction xs) auto

lemma find_row_put:
  "req_id row = i \<Longrightarrow> find_row db i \<noteq> None \<Longrightarrow> find_row (put_row db row) i = Some row"
  unfolding find_row_def put_row_def using find_replaced [of req_id i "ldb_rows db" row] by simp

end
