(* ===== verification/OvertimeRequests.thy ===== *)
theory OvertimeRequests
  imports OfferRequestLedger DeliveryContract "HOL-Library.List_Lexorder" "HOL-Library.Char_ord"
begin

text \<open>
  The overtime approval workflow of \<open>core/services/offer_overtime_request_service.py\<close>: a request made in
  the approval window of an offer waits in its owner's queue, is promoted to the owner's single seat
  (presented at once on the Iran server, delivered through Telegram first on the foreign server), and ends
  in one terminal status.  The feedback of the delivery queue and the sweepers of the reconciliation
  service act on the same rows.

  The environment record holds what the workflow reads from elsewhere: the configured server, the offers and
  owner accounts by primary key with the verdict of the bot access policy, the producer mode, the error
  the prompt builder raises for a request (if any) and the job id its delivery gets.  The channel refresh
  and the requester's status message do not touch the ledger and are left out.
\<close>

section \<open>Data\<close>

datatype ot_code =
    IDEMPOTENCY_REQUIRED | INTAKE_REJECTED | SAME_OFFER_BUSY | COOLDOWN_ACTIVE | REQUESTER_LIMIT
  | REQUESTER_OWNER_LIMIT | NOT_OWNER | DECISION_EXPIRED | ALREADY_TERMINAL | ILLEGAL_TRANSITION
  | NOT_FOUND | NOT_REQUESTER | OFFER_INVALID

datatype ot_error =
    OvertimeError ot_code "int option"
  | OvertimeLedger ledger_error
  | OvertimeDb db_error
  | ApprovalFailed string
  | FilterRequired
  | FeedbackRejected string

record ot_offer =
  oo_id :: "int option"
  oo_public_id :: "string option"
  oo_home_server :: "string option"
  oo_user_id :: int
  oo_view :: offer_view

record owner_account =
  oa_telegram_id :: "int option"
  oa_access_allowed :: bool
  oa_access_reason :: "string option"

datatype producer_mode = LEGACY | QUEUE_V1 | PRODUCER_ONLY

record ot_env =
  oe_server_mode :: "string option"
  oe_offer :: "int \<Rightarrow> ot_offer option"
  oe_owner :: "int \<Rightarrow> owner_account option"
  oe_mode :: producer_mode
  oe_prompt_error :: "offer_request \<Rightarrow> ot_offer \<Rightarrow> string option"
  oe_job_id :: "offer_request \<Rightarrow> int"

definition current_server :: "ot_env \<Rightarrow> string" where
  "current_server env = normalize_server (oe_server_mode env) SERVER_FOREIGN"

lemma current_server_known [simp]: "known_server (current_server env)"
  unfolding current_server_def by (rule normalize_server_known) (simp add: known_server_def)

lemma normalize_current_idem [simp]:
  "normalize_server (Some (normalize_server v (current_server env))) (current_server env) =
   normalize_server v (current_server env)"
  by (rule normalize_server_fixed) (simp add: normalize_server_known)

definition OVERTIME_DECISION_SECONDS :: int where
  "OVERTIME_DECISION_SECONDS = 30"

definition OVERTIME_COOLDOWN_SECONDS :: int where
  "OVERTIME_COOLDOWN_SECONDS = 30"

definition MAX_OUTSTANDING_REQUESTS_PER_REQUESTER :: nat where
  "MAX_OUTSTANDING_REQUESTS_PER_REQUESTER = 3"

fun LEGAL_OVERTIME_TRANSITIONS :: "request_status \<Rightarrow> request_status list" where
  "LEGAL_OVERTIME_TRANSITIONS OVERTIME_QUEUED =
     [OVERTIME_DELIVERING, OVERTIME_PRESENTED, OVERTIME_CANCELLED_BY_REQUESTER, OVERTIME_INVALIDATED,
      OVERTIME_DELIVERY_EXPIRED]"
| "LEGAL_OVERTIME_TRANSITIONS OVERTIME_DELIVERING =
     [OVERTIME_PRESENTED, OVERTIME_CANCELLED_BY_REQUESTER, OVERTIME_INVALIDATED, OVERTIME_DELIVERY_EXPIRED]"
| "LEGAL_OVERTIME_TRANSITIONS OVERTIME_PRESENTED =
     [OVERTIME_REJECTED_BY_OWNER, OVERTIME_DECISION_EXPIRED, OVERTIME_CANCELLED_BY_REQUESTER,
      OVERTIME_INVALIDATED, COMPLETED_TRADE]"
| "LEGAL_OVERTIME_TRANSITIONS _ = []"

definition TERMINAL_LIKE :: "request_status list" where
  "TERMINAL_LIKE = OVERTIME_TERMINAL_STATUSES @ [COMPLETED_TRADE, DUPLICATE_REPLAY, FAILED_INTERNAL]"

section \<open>Queries and transitions\<close>

definition assert_legal_overtime_transition :: "request_status \<Rightarrow> request_status \<Rightarrow> ot_error option" where
  "assert_legal_overtime_transition current new =
     (if current = new then None
      else if new \<in> set (LEGAL_OVERTIME_TRANSITIONS current) then None
      else Some (OvertimeError ILLEGAL_TRANSITION None))"

definition decision_deadline_at :: "int \<Rightarrow> int" where
  "decision_deadline_at presented_at = presented_at + OVERTIME_DECISION_SECONDS * us_per_second"

definition remaining_seconds_until :: "int option \<Rightarrow> int \<Rightarrow> int" where
  "remaining_seconds_until deadline now =
     (case deadline of None \<Rightarrow> 0 | Some d \<Rightarrow> max 0 (trunc_div (d - now) us_per_second))"

definition cooldown_remaining_seconds :: "int option \<Rightarrow> int \<Rightarrow> int" where
  "cooldown_remaining_seconds last_terminal_at now =
     (case last_terminal_at of
        None \<Rightarrow> 0
      | Some t \<Rightarrow> remaining_seconds_until (Some (t + OVERTIME_COOLDOWN_SECONDS * us_per_second)) now)"

definition load_overtime_request_by_public_id :: "ledger_db \<Rightarrow> string \<Rightarrow> db_error + offer_request option" where
  "load_overtime_request_by_public_id db pid =
     (let public_id = py_strip pid
      in if public_id = [] then Inr None
         else scalar_one_or_none (filter (\<lambda>r. req_public_id r = public_id) (ldb_rows db)))"

definition get_active_request_for_offer ::
  "ot_env \<Rightarrow> ledger_db \<Rightarrow> string \<Rightarrow> string \<Rightarrow> db_error + offer_request option" where
  "get_active_request_for_offer env db home public_id =
     scalar_one_or_none
       (filter (\<lambda>r. req_home_server r = normalize_server (Some home) (current_server env) \<and>
                    req_offer_public_id r = public_id \<and> request_live r) (ldb_rows db))"

definition outstanding :: "ledger_db \<Rightarrow> int \<Rightarrow> offer_request list" where
  "outstanding db requester =
     filter (\<lambda>r. req_requester_user_id r = Some requester \<and> request_live r) (ldb_rows db)"

definition count_requester_outstanding :: "ledger_db \<Rightarrow> int \<Rightarrow> int option \<Rightarrow> nat \<times> nat" where
  "count_requester_outstanding db requester owner =
     (length (outstanding db requester),
      (case owner of
         None \<Rightarrow> 0
       | Some ow \<Rightarrow> length (filter (\<lambda>r. req_owner_user_id r = Some ow) (outstanding db requester))))"

definition cooldown_remaining_for_requester_offer :: "ledger_db \<Rightarrow> int \<Rightarrow> string \<Rightarrow> int \<Rightarrow> int" where
  "cooldown_remaining_for_requester_offer db requester public_id now =
     (let stamps = List.map_filter
            (\<lambda>r. if req_requester_user_id r = Some requester \<and> req_offer_public_id r = public_id \<and>
                    req_status r \<in> set OVERTIME_COOLDOWN_TRIGGER_STATUSES
                 then req_decided_at r else None) (ldb_rows db)
      in cooldown_remaining_seconds (case stamps of [] \<Rightarrow> None | t # ts \<Rightarrow> Some (fold max ts t)) now)"

definition next_queue_sequence :: "ledger_db \<Rightarrow> string \<Rightarrow> int \<Rightarrow> int" where
  "next_queue_sequence db home owner =
     (let sequences = List.map_filter
            (\<lambda>r. if req_home_server r = home \<and> req_owner_user_id r = Some owner \<and>
                    req_workflow r = WF_OVERTIME then req_queue_sequence r else None) (ldb_rows db)
      in (case sequences of [] \<Rightarrow> 0 | s # ss \<Rightarrow> fold max ss s) + 1)"

definition in_scope :: "string \<Rightarrow> int \<Rightarrow> offer_request \<Rightarrow> bool" where
  "in_scope home owner r \<longleftrightarrow> req_home_server r = home \<and> req_owner_user_id r = Some owner"

definition owner_has_occupying_request :: "ledger_db \<Rightarrow> string \<Rightarrow> int \<Rightarrow> bool" where
  "owner_has_occupying_request db home owner =
     list_ex (\<lambda>r. in_scope home owner r \<and> request_occupying r) (ldb_rows db)"

text \<open>\<open>ORDER BY queue_sequence, id\<close>: a missing sequence sorts last.\<close>

definition queue_key :: "offer_request \<Rightarrow> (int \<times> int) \<times> int" where
  "queue_key r = ((case req_queue_sequence r of None \<Rightarrow> (1, 0) | Some s \<Rightarrow> (0, s)), req_id r)"

definition queued_rows :: "ledger_db \<Rightarrow> string \<Rightarrow> int \<Rightarrow> offer_request list" where
  "queued_rows db home owner =
     sort_key queue_key (filter (\<lambda>r. in_scope home owner r \<and> req_status r = OVERTIME_QUEUED) (ldb_rows db))"

definition next_queued_for_owner :: "ot_env \<Rightarrow> ledger_db \<Rightarrow> string \<Rightarrow> int \<Rightarrow> offer_request option" where
  "next_queued_for_owner env db home owner =
     (case queued_rows db (normalize_server (Some home) (current_server env)) owner of
        [] \<Rightarrow> None
      | r # _ \<Rightarrow> Some r)"

definition apply_overtime_transition :: "int \<Rightarrow> offer_request \<Rightarrow> request_status \<Rightarrow> request_decision
     \<Rightarrow> ot_error + offer_request" where
  "apply_overtime_transition now row new_status d =
     (case assert_legal_overtime_transition (req_status row) new_status of
        Some e \<Rightarrow> Inl e
      | None \<Rightarrow>
          (case apply_offer_request_decision now row (d\<lparr>rd_status := StatusMember new_status\<rparr>) of
             Inl e \<Rightarrow> Inl (OvertimeLedger e)
           | Inr row' \<Rightarrow> Inr row'))"

definition classify_intake_for_offer :: "offer_view \<Rightarrow> int \<Rightarrow> int \<Rightarrow> intake_phase" where
  "classify_intake_for_offer ov receipt_at lifetime =
     (let overtime = read_overtime_minutes_snapshot ov;
          deadlines = compute_lifecycle_deadlines (ov_created_at ov) lifetime overtime
      in classify_request_intake_phase (Some (Naive receipt_at)) (map_option fst deadlines)
           (map_option snd deadlines) overtime)"

definition invalidation :: "string \<Rightarrow> string \<Rightarrow> int \<Rightarrow> request_decision" where
  "invalidation code reason now =
     (plain_decision OVERTIME_INVALIDATED)\<lparr>rd_decided_at := Some now, rd_terminal_reason := Some reason,
        rd_internal_failure_code := Some code, rd_internal_failure_context := Some [(''reason'', reason)]\<rparr>"

definition invalidated_row :: "int \<Rightarrow> string \<Rightarrow> offer_request \<Rightarrow> ot_error + offer_request" where
  "invalidated_row now reason row =
     (if req_status row \<in> set TERMINAL_LIKE \<or>
         req_status row \<notin> {OVERTIME_QUEUED, OVERTIME_DELIVERING, OVERTIME_PRESENTED}
      then Inr row
      else apply_overtime_transition now row OVERTIME_INVALIDATED
             (invalidation ''overtime_invalidated'' reason now))"

section \<open>Promotion\<close>

definition revalidate_offer_for_promotion ::
  "ot_offer option \<Rightarrow> string \<Rightarrow> int \<Rightarrow> int \<Rightarrow> string option" where
  "revalidate_offer_for_promotion offer home lifetime now =
     (case offer of
        None \<Rightarrow> Some ''offer_missing''
      | Some o' \<Rightarrow>
          (let request_home = normalize_server (Some home) []; offer_home = normalize_server (oo_home_server o') []
           in if offer_home \<noteq> SERVER_FOREIGN \<and> offer_home \<noteq> SERVER_IRAN then Some ''offer_home_invalid''
              else if request_home \<noteq> offer_home then Some ''offer_home_mismatch''
              else if ov_status (oo_view o') \<noteq> Some OFFER_ACTIVE then Some ''offer_not_active''
              else
                (case final_deadline_at (project_offer_lifecycle (oo_view o') lifetime (Some (Naive now)) now False) of
                   None \<Rightarrow> None
                 | Some deadline \<Rightarrow> (if now \<ge> deadline then Some ''final_deadline_passed'' else None))))"

datatype approval_outcome =
    ApprovalQueued int
  | ApprovalUndeliverable string
  | ApprovalRaised string

text \<open>\<open>enqueue_overtime_owner_approval_delivery\<close> and its legacy twin share these guards; they differ in
  how a raised error reaches the caller.\<close>

definition enqueue_overtime_owner_approval_delivery ::
  "ot_env \<Rightarrow> offer_request \<Rightarrow> ot_offer \<Rightarrow> approval_outcome" where
  "enqueue_overtime_owner_approval_delivery env row offer =
     (if req_status row \<noteq> OVERTIME_DELIVERING
      then ApprovalRaised ''overtime_owner_approval_enqueue_requires_delivering''
      else
        (case req_owner_user_id row of
           None \<Rightarrow> ApprovalUndeliverable ''overtime_owner_missing''
         | Some owner \<Rightarrow>
             (if owner \<le> 0 then ApprovalUndeliverable ''overtime_owner_missing''
              else
                (case oe_owner env owner of
                   None \<Rightarrow> ApprovalUndeliverable ''overtime_owner_user_missing''
                 | Some account \<Rightarrow>
                     (if (case oa_telegram_id account of None \<Rightarrow> True | Some i \<Rightarrow> i \<le> 0)
                      then ApprovalUndeliverable ''overtime_owner_unlinked''
                      else if \<not> oa_access_allowed account
                      then ApprovalUndeliverable
                             (case oa_access_reason account of
                                Some (c # cs) \<Rightarrow> c # cs
                              | _ \<Rightarrow> ''overtime_owner_access_denied'')
                      else
                        (case oe_prompt_error env row offer of
                           Some msg \<Rightarrow> ApprovalRaised (''overtime_owner_approval_payload_invalid:'' @ msg)
                         | None \<Rightarrow> ApprovalQueued (oe_job_id env row)))))))"

text \<open>One round of the promotion: it settles, or it invalidates the candidate and tries the next one.\<close>

datatype attempt = Settled "ot_error + offer_request option" ledger_db | TryNext ledger_db

definition invalidate_and_retry :: "int \<Rightarrow> string \<Rightarrow> ledger_db \<Rightarrow> offer_request \<Rightarrow> attempt" where
  "invalidate_and_retry now reason db row =
     (case invalidated_row now reason row of
        Inl e \<Rightarrow> Settled (Inl e) (put_row db row)
      | Inr row' \<Rightarrow> TryNext (put_row db row'))"

definition deliver_candidate :: "ot_env \<Rightarrow> int \<Rightarrow> ledger_db \<Rightarrow> offer_request \<Rightarrow> ot_offer option \<Rightarrow> attempt" where
  "deliver_candidate env now db row offer =
     (case offer of
        None \<Rightarrow> invalidate_and_retry now ''overtime_promote_offer_missing_for_delivery'' db row
      | Some o' \<Rightarrow>
          (case enqueue_overtime_owner_approval_delivery env row o' of
             ApprovalRaised msg \<Rightarrow>
               (if oe_mode env = QUEUE_V1
                then invalidate_and_retry now (takeWhile (\<lambda>c. c \<noteq> CHR '':'') msg) db row
                else Settled (Inl (ApprovalFailed msg)) (put_row db row))
           | ApprovalUndeliverable reason \<Rightarrow> invalidate_and_retry now reason db row
           | ApprovalQueued job \<Rightarrow>
               (let row' = (if oe_mode env = QUEUE_V1 then row\<lparr>req_delivery_job_id := Some job\<rparr> else row)
                in Settled (Inr (Some row')) (put_row db row'))))"

definition present_candidate :: "int \<Rightarrow> ledger_db \<Rightarrow> offer_request \<Rightarrow> attempt" where
  "present_candidate now db candidate =
     (let stamped = candidate\<lparr>req_presented_at := Some now,
                              req_decision_deadline_at := Some (decision_deadline_at now)\<rparr>
      in (case apply_overtime_transition now stamped OVERTIME_PRESENTED (plain_decision OVERTIME_PRESENTED) of
            Inl e \<Rightarrow> Settled (Inl e) (put_row db stamped)
          | Inr row \<Rightarrow> Settled (Inr (Some row)) (put_row db row)))"

definition promotion_attempt :: "ot_env \<Rightarrow> int \<Rightarrow> int \<Rightarrow> string \<Rightarrow> int \<Rightarrow> ledger_db \<Rightarrow> attempt" where
  "promotion_attempt env lifetime now home owner db =
     (if owner_has_occupying_request db home owner then Settled (Inr None) db
      else
        (case next_queued_for_owner env db home owner of
           None \<Rightarrow> Settled (Inr None) db
         | Some candidate \<Rightarrow>
             (let offer = Option.bind (req_local_offer_id candidate) (oe_offer env)
              in (case revalidate_offer_for_promotion offer home lifetime now of
                    Some reason \<Rightarrow>
                      (case apply_overtime_transition now candidate OVERTIME_INVALIDATED
                              (invalidation ''overtime_promote_revalidation_failed'' reason now) of
                         Inl e \<Rightarrow> Settled (Inl e) db
                       | Inr row \<Rightarrow> TryNext (put_row db row))
                  | None \<Rightarrow>
                      (if home = SERVER_FOREIGN then
                         (case apply_overtime_transition now candidate OVERTIME_DELIVERING
                                 (plain_decision OVERTIME_DELIVERING) of
                            Inl e \<Rightarrow> Settled (Inl e) db
                          | Inr row \<Rightarrow> deliver_candidate env now db row offer)
                       else present_candidate now db candidate)))))"

definition queued_count :: "ledger_db \<Rightarrow> nat" where
  "queued_count db = length (filter (\<lambda>r. req_status r = OVERTIME_QUEUED) (ldb_rows db))"

lemma decision_status:
  assumes "apply_offer_request_decision now row d = Inr row'"
  shows "normalize_offer_request_status (rd_status d) = Inr (req_status row')"
  using assms by (auto simp: apply_offer_request_decision_def split: sum.splits if_splits)

lemma decision_identity:
  assumes "apply_offer_request_decision now row d = Inr row'"
  shows "req_id row' = req_id row" "req_public_id row' = req_public_id row"
    "req_home_server row' = req_home_server row" "req_offer_public_id row' = req_offer_public_id row"
    "req_requester_user_id row' = req_requester_user_id row" "req_owner_user_id row' = req_owner_user_id row"
    "req_idempotency_key row' = req_idempotency_key row" "req_workflow row' = req_workflow row"
    "req_queue_sequence row' = req_queue_sequence row" "req_local_offer_id row' = req_local_offer_id row"
    "req_presented_at row' = req_presented_at row"
    "req_decision_deadline_at row' = req_decision_deadline_at row"
  using assms by (auto simp: apply_offer_request_decision_def split: sum.splits if_splits)

lemma transition_status:
  assumes "apply_overtime_transition now row s d = Inr row'"
  shows "req_status row' = s" "s = req_status row \<or> s \<in> set (LEGAL_OVERTIME_TRANSITIONS (req_status row))"
    "apply_offer_request_decision now row (d\<lparr>rd_status := StatusMember s\<rparr>) = Inr row'"
  using assms decision_status
  by (auto simp: apply_overtime_transition_def assert_legal_overtime_transition_def
      split: sum.split_asm option.split_asm if_split_asm dest: decision_status)

lemmas transition_identity = transition_status(3) [THEN decision_identity(1)]
  transition_status(3) [THEN decision_identity(2)] transition_status(3) [THEN decision_identity(3)]
  transition_status(3) [THEN decision_identity(4)] transition_status(3) [THEN decision_identity(5)]
  transition_status(3) [THEN decision_identity(6)] transition_status(3) [THEN decision_identity(7)]
  transition_status(3) [THEN decision_identity(8)] transition_status(3) [THEN decision_identity(9)]
  transition_status(3) [THEN decision_identity(10)] transition_status(3) [THEN decision_identity(11)]
  transition_status(3) [THEN decision_identity(12)]

lemma live_not_terminal: "s \<in> set OVERTIME_NONTERMINAL_STATUSES \<Longrightarrow> s \<notin> set TERMINAL_OFFER_REQUEST_STATUSES"
  by (auto simp: status_sets)

lemma legal_from_live: "s \<in> set (LEGAL_OVERTIME_TRANSITIONS a) \<Longrightarrow> a \<in> set OVERTIME_NONTERMINAL_STATUSES"
  by (cases a) (auto simp: status_sets)

lemma transition_allowed:
  assumes "s \<in> set (LEGAL_OVERTIME_TRANSITIONS (req_status row))"
  shows "\<exists>row'. apply_overtime_transition now row s d = Inr row'"
  using live_not_terminal [OF legal_from_live [OF assms]] assms
  by (auto simp: apply_overtime_transition_def assert_legal_overtime_transition_def
      apply_offer_request_decision_def)

lemma next_queued_Some:
  assumes "next_queued_for_owner env db home owner = Some r"
  shows "r \<in> set (ldb_rows db) \<and> req_status r = OVERTIME_QUEUED \<and>
    in_scope (normalize_server (Some home) (current_server env)) owner r"
proof -
  have "r \<in> set (queued_rows db (normalize_server (Some home) (current_server env)) owner)"
    using assms by (auto simp: next_queued_for_owner_def split: list.splits)
  then show ?thesis by (simp add: queued_rows_def)
qed

lemma queued_count_put:
  assumes "r \<in> set (ldb_rows db)" and "req_status r = OVERTIME_QUEUED"
    and "req_id r' = req_id r" and "req_status r' \<noteq> OVERTIME_QUEUED"
  shows "queued_count (put_row db r') < queued_count db"
proof -
  have le: "length (filter (\<lambda>r. req_status r = OVERTIME_QUEUED) (map (\<lambda>x. if req_id x = req_id r' then r' else x) xs)) \<le>
      length (filter (\<lambda>r. req_status r = OVERTIME_QUEUED) xs)" for xs
    using assms(4) by (induction xs) auto
  have "r \<in> set xs \<Longrightarrow>
      length (filter (\<lambda>r. req_status r = OVERTIME_QUEUED) (map (\<lambda>x. if req_id x = req_id r' then r' else x) xs)) <
      length (filter (\<lambda>r. req_status r = OVERTIME_QUEUED) xs)" for xs
  proof (induction xs)
    case (Cons x xs)
    then show ?case using le [of xs] assms(2-4) by (cases "r = x") auto
  qed simp
  then show ?thesis using assms(1) by (simp add: queued_count_def put_row_def)
qed

lemma invalidated_row_Inr:
  assumes "invalidated_row now reason row = Inr row'"
    and "req_status row \<in> {OVERTIME_QUEUED, OVERTIME_DELIVERING, OVERTIME_PRESENTED}"
  shows "\<exists>d. apply_overtime_transition now row OVERTIME_INVALIDATED d = Inr row'"
proof -
  have "\<not> (req_status row \<in> set TERMINAL_LIKE \<or>
      req_status row \<notin> {OVERTIME_QUEUED, OVERTIME_DELIVERING, OVERTIME_PRESENTED})"
    using assms(2) by (auto simp: TERMINAL_LIKE_def status_sets)
  then show ?thesis using assms(1) unfolding invalidated_row_def by (metis (no_types))
qed

lemma invalidated_row_total:
  assumes "req_status row \<in> {OVERTIME_QUEUED, OVERTIME_DELIVERING, OVERTIME_PRESENTED}"
  shows "\<exists>row'. invalidated_row now reason row = Inr row'"
proof -
  have "OVERTIME_INVALIDATED \<in> set (LEGAL_OVERTIME_TRANSITIONS (req_status row))" using assms by auto
  then show ?thesis unfolding invalidated_row_def using transition_allowed by auto
qed

lemma retry_shape:
  assumes "req_status row \<in> {OVERTIME_QUEUED, OVERTIME_DELIVERING, OVERTIME_PRESENTED}"
  shows "\<exists>row' d. invalidate_and_retry now reason db row = TryNext (put_row db row') \<and>
    apply_overtime_transition now row OVERTIME_INVALIDATED d = Inr row'"
proof -
  obtain row' where r: "invalidated_row now reason row = Inr row'"
    using invalidated_row_total [OF assms] by blast
  then show ?thesis using invalidated_row_Inr [OF r assms] by (auto simp: invalidate_and_retry_def)
qed

lemma plain_transition:
  assumes "apply_overtime_transition now c s (plain_decision s) = Inr r"
    and "s \<notin> set TERMINAL_OFFER_REQUEST_STATUSES"
  shows "r = c\<lparr>req_status := s\<rparr>"
  using assms
  by (cases c) (auto simp: apply_overtime_transition_def apply_offer_request_decision_def plain_decision_def
      or_keep_def split: option.split_asm if_split_asm)

text \<open>What a promotion keeps of a request.\<close>

definition same_request :: "offer_request \<Rightarrow> offer_request \<Rightarrow> bool" where
  "same_request r r' \<longleftrightarrow> req_id r' = req_id r \<and> req_public_id r' = req_public_id r \<and>
     req_home_server r' = req_home_server r \<and> req_offer_public_id r' = req_offer_public_id r \<and>
     req_requester_user_id r' = req_requester_user_id r \<and> req_owner_user_id r' = req_owner_user_id r \<and>
     req_idempotency_key r' = req_idempotency_key r \<and> req_workflow r' = req_workflow r \<and>
     req_queue_sequence r' = req_queue_sequence r \<and> req_local_offer_id r' = req_local_offer_id r"

lemma same_request_refl [simp]: "same_request r r"
  by (simp add: same_request_def)

lemma same_request_trans: "same_request a b \<Longrightarrow> same_request b c \<Longrightarrow> same_request a c"
  by (simp add: same_request_def)

lemma transition_same: "apply_overtime_transition now row s d = Inr row' \<Longrightarrow> same_request row row'"
  using transition_identity by (simp add: same_request_def)

text \<open>Whether a queued request can take the owner's seat.\<close>

definition deliverable :: "ot_env \<Rightarrow> offer_request \<Rightarrow> ot_offer option \<Rightarrow> bool" where
  "deliverable env row offer \<longleftrightarrow>
     (case offer of
        None \<Rightarrow> False
      | Some o' \<Rightarrow>
          (case enqueue_overtime_owner_approval_delivery env row o' of
             ApprovalQueued _ \<Rightarrow> True
           | ApprovalUndeliverable _ \<Rightarrow> False
           | ApprovalRaised _ \<Rightarrow> oe_mode env \<noteq> QUEUE_V1))"

definition promotable :: "ot_env \<Rightarrow> int \<Rightarrow> int \<Rightarrow> string \<Rightarrow> offer_request \<Rightarrow> bool" where
  "promotable env lifetime now home c \<longleftrightarrow>
     (let offer = Option.bind (req_local_offer_id c) (oe_offer env)
      in revalidate_offer_for_promotion offer home lifetime now = None \<and>
         (home = SERVER_FOREIGN \<longrightarrow>
            deliverable env (c\<lparr>req_status := OVERTIME_DELIVERING\<rparr>) offer))"

definition seated :: "int \<Rightarrow> offer_request \<Rightarrow> bool" where
  "seated now r \<longleftrightarrow> req_status r = OVERTIME_DELIVERING \<or>
     req_status r = OVERTIME_PRESENTED \<and> req_presented_at r = Some now \<and>
     req_decision_deadline_at r = Some (decision_deadline_at now)"

lemma deliver_shape:
  assumes "req_status row = OVERTIME_DELIVERING"
  shows "(\<exists>r' d. deliver_candidate env now db row offer = TryNext (put_row db r') \<and>
       apply_overtime_transition now row OVERTIME_INVALIDATED d = Inr r' \<and>
       \<not> deliverable env row offer) \<or>
    (\<exists>r' res. deliver_candidate env now db row offer = Settled res (put_row db r') \<and> same_request row r' \<and>
       req_status r' = OVERTIME_DELIVERING \<and>
       (res = Inr (Some r') \<or> (\<exists>msg. res = Inl (ApprovalFailed msg))) \<and>
       deliverable env row offer)"
proof -
  have inv: "\<exists>row' d. invalidate_and_retry now reason db row = TryNext (put_row db row') \<and>
      apply_overtime_transition now row OVERTIME_INVALIDATED d = Inr row'" for reason
    by (rule retry_shape) (simp add: assms)
  show ?thesis
  proof (cases offer)
    case None
    then show ?thesis using inv by (simp add: deliver_candidate_def deliverable_def)
  next
    case (Some o')
    show ?thesis
    proof (cases "enqueue_overtime_owner_approval_delivery env row o'")
      case (ApprovalQueued job)
      then show ?thesis using Some assms
        by (simp add: deliver_candidate_def deliverable_def Let_def same_request_def)
    next
      case (ApprovalUndeliverable reason)
      then show ?thesis using Some inv by (simp add: deliver_candidate_def deliverable_def)
    next
      case (ApprovalRaised msg)
      show ?thesis
      proof (cases "oe_mode env = QUEUE_V1")
        case True
        then show ?thesis using Some ApprovalRaised inv by (simp add: deliver_candidate_def deliverable_def)
      next
        case False
        then have "deliver_candidate env now db row offer = Settled (Inl (ApprovalFailed msg)) (put_row db row)"
          using Some ApprovalRaised by (simp add: deliver_candidate_def)
        moreover have "deliverable env row offer" using Some ApprovalRaised False by (simp add: deliverable_def)
        ultimately show ?thesis using assms same_request_refl by blast
      qed
    qed
  qed
qed

lemma present_shape:
  assumes "req_status c = OVERTIME_QUEUED"
  shows "\<exists>r'. present_candidate now db c = Settled (Inr (Some r')) (put_row db r') \<and> same_request c r' \<and>
    req_status r' = OVERTIME_PRESENTED \<and> seated now r'"
proof -
  let ?stamped = "c\<lparr>req_presented_at := Some now, req_decision_deadline_at := Some (decision_deadline_at now)\<rparr>"
  obtain r where r: "apply_overtime_transition now ?stamped OVERTIME_PRESENTED (plain_decision OVERTIME_PRESENTED) = Inr r"
    using transition_allowed [of OVERTIME_PRESENTED ?stamped] assms by auto
  then have "r = ?stamped\<lparr>req_status := OVERTIME_PRESENTED\<rparr>"
    by (rule plain_transition) (simp add: status_sets)
  then show ?thesis using r by (simp add: present_candidate_def Let_def same_request_def seated_def)
qed

lemma attempt_shape:
  fixes env home
  defines "scope \<equiv> normalize_server (Some home) (current_server env)"
  shows "(promotion_attempt env lifetime now home owner db = Settled (Inr None) db \<and>
       (owner_has_occupying_request db home owner \<or> queued_rows db scope owner = [])) \<or>
    (\<exists>c rest r'. \<not> owner_has_occupying_request db home owner \<and> queued_rows db scope owner = c # rest \<and>
       \<not> promotable env lifetime now home c \<and> same_request c r' \<and> req_status r' = OVERTIME_INVALIDATED \<and>
       promotion_attempt env lifetime now home owner db = TryNext (put_row db r')) \<or>
    (\<exists>c rest r' res. \<not> owner_has_occupying_request db home owner \<and> queued_rows db scope owner = c # rest \<and>
       promotable env lifetime now home c \<and> same_request c r' \<and> seated now r' \<and>
       (res = Inr (Some r') \<or> (\<exists>msg. res = Inl (ApprovalFailed msg))) \<and>
       promotion_attempt env lifetime now home owner db = Settled res (put_row db r'))"
proof (cases "owner_has_occupying_request db home owner \<or> queued_rows db scope owner = []")
  case True
  then show ?thesis by (auto simp: promotion_attempt_def next_queued_for_owner_def scope_def)
next
  case False
  then obtain c rest where q: "queued_rows db scope owner = c # rest" by (cases "queued_rows db scope owner") auto
  then have nq: "next_queued_for_owner env db home owner = Some c" by (simp add: next_queued_for_owner_def scope_def)
  then have st: "req_status c = OVERTIME_QUEUED" using next_queued_Some by blast
  let ?offer = "Option.bind (req_local_offer_id c) (oe_offer env)"
  show ?thesis
  proof (cases "revalidate_offer_for_promotion ?offer home lifetime now")
    case (Some reason)
    obtain r where r: "apply_overtime_transition now c OVERTIME_INVALIDATED
        (invalidation ''overtime_promote_revalidation_failed'' reason now) = Inr r"
      using transition_allowed [of OVERTIME_INVALIDATED c] st by auto
    have "promotion_attempt env lifetime now home owner db = TryNext (put_row db r)"
      using False nq Some r by (simp add: promotion_attempt_def Let_def)
    moreover have "\<not> promotable env lifetime now home c" using Some by (simp add: promotable_def Let_def)
    ultimately show ?thesis
      using False q transition_same [OF r] transition_status(1) [OF r] by blast
  next
    case None
    show ?thesis
    proof (cases "home = SERVER_FOREIGN")
      case True
      obtain r where r: "apply_overtime_transition now c OVERTIME_DELIVERING (plain_decision OVERTIME_DELIVERING) = Inr r"
        using transition_allowed [of OVERTIME_DELIVERING c] st by auto
      have rc: "r = c\<lparr>req_status := OVERTIME_DELIVERING\<rparr>"
        using r by (rule plain_transition) (simp add: status_sets)
      have at: "promotion_attempt env lifetime now home owner db = deliver_candidate env now db r ?offer"
        using False nq None True r by (simp add: promotion_attempt_def Let_def)
      have pr: "promotable env lifetime now home c \<longleftrightarrow> deliverable env r ?offer"
        using None True by (simp add: promotable_def Let_def rc)
      have "req_status r = OVERTIME_DELIVERING" by (simp add: rc)
      note deliver_shape [OF this, of env now db ?offer, folded pr at]
      then show ?thesis
      proof (elim disjE exE conjE)
        fix r' d
        assume a: "promotion_attempt env lifetime now home owner db = TryNext (put_row db r')"
          "apply_overtime_transition now r OVERTIME_INVALIDATED d = Inr r'" "\<not> promotable env lifetime now home c"
        have "same_request c r'"
          using same_request_trans transition_same [OF r] transition_same [OF a(2)] by blast
        then show ?thesis using False q a transition_status(1) [OF a(2)] by blast
      next
        fix r' res
        assume a: "promotion_attempt env lifetime now home owner db = Settled res (put_row db r')"
          "same_request r r'" "req_status r' = OVERTIME_DELIVERING"
          "promotable env lifetime now home c"
          "res = Inr (Some r')"
        have "same_request c r'" using same_request_trans transition_same [OF r] a(2) by blast
        then show ?thesis using False q a by (auto simp: seated_def)
      next
        fix r' res msg
        assume a: "promotion_attempt env lifetime now home owner db = Settled res (put_row db r')"
          "same_request r r'" "req_status r' = OVERTIME_DELIVERING"
          "promotable env lifetime now home c"
          "res = Inl (ApprovalFailed msg)"
        have "same_request c r'" using same_request_trans transition_same [OF r] a(2) by blast
        then show ?thesis using False q a by (auto simp: seated_def)
      qed
    next
      case False': False
      have at: "promotion_attempt env lifetime now home owner db = present_candidate now db c"
        using False nq None False' by (simp add: promotion_attempt_def Let_def)
      have pr: "promotable env lifetime now home c" using None False' by (simp add: promotable_def Let_def)
      show ?thesis using present_shape [OF st, of now db, folded at] False q pr by blast
    qed
  qed
qed

lemma attempt_TryNext:
  assumes "promotion_attempt env lifetime now home owner db = TryNext db'"
  shows "queued_count db' < queued_count db"
proof -
  let ?scope = "normalize_server (Some home) (current_server env)"
  obtain c rest r' where c: "queued_rows db ?scope owner = c # rest" "same_request c r'"
    "req_status r' = OVERTIME_INVALIDATED" "db' = put_row db r'"
    using attempt_shape [of env lifetime now home owner db] assms by auto
  have "c \<in> set (queued_rows db ?scope owner)" by (simp add: c(1))
  then have "c \<in> set (ldb_rows db)" "req_status c = OVERTIME_QUEUED" by (auto simp: queued_rows_def)
  then show ?thesis unfolding c(4) by (rule queued_count_put) (use c in \<open>auto simp: same_request_def\<close>)
qed

function promote_next_for_owner ::
  "ot_env \<Rightarrow> int \<Rightarrow> int \<Rightarrow> string \<Rightarrow> int \<Rightarrow> ledger_db \<Rightarrow> (ot_error + offer_request option) \<times> ledger_db" where
  "promote_next_for_owner env lifetime now request_home owner db =
     (let home = normalize_server (Some request_home) (current_server env)
      in case promotion_attempt env lifetime now home owner db of
           Settled r db' \<Rightarrow> (r, db')
         | TryNext db' \<Rightarrow> promote_next_for_owner env lifetime now home owner db')"
  by pat_completeness auto

termination
  by (relation "measure (\<lambda>(env, lifetime, now, home, owner, db). queued_count db)")
    (auto dest: attempt_TryNext)

declare promote_next_for_owner.simps [simp del]

section \<open>Decisions\<close>

definition mark_presented ::
  "int \<Rightarrow> int option \<Rightarrow> ledger_db \<Rightarrow> offer_request \<Rightarrow> (ot_error + offer_request) \<times> ledger_db" where
  "mark_presented stamp message_id db row =
     (if req_status row = OVERTIME_PRESENTED then (Inr row, db)
      else
        (let stamped = row\<lparr>req_presented_at := Some stamp,
                           req_decision_deadline_at := Some (decision_deadline_at stamp),
                           req_message_id := or_keep message_id (req_message_id row)\<rparr>
         in (case apply_overtime_transition stamp stamped OVERTIME_PRESENTED (plain_decision OVERTIME_PRESENTED) of
               Inl e \<Rightarrow> (Inl e, put_row db stamped)
             | Inr row' \<Rightarrow> (Inr row', put_row db row'))))"

text \<open>The common tail of the terminal decisions: store the row and promote the next request when the
  caller passed a lifetime.\<close>

definition store_and_promote ::
  "ot_env \<Rightarrow> bool \<Rightarrow> int option \<Rightarrow> int \<Rightarrow> ledger_db \<Rightarrow> offer_request \<Rightarrow> (ot_error + offer_request) \<times> ledger_db" where
  "store_and_promote env promote_next lifetime stamp db row =
     (let db1 = put_row db row
      in (case (promote_next, req_owner_user_id row, lifetime) of
            (True, Some owner, Some minutes) \<Rightarrow>
              (if req_home_server row = [] then (Inr row, db1)
               else
                 (case promote_next_for_owner env minutes stamp (req_home_server row) owner db1 of
                    (Inl e, db2) \<Rightarrow> (Inl e, db2)
                  | (Inr _, db2) \<Rightarrow> (Inr row, db2)))
          | _ \<Rightarrow> (Inr row, db1)))"

definition cancel_by_requester ::
  "ot_env \<Rightarrow> bool \<Rightarrow> int option \<Rightarrow> int \<Rightarrow> int \<Rightarrow> ledger_db \<Rightarrow> offer_request
     \<Rightarrow> (ot_error + offer_request) \<times> ledger_db" where
  "cancel_by_requester env promote_next lifetime requester stamp db row =
     (if (case req_requester_user_id row of None \<Rightarrow> 0 | Some i \<Rightarrow> i) \<noteq> requester
      then (Inl (OvertimeError NOT_REQUESTER None), db)
      else if req_status row \<in> set TERMINAL_LIKE then (Inl (OvertimeError ALREADY_TERMINAL None), db)
      else
        (case apply_overtime_transition stamp row OVERTIME_CANCELLED_BY_REQUESTER
                ((plain_decision OVERTIME_CANCELLED_BY_REQUESTER)
                   \<lparr>rd_decided_at := Some stamp, rd_terminal_reason := Some ''requester_cancelled''\<rparr>) of
           Inl e \<Rightarrow> (Inl e, db)
         | Inr row' \<Rightarrow> store_and_promote env promote_next lifetime stamp db row'))"

definition ensure_owner_may_decide :: "offer_request \<Rightarrow> int \<Rightarrow> int \<Rightarrow> ot_error option" where
  "ensure_owner_may_decide row decided_by stamp =
     (if req_status row \<in> set TERMINAL_LIKE then Some (OvertimeError ALREADY_TERMINAL None)
      else if req_status row \<noteq> OVERTIME_PRESENTED then Some (OvertimeError ILLEGAL_TRANSITION None)
      else if req_owner_user_id row \<noteq> Some decided_by then Some (OvertimeError NOT_OWNER None)
      else if req_decision_deadline_at row = None \<or>
        remaining_seconds_until (req_decision_deadline_at row) stamp \<le> 0
      then Some (OvertimeError DECISION_EXPIRED None)
      else None)"

definition reject_by_owner ::
  "ot_env \<Rightarrow> bool \<Rightarrow> int option \<Rightarrow> int \<Rightarrow> int \<Rightarrow> ledger_db \<Rightarrow> offer_request
     \<Rightarrow> (ot_error + offer_request) \<times> ledger_db" where
  "reject_by_owner env promote_next lifetime decided_by stamp db row =
     (case ensure_owner_may_decide row decided_by stamp of
        Some e \<Rightarrow> (Inl e, db)
      | None \<Rightarrow>
          (case apply_overtime_transition stamp row OVERTIME_REJECTED_BY_OWNER
                  ((plain_decision OVERTIME_REJECTED_BY_OWNER)
                     \<lparr>rd_decided_at := Some stamp, rd_decided_by_user_id := Some decided_by,
                      rd_terminal_reason := Some ''owner_rejected''\<rparr>) of
             Inl e \<Rightarrow> (Inl e, db)
           | Inr row' \<Rightarrow> store_and_promote env promote_next lifetime stamp db row'))"

definition expire_decision ::
  "ot_env \<Rightarrow> bool \<Rightarrow> int option \<Rightarrow> int \<Rightarrow> ledger_db \<Rightarrow> offer_request
     \<Rightarrow> (ot_error + offer_request) \<times> ledger_db" where
  "expire_decision env promote_next lifetime stamp db row =
     (if req_status row \<in> set TERMINAL_LIKE then (Inl (OvertimeError ALREADY_TERMINAL None), db)
      else if req_status row \<noteq> OVERTIME_PRESENTED then (Inl (OvertimeError ILLEGAL_TRANSITION None), db)
      else if req_decision_deadline_at row \<noteq> None \<and>
        remaining_seconds_until (req_decision_deadline_at row) stamp > 0
      then (Inl (OvertimeError ILLEGAL_TRANSITION None), db)
      else
        (case apply_overtime_transition stamp row OVERTIME_DECISION_EXPIRED
                ((plain_decision OVERTIME_DECISION_EXPIRED)
                   \<lparr>rd_decided_at := Some stamp, rd_terminal_reason := Some ''decision_timeout''\<rparr>) of
           Inl e \<Rightarrow> (Inl e, db)
         | Inr row' \<Rightarrow> store_and_promote env promote_next lifetime stamp db row'))"

definition claim_owner_approval :: "offer_request \<Rightarrow> int \<Rightarrow> int \<Rightarrow> ot_error + offer_request" where
  "claim_owner_approval row decided_by stamp =
     (case ensure_owner_may_decide row decided_by stamp of Some e \<Rightarrow> Inl e | None \<Rightarrow> Inr row)"

definition record_completed_trade ::
  "int \<Rightarrow> int \<Rightarrow> int \<Rightarrow> ledger_db \<Rightarrow> offer_request \<Rightarrow> (ot_error + offer_request) \<times> ledger_db" where
  "record_completed_trade trade_id decided_by stamp db row =
     (case apply_overtime_transition stamp row COMPLETED_TRADE
             ((plain_decision COMPLETED_TRADE)
                \<lparr>rd_decided_at := Some stamp, rd_decided_by_user_id := Some decided_by,
                 rd_terminal_reason := Some ''completed_trade'', rd_resulting_trade_id := Some trade_id\<rparr>) of
        Inl e \<Rightarrow> (Inl e, db)
      | Inr row' \<Rightarrow> (Inr row', put_row db row'))"

definition invalidate_request ::
  "string \<Rightarrow> int \<Rightarrow> ledger_db \<Rightarrow> offer_request \<Rightarrow> (ot_error + offer_request) \<times> ledger_db" where
  "invalidate_request reason now db row =
     (case invalidated_row now reason row of
        Inl e \<Rightarrow> (Inl e, db)
      | Inr row' \<Rightarrow> (Inr row', put_row db row'))"

section \<open>Creation\<close>

record create_command =
  cc_offer :: ot_offer
  cc_requester_user_id :: int
  cc_actor_user_id :: int
  cc_quantity :: int
  cc_idempotency_key :: "string option"
  cc_source_surface :: surface_arg
  cc_source_server :: "string option"
  cc_receipt_at :: int
  cc_lifetime :: int
  cc_home_server :: "string option"
  cc_customer :: customer_snapshot

definition command_home :: "ot_env \<Rightarrow> create_command \<Rightarrow> string" where
  "command_home env c =
     normalize_server
       (case cc_home_server c of Some (x # xs) \<Rightarrow> Some (x # xs) | _ \<Rightarrow> oo_home_server (cc_offer c))
       (current_server env)"

definition overtime_row ::
  "ot_env \<Rightarrow> string \<Rightarrow> ledger_db \<Rightarrow> create_command \<Rightarrow> string \<Rightarrow> string \<Rightarrow> source_surface \<Rightarrow> offer_request" where
  "overtime_row env pid db c public_id key surface =
     (let home = command_home env c; owner = oo_user_id (cc_offer c)
      in \<lparr>req_id = ldb_next_id db, req_public_id = pid, req_home_server = home,
          req_local_offer_id = oo_id (cc_offer c), req_offer_public_id = public_id,
          req_requester_user_id = Some (cc_requester_user_id c), req_actor_user_id = Some (cc_actor_user_id c),
          req_source_surface = surface,
          req_source_server = normalize_server (cc_source_server c) (current_server env),
          req_quantity = cc_quantity c, req_idempotency_key = Some key, req_workflow = WF_OVERTIME,
          req_owner_user_id = Some owner, req_queue_sequence = Some (next_queue_sequence db home owner),
          req_presented_at = None, req_decision_deadline_at = None, req_decided_by_user_id = None,
          req_terminal_reason = None, req_delivery_job_id = None, req_message_id = None,
          req_received_at = cc_receipt_at c, req_decided_at = None, req_status = OVERTIME_QUEUED,
          req_public_failure_code = None, req_public_failure_message = None,
          req_internal_failure_code = None, req_internal_failure_context = None,
          req_resulting_trade_id = None, req_customer = cc_customer c\<rparr>)"

text \<open>The guards after the idempotency look-up, in the order of the code.\<close>

definition create_guards ::
  "ot_env \<Rightarrow> int \<Rightarrow> ledger_db \<Rightarrow> create_command \<Rightarrow> string \<Rightarrow> ot_error option" where
  "create_guards env now db c public_id =
     (let offer = cc_offer c; requester = cc_requester_user_id c; owner = oo_user_id offer;
          home = command_home env c;
          cooldown = cooldown_remaining_for_requester_offer db requester public_id now;
          (total_open, owner_open) = count_requester_outstanding db requester (Some owner)
      in if classify_intake_for_offer (oo_view offer) (cc_receipt_at c) (cc_lifetime c) \<noteq> APPROVAL
         then Some (OvertimeError INTAKE_REJECTED None)
         else if ov_status (oo_view offer) \<noteq> Some OFFER_ACTIVE then Some (OvertimeError OFFER_INVALID None)
         else if requester = owner then Some (OvertimeError OFFER_INVALID None)
         else
           (case get_active_request_for_offer env db home public_id of
              Inl e \<Rightarrow> Some (OvertimeDb e)
            | Inr (Some active) \<Rightarrow>
                (let remaining = remaining_seconds_until (req_decision_deadline_at active) now
                 in Some (OvertimeError SAME_OFFER_BUSY
                      (Some (if remaining \<le> 0 then OVERTIME_DECISION_SECONDS else remaining))))
            | Inr None \<Rightarrow>
                (if cooldown > 0 then Some (OvertimeError COOLDOWN_ACTIVE (Some cooldown))
                 else if total_open \<ge> MAX_OUTSTANDING_REQUESTS_PER_REQUESTER
                 then Some (OvertimeError REQUESTER_LIMIT None)
                 else if owner_open \<ge> 1 then Some (OvertimeError REQUESTER_OWNER_LIMIT None)
                 else None)))"

text \<open>The result is the row, whether it is a replay, and whether it was promoted.\<close>

definition create_overtime_request ::
  "ot_env \<Rightarrow> int \<Rightarrow> string \<Rightarrow> ledger_db \<Rightarrow> create_command
     \<Rightarrow> (ot_error + (offer_request \<times> bool \<times> bool)) \<times> ledger_db" where
  "create_overtime_request env now pid db c =
     (case py_strip_or_none (cc_idempotency_key c) of
        None \<Rightarrow> (Inl (OvertimeError IDEMPOTENCY_REQUIRED None), db)
      | Some key \<Rightarrow>
          (if cc_quantity c \<le> 0 then (Inl (OvertimeError OFFER_INVALID None), db)
           else
             (case py_strip_or_none (oo_public_id (cc_offer c)) of
                None \<Rightarrow> (Inl (OvertimeError OFFER_INVALID None), db)
              | Some public_id \<Rightarrow>
                  (case load_offer_request_by_idempotency (current_server env) db (command_home env c)
                          (Some key) of
                     Inl e \<Rightarrow> (Inl (OvertimeDb e), db)
                   | Inr (Some existing) \<Rightarrow> (Inr (existing, True, False), db)
                   | Inr None \<Rightarrow>
                       (case create_guards env now db c public_id of
                          Some e \<Rightarrow> (Inl e, db)
                        | None \<Rightarrow>
                            (case normalize_offer_request_source_surface (cc_source_surface c) of
                               Inl e \<Rightarrow> (Inl (OvertimeLedger e), db)
                             | Inr surface \<Rightarrow>
                                 (let row = overtime_row env pid db c public_id key surface;
                                      db1 = add_row db row
                                  in (case promote_next_for_owner env (cc_lifetime c) now (command_home env c)
                                             (oo_user_id (cc_offer c)) db1 of
                                        (Inl e, db2) \<Rightarrow> (Inl e, db2)
                                      | (Inr promoted, db2) \<Rightarrow>
                                          (Inr (case find_row db2 (req_id row) of None \<Rightarrow> row | Some r \<Rightarrow> r,
                                                False, map_option req_id promoted = Some (req_id row)),
                                           db2)))))))))"

section \<open>Bulk invalidation\<close>

record request_filter =
  fl_local_offer_id :: "int option"
  fl_offer_public_id :: "string option"
  fl_owner_user_id :: "int option"
  fl_requester_user_id :: "int option"
  fl_home_server :: "string option"
  fl_source_server :: "string option"

definition matches_opt :: "'a option \<Rightarrow> 'a option \<Rightarrow> bool" where
  "matches_opt wanted value \<longleftrightarrow> (case wanted of None \<Rightarrow> True | Some w \<Rightarrow> value = Some w)"

definition list_nonterminal_overtime_requests ::
  "ot_env \<Rightarrow> ledger_db \<Rightarrow> request_filter \<Rightarrow> ot_error + offer_request list" where
  "list_nonterminal_overtime_requests env db fl =
     (let public_id = py_strip_or_none (fl_offer_public_id fl);
          server = (\<lambda>v. normalize_server (Some v) (current_server env))
      in if fl_local_offer_id fl = None \<and> public_id = None \<and> fl_owner_user_id fl = None \<and>
           fl_requester_user_id fl = None
         then Inl FilterRequired
         else Inr (sort_key req_id (filter
                (\<lambda>r. req_workflow r = WF_OVERTIME \<and> request_live r \<and>
                     matches_opt (fl_local_offer_id fl) (req_local_offer_id r) \<and>
                     matches_opt public_id (Some (req_offer_public_id r)) \<and>
                     matches_opt (fl_owner_user_id fl) (req_owner_user_id r) \<and>
                     matches_opt (fl_requester_user_id fl) (req_requester_user_id r) \<and>
                     matches_opt (map_option server (fl_home_server fl)) (Some (req_home_server r)) \<and>
                     matches_opt (map_option server (fl_source_server fl)) (Some (req_source_server r)))
                (ldb_rows db))))"

fun invalidate_rows ::
  "string \<Rightarrow> int \<Rightarrow> ledger_db \<Rightarrow> offer_request list \<Rightarrow> (ot_error + offer_request list) \<times> ledger_db" where
  "invalidate_rows reason now db [] = (Inr [], db)"
| "invalidate_rows reason now db (row # rest) =
     (case invalidate_request reason now db row of
        (Inl e, db1) \<Rightarrow> (Inl e, db1)
      | (Inr row', db1) \<Rightarrow>
          (case invalidate_rows reason now db1 rest of
             (Inl e, db2) \<Rightarrow> (Inl e, db2)
           | (Inr out, db2) \<Rightarrow>
               (Inr (if req_status row \<noteq> req_status row' \<and> req_status row' = OVERTIME_INVALIDATED
                     then row' # out else out), db2)))"

definition seat_scopes :: "ot_env \<Rightarrow> offer_request list \<Rightarrow> (int \<times> string) list" where
  "seat_scopes env rows =
     sort (remdups (List.map_filter
       (\<lambda>r. case req_owner_user_id r of
               None \<Rightarrow> None
             | Some owner \<Rightarrow>
                 (if req_home_server r = [] then None
                  else Some (owner, normalize_server (Some (req_home_server r)) (current_server env)))) rows))"

fun promote_scopes ::
  "ot_env \<Rightarrow> int \<Rightarrow> int \<Rightarrow> (int \<times> string) list \<Rightarrow> ledger_db \<Rightarrow> ot_error option \<times> ledger_db" where
  "promote_scopes env lifetime now [] db = (None, db)"
| "promote_scopes env lifetime now ((owner, home) # rest) db =
     (case promote_next_for_owner env lifetime now home owner db of
        (Inl e, db1) \<Rightarrow> (Some e, db1)
      | (Inr _, db1) \<Rightarrow> promote_scopes env lifetime now rest db1)"

definition invalidate_overtime_requests ::
  "ot_env \<Rightarrow> string \<Rightarrow> request_filter \<Rightarrow> bool \<Rightarrow> int option \<Rightarrow> int \<Rightarrow> ledger_db
     \<Rightarrow> (ot_error + offer_request list) \<times> ledger_db" where
  "invalidate_overtime_requests env reason fl promote_next lifetime stamp db =
     (case list_nonterminal_overtime_requests env db fl of
        Inl e \<Rightarrow> (Inl e, db)
      | Inr rows \<Rightarrow>
          (case invalidate_rows reason stamp db rows of
             (Inl e, db1) \<Rightarrow> (Inl e, db1)
           | (Inr out, db1) \<Rightarrow>
               (case (promote_next, lifetime) of
                  (True, Some minutes) \<Rightarrow>
                    (case promote_scopes env minutes stamp (seat_scopes env out) db1 of
                       (Some e, db2) \<Rightarrow> (Inl e, db2)
                     | (None, db2) \<Rightarrow> (Inr out, db2))
                | _ \<Rightarrow> (Inr out, db1))))"

definition no_filter :: request_filter where
  "no_filter = \<lparr>fl_local_offer_id = None, fl_offer_public_id = None, fl_owner_user_id = None,
                fl_requester_user_id = None, fl_home_server = None, fl_source_server = None\<rparr>"

definition invalidate_overtime_requests_for_offer ::
  "ot_env \<Rightarrow> ot_offer \<Rightarrow> string \<Rightarrow> bool \<Rightarrow> int option \<Rightarrow> int \<Rightarrow> ledger_db
     \<Rightarrow> (ot_error + offer_request list) \<times> ledger_db" where
  "invalidate_overtime_requests_for_offer env offer reason promote_next lifetime stamp db =
     invalidate_overtime_requests env reason
       (no_filter\<lparr>fl_local_offer_id := oo_id offer, fl_offer_public_id := py_strip_or_none (oo_public_id offer),
                  fl_home_server := Some (normalize_server (oo_home_server offer) (current_server env))\<rparr>)
       promote_next lifetime stamp db"

fun merge_by_id :: "int list \<Rightarrow> offer_request list \<Rightarrow> offer_request list" where
  "merge_by_id seen [] = []"
| "merge_by_id seen (r # rs) =
     (if req_id r \<noteq> 0 \<and> req_id r \<in> set seen then merge_by_id seen rs
      else r # merge_by_id (if req_id r \<noteq> 0 then req_id r # seen else seen) rs)"

definition invalidate_overtime_requests_for_user ::
  "ot_env \<Rightarrow> int \<Rightarrow> string \<Rightarrow> string option \<Rightarrow> bool \<Rightarrow> int option \<Rightarrow> int \<Rightarrow> ledger_db
     \<Rightarrow> (ot_error + offer_request list) \<times> ledger_db" where
  "invalidate_overtime_requests_for_user env user reason request_home promote_next lifetime stamp db =
     (let home = normalize_server request_home (current_server env)
      in (case invalidate_overtime_requests env reason
                 (no_filter\<lparr>fl_owner_user_id := Some user, fl_home_server := Some home\<rparr>) False None stamp db of
            (Inl e, db1) \<Rightarrow> (Inl e, db1)
          | (Inr as_owner, db1) \<Rightarrow>
              (case invalidate_overtime_requests env reason
                      (no_filter\<lparr>fl_requester_user_id := Some user, fl_home_server := Some home\<rparr>) False None
                      stamp db1 of
                 (Inl e, db2) \<Rightarrow> (Inl e, db2)
               | (Inr as_requester, db2) \<Rightarrow>
                   (let merged = merge_by_id [] (as_owner @ as_requester)
                    in (case (promote_next, lifetime) of
                          (True, Some minutes) \<Rightarrow>
                            (case promote_scopes env minutes stamp (seat_scopes env merged) db2 of
                               (Some e, db3) \<Rightarrow> (Inl e, db3)
                             | (None, db3) \<Rightarrow> (Inr merged, db3))
                        | _ \<Rightarrow> (Inr merged, db2))))))"

end
