(* ===== verification/OvertimeSweeps.thy ===== *)
theory OvertimeSweeps
  imports OvertimeRequests
begin

text \<open>
  What acts on overtime requests from outside the request handlers: the feedback of the Telegram delivery
  queue (\<open>core/services/telegram_overtime_owner_approval_queue_feedback.py\<close>), and the sweepers of \<open>core/services/offer_overtime_reconciliation_service.py\<close> that the
  offer-expiry job runs.  The verdict of the job contract check and the request id it reads from the
  job's payload are arguments.
\<close>

section \<open>Delivery feedback\<close>

definition invalidate_and_promote ::
  "ot_env \<Rightarrow> int \<Rightarrow> string \<Rightarrow> int \<Rightarrow> ledger_db \<Rightarrow> offer_request \<Rightarrow> ot_error option \<times> ledger_db" where
  "invalidate_and_promote env lifetime reason now db row =
     (if req_status row \<noteq> OVERTIME_DELIVERING then (None, db)
      else
        (case invalidate_request reason now db row of
           (Inl e, db1) \<Rightarrow> (Some e, db1)
         | (Inr _, db1) \<Rightarrow>
             (case req_owner_user_id row of
                None \<Rightarrow> (None, db1)
              | Some owner \<Rightarrow>
                  (if req_home_server row = [] then (None, db1)
                   else
                     (case promote_next_for_owner env lifetime now (req_home_server row) owner db1 of
                        (Inl e, db2) \<Rightarrow> (Some e, db2)
                      | (Inr _, db2) \<Rightarrow> (None, db2))))))"

definition apply_freshness ::
  "ot_env \<Rightarrow> int \<Rightarrow> freshness_outcome \<Rightarrow> string option \<Rightarrow> string option \<Rightarrow> string option \<Rightarrow> int \<Rightarrow> ledger_db
     \<Rightarrow> ot_error option \<times> ledger_db" where
  "apply_freshness env lifetime outcome reason contract_error public_id now db =
     (if outcome = FRESH_QUARANTINED then (None, db)
      else if outcome \<noteq> FRESH_EXPIRED_INTERACTION
      then (Some (FeedbackRejected ''overtime_owner_approval_freshness_outcome_invalid''), db)
      else
        (case contract_error of
           Some e \<Rightarrow> (Some (FeedbackRejected e), db)
         | None \<Rightarrow>
             (case public_id of
                None \<Rightarrow> (None, db)
              | Some pid \<Rightarrow>
                  (case load_overtime_request_by_public_id db pid of
                     Inl e \<Rightarrow> (Some (OvertimeDb e), db)
                   | Inr None \<Rightarrow> (None, db)
                   | Inr (Some row) \<Rightarrow>
                       invalidate_and_promote env lifetime
                         (case reason of
                            Some (c # cs) \<Rightarrow> c # cs
                          | _ \<Rightarrow> ''overtime_owner_approval_delivery_expired'') now db row))))"

definition positive_message_id :: "int option \<Rightarrow> int option" where
  "positive_message_id v = (case v of Some i \<Rightarrow> if i > 0 then Some i else None | None \<Rightarrow> None)"

definition apply_delivery_result ::
  "delivery_outcome \<Rightarrow> string option \<Rightarrow> string option \<Rightarrow> int option \<Rightarrow> int \<Rightarrow> ledger_db
     \<Rightarrow> ot_error option \<times> ledger_db" where
  "apply_delivery_result outcome contract_error public_id raw_message_id now db =
     (case contract_error of
        Some e \<Rightarrow> (Some (FeedbackRejected e), db)
      | None \<Rightarrow>
          (if outcome \<noteq> OUT_SENT then (None, db)
           else
             (case (positive_message_id raw_message_id, public_id) of
                (None, _) \<Rightarrow> (Some (FeedbackRejected ''overtime_owner_approval_sent_requires_message_id''), db)
              | (Some _, None) \<Rightarrow>
                  (Some (FeedbackRejected ''overtime_owner_approval_sent_request_id_missing''), db)
              | (Some message_id, Some pid) \<Rightarrow>
                  (case load_overtime_request_by_public_id db pid of
                     Inl e \<Rightarrow> (Some (OvertimeDb e), db)
                   | Inr None \<Rightarrow> (Some (FeedbackRejected ''overtime_owner_approval_sent_request_missing''), db)
                   | Inr (Some row) \<Rightarrow>
                       (if req_status row = OVERTIME_PRESENTED then
                          (if positive_message_id (req_message_id row) \<notin> {None, Some message_id}
                           then (Some (FeedbackRejected ''overtime_owner_approval_message_id_conflict''), db)
                           else (None, db))
                        else if req_status row \<noteq> OVERTIME_DELIVERING
                        then (Some (FeedbackRejected ''overtime_owner_approval_sent_status_invalid''), db)
                        else
                          (case mark_presented now (Some message_id) db row of
                             (Inl e, db') \<Rightarrow> (Some e, db')
                           | (Inr _, db') \<Rightarrow> (None, db')))))))"

section \<open>Sweepers\<close>

definition OVERDUE_DELIVERING_GRACE :: int where
  "OVERDUE_DELIVERING_GRACE = 120 * us_per_second"

definition is_current_home_request :: "ot_env \<Rightarrow> offer_request \<Rightarrow> bool" where
  "is_current_home_request env r \<longleftrightarrow>
     (let home = normalize_server (Some (req_home_server r)) [] in home \<noteq> [] \<and> home = current_server env)"

definition sweep_lifetime :: "int \<Rightarrow> int option" where
  "sweep_lifetime lifetime = (if lifetime > 0 then Some lifetime else None)"

text \<open>The loop of the decision sweeper: an overtime error of one row is skipped, any other error leaves
  the loop.\<close>

fun expire_rows :: "ot_env \<Rightarrow> int \<Rightarrow> int \<Rightarrow> ledger_db \<Rightarrow> int list \<Rightarrow> (ot_error + nat) \<times> ledger_db" where
  "expire_rows env lifetime now db [] = (Inr 0, db)"
| "expire_rows env lifetime now db (i # is) =
     (case find_row db i of
        None \<Rightarrow> expire_rows env lifetime now db is
      | Some row \<Rightarrow>
          (case expire_decision env True (sweep_lifetime lifetime) now db row of
             (Inr _, db1) \<Rightarrow>
               (case expire_rows env lifetime now db1 is of
                  (Inr n, db2) \<Rightarrow> (Inr (Suc n), db2)
                | (Inl e, db2) \<Rightarrow> (Inl e, db2))
           | (Inl (OvertimeError code left), db1) \<Rightarrow> expire_rows env lifetime now db1 is
           | (Inl e, db1) \<Rightarrow> (Inl e, db1)))"

definition overdue_decisions :: "ot_env \<Rightarrow> int \<Rightarrow> int \<Rightarrow> ledger_db \<Rightarrow> offer_request list" where
  "overdue_decisions env limit now db =
     filter (\<lambda>r. is_current_home_request env r \<and>
                 (case req_decision_deadline_at r of None \<Rightarrow> True | Some d \<Rightarrow> d \<le> now))
       (take (nat (max 1 limit))
          (sort_key (\<lambda>r. case req_decision_deadline_at r of None \<Rightarrow> 0 | Some d \<Rightarrow> d)
             (filter (\<lambda>r. req_workflow r = WF_OVERTIME \<and> req_home_server r = current_server env \<and>
                          req_status r = OVERTIME_PRESENTED \<and> req_decision_deadline_at r \<noteq> None) (ldb_rows db))))"

definition expire_overdue_presented_decisions ::
  "ot_env \<Rightarrow> int \<Rightarrow> int \<Rightarrow> int \<Rightarrow> ledger_db \<Rightarrow> (ot_error + nat) \<times> ledger_db" where
  "expire_overdue_presented_decisions env lifetime limit now db =
     expire_rows env lifetime now db (map req_id (overdue_decisions env limit now db))"

definition overdue_deliveries :: "ot_env \<Rightarrow> int \<Rightarrow> int \<Rightarrow> ledger_db \<Rightarrow> offer_request list" where
  "overdue_deliveries env limit now db =
     filter (\<lambda>r. is_current_home_request env r \<and> now \<ge> req_received_at r + OVERDUE_DELIVERING_GRACE)
       (take (nat (max 1 limit))
          (sort_key req_id
             (filter (\<lambda>r. req_workflow r = WF_OVERTIME \<and> req_home_server r = current_server env \<and>
                          req_status r = OVERTIME_DELIVERING \<and> req_message_id r = None) (ldb_rows db))))"

fun release_rows :: "int \<Rightarrow> ledger_db \<Rightarrow> int list \<Rightarrow> (ot_error + nat) \<times> ledger_db" where
  "release_rows now db [] = (Inr 0, db)"
| "release_rows now db (i # is) =
     (case find_row db i of
        None \<Rightarrow> release_rows now db is
      | Some row \<Rightarrow>
          (case invalidate_request ''overtime_delivery_reconcile_timeout'' now db row of
             (Inr _, db1) \<Rightarrow>
               (case release_rows now db1 is of
                  (Inr n, db2) \<Rightarrow> (Inr (Suc n), db2)
                | (Inl e, db2) \<Rightarrow> (Inl e, db2))
           | (Inl (OvertimeError code left), db1) \<Rightarrow> release_rows now db1 is
           | (Inl e, db1) \<Rightarrow> (Inl e, db1)))"

definition expire_overdue_delivering_requests ::
  "ot_env \<Rightarrow> int \<Rightarrow> int \<Rightarrow> ledger_db \<Rightarrow> (ot_error + nat) \<times> ledger_db" where
  "expire_overdue_delivering_requests env limit now db =
     release_rows now db (map req_id (overdue_deliveries env limit now db))"

section \<open>Overtime requests in the trade handler\<close>

text \<open>The step relation of the ledger: every operation on the row it loads, with the arguments its callers
  may pass.  Direct requests enter through \<open>create_offer_request_ledger_entry\<close> and are settled through
  \<open>_finalize_offer_request_ledger\<close> with the statuses of the direct workflow.\<close>

inductive ledger_step :: "ot_env \<Rightarrow> ledger_db \<Rightarrow> ledger_db \<Rightarrow> bool" for env :: ot_env where
  step_direct: "create_offer_request_ledger_entry (current_server env) now pid db c = (r, db') \<Longrightarrow>
    (\<forall>s. normalize_offer_request_status (lc_status c) = Inr s \<longrightarrow> s \<notin> set OVERTIME_NONTERMINAL_STATUSES) \<Longrightarrow>
    ledger_step env db db'"
| step_finalize: "find_row db i = Some row \<Longrightarrow> req_status row \<in> {RECEIVED, AUTHORIZED} \<Longrightarrow>
    apply_offer_request_decision now row d = Inr row' \<Longrightarrow>
    req_status row' \<notin> set OVERTIME_NONTERMINAL_STATUSES \<Longrightarrow> ledger_step env db (put_row db row')"
| step_create: "create_overtime_request env now pid db c = (r, db') \<Longrightarrow> ledger_step env db db'"
| step_cancel: "find_row db i = Some row \<Longrightarrow>
    cancel_by_requester env p lifetime requester now db row = (r, db') \<Longrightarrow> ledger_step env db db'"
| step_reject: "find_row db i = Some row \<Longrightarrow>
    reject_by_owner env p lifetime owner now db row = (r, db') \<Longrightarrow> ledger_step env db db'"
| step_expire: "find_row db i = Some row \<Longrightarrow>
    expire_decision env p lifetime now db row = (r, db') \<Longrightarrow> ledger_step env db db'"
| step_complete: "find_row db i = Some row \<Longrightarrow> claim_owner_approval row owner now = Inr row \<Longrightarrow>
    record_completed_trade trade owner now db row = (r, db') \<Longrightarrow> ledger_step env db db'"
| step_invalidate: "invalidate_overtime_requests env reason fl p lifetime now db = (r, db') \<Longrightarrow>
    ledger_step env db db'"
| step_invalidate_user: "invalidate_overtime_requests_for_user env user reason home p lifetime now db = (r, db') \<Longrightarrow>
    ledger_step env db db'"
| step_freshness: "apply_freshness env lifetime fo reason contract_error pid now db = (e, db') \<Longrightarrow>
    ledger_step env db db'"
| step_delivered: "apply_delivery_result out contract_error pid mid now db = (e, db') \<Longrightarrow> ledger_step env db db'"
| step_sweep_decisions: "expire_overdue_presented_decisions env lifetime n now db = (r, db') \<Longrightarrow>
    ledger_step env db db'"
| step_sweep_deliveries: "expire_overdue_delivering_requests env n now db = (r, db') \<Longrightarrow> ledger_step env db db'"

end
