(* ===== verification/OvertimeWorkflow.thy ===== *)
theory OvertimeWorkflow
  imports OvertimeSweeps
begin

text \<open>
  Correctness of the overtime workflow.  Every operation is a sequence of two primitive changes of the
  ledger: a row moves along the status table, or an admitted row is appended.  The invariant is proved for
  the primitive changes and reaches the operations through that decomposition.
\<close>

section \<open>Primitive changes of the ledger\<close>

definition status_step :: "request_status \<Rightarrow> request_status \<Rightarrow> bool" where
  "status_step a b \<longleftrightarrow> b = a \<or> b \<in> set (LEGAL_OVERTIME_TRANSITIONS a) \<or>
     a \<in> {RECEIVED, AUTHORIZED} \<and> b \<notin> set OVERTIME_NONTERMINAL_STATUSES"

lemma status_step_refl [simp]: "status_step a a"
  by (simp add: status_step_def)

definition final_status :: "request_status \<Rightarrow> bool" where
  "final_status s \<longleftrightarrow> s \<in> set TERMINAL_OFFER_REQUEST_STATUSES"

interpretation request: status_machine status_step final_status
proof
  show "b = a" if "final_status a" "status_step a b" for a b
    using that by (cases a) (auto simp: final_status_def status_step_def status_sets)
qed

definition deadline_set :: "offer_request \<Rightarrow> bool" where
  "deadline_set r \<longleftrightarrow> (req_status r = OVERTIME_PRESENTED \<longrightarrow>
     (\<exists>t. req_presented_at r = Some t \<and> req_decision_deadline_at r = Some (decision_deadline_at t)))"

definition row_evolves :: "offer_request \<Rightarrow> offer_request \<Rightarrow> bool" where
  "row_evolves r r' \<longleftrightarrow> same_request r r' \<and> status_step (req_status r) (req_status r') \<and>
     (deadline_set r \<longrightarrow> deadline_set r')"

definition same_scope :: "offer_request \<Rightarrow> offer_request \<Rightarrow> bool" where
  "same_scope x y \<longleftrightarrow> req_home_server x = req_home_server y \<and> req_owner_user_id x = req_owner_user_id y"

definition admitted :: "ledger_db \<Rightarrow> offer_request \<Rightarrow> bool" where
  "admitted db row \<longleftrightarrow> req_status row = OVERTIME_QUEUED \<and> req_workflow row = WF_OVERTIME \<and>
     (\<exists>u ow. req_requester_user_id row = Some u \<and> req_owner_user_id row = Some ow \<and> u \<noteq> ow \<and>
        length (outstanding db u) < MAX_OUTSTANDING_REQUESTS_PER_REQUESTER \<and>
        (\<forall>x \<in> set (outstanding db u). req_owner_user_id x \<noteq> Some ow)) \<and>
     (\<forall>x \<in> set (ldb_rows db). request_live x \<longrightarrow> req_home_server x = req_home_server row \<longrightarrow>
        req_offer_public_id x \<noteq> req_offer_public_id row)"

definition fresh_key :: "ledger_db \<Rightarrow> offer_request \<Rightarrow> bool" where
  "fresh_key db row \<longleftrightarrow> (\<forall>k. req_idempotency_key row = Some k \<longrightarrow>
     (\<forall>x \<in> set (ldb_rows db). req_home_server x = req_home_server row \<longrightarrow> req_idempotency_key x \<noteq> Some k))"

inductive row_step :: "ledger_db \<Rightarrow> ledger_db \<Rightarrow> bool" where
  row_update: "r \<in> set (ldb_rows db) \<Longrightarrow> row_evolves r r' \<Longrightarrow>
    (request_occupying r' \<Longrightarrow> request_occupying r \<or>
       (\<forall>x \<in> set (ldb_rows db). same_scope x r \<longrightarrow> \<not> request_occupying x)) \<Longrightarrow>
    row_step db (put_row db r')"
| row_insert: "req_id row = ldb_next_id db \<Longrightarrow> fresh_key db row \<Longrightarrow>
    (request_live row \<Longrightarrow> admitted db row) \<Longrightarrow> row_step db (add_row db row)"

section \<open>The ledger invariant\<close>

text \<open>\<open>unique_on P eq xs\<close>: among the elements of \<open>xs\<close> that satisfy \<open>P\<close>, no two are related.\<close>

definition unique_on :: "(offer_request \<Rightarrow> bool) \<Rightarrow> (offer_request \<Rightarrow> offer_request \<Rightarrow> bool) \<Rightarrow> offer_request list \<Rightarrow> bool" where
  "unique_on P eq xs \<longleftrightarrow> (\<forall>x \<in> set xs. \<forall>y \<in> set xs. P x \<longrightarrow> P y \<longrightarrow> eq x y \<longrightarrow> x = y)"

definition same_offer :: "offer_request \<Rightarrow> offer_request \<Rightarrow> bool" where
  "same_offer x y \<longleftrightarrow> req_home_server x = req_home_server y \<and> req_offer_public_id x = req_offer_public_id y"

definition same_parties :: "offer_request \<Rightarrow> offer_request \<Rightarrow> bool" where
  "same_parties x y \<longleftrightarrow> req_requester_user_id x = req_requester_user_id y \<and>
     req_owner_user_id x = req_owner_user_id y"

definition same_key :: "offer_request \<Rightarrow> offer_request \<Rightarrow> bool" where
  "same_key x y \<longleftrightarrow> req_home_server x = req_home_server y \<and> req_idempotency_key x = req_idempotency_key y"

definition live_wf :: "offer_request \<Rightarrow> bool" where
  "live_wf r \<longleftrightarrow> (request_live r \<longrightarrow> req_workflow r = WF_OVERTIME \<and>
     (\<exists>u ow. req_requester_user_id r = Some u \<and> req_owner_user_id r = Some ow \<and> u \<noteq> ow))"

definition ledger_ok :: "ledger_db \<Rightarrow> bool" where
  "ledger_ok db \<longleftrightarrow>
     distinct (map req_id (ldb_rows db)) \<and> (\<forall>r \<in> set (ldb_rows db). req_id r < ldb_next_id db) \<and>
     unique_on request_live same_offer (ldb_rows db) \<and>
     unique_on request_occupying same_scope (ldb_rows db) \<and>
     unique_on request_live same_parties (ldb_rows db) \<and>
     unique_on (\<lambda>r. req_idempotency_key r \<noteq> None) same_key (ldb_rows db) \<and>
     (\<forall>u. length (outstanding db u) \<le> MAX_OUTSTANDING_REQUESTS_PER_REQUESTER) \<and>
     (\<forall>r \<in> set (ldb_rows db). deadline_set r \<and> live_wf r)"

lemma live_back: "status_step a b \<Longrightarrow> b \<in> set OVERTIME_NONTERMINAL_STATUSES \<Longrightarrow> a \<in> set OVERTIME_NONTERMINAL_STATUSES"
  by (auto simp: status_step_def legal_from_live)

lemma evolves_live: "row_evolves r r' \<Longrightarrow> request_live r' \<Longrightarrow> request_live r"
  using live_back by (auto simp: row_evolves_def request_live_def)

lemma occupying_live: "request_occupying r \<Longrightarrow> request_live r"
  by (auto simp: request_occupying_def request_live_def status_sets)

lemma replace_filter_length:
  assumes "\<forall>x \<in> set xs. g x = g y \<longrightarrow> P y \<longrightarrow> P x"
  shows "length (filter P (map (\<lambda>x. if g x = g y then y else x) xs)) \<le> length (filter P xs)"
  using assms by (induction xs) auto

lemma unique_on_put:
  assumes "unique_on P eq (ldb_rows db)" and "r \<in> set (ldb_rows db)" and "req_id r' = req_id r"
    and dist: "distinct (map req_id (ldb_rows db))"
    and "\<And>x. eq x r' \<Longrightarrow> eq x r" and "\<And>x. eq r' x \<Longrightarrow> eq r x"
    and "P r' \<Longrightarrow> P r \<or> (\<forall>x \<in> set (ldb_rows db). P x \<longrightarrow> \<not> eq x r \<and> \<not> eq r x)"
  shows "unique_on P eq (ldb_rows (put_row db r'))"
proof -
  have s: "set (ldb_rows (put_row db r')) = insert r' {x \<in> set (ldb_rows db). req_id x \<noteq> req_id r'}"
    by (rule put_row_set) (use assms(2,3) in auto)
  have ne: "x \<noteq> r" if "x \<in> {x \<in> set (ldb_rows db). req_id x \<noteq> req_id r'}" for x
    using that assms(3) by auto
  show ?thesis unfolding unique_on_def s
    using assms(1,2,5,6,7) ne unfolding unique_on_def by blast
qed

lemma outstanding_put:
  assumes "r \<in> set (ldb_rows db)" and "row_evolves r r'" and "distinct (map req_id (ldb_rows db))"
  shows "length (outstanding (put_row db r') u) \<le> length (outstanding db u)"
proof -
  have i: "req_id r' = req_id r" using assms(2) by (simp add: row_evolves_def same_request_def)
  have "x = r" if "x \<in> set (ldb_rows db)" "req_id x = req_id r'" for x
    using that assms(1,3) i by (auto simp: distinct_map inj_on_def)
  then have "\<forall>x \<in> set (ldb_rows db). req_id x = req_id r' \<longrightarrow>
      (req_requester_user_id r' = Some u \<and> request_live r') \<longrightarrow> (req_requester_user_id x = Some u \<and> request_live x)"
    using evolves_live [OF assms(2)] assms(2) by (auto simp: row_evolves_def same_request_def)
  then show ?thesis unfolding outstanding_def put_row_def
    using replace_filter_length [of "ldb_rows db" req_id r' "\<lambda>r. req_requester_user_id r = Some u \<and> request_live r"]
    by simp
qed

lemma ledger_ok_update:
  assumes ok: "ledger_ok db" and r: "r \<in> set (ldb_rows db)" and ev: "row_evolves r r'"
    and occ: "request_occupying r' \<Longrightarrow> request_occupying r \<or>
       (\<forall>x \<in> set (ldb_rows db). same_scope x r \<longrightarrow> \<not> request_occupying x)"
  shows "ledger_ok (put_row db r')"
proof -
  have dist: "distinct (map req_id (ldb_rows db))" using ok by (simp add: ledger_ok_def)
  have same: "same_request r r'" using ev by (simp add: row_evolves_def)
  then have i: "req_id r' = req_id r" by (simp add: same_request_def)
  have s: "set (ldb_rows (put_row db r')) = insert r' {x \<in> set (ldb_rows db). req_id x \<noteq> req_id r'}"
    by (rule put_row_set) (use r i in auto)
  have u: "unique_on P eq (ldb_rows (put_row db r'))"
    if "unique_on P eq (ldb_rows db)" "\<And>x. eq x r' \<Longrightarrow> eq x r" "\<And>x. eq r' x \<Longrightarrow> eq r x"
      "P r' \<Longrightarrow> P r \<or> (\<forall>x \<in> set (ldb_rows db). P x \<longrightarrow> \<not> eq x r \<and> \<not> eq r x)" for P eq
    by (rule unique_on_put [OF that(1) r i dist]) (use that in blast)+
  have 1: "unique_on request_live same_offer (ldb_rows (put_row db r'))"
    by (rule u) (use ok same evolves_live [OF ev] in \<open>auto simp: ledger_ok_def same_offer_def same_request_def\<close>)
  have 2: "unique_on request_occupying same_scope (ldb_rows (put_row db r'))"
    by (rule u) (use ok same occ in \<open>auto simp: ledger_ok_def same_scope_def same_request_def\<close>)
  have 3: "unique_on request_live same_parties (ldb_rows (put_row db r'))"
    by (rule u) (use ok same evolves_live [OF ev] in \<open>auto simp: ledger_ok_def same_parties_def same_request_def\<close>)
  have 4: "unique_on (\<lambda>r. req_idempotency_key r \<noteq> None) same_key (ldb_rows (put_row db r'))"
    by (rule u) (use ok same in \<open>auto simp: ledger_ok_def same_key_def same_request_def\<close>)
  have 5: "length (outstanding (put_row db r') v) \<le> MAX_OUTSTANDING_REQUESTS_PER_REQUESTER" for v
    using outstanding_put [OF r ev dist, of v] ok unfolding ledger_ok_def by (meson order_trans)
  have "deadline_set r'" "live_wf r'"
    using ok r ev evolves_live [OF ev] unfolding ledger_ok_def row_evolves_def same_request_def live_wf_def by auto
  then have 6: "\<forall>x \<in> set (ldb_rows (put_row db r')). deadline_set x \<and> live_wf x"
    unfolding s using ok unfolding ledger_ok_def by auto
  have 7: "\<forall>x \<in> set (ldb_rows (put_row db r')). req_id x < ldb_next_id (put_row db r')"
    unfolding s using ok r i unfolding ledger_ok_def by auto
  show ?thesis unfolding ledger_ok_def put_row_ids using dist 1 2 3 4 5 6 7 by blast
qed

lemma unique_on_append:
  assumes "unique_on P eq xs" and "P y \<Longrightarrow> \<forall>x \<in> set xs. P x \<longrightarrow> \<not> eq x y \<and> \<not> eq y x"
  shows "unique_on P eq (xs @ [y])"
  using assms unfolding unique_on_def by auto

lemma outstanding_add:
  "outstanding (add_row db row) u =
   outstanding db u @ (if req_requester_user_id row = Some u \<and> request_live row then [row] else [])"
  by (simp add: outstanding_def add_row_def)

lemma ledger_ok_insert:
  assumes ok: "ledger_ok db" and i: "req_id row = ldb_next_id db" and key: "fresh_key db row"
    and adm: "request_live row \<Longrightarrow> admitted db row"
  shows "ledger_ok (add_row db row)"
proof -
  have rows: "ldb_rows (add_row db row) = ldb_rows db @ [row]" by (simp add: add_row_def)
  have fresh: "\<forall>x \<in> set (ldb_rows db). req_id x < req_id row" using ok i by (simp add: ledger_ok_def)
  have 1: "unique_on request_live same_offer (ldb_rows db @ [row])"
    by (rule unique_on_append) (use ok adm in \<open>auto simp: ledger_ok_def same_offer_def admitted_def\<close>)
  have 2: "unique_on request_occupying same_scope (ldb_rows db @ [row])"
  proof (rule unique_on_append)
    show "unique_on request_occupying same_scope (ldb_rows db)" using ok by (simp add: ledger_ok_def)
    assume "request_occupying row"
    then have "req_status row = OVERTIME_QUEUED" "req_status row \<noteq> OVERTIME_QUEUED"
      using adm [OF occupying_live] by (auto simp: admitted_def request_occupying_def status_sets)
    then show "\<forall>x \<in> set (ldb_rows db). request_occupying x \<longrightarrow> \<not> same_scope x row \<and> \<not> same_scope row x" by simp
  qed
  have 3: "unique_on request_live same_parties (ldb_rows db @ [row])"
    by (rule unique_on_append)
      (use ok adm in \<open>auto simp: ledger_ok_def same_parties_def admitted_def outstanding_def\<close>)
  have 4: "unique_on (\<lambda>r. req_idempotency_key r \<noteq> None) same_key (ldb_rows db @ [row])"
    by (rule unique_on_append) (use ok key in \<open>auto simp: ledger_ok_def same_key_def fresh_key_def\<close>)
  have 5: "length (outstanding (add_row db row) u) \<le> MAX_OUTSTANDING_REQUESTS_PER_REQUESTER" for u
    unfolding outstanding_add using ok adm by (auto simp: ledger_ok_def admitted_def)
  have 6: "deadline_set row \<and> live_wf row"
  proof (cases "request_live row")
    case True
    then show ?thesis using adm by (auto simp: admitted_def deadline_set_def live_wf_def)
  next
    case False
    then show ?thesis by (auto simp: deadline_set_def live_wf_def request_live_def status_sets)
  qed
  have 7: "distinct (map req_id (ldb_rows db @ [row]))" using ok fresh by (auto simp: ledger_ok_def)
  have 8: "\<forall>x \<in> set (ldb_rows db @ [row]). req_id x < ldb_next_id (add_row db row)"
    using ok i by (auto simp: ledger_ok_def add_row_def)
  show ?thesis unfolding ledger_ok_def rows using 1 2 3 4 5 6 7 8 ok unfolding ledger_ok_def by auto
qed

definition ledger_init :: "ledger_db \<Rightarrow> bool" where
  "ledger_init db \<longleftrightarrow> ldb_rows db = []"

lemma ledger_ok_step: "row_step db db' \<Longrightarrow> ledger_ok db \<Longrightarrow> ledger_ok db'"
  by (induction rule: row_step.induct) (use ledger_ok_update ledger_ok_insert in blast)+

lemma ledger_ok_steps: "row_step\<^sup>*\<^sup>* db db' \<Longrightarrow> ledger_ok db \<Longrightarrow> ledger_ok db'"
  by (induction rule: rtranclp_induct) (auto intro: ledger_ok_step)

text \<open>Along primitive changes every row survives with its identity and moves along the status table.\<close>

lemma row_step_row:
  assumes "row_step db db'" and "ledger_ok db" and "r \<in> set (ldb_rows db)"
  shows "\<exists>r' \<in> set (ldb_rows db'). same_request r r' \<and> status_step (req_status r) (req_status r')"
  using assms(1)
proof cases
  case (row_update x x')
  have i: "req_id x' = req_id x" using row_update(3) by (simp add: row_evolves_def same_request_def)
  have s: "set (ldb_rows db') = insert x' {y \<in> set (ldb_rows db). req_id y \<noteq> req_id x'}"
    unfolding row_update(1) by (rule put_row_set) (use row_update(2) i in auto)
  show ?thesis
  proof (cases "req_id r = req_id x'")
    case True
    then have "r = x" using assms(2,3) row_update(2) i by (auto simp: ledger_ok_def distinct_map inj_on_def)
    then show ?thesis using s row_update(3) by (auto simp: row_evolves_def)
  next
    case False
    then have "r \<in> set (ldb_rows db')" using s assms(3) by simp
    then show ?thesis by (intro bexI [of _ r]) simp_all
  qed
next
  case (row_insert row)
  then have "r \<in> set (ldb_rows db')" using assms(3) by (simp add: add_row_def)
  then show ?thesis by (intro bexI [of _ r]) simp_all
qed

lemma row_steps_row:
  assumes "row_step\<^sup>*\<^sup>* db db'" and "ledger_ok db" and "r \<in> set (ldb_rows db)"
  shows "\<exists>r' \<in> set (ldb_rows db'). same_request r r' \<and> status_step\<^sup>*\<^sup>* (req_status r) (req_status r')"
  using assms
proof (induction rule: rtranclp_induct)
  case base
  then show ?case using same_request_refl by blast
next
  case (step db1 db2)
  obtain r1 where r1: "r1 \<in> set (ldb_rows db1)" "same_request r r1" "status_step\<^sup>*\<^sup>* (req_status r) (req_status r1)"
    using step by blast
  obtain r2 where "r2 \<in> set (ldb_rows db2)" "same_request r1 r2" "status_step (req_status r1) (req_status r2)"
    using row_step_row [OF step.hyps(2) ledger_ok_steps [OF step.hyps(1) step.prems(1)] r1(1)] by blast
  then show ?case using r1 same_request_trans rtranclp.rtrancl_into_rtrancl by metis
qed

section \<open>Operations as sequences of primitive changes\<close>

lemma transition_evolves:
  assumes "apply_overtime_transition now row s d = Inr row'" and "s \<noteq> OVERTIME_PRESENTED"
  shows "row_evolves row row'"
  using transition_same [OF assms(1)] transition_status(1,2) [OF assms(1)] assms(2)
  by (auto simp: row_evolves_def status_step_def deadline_set_def)

lemma store_step:
  assumes "r \<in> set (ldb_rows db)" and "row_evolves r r'" and "request_occupying r' \<Longrightarrow> request_occupying r"
  shows "row_step\<^sup>*\<^sup>* db (put_row db r')"
  using row_update [OF assms(1,2)] assms(3) by blast

lemma terminal_store:
  assumes "r \<in> set (ldb_rows db)" and "apply_overtime_transition now r s d = Inr r'"
    and "s \<notin> set OVERTIME_NONTERMINAL_STATUSES"
  shows "row_step\<^sup>*\<^sup>* db (put_row db r')"
proof (rule store_step [OF assms(1)])
  show "row_evolves r r'" using assms(2) by (rule transition_evolves) (use assms(3) in \<open>auto simp: status_sets\<close>)
  show "request_occupying r" if "request_occupying r'"
    using occupying_live [OF that] assms(3) transition_status(1) [OF assms(2)] by (simp add: request_live_def)
qed

lemma queued_rows_scope:
  "queued_rows db home owner = c # rest \<Longrightarrow>
   c \<in> set (ldb_rows db) \<and> in_scope home owner c \<and> req_status c = OVERTIME_QUEUED"
proof -
  assume "queued_rows db home owner = c # rest"
  then have "c \<in> set (queued_rows db home owner)" by simp
  then show ?thesis by (auto simp: queued_rows_def)
qed

lemma seated_evolves:
  assumes "same_request c r'" and "req_status c = OVERTIME_QUEUED" and "seated now r'"
  shows "row_evolves c r'"
  using assms by (auto simp: row_evolves_def status_step_def seated_def deadline_set_def)

lemma promote_steps:
  "row_step\<^sup>*\<^sup>* db (snd (promote_next_for_owner env lifetime now request_home owner db))"
proof (induction env lifetime now request_home owner db rule: promote_next_for_owner.induct)
  case (1 env lifetime now request_home owner db)
  define home where "home = normalize_server (Some request_home) (current_server env)"
  have fixed: "normalize_server (Some home) (current_server env) = home" by (simp add: home_def)
  consider (none) "promotion_attempt env lifetime now home owner db = Settled (Inr None) db"
    | (retry) c rest r' where "\<not> owner_has_occupying_request db home owner" "queued_rows db home owner = c # rest"
      "same_request c r'" "req_status r' = OVERTIME_INVALIDATED"
      "promotion_attempt env lifetime now home owner db = TryNext (put_row db r')"
    | (seat) c rest r' res where "\<not> owner_has_occupying_request db home owner" "queued_rows db home owner = c # rest"
      "same_request c r'" "seated now r'"
      "promotion_attempt env lifetime now home owner db = Settled res (put_row db r')"
    using attempt_shape [of env lifetime now home owner db] unfolding fixed by blast
  then show ?case
  proof cases
    case none
    then show ?thesis by (subst promote_next_for_owner.simps) (simp add: home_def [symmetric])
  next
    case retry
    have ev: "row_evolves c r'" using retry queued_rows_scope [OF retry(2)]
      by (auto simp: row_evolves_def status_step_def deadline_set_def)
    have "row_step\<^sup>*\<^sup>* db (put_row db r')"
      by (rule store_step [OF _ ev]) (use queued_rows_scope [OF retry(2)] retry(4) in \<open>auto simp: request_occupying_def status_sets\<close>)
    moreover have "row_step\<^sup>*\<^sup>* (put_row db r') (snd (promote_next_for_owner env lifetime now home owner (put_row db r')))"
      using 1 [OF home_def retry(5)] .
    ultimately show ?thesis
      by (subst promote_next_for_owner.simps) (simp add: home_def [symmetric] retry(5))
  next
    case seat
    note c = queued_rows_scope [OF seat(2)]
    have "row_step db (put_row db r')"
    proof (rule row_update)
      show "c \<in> set (ldb_rows db)" using c by simp
      show "row_evolves c r'" using seat(3) c seat(4) seated_evolves by blast
      show "request_occupying c \<or> (\<forall>x \<in> set (ldb_rows db). same_scope x c \<longrightarrow> \<not> request_occupying x)"
        using seat(1) c by (auto simp: owner_has_occupying_request_def list_ex_iff same_scope_def in_scope_def)
    qed
    then show ?thesis
      by (subst promote_next_for_owner.simps) (simp add: home_def [symmetric] seat(5))
  qed
qed

lemma row_evolves_refl [simp]: "row_evolves r r"
  by (simp add: row_evolves_def)

lemma store_and_promote_steps:
  assumes "row_step\<^sup>*\<^sup>* db (put_row db row)"
  shows "row_step\<^sup>*\<^sup>* db (snd (store_and_promote env p lifetime now db row))"
proof -
  have "row_step\<^sup>*\<^sup>* db (snd (promote_next_for_owner env m now h ow (put_row db row)))" for m h ow
    using assms promote_steps by (rule rtranclp_trans)
  then show ?thesis using assms
    by (auto simp: store_and_promote_def Let_def split: bool.split option.split prod.split sum.split)
      (metis snd_conv)+
qed

lemma terminal_op_steps:
  assumes "r \<in> set (ldb_rows db)" and "s \<notin> set OVERTIME_NONTERMINAL_STATUSES"
  shows "row_step\<^sup>*\<^sup>* db (snd (case apply_overtime_transition now r s d of
     Inl e \<Rightarrow> (Inl e, db) | Inr row' \<Rightarrow> store_and_promote env p lifetime now db row'))"
proof (cases "apply_overtime_transition now r s d")
  case (Inr row')
  then show ?thesis using store_and_promote_steps terminal_store [OF assms(1) Inr assms(2)] by simp
qed simp

lemma cancel_steps:
  "r \<in> set (ldb_rows db) \<Longrightarrow> row_step\<^sup>*\<^sup>* db (snd (cancel_by_requester env p lifetime u now db r))"
  unfolding cancel_by_requester_def by (auto intro!: terminal_op_steps simp: status_sets)

lemma reject_steps:
  "r \<in> set (ldb_rows db) \<Longrightarrow> row_step\<^sup>*\<^sup>* db (snd (reject_by_owner env p lifetime u now db r))"
  unfolding reject_by_owner_def by (auto intro!: terminal_op_steps simp: status_sets split: option.split)

lemma expire_steps:
  "r \<in> set (ldb_rows db) \<Longrightarrow> row_step\<^sup>*\<^sup>* db (snd (expire_decision env p lifetime now db r))"
  unfolding expire_decision_def by (auto intro!: terminal_op_steps simp: status_sets)

lemma complete_steps:
  assumes "r \<in> set (ldb_rows db)"
  shows "row_step\<^sup>*\<^sup>* db (snd (record_completed_trade t u now db r))"
  unfolding record_completed_trade_def
  by (auto intro!: terminal_store [OF assms] simp: status_sets split: sum.split)

lemma invalidated_row_shape:
  assumes "invalidated_row now reason r = Inr r'"
  shows "r' = r \<or> (\<exists>d. apply_overtime_transition now r OVERTIME_INVALIDATED d = Inr r')"
proof (cases "req_status r \<in> set TERMINAL_LIKE \<or>
    req_status r \<notin> {OVERTIME_QUEUED, OVERTIME_DELIVERING, OVERTIME_PRESENTED}")
  case True
  then have "invalidated_row now reason r = Inr r" unfolding invalidated_row_def by (rule if_P)
  then show ?thesis using assms by simp
next
  case False
  then show ?thesis using invalidated_row_Inr [OF assms] by blast
qed

lemma invalidate_steps:
  assumes "r \<in> set (ldb_rows db)"
  shows "row_step\<^sup>*\<^sup>* db (snd (invalidate_request reason now db r))"
proof (cases "invalidated_row now reason r")
  case (Inr r')
  consider "r' = r" | d where "apply_overtime_transition now r OVERTIME_INVALIDATED d = Inr r'"
    using invalidated_row_shape [OF Inr] by blast
  then have "row_step\<^sup>*\<^sup>* db (put_row db r')"
  proof cases
    case 1
    then show ?thesis using store_step [OF assms] by simp
  next
    case 2
    then show ?thesis using terminal_store [OF assms 2] by (simp add: status_sets)
  qed
  then show ?thesis using Inr by (simp add: invalidate_request_def)
qed (simp add: invalidate_request_def)

lemma put_row_other: "x \<in> set (ldb_rows db) \<Longrightarrow> req_id x \<noteq> req_id r \<Longrightarrow> x \<in> set (ldb_rows (put_row db r))"
  by (force simp: put_row_def)

lemma invalidate_request_rows:
  assumes "x \<in> set (ldb_rows db)" and "req_id x \<noteq> req_id r"
  shows "x \<in> set (ldb_rows (snd (invalidate_request reason now db r)))"
proof -
  have "req_id r' = req_id r" if "invalidated_row now reason r = Inr r'" for r'
    using invalidated_row_shape [OF that] transition_same by (auto simp: same_request_def)
  then show ?thesis
    using put_row_other [OF assms(1)] assms by (cases "invalidated_row now reason r") (simp_all add: invalidate_request_def)
qed

lemma invalidate_rows_steps:
  "\<forall>r \<in> set rows. r \<in> set (ldb_rows db) \<Longrightarrow> distinct (map req_id rows) \<Longrightarrow>
   row_step\<^sup>*\<^sup>* db (snd (invalidate_rows reason now db rows))"
proof (induction rows arbitrary: db)
  case (Cons r rows)
  obtain res db1 where i: "invalidate_request reason now db r = (res, db1)" by fastforce
  have 1: "row_step\<^sup>*\<^sup>* db db1" using invalidate_steps [of r db reason now] Cons.prems(1) i by simp
  have "x \<in> set (ldb_rows db1)" if "x \<in> set rows" for x
  proof -
    have "req_id r \<notin> req_id ` set rows" using Cons.prems(2) by simp
    then have "req_id x \<noteq> req_id r" using that by (metis imageI)
    then show ?thesis using invalidate_request_rows [of x db r reason now] that Cons.prems(1) i by simp
  qed
  then have "row_step\<^sup>*\<^sup>* db1 (snd (invalidate_rows reason now db1 rows))" using Cons by simp
  then have "row_step\<^sup>*\<^sup>* db (snd (invalidate_rows reason now db1 rows))" using 1 by (rule rtranclp_trans [rotated])
  then show ?case using 1 i by (auto split: sum.split prod.split)
qed simp

lemma promote_scopes_steps: "row_step\<^sup>*\<^sup>* db (snd (promote_scopes env lifetime now scopes db))"
proof (induction scopes arbitrary: db)
  case (Cons sc scopes)
  obtain ow home where sc: "sc = (ow, home)" by fastforce
  obtain res db1 where p: "promote_next_for_owner env lifetime now home ow db = (res, db1)" by fastforce
  have 1: "row_step\<^sup>*\<^sup>* db db1" using promote_steps [of db env lifetime now home ow] p by simp
  have "row_step\<^sup>*\<^sup>* db (snd (promote_scopes env lifetime now scopes db1))"
    using 1 Cons.IH by (rule rtranclp_trans)
  then show ?case using 1 sc p by (cases res) auto
qed simp

lemma invalidate_bulk_steps:
  assumes "distinct (map req_id (ldb_rows db))"
  shows "row_step\<^sup>*\<^sup>* db (snd (invalidate_overtime_requests env reason fl p lifetime now db))"
proof (cases "list_nonterminal_overtime_requests env db fl")
  case (Inr rows)
  then obtain Q where rows: "rows = sort_key req_id (filter Q (ldb_rows db))"
    unfolding list_nonterminal_overtime_requests_def Let_def by (auto split: if_split_asm)
  have d: "distinct (map req_id rows)"
    unfolding rows using assms by (simp add: distinct_map inj_on_def)
  obtain res db1 where i: "invalidate_rows reason now db rows = (res, db1)" by fastforce
  have 1: "row_step\<^sup>*\<^sup>* db db1"
    using invalidate_rows_steps [OF _ d, of db reason now] i rows by simp
  have 2: "row_step\<^sup>*\<^sup>* db (snd (promote_scopes env m now sc db1))" for m sc
    using 1 promote_scopes_steps by (rule rtranclp_trans)
  show ?thesis
    using Inr i 1 2 unfolding invalidate_overtime_requests_def
    by (auto split: sum.split prod.split bool.split option.split) (metis snd_conv)+
qed (simp add: invalidate_overtime_requests_def)

lemma invalidate_user_steps:
  assumes "ledger_ok db"
  shows "row_step\<^sup>*\<^sup>* db (snd (invalidate_overtime_requests_for_user env u reason home p lifetime now db))"
proof -
  let ?h = "normalize_server home (current_server env)"
  let ?f1 = "no_filter\<lparr>fl_owner_user_id := Some u, fl_home_server := Some ?h\<rparr>"
  let ?f2 = "no_filter\<lparr>fl_requester_user_id := Some u, fl_home_server := Some ?h\<rparr>"
  obtain r1 db1 where i1: "invalidate_overtime_requests env reason ?f1 False None now db = (r1, db1)" by fastforce
  obtain r2 db2 where i2: "invalidate_overtime_requests env reason ?f2 False None now db1 = (r2, db2)" by fastforce
  have 1: "row_step\<^sup>*\<^sup>* db db1"
    using invalidate_bulk_steps [of db env reason ?f1 False None now] assms i1 by (simp add: ledger_ok_def)
  then have ok1: "ledger_ok db1" using assms ledger_ok_steps by blast
  have "row_step\<^sup>*\<^sup>* db1 db2"
    using invalidate_bulk_steps [of db1 env reason ?f2 False None now] ok1 i2 by (simp add: ledger_ok_def)
  with 1 have 2: "row_step\<^sup>*\<^sup>* db db2" by (rule rtranclp_trans)
  have 3: "row_step\<^sup>*\<^sup>* db (snd (promote_scopes env m now sc db2))" for m sc
    using 2 promote_scopes_steps by (rule rtranclp_trans)
  show ?thesis
    using i1 i2 1 2 3 unfolding invalidate_overtime_requests_for_user_def Let_def
    by (auto split: sum.split prod.split bool.split option.split) (metis snd_conv)+
qed

lemma load_None_fresh:
  assumes "load_offer_request_by_idempotency (current_server env) db home key = Inr None"
    and "normalize_server (Some home) (current_server env) = home"
    and "req_home_server row = home" and "req_idempotency_key row = py_strip_or_none key"
  shows "fresh_key db row"
  using assms unfolding load_offer_request_by_idempotency_def fresh_key_def
  by (auto simp: scalar_one_or_none_None filter_empty_conv split: option.split_asm)

lemma direct_steps:
  assumes "create_offer_request_ledger_entry (current_server env) now pid db c = (r, db')"
    and "\<forall>s. normalize_offer_request_status (lc_status c) = Inr s \<longrightarrow> s \<notin> set OVERTIME_NONTERMINAL_STATUSES"
  shows "row_step\<^sup>*\<^sup>* db db'"
proof (cases "db' = db")
  case False
  then obtain public_id st surface where
    l: "load_offer_request_by_idempotency (current_server env) db
          (normalize_server (lc_home_server c) (current_server env)) (lc_idempotency_key c) = Inr None"
    and st: "normalize_offer_request_status (lc_status c) = Inr st"
    and db': "db' = add_row db (ledger_row (current_server env) now pid (ldb_next_id db) c public_id st surface)"
    using assms(1) unfolding create_offer_request_ledger_entry_def Let_def
    by (auto split: option.split_asm sum.split_asm if_split_asm)
  have "row_step db db'" unfolding db'
  proof (rule row_insert)
    show "fresh_key db (ledger_row (current_server env) now pid (ldb_next_id db) c public_id st surface)"
      by (rule load_None_fresh [OF l]) (simp_all add: ledger_row_def)
  qed (use assms(2) st in \<open>auto simp: ledger_row_def request_live_def\<close>)
  then show ?thesis by blast
qed simp

lemma guards_admit:
  assumes "create_guards env now db c public_id = None"
  shows "admitted db (overtime_row env pid db c public_id key surface)"
proof -
  let ?u = "cc_requester_user_id c" and ?ow = "oo_user_id (cc_offer c)"
  have g: "?u \<noteq> ?ow" "get_active_request_for_offer env db (command_home env c) public_id = Inr None"
    "length (outstanding db ?u) < MAX_OUTSTANDING_REQUESTS_PER_REQUESTER"
    "length (filter (\<lambda>r. req_owner_user_id r = Some ?ow) (outstanding db ?u)) < 1"
    using assms unfolding create_guards_def count_requester_outstanding_def Let_def
    by (auto simp: Suc_le_eq split: if_split_asm sum.split_asm option.split_asm)
  have "\<forall>x \<in> set (ldb_rows db). request_live x \<longrightarrow> req_home_server x = command_home env c \<longrightarrow>
      req_offer_public_id x \<noteq> public_id"
    using g(2) by (auto simp: get_active_request_for_offer_def scalar_one_or_none_None filter_empty_conv
        command_home_def)
  then show ?thesis using g(1,3,4)
    by (simp add: admitted_def overtime_row_def Let_def filter_empty_conv)
qed

lemma create_shape:
  assumes "create_overtime_request env now pid db c = (r, db')"
  shows "db' = db \<or> (\<exists>public_id key surface.
     load_offer_request_by_idempotency (current_server env) db (command_home env c) (Some key) = Inr None \<and>
     py_strip_or_none (Some key) = Some key \<and> create_guards env now db c public_id = None \<and>
     db' = snd (promote_next_for_owner env (cc_lifetime c) now (command_home env c) (oo_user_id (cc_offer c))
             (add_row db (overtime_row env pid db c public_id key surface))))"
proof (cases "db' = db")
  case False
  obtain key where k: "py_strip_or_none (cc_idempotency_key c) = Some key"
    using assms False by (cases "py_strip_or_none (cc_idempotency_key c)") (auto simp: create_overtime_request_def)
  have kk: "py_strip_or_none (Some key) = Some key"
    using k by (auto simp: py_strip_or_none_def Let_def split: if_split_asm)
  obtain public_id where p: "py_strip_or_none (oo_public_id (cc_offer c)) = Some public_id"
    "load_offer_request_by_idempotency (current_server env) db (command_home env c) (Some key) = Inr None"
    "create_guards env now db c public_id = None"
    using assms False k unfolding create_overtime_request_def
    by (auto split: option.split_asm sum.split_asm if_split_asm)
  obtain surface where f: "normalize_offer_request_source_surface (cc_source_surface c) = Inr surface"
    using assms False k p unfolding create_overtime_request_def
    by (cases "normalize_offer_request_source_surface (cc_source_surface c)") (auto split: if_split_asm)
  have "db' = snd (promote_next_for_owner env (cc_lifetime c) now (command_home env c) (oo_user_id (cc_offer c))
             (add_row db (overtime_row env pid db c public_id key surface)))"
    using assms False k p f unfolding create_overtime_request_def Let_def
    by (auto split: prod.split_asm sum.split_asm if_split_asm)
  then show ?thesis using p kk by blast
qed simp

lemma create_steps:
  assumes "create_overtime_request env now pid db c = (r, db')"
  shows "row_step\<^sup>*\<^sup>* db db'"
  using create_shape [OF assms]
proof (elim disjE exE conjE)
  fix public_id key surface
  let ?row = "overtime_row env pid db c public_id key surface"
  assume l: "load_offer_request_by_idempotency (current_server env) db (command_home env c) (Some key) = Inr None"
    and k: "py_strip_or_none (Some key) = Some key" and g: "create_guards env now db c public_id = None"
    and db': "db' = snd (promote_next_for_owner env (cc_lifetime c) now (command_home env c) (oo_user_id (cc_offer c))
             (add_row db ?row))"
  have "row_step db (add_row db ?row)"
  proof (rule row_insert)
    show "req_id ?row = ldb_next_id db" by (simp add: overtime_row_def Let_def)
    show "fresh_key db ?row"
      by (rule load_None_fresh [OF l]) (simp_all add: overtime_row_def Let_def command_home_def k)
    show "admitted db ?row" by (rule guards_admit [OF g])
  qed
  then show ?thesis unfolding db' using promote_steps by (meson converse_rtranclp_into_rtranclp)
qed simp

lemma load_public_id:
  "load_overtime_request_by_public_id db pid = Inr (Some row) \<Longrightarrow> row \<in> set (ldb_rows db)"
proof -
  assume "load_overtime_request_by_public_id db pid = Inr (Some row)"
  then have "filter (\<lambda>r. req_public_id r = py_strip pid) (ldb_rows db) = [row]"
    by (auto simp: load_overtime_request_by_public_id_def Let_def scalar_one_or_none_Some split: if_split_asm)
  then have "row \<in> set (filter (\<lambda>r. req_public_id r = py_strip pid) (ldb_rows db))" by simp
  then show ?thesis by simp
qed

lemma invalidate_and_promote_steps:
  assumes "row \<in> set (ldb_rows db)"
  shows "row_step\<^sup>*\<^sup>* db (snd (invalidate_and_promote env lifetime reason now db row))"
proof -
  obtain res db1 where i: "invalidate_request reason now db row = (res, db1)" by fastforce
  have 1: "row_step\<^sup>*\<^sup>* db db1" using invalidate_steps [OF assms, of reason now] i by simp
  have 2: "row_step\<^sup>*\<^sup>* db (snd (promote_next_for_owner env lifetime now h ow db1))" for h ow
    using 1 promote_steps by (rule rtranclp_trans)
  show ?thesis using i 1 2 unfolding invalidate_and_promote_def
    by (auto split: sum.split prod.split option.split) (metis snd_conv)+
qed

lemma freshness_steps:
  "row_step\<^sup>*\<^sup>* db (snd (apply_freshness env lifetime fo reason ce pid now db))"
  unfolding apply_freshness_def
  by (auto split: option.split sum.split intro!: invalidate_and_promote_steps load_public_id)

lemma delivered_steps:
  "row_step\<^sup>*\<^sup>* db (snd (apply_delivery_result out ce pid mid now db))"
proof -
  have "row_step\<^sup>*\<^sup>* db (snd (mark_presented now m db row))"
    if r: "row \<in> set (ldb_rows db)" and st: "req_status row = OVERTIME_DELIVERING" for m row
  proof -
    let ?s = "row\<lparr>req_presented_at := Some now, req_decision_deadline_at := Some (decision_deadline_at now),
                  req_message_id := or_keep m (req_message_id row)\<rparr>"
    obtain r' where r': "apply_overtime_transition now ?s OVERTIME_PRESENTED (plain_decision OVERTIME_PRESENTED) = Inr r'"
      using transition_allowed [of OVERTIME_PRESENTED ?s] st by auto
    have e: "r' = ?s\<lparr>req_status := OVERTIME_PRESENTED\<rparr>"
      using r' by (rule plain_transition) (simp add: status_sets)
    have "row_step\<^sup>*\<^sup>* db (put_row db r')"
      by (rule store_step [OF r]) (use st in \<open>simp_all add: e row_evolves_def same_request_def status_step_def
          deadline_set_def request_occupying_def status_sets\<close>)
    then show ?thesis using r' st by (simp add: mark_presented_def Let_def)
  qed
  then show ?thesis unfolding apply_delivery_result_def
    by (auto split: option.split sum.split prod.split dest!: load_public_id) (metis snd_conv)+
qed

lemma expire_rows_steps: "row_step\<^sup>*\<^sup>* db (snd (expire_rows env lifetime now db ids))"
proof (induction ids arbitrary: db)
  case (Cons i ids)
  show ?case
  proof (cases "find_row db i")
    case None
    then show ?thesis using Cons.IH by simp
  next
    case (Some row)
    obtain res db1 where e: "expire_decision env True (sweep_lifetime lifetime) now db row = (res, db1)" by fastforce
    have 1: "row_step\<^sup>*\<^sup>* db db1" using expire_steps find_row_Some [OF Some] e by (metis snd_conv)
    have 2: "row_step\<^sup>*\<^sup>* db (snd (expire_rows env lifetime now db1 ids))"
      using 1 Cons.IH by (rule rtranclp_trans)
    show ?thesis using Some e 1 2
      by (auto split: sum.split prod.split ot_error.split)
  qed
qed simp

lemma release_rows_steps: "row_step\<^sup>*\<^sup>* db (snd (release_rows now db ids))"
proof (induction ids arbitrary: db)
  case (Cons i ids)
  show ?case
  proof (cases "find_row db i")
    case None
    then show ?thesis using Cons.IH by simp
  next
    case (Some row)
    obtain res db1 where e: "invalidate_request ''overtime_delivery_reconcile_timeout'' now db row = (res, db1)"
      by fastforce
    have 1: "row_step\<^sup>*\<^sup>* db db1" using invalidate_steps find_row_Some [OF Some] e by (metis snd_conv)
    have 2: "row_step\<^sup>*\<^sup>* db (snd (release_rows now db1 ids))"
      using 1 Cons.IH by (rule rtranclp_trans)
    show ?thesis using Some e 1 2
      by (auto split: sum.split prod.split ot_error.split)
  qed
qed simp

lemma ledger_step_rows:
  assumes "ledger_step env db db'" and "ledger_ok db"
  shows "row_step\<^sup>*\<^sup>* db db'"
  using assms(1)
proof cases
  case (step_direct now pid c r)
  then show ?thesis using direct_steps by blast
next
  case (step_finalize i row now d row')
  have s: "same_request row row'" using decision_identity [OF step_finalize(4)] by (simp add: same_request_def)
  have "row_evolves row row'"
    using s step_finalize(3,5) by (auto simp: row_evolves_def status_step_def deadline_set_def status_sets)
  moreover have "\<not> request_occupying row'"
    using step_finalize(5) occupying_live by (auto simp: request_live_def)
  ultimately show ?thesis
    unfolding step_finalize(1) using store_step find_row_Some [OF step_finalize(2)] by blast
next
  case (step_create now pid c r)
  then show ?thesis by (rule create_steps)
next
  case (step_cancel i row p lifetime requester now r)
  then show ?thesis using cancel_steps find_row_Some by (metis snd_conv)
next
  case (step_reject i row p lifetime owner now r)
  then show ?thesis using reject_steps find_row_Some by (metis snd_conv)
next
  case (step_expire i row p lifetime now r)
  then show ?thesis using expire_steps find_row_Some by (metis snd_conv)
next
  case (step_complete i row owner now trade r)
  then show ?thesis using complete_steps find_row_Some by (metis snd_conv)
next
  case (step_invalidate reason fl p lifetime now r)
  then show ?thesis using invalidate_bulk_steps assms(2) unfolding ledger_ok_def by (metis snd_conv)
next
  case (step_invalidate_user user reason home p lifetime now r)
  then show ?thesis using invalidate_user_steps assms(2) by (metis snd_conv)
next
  case (step_freshness lifetime fo reason contract_error pid now e)
  then show ?thesis using freshness_steps by (metis snd_conv)
next
  case (step_delivered out contract_error pid mid now e)
  then show ?thesis using delivered_steps by (metis snd_conv)
next
  case (step_sweep_decisions lifetime n now r)
  then show ?thesis using expire_rows_steps unfolding expire_overdue_presented_decisions_def by (metis snd_conv)
next
  case (step_sweep_deliveries n now r)
  then show ?thesis using release_rows_steps unfolding expire_overdue_delivering_requests_def by (metis snd_conv)
qed

interpretation overtime: invariant_system ledger_init "ledger_step env" ledger_ok for env
proof
  show "ledger_ok db" if "ledger_init db" for db
    using that by (simp add: ledger_init_def ledger_ok_def unique_on_def outstanding_def)
  show "ledger_ok db'" if "ledger_ok db" "ledger_step env db db'" for db db'
    using that ledger_step_rows ledger_ok_steps by blast
qed

lemma ledger_steps_rows:
  "(ledger_step env)\<^sup>*\<^sup>* db db' \<Longrightarrow> ledger_ok db \<Longrightarrow> row_step\<^sup>*\<^sup>* db db'"
proof (induction rule: rtranclp_induct)
  case (step y z)
  then show ?case using ledger_step_rows ledger_ok_steps by (meson rtranclp_trans)
qed simp

section \<open>Promotion as an abstract seat\<close>

text \<open>What the owner's queue promises, without rows, offers or delivery: a seat and a list of waiting
  requests; a promotion of a free seat skips the requests that cannot be seated and seats the first one
  that can.\<close>

type_synonym seat = "bool \<times> int list"

fun seat_promote :: "(int \<Rightarrow> bool) \<Rightarrow> seat \<Rightarrow> seat" where
  "seat_promote ok (True, q) = (True, q)"
| "seat_promote ok (False, q) =
     (case dropWhile (\<lambda>i. \<not> ok i) q of [] \<Rightarrow> (False, []) | i # rest \<Rightarrow> (True, rest))"

definition seat_of :: "string \<Rightarrow> int \<Rightarrow> ledger_db \<Rightarrow> seat" where
  "seat_of home owner db =
     (owner_has_occupying_request db home owner, map req_id (queued_rows db home owner))"

definition seatable :: "ot_env \<Rightarrow> int \<Rightarrow> int \<Rightarrow> string \<Rightarrow> ledger_db \<Rightarrow> int \<Rightarrow> bool" where
  "seatable env lifetime now home db i \<longleftrightarrow>
     (case find_row db i of None \<Rightarrow> False | Some r \<Rightarrow> promotable env lifetime now home r)"

lemma find_row_put_other:
  assumes "i \<noteq> req_id r"
  shows "find_row (put_row db r) i = find_row db i"
proof -
  have "find (\<lambda>x. req_id x = i) (map (\<lambda>x. if req_id x = req_id r then r else x) xs) =
      find (\<lambda>x. req_id x = i) xs" for xs
    using assms by (induction xs) auto
  then show ?thesis by (simp add: find_row_def put_row_def)
qed

lemma distinct_key_tail:
  assumes "distinct (map f (c # rest))" and "x \<in> set rest"
  shows "f x \<noteq> f c"
proof -
  have "f c \<notin> f ` set rest" using assms(1) by simp
  then show ?thesis using assms(2) by (metis imageI)
qed

lemma queued_rows_distinct:
  "distinct (map req_id (ldb_rows db)) \<Longrightarrow> distinct (map req_id (queued_rows db home owner))"
  by (simp add: queued_rows_def distinct_map inj_on_def)

lemma queued_rows_put:
  assumes dist: "distinct (map req_id (ldb_rows db))" and q: "queued_rows db home owner = c # rest"
    and same: "same_request c r'" and st: "req_status r' \<noteq> OVERTIME_QUEUED"
  shows "queued_rows (put_row db r') home owner = rest"
proof -
  let ?P = "\<lambda>r. in_scope home owner r \<and> req_status r = OVERTIME_QUEUED"
  have i: "req_id r' = req_id c" using same by (simp add: same_request_def)
  have "filter ?P (map (\<lambda>x. if req_id x = req_id c then r' else x) xs) =
      filter (\<lambda>x. req_id x \<noteq> req_id c) (filter ?P xs)" for xs
    using st by (induction xs) auto
  then have "queued_rows (put_row db r') home owner =
      filter (\<lambda>x. req_id x \<noteq> req_id c) (queued_rows db home owner)"
    by (simp add: queued_rows_def put_row_def i filter_sort del: filter_filter)
  moreover have "\<forall>x \<in> set rest. req_id x \<noteq> req_id c"
    using distinct_key_tail [OF queued_rows_distinct [OF dist, of home owner, unfolded q]] by blast
  then have "filter (\<lambda>x. req_id x \<noteq> req_id c) (c # rest) = rest" by (simp add: filter_id_conv)
  ultimately show ?thesis using q by simp
qed

lemma occupying_put:
  assumes "\<not> owner_has_occupying_request db home owner" and "c \<in> set (ldb_rows db)" and "in_scope home owner c"
    and "same_request c r'"
  shows "owner_has_occupying_request (put_row db r') home owner = request_occupying r'"
proof -
  have "set (ldb_rows (put_row db r')) = insert r' {x \<in> set (ldb_rows db). req_id x \<noteq> req_id r'}"
    by (rule put_row_set) (use assms(2,4) in \<open>auto simp: same_request_def\<close>)
  then show ?thesis
    using assms by (auto simp: owner_has_occupying_request_def list_ex_iff in_scope_def same_request_def)
qed

lemma promotion_seat:
  assumes "ledger_ok db" and "home = normalize_server (Some request_home) (current_server env)"
  shows "seat_of home owner (snd (promote_next_for_owner env lifetime now request_home owner db)) =
    seat_promote (seatable env lifetime now home db) (seat_of home owner db)"
  using assms
proof (induction env lifetime now request_home owner db rule: promote_next_for_owner.induct)
  case (1 env lifetime now request_home owner db)
  note home = 1(3)
  have fixed: "normalize_server (Some home) (current_server env) = home" by (simp add: home)
  have dist: "distinct (map req_id (ldb_rows db))" using 1(2) by (simp add: ledger_ok_def)
  let ?go = "promote_next_for_owner env lifetime now request_home owner db"
  have go: "?go = (case promotion_attempt env lifetime now home owner db of
           Settled r db' \<Rightarrow> (r, db')
         | TryNext db' \<Rightarrow> promote_next_for_owner env lifetime now home owner db')"
    unfolding home Let_def by (subst promote_next_for_owner.simps) (simp only: Let_def)
  consider (none) "promotion_attempt env lifetime now home owner db = Settled (Inr None) db"
      "owner_has_occupying_request db home owner \<or> queued_rows db home owner = []"
    | (retry) c rest r' where "\<not> owner_has_occupying_request db home owner" "queued_rows db home owner = c # rest"
      "same_request c r'" "req_status r' = OVERTIME_INVALIDATED" "\<not> promotable env lifetime now home c"
      "promotion_attempt env lifetime now home owner db = TryNext (put_row db r')"
    | (seat) c rest r' res where "\<not> owner_has_occupying_request db home owner" "queued_rows db home owner = c # rest"
      "same_request c r'" "seated now r'" "promotable env lifetime now home c"
      "promotion_attempt env lifetime now home owner db = Settled res (put_row db r')"
    using attempt_shape [of env lifetime now home owner db] unfolding fixed by blast
  then show ?case
  proof cases
    case none
    then show ?thesis
      by (cases "owner_has_occupying_request db home owner") (simp_all add: go seat_of_def)
  next
    case retry
    note c = queued_rows_scope [OF retry(2)]
    have fc: "find_row db (req_id c) = Some c" using find_row_distinct [OF dist] c by blast
    have i: "req_id r' = req_id c" using retry(3) by (simp add: same_request_def)
    have q: "queued_rows (put_row db r') home owner = rest"
      by (rule queued_rows_put [OF dist retry(2,3)]) (simp add: retry(4))
    have oc: "\<not> owner_has_occupying_request (put_row db r') home owner"
      using occupying_put [OF retry(1) _ _ retry(3)] c retry(4) by (simp add: request_occupying_def status_sets)
    have "row_step\<^sup>*\<^sup>* db (put_row db r')"
      by (rule store_step [OF _ _]) (use c retry(3,4) in \<open>auto simp: row_evolves_def status_step_def deadline_set_def
          request_occupying_def status_sets\<close>)
    then have ok': "ledger_ok (put_row db r')" using 1(2) ledger_ok_steps by blast
    have IH: "seat_of home owner (snd (promote_next_for_owner env lifetime now home owner (put_row db r'))) =
        seat_promote (seatable env lifetime now home (put_row db r')) (False, map req_id rest)"
      using 1(1) [OF home retry(6) ok'] fixed q oc by (simp add: seat_of_def)
    have "\<forall>x \<in> set rest. req_id x \<noteq> req_id r'" unfolding i
      using distinct_key_tail [OF queued_rows_distinct [OF dist, of home owner, unfolded retry(2)]] by blast
    then have "\<forall>j \<in> set (map req_id rest). seatable env lifetime now home (put_row db r') j =
        seatable env lifetime now home db j"
      by (simp add: seatable_def find_row_put_other)
    then have "dropWhile (\<lambda>j. \<not> seatable env lifetime now home (put_row db r') j) (map req_id rest) =
        dropWhile (\<lambda>j. \<not> seatable env lifetime now home db j) (map req_id rest)"
      by (intro dropWhile_cong) auto
    then show ?thesis
      using IH retry fc by (simp add: go seat_of_def seatable_def)
  next
    case seat
    note c = queued_rows_scope [OF seat(2)]
    have fc: "find_row db (req_id c) = Some c" using find_row_distinct [OF dist] c by blast
    have q: "queued_rows (put_row db r') home owner = rest"
      by (rule queued_rows_put [OF dist seat(2,3)]) (use seat(4) in \<open>auto simp: seated_def\<close>)
    have oc: "owner_has_occupying_request (put_row db r') home owner"
      using occupying_put [OF seat(1) _ _ seat(3)] c seat(4)
      by (auto simp: request_occupying_def status_sets seated_def)
    show ?thesis using seat(1,2,5) fc q oc by (simp add: go seat(6) seat_of_def seatable_def)
  qed
qed

lemma seat_promote_busy: "fst (seat_promote ok s) \<or> snd (seat_promote ok s) = []"
  by (cases s; cases "fst s") (auto split: list.split)

lemma terminal_op_shape:
  assumes "cancel_by_requester env True (Some lifetime) u now db row = (Inr row', db') \<or>
      reject_by_owner env True (Some lifetime) u now db row = (Inr row', db') \<or>
      expire_decision env True (Some lifetime) now db row = (Inr row', db')"
  shows "\<exists>st d r1. apply_overtime_transition now row st d = Inr r1 \<and>
    st \<notin> set OVERTIME_NONTERMINAL_STATUSES \<and> st \<in> set (LEGAL_OVERTIME_TRANSITIONS (req_status row)) \<and>
    store_and_promote env True (Some lifetime) now db r1 = (Inr row', db')"
proof -
  have legal: "st \<in> set (LEGAL_OVERTIME_TRANSITIONS (req_status row))"
    if "apply_overtime_transition now row st d = Inr r1" "req_status row \<noteq> st" for st d r1
    using transition_status(2) [OF that(1)] that(2) by auto
  have t: "OVERTIME_CANCELLED_BY_REQUESTER \<in> set TERMINAL_LIKE" by (simp add: TERMINAL_LIKE_def status_sets)
  have n: "OVERTIME_CANCELLED_BY_REQUESTER \<notin> set OVERTIME_NONTERMINAL_STATUSES"
    "OVERTIME_REJECTED_BY_OWNER \<notin> set OVERTIME_NONTERMINAL_STATUSES"
    "OVERTIME_DECISION_EXPIRED \<notin> set OVERTIME_NONTERMINAL_STATUSES" by (simp_all add: status_sets)
  show ?thesis using assms
  proof (elim disjE)
    assume a: "cancel_by_requester env True (Some lifetime) u now db row = (Inr row', db')"
    then obtain d r1 where s: "apply_overtime_transition now row OVERTIME_CANCELLED_BY_REQUESTER d = Inr r1"
      "store_and_promote env True (Some lifetime) now db r1 = (Inr row', db')"
      "req_status row \<notin> set TERMINAL_LIKE"
      unfolding cancel_by_requester_def by (auto split: if_split_asm sum.split_asm)
    then have "req_status row \<noteq> OVERTIME_CANCELLED_BY_REQUESTER" using t by metis
    then show ?thesis using s legal [OF s(1)] n(1) by blast
  next
    assume a: "reject_by_owner env True (Some lifetime) u now db row = (Inr row', db')"
    then obtain d r1 where s: "apply_overtime_transition now row OVERTIME_REJECTED_BY_OWNER d = Inr r1"
      "store_and_promote env True (Some lifetime) now db r1 = (Inr row', db')"
      "ensure_owner_may_decide row u now = None"
      unfolding reject_by_owner_def by (auto split: option.split_asm sum.split_asm)
    then have "req_status row = OVERTIME_PRESENTED" by (auto simp: ensure_owner_may_decide_def split: if_split_asm)
    then show ?thesis using legal [OF s(1)] n(2) s by auto
  next
    assume a: "expire_decision env True (Some lifetime) now db row = (Inr row', db')"
    then obtain d r1 where s: "apply_overtime_transition now row OVERTIME_DECISION_EXPIRED d = Inr r1"
      "store_and_promote env True (Some lifetime) now db r1 = (Inr row', db')"
      "req_status row = OVERTIME_PRESENTED"
      unfolding expire_decision_def by (auto split: if_split_asm sum.split_asm)
    then show ?thesis using legal [OF s(1)] n(3) by auto
  qed
qed

section \<open>A sample ledger\<close>

definition ot_sample_offer :: "int \<Rightarrow> ot_offer" where
  "ot_sample_offer i =
     \<lparr>oo_id = Some i, oo_public_id = Some (if i = 1 then ''A'' else ''B''), oo_home_server = Some ''iran'',
      oo_user_id = 7,
      oo_view = \<lparr>ov_created_at = Some (Naive 0), ov_status = Some OFFER_ACTIVE,
                 ov_overtime_minutes_snapshot = PInt 5\<rparr>\<rparr>"

definition ot_sample_env :: ot_env where
  "ot_sample_env =
     \<lparr>oe_server_mode = Some ''iran'', oe_offer = (\<lambda>i. Some (ot_sample_offer i)), oe_owner = (\<lambda>_. None),
      oe_mode = QUEUE_V1, oe_prompt_error = (\<lambda>_ _. None), oe_job_id = (\<lambda>_. 1)\<rparr>"

definition ot_sample_command :: "int \<Rightarrow> int \<Rightarrow> string \<Rightarrow> create_command" where
  "ot_sample_command offer requester key =
     \<lparr>cc_offer = ot_sample_offer offer, cc_requester_user_id = requester, cc_actor_user_id = requester,
      cc_quantity = 10, cc_idempotency_key = Some key, cc_source_surface = SurfaceMember WEBAPP,
      cc_source_server = None, cc_receipt_at = 70000000, cc_lifetime = 1, cc_home_server = None,
      cc_customer = no_customer\<rparr>"

definition ot_empty :: ledger_db where
  "ot_empty = \<lparr>ldb_rows = [], ldb_next_id = 1\<rparr>"

definition ot_first :: ledger_db where
  "ot_first = snd (create_overtime_request ot_sample_env 70000000 ''p'' ot_empty (ot_sample_command 1 8 ''k''))"

definition ot_sample :: ledger_db where
  "ot_sample = snd (create_overtime_request ot_sample_env 70000000 ''q'' ot_first (ot_sample_command 2 9 ''l''))"

lemma ot_sample_reachable: "reachable ledger_init (ledger_step ot_sample_env) ot_sample"
proof -
  have "ledger_init ot_empty" by (simp add: ledger_init_def ot_empty_def)
  then have 0: "reachable ledger_init (ledger_step ot_sample_env) ot_empty" by (rule reachable_init)
  have "create_overtime_request ot_sample_env 70000000 ''p'' ot_empty (ot_sample_command 1 8 ''k'') =
      (fst (create_overtime_request ot_sample_env 70000000 ''p'' ot_empty (ot_sample_command 1 8 ''k'')), ot_first)"
    by (simp add: ot_first_def)
  then have "ledger_step ot_sample_env ot_empty ot_first" by (rule step_create)
  with 0 have 1: "reachable ledger_init (ledger_step ot_sample_env) ot_first" by (rule reachable_step)
  have "create_overtime_request ot_sample_env 70000000 ''q'' ot_first (ot_sample_command 2 9 ''l'') =
      (fst (create_overtime_request ot_sample_env 70000000 ''q'' ot_first (ot_sample_command 2 9 ''l'')), ot_sample)"
    by (simp add: ot_sample_def)
  then have "ledger_step ot_sample_env ot_first ot_sample" by (rule step_create)
  with 1 show ?thesis by (rule reachable_step)
qed

lemma ot_sample_rows:
  "map (\<lambda>r. (req_id r, req_status r, req_decision_deadline_at r)) (ldb_rows ot_sample) =
   [(1, OVERTIME_PRESENTED, Some 100000000), (2, OVERTIME_QUEUED, None)]"
  by code_simp

section \<open>Properties of the workflow\<close>




definition ot_expired :: ledger_db where
  "ot_expired = snd (expire_overdue_presented_decisions ot_sample_env 1 50 100000000 ot_sample)"

lemma ot_expired_reachable: "reachable ledger_init (ledger_step ot_sample_env) ot_expired"
proof -
  have "expire_overdue_presented_decisions ot_sample_env 1 50 100000000 ot_sample =
      (fst (expire_overdue_presented_decisions ot_sample_env 1 50 100000000 ot_sample), ot_expired)"
    by (simp add: ot_expired_def)
  then have "ledger_step ot_sample_env ot_sample ot_expired" by (rule step_sweep_decisions)
  with ot_sample_reachable show ?thesis by (rule reachable_step)
qed

lemma ot_expired_rows:
  "map (\<lambda>r. (req_id r, req_status r, req_decision_deadline_at r)) (ldb_rows ot_expired) =
   [(1, OVERTIME_DECISION_EXPIRED, Some 100000000), (2, OVERTIME_PRESENTED, Some 130000000)]"
  by code_simp



definition ot_idle :: ledger_db where
  "ot_idle = snd (expire_decision ot_sample_env False None 100000000 ot_sample (hd (ldb_rows ot_sample)))"

lemma ot_idle_reachable: "reachable ledger_init (ledger_step ot_sample_env) ot_idle"
proof -
  have f: "find_row ot_sample 1 = Some (hd (ldb_rows ot_sample))" by code_simp
  have "expire_decision ot_sample_env False None 100000000 ot_sample (hd (ldb_rows ot_sample)) =
      (fst (expire_decision ot_sample_env False None 100000000 ot_sample (hd (ldb_rows ot_sample))), ot_idle)"
    by (simp add: ot_idle_def)
  with f have "ledger_step ot_sample_env ot_sample ot_idle" by (rule step_expire)
  with ot_sample_reachable show ?thesis by (rule reachable_step)
qed


text \<open>C14: The seat is never left idle by a decision: after a cancellation, a rejection or an expiry that promotes,
  the owner's seat is taken or nobody waits for it.\<close>

theorem seat_is_refilled:
  assumes "reachable ledger_init (ledger_step env) db" and "find_row db i = Some row"
    and "cancel_by_requester env True (Some lifetime) u now db row = (Inr row', db') \<or>
      reject_by_owner env True (Some lifetime) u now db row = (Inr row', db') \<or>
      expire_decision env True (Some lifetime) now db row = (Inr row', db')"
    and "req_owner_user_id row = Some owner" and "known_server (req_home_server row)"
  shows "request_live row \<and> \<not> request_live row' \<and> same_request row row' \<and>
    (owner_has_occupying_request db' (req_home_server row) owner \<or> queued_rows db' (req_home_server row) owner = [])"
proof -
  have ok: "ledger_ok db" using overtime.reachable_invar [OF assms(1)] .
  have r: "row \<in> set (ldb_rows db)" using find_row_Some [OF assms(2)] by simp
  obtain st d r1 where t: "apply_overtime_transition now row st d = Inr r1"
    and st: "st \<notin> set OVERTIME_NONTERMINAL_STATUSES" "st \<in> set (LEGAL_OVERTIME_TRANSITIONS (req_status row))"
    and sp: "store_and_promote env True (Some lifetime) now db r1 = (Inr row', db')"
    using terminal_op_shape [OF assms(3)] by blast
  have same: "same_request row r1" by (rule transition_same [OF t])
  have ne: "req_home_server r1 \<noteq> []" "req_owner_user_id r1 = Some owner"
    using same assms(4,5) by (auto simp: same_request_def known_server_def SERVER_FOREIGN_def SERVER_IRAN_def)
  have ok1: "ledger_ok (put_row db r1)" using ledger_ok_steps [OF terminal_store [OF r t st(1)] ok] .
  let ?h = "req_home_server row"
  have h: "?h = normalize_server (Some (req_home_server r1)) (current_server env)"
    using same assms(5) by (simp add: same_request_def normalize_server_fixed)
  have p: "db' = snd (promote_next_for_owner env lifetime now (req_home_server r1) owner (put_row db r1))"
    and row': "row' = r1"
    using sp ne by (auto simp: store_and_promote_def Let_def split: prod.split_asm sum.split_asm)
  have "seat_of ?h owner db' =
      seat_promote (seatable env lifetime now ?h (put_row db r1)) (seat_of ?h owner (put_row db r1))"
    unfolding p by (rule promotion_seat [OF ok1 h])
  then have "fst (seat_of ?h owner db') \<or> snd (seat_of ?h owner db') = []"
    by (simp add: seat_promote_busy)
  then have "owner_has_occupying_request db' ?h owner \<or> queued_rows db' ?h owner = []"
    by (simp add: seat_of_def)
  then show ?thesis
    using same row' st legal_from_live [OF st(2)] transition_status(1) [OF t] by (simp add: request_live_def)
qed

theorem seat_is_refilled_witness:
  "\<exists>row row' db'. find_row ot_sample 1 = Some row \<and>
     reject_by_owner ot_sample_env True (Some 1) 7 80000000 ot_sample row = (Inr row', db') \<and>
     (owner_has_occupying_request db' (req_home_server row) 7 \<or> queued_rows db' (req_home_server row) 7 = [])"
proof -
  let ?row = "hd (ldb_rows ot_sample)"
  have f: "find_row ot_sample 1 = Some ?row" by code_simp
  have "\<not> isl (fst (reject_by_owner ot_sample_env True (Some 1) 7 80000000 ot_sample ?row))" by code_simp
  then obtain row' db' where r: "reject_by_owner ot_sample_env True (Some 1) 7 80000000 ot_sample ?row = (Inr row', db')"
    by (metis (no_types) isl_def obj_sumE prod.collapse)
  have o: "req_owner_user_id ?row = Some 7" "known_server (req_home_server ?row)"
    by (code_simp, code_simp)
  show ?thesis
    using f r seat_is_refilled [OF ot_sample_reachable f _ o, of 1 7 80000000 row' db'] by blast
qed

lemma remaining_pos: "0 < remaining_seconds_until (Some d) now \<longleftrightarrow> now + us_per_second \<le> d"
proof -
  have "0 < max 0 (trunc_div (d - now) us_per_second) \<longleftrightarrow> us_per_second \<le> d - now"
    by (auto simp: trunc_div_def pos_imp_zdiv_pos_iff)
  then show ?thesis by (simp add: remaining_seconds_until_def algebra_simps)
qed

text \<open>The decision window.  At every instant exactly one of the two ends of a presented request is open: the
  owner may approve or reject as long as at least one whole second is left, and the expiry is accepted
  from then on.  The remaining time is truncated to whole seconds, so the window closes up to one second
  before the stored deadline.\<close>

theorem decision_window_is_exclusive:
  assumes "req_status row = OVERTIME_PRESENTED" and "req_owner_user_id row = Some u"
    and "req_decision_deadline_at row = Some d"
  shows "(ensure_owner_may_decide row u now = None \<longleftrightarrow> now + 1000000 \<le> d) \<and>
    (now + 1000000 \<le> d \<longrightarrow>
       expire_decision env p lifetime now db row = (Inl (OvertimeError ILLEGAL_TRANSITION None), db)) \<and>
    (d < now + 1000000 \<longrightarrow>
       (\<exists>row'. fst (expire_decision env False lifetime now db row) = Inr row' \<and>
          req_status row' = OVERTIME_DECISION_EXPIRED \<and> req_decided_at row' = Some now)) \<and>
    (v \<noteq> u \<longrightarrow> ensure_owner_may_decide row v now = Some (OvertimeError NOT_OWNER None))"
proof -
  have nt: "req_status row \<notin> set TERMINAL_LIKE" using assms(1) by (simp add: TERMINAL_LIKE_def status_sets)
  have may: "ensure_owner_may_decide row u now = None \<longleftrightarrow> now + 1000000 \<le> d"
    using assms nt remaining_pos [of d now] by (auto simp: ensure_owner_may_decide_def)
  have early: "expire_decision env p lifetime now db row = (Inl (OvertimeError ILLEGAL_TRANSITION None), db)"
    if "now + 1000000 \<le> d" for p
    using assms nt that remaining_pos [of d now] by (simp add: expire_decision_def)
  let ?dec = "(plain_decision OVERTIME_DECISION_EXPIRED)
                   \<lparr>rd_decided_at := Some now, rd_terminal_reason := Some ''decision_timeout''\<rparr>"
  obtain r1 where r1: "apply_overtime_transition now row OVERTIME_DECISION_EXPIRED ?dec = Inr r1"
    using transition_allowed [of OVERTIME_DECISION_EXPIRED row] assms(1) by auto
  have "req_decided_at r1 = Some now"
    using transition_status(3) [OF r1]
    by (auto simp: apply_offer_request_decision_def plain_decision_def or_keep_def split: if_split_asm)
  moreover have "fst (expire_decision env False lifetime now db row) = Inr r1" if "d < now + 1000000"
    using assms nt that remaining_pos [of d now] r1 by (simp add: expire_decision_def store_and_promote_def)
  ultimately have late: "d < now + 1000000 \<longrightarrow>
      (\<exists>row'. fst (expire_decision env False lifetime now db row) = Inr row' \<and>
         req_status row' = OVERTIME_DECISION_EXPIRED \<and> req_decided_at row' = Some now)"
    using transition_status(1) [OF r1] by blast
  have other: "v \<noteq> u \<longrightarrow> ensure_owner_may_decide row v now = Some (OvertimeError NOT_OWNER None)"
    using assms nt by (simp add: ensure_owner_may_decide_def)
  show ?thesis using may early late other by blast
qed

theorem decision_window_is_exclusive_witness:
  "ensure_owner_may_decide (hd (ldb_rows ot_sample)) 7 99000000 = None \<and>
   ensure_owner_may_decide (hd (ldb_rows ot_sample)) 7 99000001 \<noteq> None"
proof -
  let ?row = "hd (ldb_rows ot_sample)"
  have r: "req_status ?row = OVERTIME_PRESENTED" "req_owner_user_id ?row = Some 7"
    "req_decision_deadline_at ?row = Some 100000000" by (code_simp, code_simp, code_simp)
  show ?thesis using decision_window_is_exclusive [OF r, of 99000000] decision_window_is_exclusive [OF r, of 99000001]
    by simp
qed

lemma cooldown_positive:
  assumes "r \<in> set (ldb_rows db)" and "req_status r \<in> set OVERTIME_COOLDOWN_TRIGGER_STATUSES"
    and "req_requester_user_id r = Some u" and "req_offer_public_id r = public_id"
    and "req_decided_at r = Some t" and "now + 1000000 \<le> t + 30000000"
  shows "0 < cooldown_remaining_for_requester_offer db u public_id now"
proof -
  define stamps where "stamps = List.map_filter
            (\<lambda>r. if req_requester_user_id r = Some u \<and> req_offer_public_id r = public_id \<and>
                    req_status r \<in> set OVERTIME_COOLDOWN_TRIGGER_STATUSES
                 then req_decided_at r else None) (ldb_rows db)"
  have "t \<in> set stamps" using assms(1-5) by (force simp: stamps_def List.map_filter_def)
  then obtain x xs where x: "stamps = x # xs" by (cases stamps) auto
  have "t \<le> fold max xs x" using \<open>t \<in> set stamps\<close> fold_max_ge [of x xs] unfolding x by auto
  then have "now + us_per_second \<le> fold max xs x + OVERTIME_COOLDOWN_SECONDS * us_per_second"
    using assms(6) by (simp add: OVERTIME_COOLDOWN_SECONDS_def)
  then have "0 < cooldown_remaining_seconds (Some (fold max xs x)) now"
    unfolding cooldown_remaining_seconds_def by (simp add: remaining_pos)
  then show ?thesis
    unfolding cooldown_remaining_for_requester_offer_def Let_def stamps_def [symmetric] by (simp add: x)
qed

text \<open>The cooldown: after the owner rejected a request or let it expire, the same requester cannot place
  another request on the same offer while at least one of the thirty seconds is left; every attempt leaves
  the ledger as it is.\<close>

theorem cooldown_blocks_requester:
  assumes "r \<in> set (ldb_rows db)" and "req_status r \<in> {OVERTIME_REJECTED_BY_OWNER, OVERTIME_DECISION_EXPIRED}"
    and "req_requester_user_id r = Some (cc_requester_user_id c)"
    and "py_strip_or_none (oo_public_id (cc_offer c)) = Some (req_offer_public_id r)"
    and "req_decided_at r = Some t" and "now + 1000000 \<le> t + 30000000"
  shows "snd (create_overtime_request env now pid db c) = db"
proof (rule ccontr)
  obtain res db' where e: "create_overtime_request env now pid db c = (res, db')" by fastforce
  assume "snd (create_overtime_request env now pid db c) \<noteq> db"
  then obtain public_id where g: "create_guards env now db c public_id = None"
    "py_strip_or_none (oo_public_id (cc_offer c)) = Some public_id"
    unfolding create_overtime_request_def by (auto split: option.split_asm sum.split_asm if_split_asm)
  then have "\<not> 0 < cooldown_remaining_for_requester_offer db (cc_requester_user_id c) public_id now"
    unfolding create_guards_def Let_def by (auto split: if_split_asm sum.split_asm option.split_asm prod.split_asm)
  moreover have "0 < cooldown_remaining_for_requester_offer db (cc_requester_user_id c) public_id now"
    by (rule cooldown_positive [OF assms(1) _ assms(3) _ assms(5,6)])
      (use assms(2,4) g(2) in \<open>auto simp: status_sets\<close>)
  ultimately show False by blast
qed

theorem cooldown_blocks_requester_witness:
  "snd (create_overtime_request ot_sample_env 110000000 ''z'' ot_expired (ot_sample_command 1 8 ''m'')) = ot_expired"
proof -
  let ?r = "hd (ldb_rows ot_expired)"
  have r: "?r \<in> set (ldb_rows ot_expired)" by code_simp
  have "req_status ?r \<in> {OVERTIME_REJECTED_BY_OWNER, OVERTIME_DECISION_EXPIRED}"
    "req_requester_user_id ?r = Some (cc_requester_user_id (ot_sample_command 1 8 ''m''))"
    "py_strip_or_none (oo_public_id (cc_offer (ot_sample_command 1 8 ''m''))) = Some (req_offer_public_id ?r)"
    "req_decided_at ?r = Some 100000000" by (code_simp, code_simp, code_simp, code_simp)
  then show ?thesis using cooldown_blocks_requester [OF r] by simp
qed

section \<open>The delivery sweep\<close>

text \<open>The sweeper of overdue deliveries releases the owner's seat without promoting the next request, and it
  measures the grace period from the receipt of the request, not from the start of its delivery: a request
  that waited in the queue for two minutes is withdrawn in the first sweep after its promotion, and the
  request behind it stays queued although the seat is free and it could be seated.\<close>

definition ot_foreign_offer :: "int \<Rightarrow> ot_offer" where
  "ot_foreign_offer i = (ot_sample_offer i)\<lparr>oo_home_server := Some ''foreign''\<rparr>"

definition ot_foreign_env :: ot_env where
  "ot_foreign_env =
     \<lparr>oe_server_mode = Some ''foreign'', oe_offer = (\<lambda>i. Some (ot_foreign_offer i)),
      oe_owner = (\<lambda>_. Some \<lparr>oa_telegram_id = Some 5, oa_access_allowed = True, oa_access_reason = None\<rparr>),
      oe_mode = QUEUE_V1, oe_prompt_error = (\<lambda>_ _. None), oe_job_id = req_id\<rparr>"

definition ot_foreign_command :: "int \<Rightarrow> int \<Rightarrow> string \<Rightarrow> create_command" where
  "ot_foreign_command offer requester key = (ot_sample_command offer requester key)\<lparr>cc_offer := ot_foreign_offer offer\<rparr>"

definition ot_swept :: ledger_db where
  "ot_swept =
     snd (expire_overdue_delivering_requests ot_foreign_env 50 190000000
       (snd (create_overtime_request ot_foreign_env 70000000 ''q''
         (snd (create_overtime_request ot_foreign_env 70000000 ''p'' ot_empty (ot_foreign_command 1 8 ''k'')))
         (ot_foreign_command 2 9 ''l''))))"

lemma delivery_sweep_leaves_seat_idle:
  "seat_of ''foreign'' 7 ot_swept = (False, [2]) \<and> seatable ot_foreign_env 1 190000000 ''foreign'' ot_swept 2"
  by (rule conjI; code_simp)

end
