(* ===== verification/MarketSchedule.thy ===== *)
theory MarketSchedule
  imports Prelude
begin

text \<open>
  The market calendar of \<open>core/services/market_schedule_service.py\<close>: the rule of a day, whether the market is
  open, and the search for the next and the current transition.  A local date-time is its wall clock in
  microseconds since 1970-01-01 00:00 local; the code compares and subtracts date-times that share one
  \<open>tzinfo\<close>, which Python does on the wall clock.  The time-zone data base (\<open>zone_exists\<close>, \<open>to_local\<close>) and
  \<open>time.fromisoformat\<close> (\<open>iso_time\<close>, for times without an offset) are arguments; a zone name is
  either found or reported as not found.
\<close>

section \<open>Data\<close>

type_synonym wall = int

definition day_us :: int where
  "day_us = 86400000000"

definition date_of :: "wall \<Rightarrow> int" where
  "date_of t = t div day_us"

definition time_of :: "wall \<Rightarrow> int" where
  "time_of t = t mod day_us"

definition combine :: "int \<Rightarrow> int \<Rightarrow> wall" where
  "combine d tod = d * day_us + tod"

text \<open>Monday is 0; day 0 is a Thursday.\<close>

definition weekday :: "int \<Rightarrow> int" where
  "weekday d = (d + 3) mod 7"

datatype override_type = CLOSED_ALL_DAY | OPEN_ALL_DAY | CUSTOM_HOURS

record schedule_override =
  so_date :: "int option"
  so_type :: override_type
  so_open_time_local :: "int option"
  so_close_time_local :: "int option"

record market_settings =
  ms_enabled :: bool
  ms_timezone :: string
  ms_open_time_local :: "string option"
  ms_close_time_local :: "string option"
  ms_closed_weekdays :: "int list"

datatype rule_source = OverrideClosed | OverrideOpen | OverrideHours | WeeklyClosed | DailyWindow
  | InvalidSchedule

record day_rule =
  dr_source :: rule_source
  dr_all_day_open :: bool
  dr_all_day_closed :: bool
  dr_open_time_local :: "int option"
  dr_close_time_local :: "int option"

datatype schedule_reason = ScheduleDisabled | Plain rule_source | BeforeOpen rule_source
  | AfterClose rule_source | WithinHours rule_source

record evaluation =
  ev_is_open :: bool
  ev_reason :: schedule_reason
  ev_next_transition_at :: "wall option"
  ev_timezone :: string
  ev_current_transition_at :: "wall option"

definition NEXT_TRANSITION_SEARCH_DAYS :: nat where
  "NEXT_TRANSITION_SEARCH_DAYS = 14"

definition DEFAULT_MARKET_TIMEZONE :: string where
  "DEFAULT_MARKET_TIMEZONE = ''Asia/Tehran''"

section \<open>Operations\<close>

definition get_market_timezone_name :: "(string \<Rightarrow> bool) \<Rightarrow> market_settings \<Rightarrow> string" where
  "get_market_timezone_name zone_exists st =
     (let name = py_strip (if ms_timezone st = [] then DEFAULT_MARKET_TIMEZONE else ms_timezone st)
      in if name = [] then DEFAULT_MARKET_TIMEZONE
         else if zone_exists name then name else DEFAULT_MARKET_TIMEZONE)"

definition parse_local_time :: "(string \<Rightarrow> int option) \<Rightarrow> string option \<Rightarrow> int option" where
  "parse_local_time iso_time v =
     (case py_strip_or_none v of None \<Rightarrow> None | Some s \<Rightarrow> iso_time s)"

definition normalize_closed_weekdays :: "market_settings \<Rightarrow> int list" where
  "normalize_closed_weekdays st = filter (\<lambda>w. 0 \<le> w \<and> w \<le> 6) (ms_closed_weekdays st)"

definition override_mapping :: "schedule_override list \<Rightarrow> (int, schedule_override) dict" where
  "override_mapping overrides =
     fold (\<lambda>ov m. case so_date ov of None \<Rightarrow> m | Some d \<Rightarrow> dict_put d ov m) overrides []"

definition closed_rule :: "rule_source \<Rightarrow> day_rule" where
  "closed_rule src = \<lparr>dr_source = src, dr_all_day_open = False, dr_all_day_closed = True,
     dr_open_time_local = None, dr_close_time_local = None\<rparr>"

definition hours_rule :: "rule_source \<Rightarrow> int option \<Rightarrow> int option \<Rightarrow> day_rule" where
  "hours_rule src op cl =
     (case (op, cl) of
        (Some a, Some b) \<Rightarrow>
          (if a \<ge> b then closed_rule InvalidSchedule
           else \<lparr>dr_source = src, dr_all_day_open = False, dr_all_day_closed = False,
                 dr_open_time_local = Some a, dr_close_time_local = Some b\<rparr>)
      | _ \<Rightarrow> closed_rule InvalidSchedule)"

definition resolve_day_rule ::
  "(string \<Rightarrow> int option) \<Rightarrow> market_settings \<Rightarrow> (int, schedule_override) dict \<Rightarrow> int \<Rightarrow> day_rule" where
  "resolve_day_rule iso_time st overrides d =
     (case dict_get overrides d of
        Some ov \<Rightarrow>
          (case so_type ov of
             CLOSED_ALL_DAY \<Rightarrow> closed_rule OverrideClosed
           | OPEN_ALL_DAY \<Rightarrow>
               \<lparr>dr_source = OverrideOpen, dr_all_day_open = True, dr_all_day_closed = False,
                dr_open_time_local = None, dr_close_time_local = None\<rparr>
           | CUSTOM_HOURS \<Rightarrow> hours_rule OverrideHours (so_open_time_local ov) (so_close_time_local ov))
      | None \<Rightarrow>
          (if weekday d \<in> set (normalize_closed_weekdays st) then closed_rule WeeklyClosed
           else hours_rule DailyWindow (parse_local_time iso_time (ms_open_time_local st))
                  (parse_local_time iso_time (ms_close_time_local st))))"

definition coerce_local_datetime :: "(int \<Rightarrow> wall) \<Rightarrow> int \<Rightarrow> pydt option \<Rightarrow> wall" where
  "coerce_local_datetime to_local utc_now current_time =
     (case current_time of
        None \<Rightarrow> to_local utc_now
      | Some (Naive w) \<Rightarrow> w
      | Some (Aware w offset) \<Rightarrow> to_local (w - offset))"

definition is_open_for_rule :: "wall \<Rightarrow> day_rule \<Rightarrow> bool" where
  "is_open_for_rule t rule =
     (if dr_source rule = InvalidSchedule then False
      else if dr_all_day_open rule then True
      else if dr_all_day_closed rule then False
      else (case (dr_open_time_local rule, dr_close_time_local rule) of
              (Some a, Some b) \<Rightarrow> a \<le> time_of t \<and> time_of t < b
            | _ \<Rightarrow> False))"

definition is_market_open_at ::
  "(string \<Rightarrow> int option) \<Rightarrow> market_settings \<Rightarrow> (int, schedule_override) dict \<Rightarrow> wall \<Rightarrow> bool" where
  "is_market_open_at iso_time st overrides t =
     (if \<not> ms_enabled st then True
      else is_open_for_rule t (resolve_day_rule iso_time st overrides (date_of t)))"

definition reason_for_local_time :: "wall \<Rightarrow> day_rule \<Rightarrow> schedule_reason" where
  "reason_for_local_time t rule =
     (if dr_source rule = InvalidSchedule then Plain InvalidSchedule
      else if dr_all_day_open rule then Plain (dr_source rule)
      else if dr_all_day_closed rule then Plain (dr_source rule)
      else if (case dr_open_time_local rule of None \<Rightarrow> False | Some a \<Rightarrow> time_of t < a)
      then BeforeOpen (dr_source rule)
      else if (case dr_close_time_local rule of None \<Rightarrow> False | Some b \<Rightarrow> time_of t \<ge> b)
      then AfterClose (dr_source rule)
      else WithinHours (dr_source rule))"

text \<open>The instants of one day at which the state may change: midnight, opening and closing.\<close>

definition day_instants ::
  "(string \<Rightarrow> int option) \<Rightarrow> market_settings \<Rightarrow> (int, schedule_override) dict \<Rightarrow> int \<Rightarrow> wall list" where
  "day_instants iso_time st overrides d =
     (let rule = resolve_day_rule iso_time st overrides d
      in combine d 0 #
         (if dr_source rule = InvalidSchedule then []
          else (case dr_open_time_local rule of None \<Rightarrow> [] | Some a \<Rightarrow> [combine d a]) @
               (case dr_close_time_local rule of None \<Rightarrow> [] | Some b \<Rightarrow> [combine d b])))"

definition candidate_transition_datetimes ::
  "(string \<Rightarrow> int option) \<Rightarrow> market_settings \<Rightarrow> (int, schedule_override) dict \<Rightarrow> wall \<Rightarrow> wall list" where
  "candidate_transition_datetimes iso_time st overrides now =
     sort (remdups (concat (map
       (\<lambda>k. filter (\<lambda>c. c > now) (day_instants iso_time st overrides (date_of now + int k)))
       [0..<NEXT_TRANSITION_SEARCH_DAYS + 1])))"

fun first_transition :: "(wall \<Rightarrow> bool) \<Rightarrow> bool \<Rightarrow> wall list \<Rightarrow> wall option" where
  "first_transition open_at current [] = None"
| "first_transition open_at current (c # cs) =
     (let before = open_at (c - 1); after = open_at c
      in if before \<noteq> after \<and> after \<noteq> current then Some c
         else if before \<noteq> after then Some c
         else first_transition open_at current cs)"

definition next_transition_at ::
  "(string \<Rightarrow> int option) \<Rightarrow> market_settings \<Rightarrow> (int, schedule_override) dict \<Rightarrow> wall \<Rightarrow> wall option" where
  "next_transition_at iso_time st overrides now =
     (if \<not> ms_enabled st then None
      else first_transition (is_market_open_at iso_time st overrides)
             (is_market_open_at iso_time st overrides now)
             (candidate_transition_datetimes iso_time st overrides now))"

definition past_transition_datetimes ::
  "(string \<Rightarrow> int option) \<Rightarrow> market_settings \<Rightarrow> (int, schedule_override) dict \<Rightarrow> wall \<Rightarrow> wall list" where
  "past_transition_datetimes iso_time st overrides now =
     rev (sort (remdups (concat (map
       (\<lambda>k. filter (\<lambda>c. c \<le> now) (day_instants iso_time st overrides
              (date_of now - int NEXT_TRANSITION_SEARCH_DAYS + int k)))
       [0..<NEXT_TRANSITION_SEARCH_DAYS + 1]))))"

fun last_transition :: "(wall \<Rightarrow> bool) \<Rightarrow> bool \<Rightarrow> wall list \<Rightarrow> wall option" where
  "last_transition open_at current [] = None"
| "last_transition open_at current (c # cs) =
     (if open_at (c - 1) \<noteq> open_at c \<and> open_at c = current then Some c
      else last_transition open_at current cs)"

definition current_transition_at ::
  "(string \<Rightarrow> int option) \<Rightarrow> market_settings \<Rightarrow> (int, schedule_override) dict \<Rightarrow> wall \<Rightarrow> wall option" where
  "current_transition_at iso_time st overrides now =
     (if \<not> ms_enabled st then None
      else last_transition (is_market_open_at iso_time st overrides)
             (is_market_open_at iso_time st overrides now)
             (past_transition_datetimes iso_time st overrides now))"

definition evaluate_market_schedule ::
  "(string \<Rightarrow> bool) \<Rightarrow> (string \<Rightarrow> int \<Rightarrow> wall) \<Rightarrow> (string \<Rightarrow> int option) \<Rightarrow> int \<Rightarrow> market_settings
     \<Rightarrow> pydt option \<Rightarrow> schedule_override list \<Rightarrow> evaluation" where
  "evaluate_market_schedule zone_exists to_local iso_time utc_now st current_time overrides =
     (let tz = get_market_timezone_name zone_exists st;
          now = coerce_local_datetime (to_local tz) utc_now current_time
      in if \<not> ms_enabled st
         then \<lparr>ev_is_open = True, ev_reason = ScheduleDisabled, ev_next_transition_at = None,
               ev_timezone = tz, ev_current_transition_at = None\<rparr>
         else
           (let by_date = override_mapping overrides;
                rule = resolve_day_rule iso_time st by_date (date_of now)
            in \<lparr>ev_is_open = is_open_for_rule now rule, ev_reason = reason_for_local_time now rule,
                ev_next_transition_at = next_transition_at iso_time st by_date now, ev_timezone = tz,
                ev_current_transition_at = current_transition_at iso_time st by_date now\<rparr>))"

section \<open>The state changes only at the instants of a day\<close>

lemma date_combine: "0 \<le> tod \<Longrightarrow> tod < day_us \<Longrightarrow> date_of (combine d tod) = d \<and> time_of (combine d tod) = tod"
  by (simp add: date_of_def time_of_def combine_def day_us_def)

lemma combine_split: "combine (date_of t) (time_of t) = t"
  by (simp add: date_of_def time_of_def combine_def)

lemma previous_instant:
  assumes "time_of t \<noteq> 0"
  shows "date_of (t - 1) = date_of t" "time_of (t - 1) = time_of t - 1"
proof -
  have r: "0 < time_of t" "time_of t < day_us"
    using assms pos_mod_sign [of day_us t] pos_mod_bound [of day_us t] by (auto simp: time_of_def day_us_def)
  have "t - 1 = combine (date_of t) (time_of t - 1)" using combine_split [of t] by (simp add: combine_def)
  then show "date_of (t - 1) = date_of t" "time_of (t - 1) = time_of t - 1"
    using date_combine [of "time_of t - 1" "date_of t"] r by simp_all
qed

lemma change_instant:
  assumes "is_market_open_at iso_time st overrides (t - 1) \<noteq> is_market_open_at iso_time st overrides t"
  shows "t \<in> set (day_instants iso_time st overrides (date_of t))"
proof (cases "time_of t = 0")
  case True
  then have "t = combine (date_of t) 0" using combine_split [of t] by simp
  then show ?thesis by (simp add: day_instants_def Let_def)
next
  case False
  note p = previous_instant [OF False]
  define rule where "rule = resolve_day_rule iso_time st overrides (date_of t)"
  have d: "is_open_for_rule (t - 1) rule \<noteq> is_open_for_rule t rule"
    using assms p(1) by (auto simp: is_market_open_at_def rule_def split: if_split_asm)
  then obtain a b where ab: "dr_open_time_local rule = Some a" "dr_close_time_local rule = Some b"
    "dr_source rule \<noteq> InvalidSchedule"
    "(a \<le> time_of t - 1 \<and> time_of t - 1 < b) \<noteq> (a \<le> time_of t \<and> time_of t < b)"
    by (auto simp: is_open_for_rule_def p(2) split: if_split_asm option.split_asm)
  then have "time_of t = a \<or> time_of t = b" by auto
  then show ?thesis using ab combine_split [of t] by (auto simp: day_instants_def Let_def rule_def)
qed

lemma constant_forward:
  assumes "\<And>t. now < t \<Longrightarrow> t \<le> u \<Longrightarrow> f (t - 1) = f t" and "now \<le> u"
  shows "f u = f (now :: int)"
proof -
  have "now + int n \<le> u \<Longrightarrow> f (now + int n) = f now" for n
  proof (induction n)
    case (Suc n)
    then show ?case using assms(1) [of "now + int (Suc n)"] by simp
  qed simp
  from this [of "nat (u - now)"] show ?thesis using assms(2) by simp
qed

lemma constant_backward:
  assumes "u \<le> now" and "\<And>t. u < t \<Longrightarrow> t \<le> now \<Longrightarrow> f (t - 1) = f t \<or> f t \<noteq> f (now :: int)"
  shows "f u = f now"
proof -
  have "u \<le> now - int n \<Longrightarrow> f (now - int n) = f now" for n
  proof (induction n)
    case (Suc n)
    then have "f (now - int n) = f now" by simp
    moreover have "f (now - int n - 1) = f (now - int n)"
      using assms(2) [of "now - int n"] Suc.prems calculation by auto
    ultimately show ?case by (simp add: algebra_simps)
  qed simp
  from this [of "nat (now - u)"] show ?thesis using assms(1) by simp
qed

section \<open>The transition search\<close>

definition time_ok :: "int option \<Rightarrow> bool" where
  "time_ok v \<longleftrightarrow> (case v of None \<Rightarrow> True | Some a \<Rightarrow> 0 \<le> a \<and> a < day_us)"

definition clock_times :: "(string \<Rightarrow> int option) \<Rightarrow> (int, schedule_override) dict \<Rightarrow> bool" where
  "clock_times iso_time overrides \<longleftrightarrow> (\<forall>s. time_ok (iso_time s)) \<and>
     (\<forall>d ov. dict_get overrides d = Some ov \<longrightarrow> time_ok (so_open_time_local ov) \<and> time_ok (so_close_time_local ov))"

lemma hours_rule_ok:
  "time_ok a \<Longrightarrow> time_ok b \<Longrightarrow>
   time_ok (dr_open_time_local (hours_rule src a b)) \<and> time_ok (dr_close_time_local (hours_rule src a b))"
  by (auto simp: hours_rule_def closed_rule_def time_ok_def split: option.split)

lemma resolve_times:
  assumes "clock_times iso_time overrides"
  shows "time_ok (dr_open_time_local (resolve_day_rule iso_time st overrides d)) \<and>
    time_ok (dr_close_time_local (resolve_day_rule iso_time st overrides d))"
proof -
  have n: "time_ok None" by (simp add: time_ok_def)
  have p: "time_ok (parse_local_time iso_time v)" for v
    using assms n by (auto simp: parse_local_time_def clock_times_def split: option.split)
  show ?thesis using assms hours_rule_ok [OF p p] hours_rule_ok n
    by (auto simp: resolve_day_rule_def closed_rule_def clock_times_def
        split: option.split override_type.split)
qed

lemma day_instants_date:
  assumes "clock_times iso_time overrides" and "x \<in> set (day_instants iso_time st overrides d)"
  shows "date_of x = d"
  using assms(2) resolve_times [OF assms(1), of st d] date_combine [of 0 d] date_combine [of _ d]
  by (auto simp: day_instants_def Let_def time_ok_def day_us_def split: if_split_asm option.split_asm)

lemma first_transition_Some:
  assumes "sorted cs" and "first_transition f cur cs = Some c"
  shows "c \<in> set cs \<and> f (c - 1) \<noteq> f c \<and> (\<forall>x \<in> set cs. x < c \<longrightarrow> f (x - 1) = f x)"
  using assms by (induction cs) (auto simp: Let_def split: if_split_asm)

lemma first_transition_None:
  "first_transition f cur cs = None \<Longrightarrow> x \<in> set cs \<Longrightarrow> f (x - 1) = f x"
  by (induction cs) (auto simp: Let_def split: if_split_asm)

lemma last_transition_Some:
  assumes "sorted_wrt (\<ge>) cs" and "last_transition f cur cs = Some c"
  shows "c \<in> set cs \<and> f (c - 1) \<noteq> f c \<and> f c = cur \<and>
    (\<forall>x \<in> set cs. c < x \<longrightarrow> f (x - 1) = f x \<or> f x \<noteq> cur)"
  using assms by (induction cs) (auto split: if_split_asm)

lemma last_transition_None:
  "last_transition f cur cs = None \<Longrightarrow> x \<in> set cs \<Longrightarrow> f (x - 1) = f x \<or> f x \<noteq> cur"
  by (induction cs) (auto split: if_split_asm)

lemma date_mono: "s \<le> t \<Longrightarrow> date_of s \<le> date_of t"
  by (simp add: date_of_def day_us_def zdiv_mono1)

lemma change_is_candidate:
  assumes "is_market_open_at iso_time st overrides (t - 1) \<noteq> is_market_open_at iso_time st overrides t"
    and "now < t" and "date_of t \<le> date_of now + 14"
  shows "t \<in> set (candidate_transition_datetimes iso_time st overrides now)"
proof -
  define k where "k = nat (date_of t - date_of now)"
  have k: "date_of now + int k = date_of t" "k < 15"
    using date_mono [of now t] assms(2,3) by (auto simp: k_def)
  then show ?thesis using change_instant [OF assms(1)] assms(2)
    by (auto simp: candidate_transition_datetimes_def NEXT_TRANSITION_SEARCH_DAYS_def intro!: bexI [of _ k])
qed

lemma change_is_past_candidate:
  assumes "is_market_open_at iso_time st overrides (t - 1) \<noteq> is_market_open_at iso_time st overrides t"
    and "t \<le> now" and "date_of now - 14 \<le> date_of t"
  shows "t \<in> set (past_transition_datetimes iso_time st overrides now)"
proof -
  define k where "k = nat (date_of t - (date_of now - 14))"
  have k: "date_of now - 14 + int k = date_of t" "k < 15"
    using date_mono [of t now] assms(2,3) by (auto simp: k_def)
  then show ?thesis using change_instant [OF assms(1)] assms(2)
    by (auto simp: past_transition_datetimes_def NEXT_TRANSITION_SEARCH_DAYS_def intro!: bexI [of _ k])
qed

lemma candidate_bounds:
  assumes "clock_times iso_time overrides" and "c \<in> set (candidate_transition_datetimes iso_time st overrides now)"
  shows "now < c \<and> date_of c \<le> date_of now + 14"
  using assms(2) day_instants_date [OF assms(1)]
  by (auto simp: candidate_transition_datetimes_def NEXT_TRANSITION_SEARCH_DAYS_def)

lemma past_candidate_bounds:
  assumes "clock_times iso_time overrides" and "c \<in> set (past_transition_datetimes iso_time st overrides now)"
  shows "c \<le> now \<and> date_of now - 14 \<le> date_of c"
  using assms(2) day_instants_date [OF assms(1)]
  by (auto simp: past_transition_datetimes_def NEXT_TRANSITION_SEARCH_DAYS_def)

lemma next_transition_is_change:
  assumes "ms_enabled st" and "clock_times iso_time overrides"
  defines "open_at \<equiv> is_market_open_at iso_time st overrides"
  shows "case next_transition_at iso_time st overrides now of
        Some c \<Rightarrow> now < c \<and> open_at c \<noteq> open_at now \<and> (\<forall>t. now \<le> t \<and> t < c \<longrightarrow> open_at t = open_at now)
      | None \<Rightarrow> \<forall>t. now \<le> t \<and> date_of t \<le> date_of now + 14 \<longrightarrow> open_at t = open_at now"
proof -
  let ?cs = "candidate_transition_datetimes iso_time st overrides now"
  have nt: "next_transition_at iso_time st overrides now = first_transition open_at (open_at now) ?cs"
    using assms(1) by (simp add: next_transition_at_def open_at_def)
  have change: "t \<in> set ?cs" if "open_at (t - 1) \<noteq> open_at t" "now < t" "date_of t \<le> date_of now + 14" for t
    using change_is_candidate that unfolding open_at_def by blast
  show ?thesis
  proof (cases "next_transition_at iso_time st overrides now")
    case None
    have "open_at u = open_at now" if "now \<le> u" "date_of u \<le> date_of now + 14" for u
    proof (rule constant_forward [OF _ that(1)])
      fix t
      assume t: "now < t" "t \<le> u"
      have d: "date_of t \<le> date_of now + 14" using date_mono [OF t(2)] that(2) by simp
      show "open_at (t - 1) = open_at t"
        using first_transition_None [OF None [unfolded nt]] change [OF _ t(1) d] by blast
    qed
    then show ?thesis unfolding None option.case by blast
  next
    case (Some c)
    have "sorted ?cs" by (simp add: candidate_transition_datetimes_def)
    then have c: "c \<in> set ?cs" "open_at (c - 1) \<noteq> open_at c" "\<forall>x \<in> set ?cs. x < c \<longrightarrow> open_at (x - 1) = open_at x"
      using first_transition_Some Some [unfolded nt] by blast+
    have b: "now < c" "date_of c \<le> date_of now + 14" using candidate_bounds [OF assms(2) c(1)] by auto
    have const: "open_at u = open_at now" if "now \<le> u" "u < c" for u
    proof (rule constant_forward [OF _ that(1)])
      fix t
      assume t: "now < t" "t \<le> u"
      have d: "t < c" "date_of t \<le> date_of now + 14" using t(2) that(2) date_mono [of t c] b(2) by simp_all
      show "open_at (t - 1) = open_at t" using c(3) change [OF _ t(1) d(2)] d(1) by blast
    qed
    have "open_at c \<noteq> open_at now" using const [of "c - 1"] b(1) c(2) by auto
    then show ?thesis unfolding Some option.case using const b(1) by blast
  qed
qed

lemma current_transition_is_change:
  assumes "ms_enabled st" and "clock_times iso_time overrides"
  defines "open_at \<equiv> is_market_open_at iso_time st overrides"
  shows "case current_transition_at iso_time st overrides now of
        Some c \<Rightarrow> c \<le> now \<and> open_at (c - 1) \<noteq> open_at now \<and> (\<forall>t. c \<le> t \<and> t \<le> now \<longrightarrow> open_at t = open_at now)
      | None \<Rightarrow> \<forall>t. t \<le> now \<and> date_of now - 14 \<le> date_of t \<longrightarrow> open_at t = open_at now"
proof -
  let ?cs = "past_transition_datetimes iso_time st overrides now"
  have ct: "current_transition_at iso_time st overrides now = last_transition open_at (open_at now) ?cs"
    using assms(1) by (simp add: current_transition_at_def open_at_def)
  have change: "t \<in> set ?cs" if "open_at (t - 1) \<noteq> open_at t" "t \<le> now" "date_of now - 14 \<le> date_of t" for t
    using change_is_past_candidate that unfolding open_at_def by blast
  have backwards: "open_at u = open_at now"
    if "u \<le> now" "\<And>t. u < t \<Longrightarrow> t \<le> now \<Longrightarrow> open_at (t - 1) = open_at t \<or> open_at t \<noteq> open_at now" for u
    by (rule constant_backward [OF that])
  show ?thesis
  proof (cases "current_transition_at iso_time st overrides now")
    case None
    have "open_at u = open_at now" if "u \<le> now" "date_of now - 14 \<le> date_of u" for u
    proof (rule backwards [OF that(1)])
      fix t
      assume t: "u < t" "t \<le> now"
      have d: "date_of now - 14 \<le> date_of t" using date_mono [of u t] t(1) that(2) by simp
      show "open_at (t - 1) = open_at t \<or> open_at t \<noteq> open_at now"
        using last_transition_None [OF None [unfolded ct]] change [OF _ t(2) d] by blast
    qed
    then show ?thesis unfolding None option.case by blast
  next
    case (Some c)
    have "sorted_wrt (\<ge>) ?cs" by (simp add: past_transition_datetimes_def sorted_wrt_rev)
    then have c: "c \<in> set ?cs" "open_at (c - 1) \<noteq> open_at c" "open_at c = open_at now"
      "\<forall>x \<in> set ?cs. c < x \<longrightarrow> open_at (x - 1) = open_at x \<or> open_at x \<noteq> open_at now"
      using last_transition_Some Some [unfolded ct] by blast+
    have b: "c \<le> now" "date_of now - 14 \<le> date_of c" using past_candidate_bounds [OF assms(2) c(1)] by auto
    have const: "open_at u = open_at now" if "c \<le> u" "u \<le> now" for u
    proof (rule backwards [OF that(2)])
      fix t
      assume t: "u < t" "t \<le> now"
      have d: "c < t" "date_of now - 14 \<le> date_of t" using t(1) that(1) date_mono [of c t] b(2) by simp_all
      show "open_at (t - 1) = open_at t \<or> open_at t \<noteq> open_at now"
        using c(4) change [OF _ t(2) d(2)] d(1) by blast
    qed
    then show ?thesis unfolding Some option.case using b(1) c(2,3) by metis
  qed
qed

text \<open>C27: The next transition the schedule announces is the next change of the market: the market keeps its state
  until then and has the other state at that instant; when none is announced, the market keeps its state to
  the end of the fourteenth day ahead.  Likewise the current transition is the instant since which the
  market has had its state.\<close>

theorem announced_transitions_are_changes:
  assumes "ms_enabled st" and "clock_times iso_time overrides"
  defines "open_at \<equiv> is_market_open_at iso_time st overrides"
  shows "(case next_transition_at iso_time st overrides now of
        Some c \<Rightarrow> now < c \<and> open_at c \<noteq> open_at now \<and> (\<forall>t. now \<le> t \<and> t < c \<longrightarrow> open_at t = open_at now)
      | None \<Rightarrow> \<forall>t. now \<le> t \<and> date_of t \<le> date_of now + 14 \<longrightarrow> open_at t = open_at now) \<and>
    (case current_transition_at iso_time st overrides now of
        Some c \<Rightarrow> c \<le> now \<and> open_at (c - 1) \<noteq> open_at now \<and> (\<forall>t. c \<le> t \<and> t \<le> now \<longrightarrow> open_at t = open_at now)
      | None \<Rightarrow> \<forall>t. t \<le> now \<and> date_of now - 14 \<le> date_of t \<longrightarrow> open_at t = open_at now)"
  unfolding open_at_def
  using next_transition_is_change [OF assms(1,2)] current_transition_is_change [OF assms(1,2)] by (rule conjI)

definition sample_iso :: "string \<Rightarrow> int option" where
  "sample_iso s = (if s = ''09:00'' then Some 32400000000 else if s = ''18:00'' then Some 64800000000 else None)"

definition sample_market :: market_settings where
  "sample_market = \<lparr>ms_enabled = True, ms_timezone = ''Asia/Tehran'', ms_open_time_local = Some ''09:00'',
     ms_close_time_local = Some ''18:00'', ms_closed_weekdays = [4]\<rparr>"

theorem announced_transitions_are_changes_witness:
  "next_transition_at sample_iso sample_market [] 70000000000 = Some 205200000000 \<and>
   is_market_open_at sample_iso sample_market [] 205200000000 \<noteq> is_market_open_at sample_iso sample_market [] 70000000000 \<and>
   is_market_open_at sample_iso sample_market [] 205199999999 = is_market_open_at sample_iso sample_market [] 70000000000"
proof -
  have n: "next_transition_at sample_iso sample_market [] 70000000000 = Some 205200000000" by code_simp
  have e: "ms_enabled sample_market" by (simp add: sample_market_def)
  have c: "clock_times sample_iso []" by (simp add: clock_times_def time_ok_def sample_iso_def day_us_def)
  have b: "(70000000000::int) \<le> 205199999999 \<and> (205199999999::int) < 205200000000" by simp
  show ?thesis using announced_transitions_are_changes [OF e c, of 70000000000] b unfolding n option.case by blast
qed

end
