(* ===== verification/CounterSync.thy ===== *)
theory CounterSync
  imports OfferRequestLedger
begin

text \<open>
  The replicated user counters: \<open>core/registration_identity.py\<close>, \<open>core/user_counter_sync.py\<close>, the counter part of
  the \<open>User\<close> listeners of \<open>core/events.py\<close>, the counter part of \<open>core/registration_sync_policy.py\<close> and
  \<open>_apply_user_counter_event\<close> of \<open>api/routers/sync.py\<close>.  Each of the two servers holds a row per user and a
  table of event receipts; a local change of a counter produces an event, which the other server applies.
  The model is the program with \<open>registration_sync_v2_enabled\<close>.

  Account names and mobile numbers are lists of code points.  Instants are microseconds of UTC.  Arguments
  stand for SHA-256 (\<open>sha256\<close>), the text of an instant (\<open>isoformat\<close>, \<open>fromisoformat\<close>) and the parser of
  UUIDs (\<open>uuid_text\<close>, the canonical text of a valid UUID); event identifiers are drawn at random by the
  producer and are arguments too.  The rows of a local change are loaded before they are changed, so that
  the attribute history holds the previous values.
\<close>

section \<open>Canonical identity\<close>

type_synonym ustring = "int list"

definition CANONICAL_EDGE_WHITESPACE :: ustring where
  "CANONICAL_EDGE_WHITESPACE =
     [9, 10, 11, 12, 13, 28, 29, 30, 31, 32, 133, 160, 5760, 8192, 8193, 8194, 8195, 8196, 8197, 8198,
      8199, 8200, 8201, 8202, 8232, 8233, 8239, 8287, 12288]"

definition CANONICAL_DIGIT_SOURCE :: ustring where
  "CANONICAL_DIGIT_SOURCE =
     [1776, 1777, 1778, 1779, 1780, 1781, 1782, 1783, 1784, 1785,
      1632, 1633, 1634, 1635, 1636, 1637, 1638, 1639, 1640, 1641]"

definition CANONICAL_DIGIT_TARGET :: ustring where
  "CANONICAL_DIGIT_TARGET =
     [48, 49, 50, 51, 52, 53, 54, 55, 56, 57, 48, 49, 50, 51, 52, 53, 54, 55, 56, 57]"

definition ASCII_UPPER :: ustring where
  "ASCII_UPPER = [65..90]"

definition ASCII_LOWER :: ustring where
  "ASCII_LOWER = [97..122]"

text \<open>\<open>str.translate(str.maketrans(source, target))\<close>.\<close>

definition translate :: "ustring \<Rightarrow> ustring \<Rightarrow> ustring \<Rightarrow> ustring" where
  "translate source target s =
     map (\<lambda>c. case map_of (zip source target) c of None \<Rightarrow> c | Some d \<Rightarrow> d) s"

definition strip_canonical_identity_whitespace :: "ustring option \<Rightarrow> ustring" where
  "strip_canonical_identity_whitespace v =
     (let s = (case v of None \<Rightarrow> [] | Some s \<Rightarrow> s);
          blank = (\<lambda>c. c \<in> set CANONICAL_EDGE_WHITESPACE)
      in rev (dropWhile blank (rev (dropWhile blank s))))"

definition normalize_persian_numerals :: "ustring \<Rightarrow> ustring" where
  "normalize_persian_numerals s =
     (if s = [] then s else translate CANONICAL_DIGIT_SOURCE CANONICAL_DIGIT_TARGET s)"

definition normalize_account_name :: "ustring option \<Rightarrow> ustring" where
  "normalize_account_name v =
     translate ASCII_UPPER ASCII_LOWER (normalize_persian_numerals (strip_canonical_identity_whitespace v))"

definition normalize_mobile_number :: "ustring option \<Rightarrow> ustring" where
  "normalize_mobile_number v = normalize_persian_numerals (strip_canonical_identity_whitespace v)"

section \<open>Rows and events\<close>

datatype counter_field = Trades_count | Commodities_traded_count | Channel_messages_count

definition USER_COUNTER_FIELDS :: "counter_field list" where
  "USER_COUNTER_FIELDS = [Trades_count, Commodities_traded_count, Channel_messages_count]"

fun field_name :: "counter_field \<Rightarrow> string" where
  "field_name Trades_count = ''trades_count''"
| "field_name Commodities_traded_count = ''commodities_traded_count''"
| "field_name Channel_messages_count = ''channel_messages_count''"

definition USER_COUNTER_MAX_VALUE :: int where
  "USER_COUNTER_MAX_VALUE = 2147483647"

definition USER_COUNTER_MAX_EPOCH :: int where
  "USER_COUNTER_MAX_EPOCH = 9223372036854775807"

definition USER_COUNTER_MAX_FUTURE_SKEW :: int where
  "USER_COUNTER_MAX_FUTURE_SKEW = 5 * us_per_minute"

record user_row =
  usr_id :: int
  usr_account_name :: ustring
  usr_mobile_number :: ustring
  usr_normalized_account_name :: ustring
  usr_normalized_mobile_number :: ustring
  usr_telegram_id :: "int option"
  usr_counters :: "counter_field \<Rightarrow> int"
  usr_counter_epoch :: int

record counter_event =
  ce_event_id :: string
  ce_kind :: string
  ce_epoch :: int
  ce_deltas :: "(counter_field, int) dict"
  ce_occurred_at :: int

record counter_receipt = counter_event +
  cr_source_server :: string
  cr_user_id :: int
  cr_event_hash :: string
  cr_outcome :: string

record replica =
  rp_server :: string
  rp_users :: "user_row list"
  rp_receipts :: "counter_receipt list"

datatype counter_error =
    NegativeIncrement | IncrementOutOfRange | EpochOutOfRange
  | ResetNotSequential | ResetNotZero | CounterDecrease
  | ResetConflictsWithHistory | ResetHistoryIncomplete | ResetBoundaryNotMonotone
  | ForeignWriteForbidden | DuplicateEventId

section \<open>Local changes\<close>

fun next_values ::
  "(counter_field \<Rightarrow> int) \<Rightarrow> (counter_field \<times> int) list \<Rightarrow> counter_error + (counter_field \<times> int) list" where
  "next_values counters [] = Inr []"
| "next_values counters ((f, delta) # ds) =
     (if delta = 0 then next_values counters ds
      else let next_value = counters f + delta
           in if delta > USER_COUNTER_MAX_VALUE \<or> next_value > USER_COUNTER_MAX_VALUE
              then Inl IncrementOutOfRange
              else (case next_values counters ds of
                      Inl e \<Rightarrow> Inl e
                    | Inr vs \<Rightarrow> Inr ((f, next_value) # vs)))"

definition set_counters :: "(counter_field \<times> int) list \<Rightarrow> user_row \<Rightarrow> user_row" where
  "set_counters vs user =
     user\<lparr>usr_counters := fold (\<lambda>(f, v) c. c(f := v)) vs (usr_counters user)\<rparr>"

definition increment_user_counters :: "user_row \<Rightarrow> int \<Rightarrow> int \<Rightarrow> int \<Rightarrow> counter_error + user_row" where
  "increment_user_counters user trades commodities channel_messages =
     (let deltas = [(Trades_count, trades), (Commodities_traded_count, commodities),
                    (Channel_messages_count, channel_messages)]
      in if list_ex (\<lambda>(f, d). d < 0) deltas then Inl NegativeIncrement
         else (case next_values (usr_counters user) deltas of
                 Inl e \<Rightarrow> Inl e
               | Inr vs \<Rightarrow> Inr (set_counters vs user)))"

definition reset_user_counters_in_memory :: "user_row \<Rightarrow> counter_error + user_row" where
  "reset_user_counters_in_memory user =
     (let current_epoch = (if usr_counter_epoch user = 0 then 1 else usr_counter_epoch user)
      in if current_epoch \<ge> USER_COUNTER_MAX_EPOCH then Inl EpochOutOfRange
         else Inr (set_counters (map (\<lambda>f. (f, 0)) USER_COUNTER_FIELDS)
                     (user\<lparr>usr_counter_epoch := current_epoch + 1\<rparr>)))"

text \<open>The event of a change of the row from \<open>old\<close> to \<open>new\<close>.\<close>

definition build_user_counter_event ::
  "string \<Rightarrow> int \<Rightarrow> user_row \<Rightarrow> user_row \<Rightarrow> counter_error + counter_event option" where
  "build_user_counter_event event_id now old new =
     (let previous = usr_counters old; current = usr_counters new;
          changed = filter (\<lambda>f. previous f \<noteq> current f) USER_COUNTER_FIELDS;
          epoch_changed = (usr_counter_epoch old \<noteq> usr_counter_epoch new)
      in if changed = [] \<and> \<not> epoch_changed then Inr None
         else if epoch_changed
         then if usr_counter_epoch new \<noteq> usr_counter_epoch old + 1 then Inl ResetNotSequential
              else if usr_counter_epoch new > USER_COUNTER_MAX_EPOCH then Inl EpochOutOfRange
              else if list_ex (\<lambda>f. current f \<noteq> 0) USER_COUNTER_FIELDS then Inl ResetNotZero
              else Inr (Some \<lparr>ce_event_id = event_id, ce_kind = ''reset'', ce_epoch = usr_counter_epoch new,
                              ce_deltas = [], ce_occurred_at = now\<rparr>)
         else
           (let deltas = map (\<lambda>f. (f, current f - previous f)) changed
            in if list_ex (\<lambda>(f, d). d < 0) deltas then Inl CounterDecrease
               else if list_ex (\<lambda>(f, d). d > USER_COUNTER_MAX_VALUE) deltas then Inl IncrementOutOfRange
               else
                 (let positive = filter (\<lambda>(f, d). d > 0) deltas
                  in if positive = [] then Inr None
                     else Inr (Some \<lparr>ce_event_id = event_id, ce_kind = ''increment'',
                                     ce_epoch = usr_counter_epoch new, ce_deltas = positive,
                                     ce_occurred_at = now\<rparr>))))"

text \<open>\<open>ORDER BY event_epoch DESC LIMIT 1\<close> over the reset receipts of a user.\<close>

definition latest_reset :: "counter_receipt list \<Rightarrow> int \<Rightarrow> counter_receipt option" where
  "latest_reset receipts user_id =
     min_by (\<lambda>r. - ce_epoch r) (filter (\<lambda>r. cr_user_id r = user_id \<and> ce_kind r = ''reset'') receipts)"

text \<open>The canonical JSON text behind the content hash.  The kinds, servers, field names and UUIDs hold no
  character that JSON escapes.\<close>

definition json_string :: "string \<Rightarrow> string" where
  "json_string s = [CHR 0x22] @ s @ [CHR 0x22]"

definition json_deltas :: "(counter_field, int) dict \<Rightarrow> string" where
  "json_deltas deltas =
     ''{'' @ concat (separate_by '','' (map (\<lambda>f. json_string (field_name f) @ '':'' @
         py_str_int (case dict_get deltas f of None \<Rightarrow> 0 | Some d \<Rightarrow> d))
       (filter (\<lambda>f. dict_get deltas f \<noteq> None)
          [Channel_messages_count, Commodities_traded_count, Trades_count]))) @ ''}''"

definition user_counter_event_content_hash ::
  "(string \<Rightarrow> string) \<Rightarrow> (int \<Rightarrow> string) \<Rightarrow> string option \<Rightarrow> counter_event \<Rightarrow> string" where
  "user_counter_event_content_hash sha256 isoformat source ev =
     sha256 (''{'' @ json_string ''deltas'' @ '':'' @ json_deltas (ce_deltas ev) @
       '','' @ json_string ''epoch'' @ '':'' @ py_str_int (ce_epoch ev) @
       '','' @ json_string ''event_id'' @ '':'' @ json_string (ce_event_id ev) @
       '','' @ json_string ''kind'' @ '':'' @ json_string (ce_kind ev) @
       '','' @ json_string ''occurred_at'' @ '':'' @ json_string (isoformat (ce_occurred_at ev)) @
       '','' @ json_string ''source_server'' @ '':'' @ json_string (py_norm source) @ ''}'')"

definition receipt_of :: "counter_event \<Rightarrow> string \<Rightarrow> int \<Rightarrow> string \<Rightarrow> string \<Rightarrow> counter_receipt" where
  "receipt_of ev source user_id event_hash outcome =
     \<lparr>ce_event_id = ce_event_id ev, ce_kind = ce_kind ev, ce_epoch = ce_epoch ev, ce_deltas = ce_deltas ev,
      ce_occurred_at = ce_occurred_at ev, cr_source_server = source, cr_user_id = user_id,
      cr_event_hash = event_hash, cr_outcome = outcome\<rparr>"

definition insert_receipt_row :: "counter_receipt \<Rightarrow> counter_receipt list \<Rightarrow> counter_error + counter_receipt list" where
  "insert_receipt_row row receipts =
     (if list_ex (\<lambda>r. ce_event_id r = ce_event_id row) receipts then Inl DuplicateEventId
      else Inr (receipts @ [row]))"

definition record_local_user_counter_event ::
  "(string \<Rightarrow> string) \<Rightarrow> (int \<Rightarrow> string) \<Rightarrow> string \<Rightarrow> int \<Rightarrow> counter_event \<Rightarrow> counter_receipt list
     \<Rightarrow> counter_error + counter_receipt list" where
  "record_local_user_counter_event sha256 isoformat source user_id ev receipts =
     (let row = receipt_of ev source user_id
                  (user_counter_event_content_hash sha256 isoformat (Some source) ev) ''applied'';
          previous = latest_reset receipts user_id;
          expected_previous_epoch = ce_epoch ev - 1
      in if ce_kind ev \<noteq> ''reset'' then insert_receipt_row row receipts
         else if expected_previous_epoch = 1 \<and> previous \<noteq> None then Inl ResetConflictsWithHistory
         else if expected_previous_epoch \<noteq> 1 \<and>
                 (case previous of None \<Rightarrow> True | Some r \<Rightarrow> ce_epoch r \<noteq> expected_previous_epoch)
         then Inl ResetHistoryIncomplete
         else if (case previous of None \<Rightarrow> False | Some r \<Rightarrow> ce_occurred_at ev \<le> ce_occurred_at r)
         then Inl ResetBoundaryNotMonotone
         else insert_receipt_row row receipts)"

definition find_user :: "replica \<Rightarrow> int \<Rightarrow> user_row option" where
  "find_user r user_id = find (\<lambda>u. usr_id u = user_id) (rp_users r)"

definition store_user :: "user_row \<Rightarrow> replica \<Rightarrow> replica" where
  "store_user user r =
     r\<lparr>rp_users := map (\<lambda>u. if usr_id u = usr_id user then user else u) (rp_users r)\<rparr>"

text \<open>The flush of a changed row: \<open>bump_user_sync_version\<close> refuses a change of the epoch on the foreign server,
  \<open>on_user_updated\<close> records the event in the same transaction.\<close>

definition flush_user ::
  "(string \<Rightarrow> string) \<Rightarrow> (int \<Rightarrow> string) \<Rightarrow> string \<Rightarrow> int \<Rightarrow> user_row \<Rightarrow> user_row \<Rightarrow> replica
     \<Rightarrow> counter_error + replica" where
  "flush_user sha256 isoformat event_id now old new r =
     (if rp_server r = SERVER_FOREIGN \<and> usr_counter_epoch old \<noteq> usr_counter_epoch new
      then Inl ForeignWriteForbidden
      else case build_user_counter_event event_id now old new of
             Inl e \<Rightarrow> Inl e
           | Inr None \<Rightarrow> Inr (store_user new r)
           | Inr (Some ev) \<Rightarrow>
               (case record_local_user_counter_event sha256 isoformat (rp_server r) (usr_id new) ev (rp_receipts r) of
                  Inl e \<Rightarrow> Inl e
                | Inr receipts \<Rightarrow> Inr ((store_user new r)\<lparr>rp_receipts := receipts\<rparr>)))"

datatype counter_action = Trade_action int | Channel_message_action | Other_action

text \<open>\<open>increment_user_counter\<close> and \<open>reset_user_counters\<close> of \<open>core/utils.py\<close>.  The first catches every error and
  rolls back; an error leaves the second through its caller.\<close>

definition increment_user_counter ::
  "(string \<Rightarrow> string) \<Rightarrow> (int \<Rightarrow> string) \<Rightarrow> string \<Rightarrow> int \<Rightarrow> int \<Rightarrow> counter_action \<Rightarrow> replica \<Rightarrow> replica" where
  "increment_user_counter sha256 isoformat event_id now user_id action r =
     (case find_user r user_id of
        None \<Rightarrow> r
      | Some user \<Rightarrow>
          (case (case action of
                   Trade_action quantity \<Rightarrow> increment_user_counters user 1 quantity 0
                 | Channel_message_action \<Rightarrow> increment_user_counters user 0 0 1
                 | Other_action \<Rightarrow> Inr user) of
             Inl e \<Rightarrow> r
           | Inr new \<Rightarrow>
               (case flush_user sha256 isoformat event_id now user new r of Inl e \<Rightarrow> r | Inr r' \<Rightarrow> r')))"

definition reset_user_counters ::
  "(string \<Rightarrow> string) \<Rightarrow> (int \<Rightarrow> string) \<Rightarrow> string \<Rightarrow> int \<Rightarrow> int \<Rightarrow> replica \<Rightarrow> counter_error + replica" where
  "reset_user_counters sha256 isoformat event_id now user_id r =
     (case find_user r user_id of
        None \<Rightarrow> Inr r
      | Some user \<Rightarrow>
          (case reset_user_counters_in_memory user of
             Inl e \<Rightarrow> Inl e
           | Inr new \<Rightarrow> flush_user sha256 isoformat event_id now user new r))"

section \<open>Events on the wire\<close>

datatype json = JNull | JBool bool | JInt int | JFloat rat | JStr string | JList "json list"
  | JObj "(string \<times> json) list"

record identity_section =
  is_account_name :: "ustring option"
  is_mobile_number :: "ustring option"
  is_telegram_id :: "int option"

record sync_identity =
  si_current :: "identity_section option"
  si_previous :: "identity_section option"

text \<open>A payload of the counter contract.  The identity is the mapping the producer writes (\<open>None\<close>: absent or
  not a mapping); \<open>cp_unknown\<close> lists the keys outside the contract.\<close>

record counter_payload =
  cp_id :: json
  cp_event_id :: json
  cp_kind :: json
  cp_epoch :: json
  cp_deltas :: json
  cp_occurred_at :: json
  cp_identity :: "sync_identity option"
  cp_unknown :: "string list"

datatype sanitize_reason =
    CounterEventOperationForbidden | InvalidCounterEventMetadata | InvalidCounterEventPayload
  | CounterResetSourceForbidden | UnknownCounterEventField | CounterEventIdentityMissing
  | MissingOrInvalidSourceServer

definition user_identity :: "user_row \<Rightarrow> identity_section" where
  "user_identity user = \<lparr>is_account_name = Some (usr_account_name user),
     is_mobile_number = Some (usr_mobile_number user), is_telegram_id = usr_telegram_id user\<rparr>"

definition no_identity :: identity_section where
  "no_identity = \<lparr>is_account_name = None, is_mobile_number = None, is_telegram_id = None\<rparr>"

text \<open>A counter change leaves the identity columns alone, so that the previous section is empty.\<close>

definition build_user_sync_identity :: "user_row \<Rightarrow> sync_identity" where
  "build_user_sync_identity user = \<lparr>si_current = Some (user_identity user), si_previous = Some no_identity\<rparr>"

definition user_counter_event_payload :: "(int \<Rightarrow> string) \<Rightarrow> user_row \<Rightarrow> counter_event \<Rightarrow> counter_payload" where
  "user_counter_event_payload isoformat user ev =
     \<lparr>cp_id = JInt (usr_id user), cp_event_id = JStr (ce_event_id ev), cp_kind = JStr (ce_kind ev),
      cp_epoch = JInt (ce_epoch ev),
      cp_deltas = JObj (map (\<lambda>(f, d). (field_name f, JInt d)) (ce_deltas ev)),
      cp_occurred_at = JStr (isoformat (ce_occurred_at ev)),
      cp_identity = Some (build_user_sync_identity user), cp_unknown = []\<rparr>"

text \<open>\<open>str(value)\<close> as far as it can be a UUID: the text of a float, a list or an object never is.\<close>

fun json_text :: "json \<Rightarrow> string option" where
  "json_text JNull = Some ''None''"
| "json_text (JBool b) = Some (if b then ''True'' else ''False'')"
| "json_text (JInt i) = Some (py_str_int i)"
| "json_text (JStr s) = Some s"
| "json_text _ = None"

text \<open>A value of the wire is text; \<open>fromisoformat\<close> receives it with \<open>Z\<close> replaced by \<open>+00:00\<close>.\<close>

definition replace_Z :: "string \<Rightarrow> string" where
  "replace_Z s = concat (map (\<lambda>c. if c = CHR ''Z'' then ''+00:00'' else [c]) s)"

definition normalize_counter_event_occurred_at :: "(string \<Rightarrow> pydt option) \<Rightarrow> json \<Rightarrow> int option" where
  "normalize_counter_event_occurred_at fromisoformat v =
     (case v of
        JStr s \<Rightarrow> (case fromisoformat (replace_Z s) of
                   Some (Aware w offset) \<Rightarrow> Some (w - offset)
                 | _ \<Rightarrow> None)
      | _ \<Rightarrow> None)"

definition counter_event_time_is_plausible :: "int \<Rightarrow> int \<Rightarrow> bool" where
  "counter_event_time_is_plausible occurred_at now \<longleftrightarrow> occurred_at \<le> now + USER_COUNTER_MAX_FUTURE_SKEW"

definition section_has_identity :: "identity_section option \<Rightarrow> bool" where
  "section_has_identity section =
     (case section of
        None \<Rightarrow> False
      | Some s \<Rightarrow> is_account_name s \<notin> {None, Some []} \<or> is_mobile_number s \<notin> {None, Some []} \<or>
          is_telegram_id s \<noteq> None)"

definition has_user_sync_identity :: "sync_identity option \<Rightarrow> bool" where
  "has_user_sync_identity v =
     (case v of
        None \<Rightarrow> False
      | Some i \<Rightarrow> section_has_identity (si_current i) \<or> section_has_identity (si_previous i))"

definition field_of_name :: "string \<Rightarrow> counter_field option" where
  "field_of_name s = find (\<lambda>f. field_name f = s) USER_COUNTER_FIELDS"

fun typed_deltas :: "(string \<times> json) list \<Rightarrow> (counter_field, int) dict option" where
  "typed_deltas [] = Some []"
| "typed_deltas ((k, v) # kvs) =
     (case (field_of_name k, v, typed_deltas kvs) of
        (Some f, JInt d, Some ds) \<Rightarrow> Some ((f, d) # ds)
      | _ \<Rightarrow> None)"

definition json_kind :: "json \<Rightarrow> string" where
  "json_kind v = (case v of JStr s \<Rightarrow> s | _ \<Rightarrow> [])"

definition deltas_valid :: "string \<Rightarrow> (counter_field, int) dict \<Rightarrow> bool" where
  "deltas_valid kind deltas \<longleftrightarrow>
     \<not> (list_ex (\<lambda>(f, d). d < 0 \<or> d > USER_COUNTER_MAX_VALUE) deltas \<or>
        kind = ''increment'' \<and> \<not> list_ex (\<lambda>(f, d). d > 0) deltas \<or>
        kind = ''reset'' \<and> list_ex (\<lambda>(f, d). d \<noteq> 0) deltas)"

definition sanitize_user_counter_event ::
  "(string \<Rightarrow> string option) \<Rightarrow> (string \<Rightarrow> pydt option) \<Rightarrow> int \<Rightarrow> string \<Rightarrow> counter_payload \<Rightarrow> string
     \<Rightarrow> sanitize_reason + counter_event" where
  "sanitize_user_counter_event uuid_text fromisoformat now operation payload source =
     (if operation \<noteq> ''UPDATE'' then Inl CounterEventOperationForbidden
      else
        (case (Option.bind (json_text (cp_event_id payload)) uuid_text, cp_epoch payload,
               normalize_counter_event_occurred_at fromisoformat (cp_occurred_at payload)) of
           (Some event_id, JInt epoch, Some occurred_at) \<Rightarrow>
             (if epoch < 1 \<or> epoch > USER_COUNTER_MAX_EPOCH \<or> \<not> counter_event_time_is_plausible occurred_at now
              then Inl InvalidCounterEventMetadata
              else
                (let kind = json_kind (cp_kind payload)
                 in case cp_deltas payload of
                      JObj raw_deltas \<Rightarrow>
                        (if kind \<notin> {''increment'', ''reset''} then Inl InvalidCounterEventPayload
                         else if kind = ''reset'' \<and> source \<noteq> SERVER_IRAN then Inl CounterResetSourceForbidden
                         else (case typed_deltas raw_deltas of
                                 None \<Rightarrow> Inl InvalidCounterEventPayload
                               | Some deltas \<Rightarrow>
                                   (if \<not> deltas_valid kind deltas then Inl InvalidCounterEventPayload
                                    else if cp_unknown payload \<noteq> [] then Inl UnknownCounterEventField
                                    else if \<not> has_user_sync_identity (cp_identity payload)
                                    then Inl CounterEventIdentityMissing
                                    else Inr \<lparr>ce_event_id = event_id, ce_kind = kind, ce_epoch = epoch,
                                              ce_deltas = deltas, ce_occurred_at = occurred_at\<rparr>)))
                    | _ \<Rightarrow> Inl InvalidCounterEventPayload))
         | _ \<Rightarrow> Inl InvalidCounterEventMetadata))"

definition sanitize_counter_item ::
  "(string \<Rightarrow> string option) \<Rightarrow> (string \<Rightarrow> pydt option) \<Rightarrow> int \<Rightarrow> string \<Rightarrow> counter_payload \<Rightarrow> string option
     \<Rightarrow> sanitize_reason + counter_event" where
  "sanitize_counter_item uuid_text fromisoformat now operation payload source_server =
     (let source = py_norm source_server
      in if source \<notin> {SERVER_IRAN, SERVER_FOREIGN} then Inl MissingOrInvalidSourceServer
         else sanitize_user_counter_event uuid_text fromisoformat now operation payload source)"

section \<open>Application on the receiver\<close>

datatype target_resolution = LegacyId | TargetMissing | TargetConflict | IdentityTarget

definition section_values :: "(identity_section \<Rightarrow> 'a option) \<Rightarrow> sync_identity \<Rightarrow> 'a list" where
  "section_values get i =
     concat (map (\<lambda>s. case s of None \<Rightarrow> [] | Some t \<Rightarrow> (case get t of None \<Rightarrow> [] | Some v \<Rightarrow> [v]))
       [si_current i, si_previous i])"

record identity_conditions =
  ic_accounts :: "ustring list"
  ic_mobiles :: "ustring list"
  ic_telegrams :: "int list"

definition user_sync_identity_conditions :: "sync_identity option \<Rightarrow> identity_conditions" where
  "user_sync_identity_conditions identity =
     (case identity of
        None \<Rightarrow> \<lparr>ic_accounts = [], ic_mobiles = [], ic_telegrams = []\<rparr>
      | Some i \<Rightarrow>
          \<lparr>ic_accounts = filter (\<lambda>v. v \<noteq> []) (map (\<lambda>v. normalize_account_name (Some v)) (section_values is_account_name i)),
           ic_mobiles = filter (\<lambda>v. v \<noteq> []) (map (\<lambda>v. normalize_mobile_number (Some v)) (section_values is_mobile_number i)),
           ic_telegrams = section_values is_telegram_id i\<rparr>)"

definition no_conditions :: "identity_conditions \<Rightarrow> bool" where
  "no_conditions c \<longleftrightarrow> ic_accounts c = [] \<and> ic_mobiles c = [] \<and> ic_telegrams c = []"

definition matches_identity :: "identity_conditions \<Rightarrow> user_row \<Rightarrow> bool" where
  "matches_identity c u \<longleftrightarrow>
     usr_normalized_account_name u \<in> set (ic_accounts c) \<or>
     usr_normalized_mobile_number u \<in> set (ic_mobiles c) \<or>
     (case usr_telegram_id u of None \<Rightarrow> False | Some t \<Rightarrow> t \<in> set (ic_telegrams c))"

text \<open>\<open>record_id\<close> is the value \<open>int(record_id)\<close>, if it is one.\<close>

definition resolve_user_sync_target ::
  "replica \<Rightarrow> int option \<Rightarrow> sync_identity option \<Rightarrow> target_resolution \<times> int option" where
  "resolve_user_sync_target r record_id identity =
     (let c = user_sync_identity_conditions identity
      in if no_conditions c
         then (case record_id of Some i \<Rightarrow> (LegacyId, Some i) | None \<Rightarrow> (TargetMissing, None))
         else (case remdups (map usr_id (filter (matches_identity c) (rp_users r))) of
                 [] \<Rightarrow> (TargetMissing, None)
               | [i] \<Rightarrow> (IdentityTarget, Some i)
               | _ \<Rightarrow> (TargetConflict, None)))"

datatype apply_status = Apply_ok | Apply_ignored | Apply_deferred | Apply_error

definition existing_receipt_decision ::
  "counter_receipt list \<Rightarrow> string \<Rightarrow> string \<Rightarrow> int \<Rightarrow> string \<Rightarrow> apply_status option" where
  "existing_receipt_decision receipts event_id source user_id event_hash =
     (case find (\<lambda>r. ce_event_id r = event_id) receipts of
        None \<Rightarrow> None
      | Some r \<Rightarrow>
          (if cr_source_server r = source \<and> cr_user_id r = user_id \<and> cr_event_hash r = event_hash
           then Some Apply_ignored else Some Apply_error))"

text \<open>\<open>ON CONFLICT DO NOTHING\<close>: the receipt is added unless its identifier is taken.\<close>

definition insert_receipt ::
  "counter_event \<Rightarrow> string \<Rightarrow> int \<Rightarrow> string \<Rightarrow> string \<Rightarrow> counter_receipt list
     \<Rightarrow> apply_status option \<times> counter_receipt list" where
  "insert_receipt ev source user_id event_hash outcome receipts =
     (case insert_receipt_row (receipt_of ev source user_id event_hash outcome) receipts of
        Inr receipts' \<Rightarrow> (None, receipts')
      | Inl e \<Rightarrow>
          (case existing_receipt_decision receipts (ce_event_id ev) source user_id event_hash of
             Some d \<Rightarrow> (Some d, receipts)
           | None \<Rightarrow> (Some Apply_error, receipts)))"

definition delta_of :: "(counter_field, int) dict \<Rightarrow> counter_field \<Rightarrow> int" where
  "delta_of deltas f = (case dict_get deltas f of None \<Rightarrow> 0 | Some d \<Rightarrow> d)"

fun remote_values ::
  "(counter_field \<Rightarrow> int) \<Rightarrow> (counter_field, int) dict \<Rightarrow> counter_field list \<Rightarrow> (counter_field \<times> int) list option" where
  "remote_values counters deltas [] = Some []"
| "remote_values counters deltas (f # fs) =
     (let delta = delta_of deltas f; next_value = counters f + delta
      in if delta = 0 then remote_values counters deltas fs
         else if delta < 0 \<or> delta > USER_COUNTER_MAX_VALUE \<or> counters f < 0 \<or>
                 next_value > USER_COUNTER_MAX_VALUE then None
         else map_option (\<lambda>vs. (f, next_value) # vs) (remote_values counters deltas fs))"

fun add_deltas ::
  "counter_field list \<Rightarrow> (counter_field, int) dict \<Rightarrow> (counter_field \<Rightarrow> int) \<Rightarrow> (counter_field \<Rightarrow> int) option" where
  "add_deltas [] deltas rebuilt = Some rebuilt"
| "add_deltas (f # fs) deltas rebuilt =
     (let v = rebuilt f + delta_of deltas f
      in if v > USER_COUNTER_MAX_VALUE then None else add_deltas fs deltas (rebuilt(f := v)))"

fun rebuild_counters ::
  "(counter_field, int) dict list \<Rightarrow> (counter_field \<Rightarrow> int) \<Rightarrow> (counter_field \<Rightarrow> int) option" where
  "rebuild_counters [] rebuilt = Some rebuilt"
| "rebuild_counters (deltas # rows) rebuilt =
     (case add_deltas USER_COUNTER_FIELDS deltas rebuilt of
        None \<Rightarrow> None
      | Some rebuilt' \<Rightarrow> rebuild_counters rows rebuilt')"

text \<open>The increment and the reset of a located user, after the replay check.\<close>

definition apply_increment ::
  "counter_event \<Rightarrow> string \<Rightarrow> string \<Rightarrow> user_row \<Rightarrow> int \<Rightarrow> int option \<Rightarrow> replica \<Rightarrow> apply_status \<times> replica" where
  "apply_increment ev source event_hash user current_epoch reset_boundary r =
     (if ce_epoch ev > current_epoch + 1 then (Apply_deferred, r)
      else if (case reset_boundary of None \<Rightarrow> False | Some b \<Rightarrow> ce_occurred_at ev < b)
      then (case insert_receipt ev source (usr_id user) event_hash ''excluded_pre_boundary'' (rp_receipts r) of
              (Some d, receipts) \<Rightarrow> (d, r)
            | (None, receipts) \<Rightarrow> (Apply_ignored, r\<lparr>rp_receipts := receipts\<rparr>))
      else (case remote_values (usr_counters user) (ce_deltas ev) USER_COUNTER_FIELDS of
              None \<Rightarrow> (Apply_error, r)
            | Some vs \<Rightarrow>
                (case insert_receipt ev source (usr_id user) event_hash ''applied'' (rp_receipts r) of
                   (Some d, receipts) \<Rightarrow> (d, r)
                 | (None, receipts) \<Rightarrow>
                     (Apply_ok, (store_user (set_counters vs user) r)\<lparr>rp_receipts := receipts\<rparr>))))"

definition apply_reset ::
  "counter_event \<Rightarrow> string \<Rightarrow> string \<Rightarrow> user_row \<Rightarrow> int \<Rightarrow> int option \<Rightarrow> replica \<Rightarrow> apply_status \<times> replica" where
  "apply_reset ev source event_hash user current_epoch reset_boundary r =
     (if ce_epoch ev \<le> current_epoch then (Apply_error, r)
      else if ce_epoch ev > current_epoch + 1 then (Apply_deferred, r)
      else if (case reset_boundary of None \<Rightarrow> False | Some b \<Rightarrow> ce_occurred_at ev \<le> b) then (Apply_error, r)
      else
        (let rows = map ce_deltas (filter (\<lambda>c. cr_user_id c = usr_id user \<and> ce_kind c = ''increment'' \<and>
                      ce_occurred_at c \<ge> ce_occurred_at ev) (rp_receipts r))
         in case rebuild_counters rows (\<lambda>f. 0) of
              None \<Rightarrow> (Apply_error, r)
            | Some rebuilt \<Rightarrow>
                (case insert_receipt ev source (usr_id user) event_hash ''applied'' (rp_receipts r) of
                   (Some d, receipts) \<Rightarrow> (d, r)
                 | (None, receipts) \<Rightarrow>
                     (Apply_ok, (store_user (user\<lparr>usr_counters := rebuilt, usr_counter_epoch := ce_epoch ev\<rparr>) r)
                                  \<lparr>rp_receipts := receipts\<rparr>))))"

definition apply_located ::
  "counter_event \<Rightarrow> string \<Rightarrow> string \<Rightarrow> user_row \<Rightarrow> replica \<Rightarrow> apply_status \<times> replica" where
  "apply_located ev source event_hash user r =
     (let current_epoch = (if usr_counter_epoch user = 0 then 1 else usr_counter_epoch user);
          latest = latest_reset (rp_receipts r) (usr_id user)
      in if current_epoch = 1 \<and> latest \<noteq> None then (Apply_error, r)
         else if current_epoch \<noteq> 1 \<and>
                 (case latest of None \<Rightarrow> True | Some l \<Rightarrow> ce_epoch l \<noteq> current_epoch) then (Apply_error, r)
         else
           (let reset_boundary = (if current_epoch = 1 then None else map_option ce_occurred_at latest)
            in if ce_kind ev = ''increment''
               then apply_increment ev source event_hash user current_epoch reset_boundary r
               else apply_reset ev source event_hash user current_epoch reset_boundary r))"

definition apply_user_counter_event ::
  "(string \<Rightarrow> string) \<Rightarrow> (int \<Rightarrow> string) \<Rightarrow> int option \<Rightarrow> sync_identity option \<Rightarrow> counter_event \<Rightarrow> string option
     \<Rightarrow> replica \<Rightarrow> apply_status \<times> replica" where
  "apply_user_counter_event sha256 isoformat record_id identity ev source_server r =
     (let source = py_norm source_server
      in if source \<notin> {SERVER_IRAN, SERVER_FOREIGN} then (Apply_error, r)
         else if ce_kind ev = ''reset'' \<and> source \<noteq> SERVER_IRAN then (Apply_error, r)
         else
           (case resolve_user_sync_target r record_id identity of
              (TargetConflict, _) \<Rightarrow> (Apply_error, r)
            | (TargetMissing, _) \<Rightarrow> (Apply_deferred, r)
            | (_, None) \<Rightarrow> (Apply_deferred, r)
            | (_, Some target_user_id) \<Rightarrow>
                (case find_user r target_user_id of
                   None \<Rightarrow> (Apply_deferred, r)
                 | Some user \<Rightarrow>
                     (if ce_kind ev \<notin> {''increment'', ''reset''} \<or> ce_epoch ev < 1 \<or>
                         ce_epoch ev > USER_COUNTER_MAX_EPOCH then (Apply_error, r)
                      else
                        (let event_hash = user_counter_event_content_hash sha256 isoformat (Some source) ev
                         in case existing_receipt_decision (rp_receipts r) (ce_event_id ev) source
                                   target_user_id event_hash of
                              Some d \<Rightarrow> (d, r)
                            | None \<Rightarrow> apply_located ev source event_hash user r)))))"

end
