(* ===== verification/CounterConvergence.thy ===== *)
theory CounterConvergence
  imports CounterSync
begin

text \<open>
  The counters of a user are a function of the set of events his server has recorded: the increments that did
  not occur before the latest reset, on top of the initial values as long as there was no reset.  The two
  servers therefore agree as soon as they have recorded the same events, in whatever order these arrived.
\<close>

section \<open>The counters of a set of events\<close>

definition resets :: "counter_event set \<Rightarrow> counter_event set" where
  "resets E = {e \<in> E. ce_kind e = ''reset''}"

definition counted :: "counter_event set \<Rightarrow> counter_event set" where
  "counted E = {e \<in> E. ce_kind e = ''increment'' \<and> (\<forall>r \<in> resets E. ce_occurred_at r \<le> ce_occurred_at e)}"

definition spec_epoch :: "counter_event set \<Rightarrow> int" where
  "spec_epoch E = (if resets E = {} then 1 else Max (ce_epoch ` resets E))"

definition spec_counter :: "(counter_field \<Rightarrow> int) \<Rightarrow> counter_event set \<Rightarrow> counter_field \<Rightarrow> int" where
  "spec_counter base E f =
     (if resets E = {} then base f else 0) + (\<Sum>e \<in> counted E. delta_of (ce_deltas e) f)"

text \<open>The resets of a user are numbered in the order of their boundaries.\<close>

definition resets_ordered :: "counter_event set \<Rightarrow> bool" where
  "resets_ordered E \<longleftrightarrow>
     (\<forall>a \<in> resets E. 2 \<le> ce_epoch a) \<and> inj_on ce_epoch (resets E) \<and>
     (\<forall>a \<in> resets E. \<forall>b \<in> resets E. ce_epoch a < ce_epoch b \<longrightarrow> ce_occurred_at a < ce_occurred_at b)"

definition counted_deltas :: "counter_event set \<Rightarrow> bool" where
  "counted_deltas E \<longleftrightarrow> (\<forall>e \<in> E. \<forall>f. 0 \<le> delta_of (ce_deltas e) f)"

lemma resets_insert_increment: "ce_kind e = ''increment'' \<Longrightarrow> resets (insert e E) = resets E"
  by (auto simp: resets_def)

lemma resets_insert_reset: "ce_kind e = ''reset'' \<Longrightarrow> resets (insert e E) = insert e (resets E)"
  by (auto simp: resets_def)

lemma spec_insert_counted:
  assumes "finite E" and "e \<notin> E" and "ce_kind e = ''increment''"
    and "\<forall>r \<in> resets E. ce_occurred_at r \<le> ce_occurred_at e"
  shows "spec_counter base (insert e E) f = spec_counter base E f + delta_of (ce_deltas e) f"
proof -
  have "counted (insert e E) = insert e (counted E)"
    using assms(3,4) by (auto simp: counted_def resets_insert_increment)
  moreover have "e \<notin> counted E" "finite (counted E)" using assms(1,2) by (auto simp: counted_def)
  ultimately show ?thesis using assms(3) by (simp add: spec_counter_def resets_insert_increment)
qed

lemma spec_insert_excluded:
  assumes "ce_kind e = ''increment''" and "b \<in> resets E" and "ce_occurred_at e < ce_occurred_at b"
  shows "spec_counter base (insert e E) f = spec_counter base E f"
proof -
  have "counted (insert e E) = counted E" using assms by (fastforce simp: counted_def resets_insert_increment)
  then show ?thesis using assms(1) by (simp add: spec_counter_def resets_insert_increment)
qed

lemma spec_insert_reset:
  assumes "ce_kind e = ''reset''" and "\<forall>r \<in> resets E. ce_occurred_at r < ce_occurred_at e"
  shows "spec_counter base (insert e E) f =
    (\<Sum>x \<in> {x \<in> E. ce_kind x = ''increment'' \<and> ce_occurred_at e \<le> ce_occurred_at x}. delta_of (ce_deltas x) f)"
proof -
  have "counted (insert e E) = {x \<in> E. ce_kind x = ''increment'' \<and> ce_occurred_at e \<le> ce_occurred_at x}"
    using assms by (fastforce simp: counted_def resets_insert_reset)
  then show ?thesis using assms(1) by (simp add: spec_counter_def resets_insert_reset)
qed

lemma epoch_insert_increment: "ce_kind e = ''increment'' \<Longrightarrow> spec_epoch (insert e E) = spec_epoch E"
  by (simp add: spec_epoch_def resets_insert_increment)

lemma spec_epoch_ge: "finite E \<Longrightarrow> a \<in> resets E \<Longrightarrow> ce_epoch a \<le> spec_epoch E"
  by (auto simp: spec_epoch_def resets_def)

lemma finite_resets [simp]: "finite E \<Longrightarrow> finite (resets E)"
  by (simp add: resets_def)

lemma epoch_insert_reset:
  assumes "finite E" and "ce_kind e = ''reset''" and "ce_epoch e = spec_epoch E + 1"
  shows "spec_epoch (insert e E) = ce_epoch e"
proof -
  have "Max (insert (ce_epoch e) (ce_epoch ` resets E)) = ce_epoch e"
    using assms spec_epoch_ge [OF assms(1)] by (intro Max_eqI) fastforce+
  then show ?thesis using assms(2) by (simp add: spec_epoch_def resets_insert_reset)
qed

lemma spec_epoch_pos: "finite E \<Longrightarrow> resets_ordered E \<Longrightarrow> 1 \<le> spec_epoch E"
proof (cases "resets E = {}")
  case False
  assume "finite E" "resets_ordered E"
  from False obtain a where "a \<in> resets E" by blast
  with \<open>finite E\<close> \<open>resets_ordered E\<close> show ?thesis
    using spec_epoch_ge [of E a] by (fastforce simp: resets_ordered_def)
qed (simp add: spec_epoch_def)

lemma resets_ordered_insert_increment:
  "ce_kind e = ''increment'' \<Longrightarrow> resets_ordered (insert e E) = resets_ordered E"
  by (simp add: resets_ordered_def resets_insert_increment)

lemma resets_ordered_insert_reset:
  assumes "finite E" and "resets_ordered E" and "ce_kind e = ''reset''" and "ce_epoch e = spec_epoch E + 1"
    and "\<forall>r \<in> resets E. ce_occurred_at r < ce_occurred_at e"
  shows "resets_ordered (insert e E)"
proof -
  have lt: "\<forall>a \<in> resets E. ce_epoch a < ce_epoch e" using spec_epoch_ge [OF assms(1)] assms(4) by fastforce
  have two: "2 \<le> ce_epoch e" using spec_epoch_pos [OF assms(1,2)] assms(4) by simp
  have "inj_on ce_epoch (insert e (resets E))"
    using lt assms(2) by (force simp: resets_ordered_def)
  then show ?thesis using assms(2,5) lt two
    unfolding resets_ordered_def resets_insert_reset [OF assms(3)] by (auto dest: less_asym)
qed

section \<open>The events of a user\<close>

definition event_of :: "counter_receipt \<Rightarrow> counter_event" where
  "event_of c = counter_event.truncate c"

definition events :: "replica \<Rightarrow> int \<Rightarrow> counter_event set" where
  "events r user_id = event_of ` {c \<in> set (rp_receipts r). cr_user_id c = user_id}"

lemma event_of_simps [simp]:
  "ce_event_id (event_of c) = ce_event_id c" "ce_kind (event_of c) = ce_kind c"
  "ce_epoch (event_of c) = ce_epoch c" "ce_deltas (event_of c) = ce_deltas c"
  "ce_occurred_at (event_of c) = ce_occurred_at c"
  by (simp_all add: event_of_def counter_event.truncate_def)

lemma receipt_of_simps [simp]:
  "event_of (receipt_of ev source u h out) = ev" "cr_user_id (receipt_of ev source u h out) = u"
  "ce_event_id (receipt_of ev source u h out) = ce_event_id ev"
  by (simp_all add: receipt_of_def event_of_def counter_event.truncate_def)

lemma finite_events [simp]: "finite (events r u)"
  by (simp add: events_def)

lemma events_add:
  "rp_receipts r' = rp_receipts r @ [receipt_of ev source i h out] \<Longrightarrow>
     events r' u = (if u = i then insert ev (events r u) else events r u)"
proof -
  let ?S = "{c \<in> set (rp_receipts r). cr_user_id c = u}"
  assume a: "rp_receipts r' = rp_receipts r @ [receipt_of ev source i h out]"
  have "{c \<in> set (rp_receipts r'). cr_user_id c = u} = (if u = i then insert (receipt_of ev source i h out) ?S else ?S)"
    unfolding a by auto
  then show ?thesis by (simp add: events_def)
qed

lemma event_fresh:
  "\<not> list_ex (\<lambda>c. ce_event_id c = ce_event_id ev) (rp_receipts r) \<Longrightarrow> ev \<notin> events r u"
  by (auto simp: events_def list_ex_iff)

lemma latest_reset_None: "latest_reset (rp_receipts r) u = None \<longleftrightarrow> resets (events r u) = {}"
  by (auto simp: latest_reset_def resets_def events_def filter_empty_conv)

lemma latest_reset_Some:
  assumes "latest_reset (rp_receipts r) u = Some l"
  shows "event_of l \<in> resets (events r u)" and "spec_epoch (events r u) = ce_epoch l"
proof -
  let ?P = "\<lambda>c. cr_user_id c = u \<and> ce_kind c = ''reset''"
  have l: "l \<in> set (filter ?P (rp_receipts r))"
    using assms unfolding latest_reset_def by (rule min_by_in)
  then show m: "event_of l \<in> resets (events r u)" by (auto simp: resets_def events_def)
  have le: "ce_epoch a \<le> ce_epoch l" if "a \<in> resets (events r u)" for a
  proof -
    from that obtain c where c: "c \<in> set (filter ?P (rp_receipts r))" "a = event_of c"
      by (auto simp: resets_def events_def)
    then show ?thesis using min_by_le [OF assms [unfolded latest_reset_def] c(1)] by simp
  qed
  have "Max (ce_epoch ` resets (events r u)) = ce_epoch l"
    using le m by (intro Max_eqI) (auto intro: rev_image_eqI)
  then show "spec_epoch (events r u) = ce_epoch l" using m by (auto simp: spec_epoch_def)
qed

lemma latest_boundary:
  assumes "latest_reset (rp_receipts r) u = Some l" and "resets_ordered (events r u)" and "a \<in> resets (events r u)"
  shows "ce_occurred_at a \<le> ce_occurred_at l"
proof (cases "ce_epoch a = ce_epoch l")
  case True
  then have "a = event_of l"
    using assms latest_reset_Some(1) [OF assms(1)] by (auto simp: resets_ordered_def inj_on_def)
  then show ?thesis by simp
next
  case False
  then have "ce_epoch a < ce_epoch (event_of l)"
    using spec_epoch_ge [OF finite_events assms(3)] latest_reset_Some(2) [OF assms(1)] by simp
  then show ?thesis
    using assms(2,3) latest_reset_Some(1) [OF assms(1)] by (fastforce simp: resets_ordered_def)
qed

section \<open>The invariant\<close>

definition user_ok :: "(int \<Rightarrow> counter_field \<Rightarrow> int) \<Rightarrow> replica \<Rightarrow> user_row \<Rightarrow> bool" where
  "user_ok base r u \<longleftrightarrow>
     (let E = events r (usr_id u)
      in usr_counter_epoch u = spec_epoch E \<and> usr_counters u = spec_counter (base (usr_id u)) E \<and>
         resets_ordered E \<and> counted_deltas E \<and> (\<forall>f. usr_counters u f \<le> USER_COUNTER_MAX_VALUE))"

definition counters_ok :: "(int \<Rightarrow> counter_field \<Rightarrow> int) \<Rightarrow> replica \<Rightarrow> bool" where
  "counters_ok base r \<longleftrightarrow>
     (\<forall>i f. 0 \<le> base i f) \<and> distinct (map usr_id (rp_users r)) \<and> distinct (map ce_event_id (rp_receipts r)) \<and>
     (\<forall>u \<in> set (rp_users r). user_ok base r u)"

lemma user_ok_le: "user_ok base r u \<Longrightarrow> usr_counters u f \<le> USER_COUNTER_MAX_VALUE"
  unfolding user_ok_def Let_def by blast

lemma find_user_in: "find_user r i = Some u \<Longrightarrow> u \<in> set (rp_users r) \<and> usr_id u = i"
  by (auto simp: find_user_def find_Some_iff)

lemma find_user_ok: "counters_ok base r \<Longrightarrow> find_user r i = Some u \<Longrightarrow> user_ok base r u \<and> usr_id u = i"
  using find_user_in by (fastforce simp: counters_ok_def)

lemma usr_id_store [simp]: "map usr_id (rp_users (store_user u r)) = map usr_id (rp_users r)"
  by (auto simp: store_user_def)

lemma rp_receipts_store [simp]: "rp_receipts (store_user u r) = rp_receipts r"
  by (simp add: store_user_def)

lemma user_in_store: "v \<in> set (rp_users (store_user u r)) \<Longrightarrow> v = u \<or> v \<in> set (rp_users r) \<and> usr_id v \<noteq> usr_id u"
  by (auto simp: store_user_def)

text \<open>One recorded event: the row of its user must follow the specification, everything else stays.\<close>

lemma counters_ok_record:
  assumes "counters_ok base r" and "insert_receipt_row (receipt_of ev source (usr_id u) h out) (rp_receipts r) = Inr receipts"
    and "counters_ok base r \<Longrightarrow> user_ok base (r\<lparr>rp_receipts := receipts\<rparr>) u"
  shows "counters_ok base ((store_user u r)\<lparr>rp_receipts := receipts\<rparr>)"
proof -
  let ?r = "(store_user u r)\<lparr>rp_receipts := receipts\<rparr>"
  have rec: "receipts = rp_receipts r @ [receipt_of ev source (usr_id u) h out]"
    and fresh: "\<not> list_ex (\<lambda>c. ce_event_id c = ce_event_id ev) (rp_receipts r)"
    using assms(2) by (auto simp: insert_receipt_row_def split: if_splits)
  have ev: "events ?r i = events (r\<lparr>rp_receipts := receipts\<rparr>) i" for i by (simp add: events_def)
  have other: "events ?r i = events r i" if "i \<noteq> usr_id u" for i
    using that events_add [of ?r r ev source "usr_id u" h out i] rec by simp
  have "user_ok base ?r v" if "v \<in> set (rp_users (store_user u r))" for v
    using user_in_store [OF that]
  proof
    assume "v = u"
    then show ?thesis using assms(3) [OF assms(1)] by (simp add: user_ok_def ev)
  next
    assume "v \<in> set (rp_users r) \<and> usr_id v \<noteq> usr_id u"
    then show ?thesis using assms(1) by (auto simp: counters_ok_def user_ok_def other)
  qed
  moreover have "distinct (map ce_event_id receipts)"
    using assms(1) fresh by (auto simp: rec counters_ok_def list_ex_iff)
  ultimately show ?thesis using assms(1) usr_id_store [of u r]
    by (simp add: counters_ok_def)
qed

section \<open>Rows follow their events\<close>

lemma user_ok_counted:
  assumes "user_ok base r u" and "\<not> list_ex (\<lambda>c. ce_event_id c = ce_event_id ev) (rp_receipts r)"
    and "ce_kind ev = ''increment''" and "\<forall>f. 0 \<le> delta_of (ce_deltas ev) f"
    and "\<forall>a \<in> resets (events r (usr_id u)). ce_occurred_at a \<le> ce_occurred_at ev"
    and "usr_id v = usr_id u" and "usr_counter_epoch v = usr_counter_epoch u"
    and "\<forall>f. usr_counters v f = usr_counters u f + delta_of (ce_deltas ev) f"
    and "\<forall>f. usr_counters v f \<le> USER_COUNTER_MAX_VALUE"
  shows "user_ok base (r\<lparr>rp_receipts := rp_receipts r @ [receipt_of ev source (usr_id u) h out]\<rparr>) v"
proof -
  let ?r = "r\<lparr>rp_receipts := rp_receipts r @ [receipt_of ev source (usr_id u) h out]\<rparr>"
  have e: "events ?r (usr_id u) = insert ev (events r (usr_id u))"
    using events_add [of ?r r ev source "usr_id u" h out "usr_id u"] by simp
  have "spec_counter b (insert ev (events r (usr_id u))) f =
      spec_counter b (events r (usr_id u)) f + delta_of (ce_deltas ev) f" for b f
    using spec_insert_counted [OF finite_events event_fresh [OF assms(2)] assms(3,5)] .
  then have "usr_counters v = spec_counter (base (usr_id u)) (insert ev (events r (usr_id u)))"
    using assms(1,8) by (simp add: user_ok_def Let_def fun_eq_iff)
  then show ?thesis using assms(1,3,4,6,7,9)
    by (simp add: user_ok_def Let_def e epoch_insert_increment resets_ordered_insert_increment counted_deltas_def)
qed

lemma user_ok_excluded:
  assumes "user_ok base r u" and "ce_kind ev = ''increment''" and "\<forall>f. 0 \<le> delta_of (ce_deltas ev) f"
    and "b \<in> resets (events r (usr_id u))" and "ce_occurred_at ev < ce_occurred_at b"
  shows "user_ok base (r\<lparr>rp_receipts := rp_receipts r @ [receipt_of ev source (usr_id u) h out]\<rparr>) u"
proof -
  let ?r = "r\<lparr>rp_receipts := rp_receipts r @ [receipt_of ev source (usr_id u) h out]\<rparr>"
  have e: "events ?r (usr_id u) = insert ev (events r (usr_id u))"
    using events_add [of ?r r ev source "usr_id u" h out "usr_id u"] by simp
  have "spec_counter (base (usr_id u)) (insert ev (events r (usr_id u))) = spec_counter (base (usr_id u)) (events r (usr_id u))"
    using spec_insert_excluded [OF assms(2,4,5)] by (simp add: fun_eq_iff)
  then show ?thesis using assms(1,2,3)
    by (auto simp: user_ok_def Let_def e epoch_insert_increment resets_ordered_insert_increment counted_deltas_def)
qed

lemma user_ok_reset:
  assumes "user_ok base r u" and "ce_kind ev = ''reset''" and "\<forall>f. 0 \<le> delta_of (ce_deltas ev) f"
    and "ce_epoch ev = usr_counter_epoch u + 1"
    and "\<forall>a \<in> resets (events r (usr_id u)). ce_occurred_at a < ce_occurred_at ev"
    and "usr_id v = usr_id u" and "usr_counter_epoch v = ce_epoch ev"
    and "\<forall>f. usr_counters v f = (\<Sum>x \<in> {x \<in> events r (usr_id u). ce_kind x = ''increment'' \<and>
           ce_occurred_at ev \<le> ce_occurred_at x}. delta_of (ce_deltas x) f)"
    and "\<forall>f. usr_counters v f \<le> USER_COUNTER_MAX_VALUE"
  shows "user_ok base (r\<lparr>rp_receipts := rp_receipts r @ [receipt_of ev source (usr_id u) h out]\<rparr>) v"
proof -
  let ?r = "r\<lparr>rp_receipts := rp_receipts r @ [receipt_of ev source (usr_id u) h out]\<rparr>"
  let ?E = "events r (usr_id u)"
  have e: "events ?r (usr_id u) = insert ev ?E"
    using events_add [of ?r r ev source "usr_id u" h out "usr_id u"] by simp
  have ep: "ce_epoch ev = spec_epoch ?E + 1" and ro: "resets_ordered ?E" and cd: "counted_deltas ?E"
    using assms(1,4) by (simp_all add: user_ok_def Let_def)
  have "usr_counters v = spec_counter (base (usr_id u)) (insert ev ?E)"
    using spec_insert_reset [OF assms(2,5)] assms(8) by (simp add: fun_eq_iff)
  then show ?thesis
    using epoch_insert_reset [OF finite_events assms(2) ep] cd assms(3,6,7,9)
      resets_ordered_insert_reset [OF finite_events ro assms(2) ep assms(5)]
    by (simp add: user_ok_def Let_def e counted_deltas_def)
qed

section \<open>Arithmetic of the operations\<close>

lemma fold_upd_notin: "f \<notin> fst ` set vs \<Longrightarrow> fold (\<lambda>(f, v) c. c(f := v)) vs c f = c f"
  by (induction vs arbitrary: c) auto

lemma next_values_sum:
  assumes "next_values c ds = Inr vs" and "distinct (map fst ds)"
  shows "fst ` set vs \<subseteq> fst ` set ds \<and>
    (\<forall>f. fold (\<lambda>(f, v) c. c(f := v)) vs b f =
         (if delta_of ds f = 0 then b f else c f + delta_of ds f)) \<and>
    (\<forall>f. delta_of ds f \<noteq> 0 \<longrightarrow> c f + delta_of ds f \<le> USER_COUNTER_MAX_VALUE)"
  using assms
proof (induction ds arbitrary: vs b)
  case Nil
  then show ?case by (simp add: delta_of_def)
next
  case (Cons p ds)
  obtain g d where p [simp]: "p = (g, d)" by (cases p)
  have g: "g \<notin> fst ` set ds" "distinct (map fst ds)" using Cons.prems(2) by auto
  then have dg: "delta_of ds g = 0" using map_of_eq_None_iff [of ds g] by (simp add: delta_of_def)
  have dc: "delta_of ((g, d) # ds) f = (if f = g then d else delta_of ds f)" for d f by (simp add: delta_of_def)
  show ?case
  proof (cases "d = 0")
    case True
    then have "next_values c ds = Inr vs" using Cons.prems(1) by simp
    then show ?thesis using Cons.IH [OF _ g(2), of vs b] dg True by (auto simp: dc)
  next
    case False
    then obtain ws where ws: "next_values c ds = Inr ws" "vs = (g, c g + d) # ws" "c g + d \<le> USER_COUNTER_MAX_VALUE"
      using Cons.prems(1) by (auto simp: Let_def split: if_splits sum.splits)
    have "g \<notin> fst ` set ws" using Cons.IH [OF ws(1) g(2)] g(1) by blast
    then show ?thesis
      using Cons.IH [OF ws(1) g(2), of "b(g := c g + d)"] False dg ws(2,3) by (auto simp: dc)
  qed
qed

lemma remote_values_sum:
  assumes "remote_values c ds fs = Some vs" and "distinct fs"
  shows "fst ` set vs \<subseteq> set fs \<and>
    (\<forall>f. fold (\<lambda>(f, v) c. c(f := v)) vs b f =
         (if f \<in> set fs \<and> delta_of ds f \<noteq> 0 then c f + delta_of ds f else b f)) \<and>
    (\<forall>f \<in> set fs. delta_of ds f \<noteq> 0 \<longrightarrow> c f + delta_of ds f \<le> USER_COUNTER_MAX_VALUE)"
  using assms
proof (induction fs arbitrary: vs b)
  case (Cons g fs)
  show ?case
  proof (cases "delta_of ds g = 0")
    case True
    then have "remote_values c ds fs = Some vs" using Cons.prems(1) by simp
    then show ?thesis using Cons.IH [of vs b] Cons.prems(2) True by auto
  next
    case False
    then obtain ws where ws: "remote_values c ds fs = Some ws" "vs = (g, c g + delta_of ds g) # ws"
      "c g + delta_of ds g \<le> USER_COUNTER_MAX_VALUE"
      using Cons.prems(1) by (auto simp: Let_def split: if_splits)
    have "fst ` set ws \<subseteq> set fs" using Cons.IH [OF ws(1)] Cons.prems(2) by simp
    then have "g \<notin> fst ` set ws" using Cons.prems(2) by auto
    then show ?thesis
      using Cons.IH [OF ws(1), of "b(g := c g + delta_of ds g)"] Cons.prems(2) False ws(2,3) by auto
  qed
qed simp

lemma fields_complete [simp]: "f \<in> set USER_COUNTER_FIELDS" "distinct USER_COUNTER_FIELDS"
  by (cases f) (simp_all add: USER_COUNTER_FIELDS_def)

lemma add_deltas_sum:
  assumes "add_deltas fs ds b = Some b'" and "distinct fs"
  shows "b' f = (if f \<in> set fs then b f + delta_of ds f else b f) \<and>
    (f \<in> set fs \<longrightarrow> b' f \<le> USER_COUNTER_MAX_VALUE)"
  using assms
proof (induction fs arbitrary: b)
  case (Cons g fs)
  have v: "b g + delta_of ds g \<le> USER_COUNTER_MAX_VALUE" "add_deltas fs ds (b(g := b g + delta_of ds g)) = Some b'"
    using Cons.prems(1) by (auto simp: Let_def split: if_splits)
  show ?case using Cons.IH [OF v(2)] Cons.prems(2) v(1) by (cases "f = g") auto
qed simp

lemma rebuild_sum:
  assumes "rebuild_counters rows b = Some b'" and "\<forall>f. b f \<le> USER_COUNTER_MAX_VALUE"
  shows "\<forall>f. b' f = b f + sum_list (map (\<lambda>ds. delta_of ds f) rows) \<and> b' f \<le> USER_COUNTER_MAX_VALUE"
  using assms
proof (induction rows arbitrary: b)
  case (Cons ds rows)
  then obtain c where c: "add_deltas USER_COUNTER_FIELDS ds b = Some c" "rebuild_counters rows c = Some b'"
    by (auto split: option.splits)
  have step: "c f = b f + delta_of ds f" "c f \<le> USER_COUNTER_MAX_VALUE" for f
    using add_deltas_sum [OF c(1) fields_complete(2), of f] fields_complete(1) [of f] by (simp, blast)
  then have "b f + sum_list (map (\<lambda>ds. delta_of ds f) (ds # rows)) = c f + sum_list (map (\<lambda>ds. delta_of ds f) rows)" for f
    by simp
  moreover have "\<forall>f. b' f = c f + sum_list (map (\<lambda>ds. delta_of ds f) rows) \<and> b' f \<le> USER_COUNTER_MAX_VALUE"
    using Cons.IH [OF c(2)] step(2) by blast
  ultimately show ?case by metis
qed simp

section \<open>Every operation keeps the invariant\<close>

lemma counters_ok_store: "counters_ok base r \<Longrightarrow> user_ok base r v \<Longrightarrow> counters_ok base (store_user v r)"
proof -
  assume a: "counters_ok base r" "user_ok base r v"
  have e: "events (store_user v r) i = events r i" for i by (simp add: events_def)
  have "user_ok base (store_user v r) w" if "w \<in> set (rp_users (store_user v r))" for w
    using user_in_store [OF that] a by (auto simp: user_ok_def counters_ok_def e)
  then show ?thesis using a(1) usr_id_store [of v r] by (simp add: counters_ok_def)
qed

lemma increment_facts:
  assumes "increment_user_counters u t k m = Inr v"
  shows "usr_id v = usr_id u" "usr_counter_epoch v = usr_counter_epoch u" "usr_counters u f \<le> usr_counters v f"
    and "usr_counters u f \<le> USER_COUNTER_MAX_VALUE \<Longrightarrow> usr_counters v f \<le> USER_COUNTER_MAX_VALUE"
proof -
  let ?ds = "[(Trades_count, t), (Commodities_traded_count, k), (Channel_messages_count, m)]"
  obtain vs where vs: "next_values (usr_counters u) ?ds = Inr vs" and v: "v = set_counters vs u"
    and nn: "0 \<le> t" "0 \<le> k" "0 \<le> m"
    using assms by (auto simp: increment_user_counters_def Let_def simp del: next_values.simps split: if_splits sum.splits)
  have d: "0 \<le> delta_of ?ds f" using nn by (cases f) (simp_all add: delta_of_def)
  have s: "usr_counters v f = (if delta_of ?ds f = 0 then usr_counters u f else usr_counters u f + delta_of ?ds f)"
    "delta_of ?ds f \<noteq> 0 \<Longrightarrow> usr_counters u f + delta_of ?ds f \<le> USER_COUNTER_MAX_VALUE"
    using next_values_sum [OF vs, of "usr_counters u"] by (simp_all add: v set_counters_def)
  show "usr_id v = usr_id u" "usr_counter_epoch v = usr_counter_epoch u" by (simp_all add: v set_counters_def)
  show "usr_counters u f \<le> usr_counters v f" using s(1) d by simp
  show "usr_counters v f \<le> USER_COUNTER_MAX_VALUE" if "usr_counters u f \<le> USER_COUNTER_MAX_VALUE"
    using s that by simp
qed

lemma changed_delta:
  "delta_of (filter (\<lambda>(f, d). d > 0) (map (\<lambda>f. (f, c f - p f)) (filter (\<lambda>f. p f \<noteq> c f) USER_COUNTER_FIELDS))) g =
     (if c g > p g then c g - p g else 0)"
  by (cases g) (simp_all add: USER_COUNTER_FIELDS_def delta_of_def)

lemma build_increment:
  assumes "usr_counter_epoch v = usr_counter_epoch u" and mono: "\<And>f. usr_counters u f \<le> usr_counters v f"
  shows "build_user_counter_event i now u v = Inr None \<Longrightarrow> usr_counters v = usr_counters u"
    and "build_user_counter_event i now u v = Inr (Some ev) \<Longrightarrow>
      ce_kind ev = ''increment'' \<and> ce_event_id ev = i \<and> ce_occurred_at ev = now \<and>
      (\<forall>f. delta_of (ce_deltas ev) f = usr_counters v f - usr_counters u f)"
proof -
  let ?ds = "map (\<lambda>f. (f, usr_counters v f - usr_counters u f))
    (filter (\<lambda>f. usr_counters u f \<noteq> usr_counters v f) USER_COUNTER_FIELDS)"
  have d: "delta_of (filter (\<lambda>(f, d). d > 0) ?ds) f = usr_counters v f - usr_counters u f" for f
    unfolding changed_delta using mono [of f] by simp
  { assume "build_user_counter_event i now u v = Inr None"
    then have "filter (\<lambda>(f, d). d > 0) ?ds = []"
      using assms(1) by (auto simp: build_user_counter_event_def Let_def split: if_splits)
    then show "usr_counters v = usr_counters u" using d by (simp add: delta_of_def fun_eq_iff) }
  { assume "build_user_counter_event i now u v = Inr (Some ev)"
    then show "ce_kind ev = ''increment'' \<and> ce_event_id ev = i \<and> ce_occurred_at ev = now \<and>
      (\<forall>f. delta_of (ce_deltas ev) f = usr_counters v f - usr_counters u f)"
      using assms(1) d by (auto simp: build_user_counter_event_def Let_def split: if_splits) }
qed

definition clock_not_behind :: "replica \<Rightarrow> int \<Rightarrow> int \<Rightarrow> bool" where
  "clock_not_behind r user_id now \<longleftrightarrow>
     list_all (\<lambda>c. cr_user_id c = user_id \<and> ce_kind c = ''reset'' \<longrightarrow> ce_occurred_at c \<le> now) (rp_receipts r)"

definition clock_ahead :: "replica \<Rightarrow> int \<Rightarrow> int \<Rightarrow> bool" where
  "clock_ahead r user_id now \<longleftrightarrow>
     list_all (\<lambda>c. cr_user_id c = user_id \<and> ce_kind c = ''increment'' \<longrightarrow> ce_occurred_at c < now) (rp_receipts r)"

lemma flush_increment:
  assumes "counters_ok base r" and "find_user r i = Some u" and "increment_user_counters u t k m = Inr v"
    and "clock_not_behind r i now" and "flush_user sha256 isoformat eid now u v r = Inr r'"
  shows "counters_ok base r'"
proof -
  note inc = increment_facts [OF assms(3)]
  have u: "user_ok base r u" "usr_id u = i" using find_user_ok [OF assms(1,2)] by simp_all
  have le: "usr_counters v f \<le> USER_COUNTER_MAX_VALUE" for f
    using inc(4) user_ok_le [OF u(1)] .
  note build = build_increment [OF inc(2,3)]
  show ?thesis
  proof (cases "build_user_counter_event eid now u v")
    case (Inr oev)
    show ?thesis
    proof (cases oev)
      case None
      then have "user_ok base r v" using build(1) Inr u(1) inc(1,2) by (simp add: user_ok_def)
      moreover have "r' = store_user v r" using assms(5) Inr None inc(2) by (simp add: flush_user_def)
      ultimately show ?thesis using counters_ok_store [OF assms(1)] by blast
    next
      case (Some ev)
      have ev: "ce_kind ev = ''increment''" "ce_occurred_at ev = now"
        "\<forall>f. usr_counters v f = usr_counters u f + delta_of (ce_deltas ev) f" "\<forall>f. 0 \<le> delta_of (ce_deltas ev) f"
        using build(2) Inr Some inc(3) by simp_all
      obtain receipts h where rec: "insert_receipt_row (receipt_of ev (rp_server r) (usr_id v) h ''applied'') (rp_receipts r) = Inr receipts"
        and r': "r' = (store_user v r)\<lparr>rp_receipts := receipts\<rparr>"
        using assms(5) Inr Some inc(2) ev(1)
        by (auto simp: flush_user_def record_local_user_counter_event_def Let_def split: sum.splits)
      have app: "receipts = rp_receipts r @ [receipt_of ev (rp_server r) (usr_id u) h ''applied'']"
        and fresh: "\<not> list_ex (\<lambda>c. ce_event_id c = ce_event_id ev) (rp_receipts r)"
        using rec inc(1) by (auto simp: insert_receipt_row_def split: if_splits)
      have b: "\<forall>a \<in> resets (events r (usr_id u)). ce_occurred_at a \<le> ce_occurred_at ev"
        using assms(4) u(2) ev(2) by (auto simp: clock_not_behind_def list_all_iff resets_def events_def)
      have "user_ok base (r\<lparr>rp_receipts := receipts\<rparr>) v"
        unfolding app using user_ok_counted [OF u(1) fresh ev(1,4) b inc(1,2) ev(3)] le by blast
      then show ?thesis unfolding r' using counters_ok_record [OF assms(1) rec] by blast
    qed
  qed (use assms(5) inc(2) in \<open>simp add: flush_user_def\<close>)
qed

lemma reset_facts:
  assumes "reset_user_counters_in_memory u = Inr v" and "1 \<le> usr_counter_epoch u"
  shows "usr_id v = usr_id u" "usr_counter_epoch v = usr_counter_epoch u + 1" "usr_counters v f = 0"
proof -
  have v: "v = set_counters (map (\<lambda>f. (f, 0)) USER_COUNTER_FIELDS) (u\<lparr>usr_counter_epoch := usr_counter_epoch u + 1\<rparr>)"
    using assms by (auto simp: reset_user_counters_in_memory_def Let_def split: if_splits)
  show "usr_id v = usr_id u" "usr_counter_epoch v = usr_counter_epoch u + 1" by (simp_all add: v set_counters_def)
  show "usr_counters v f = 0" by (cases f) (simp_all add: v set_counters_def USER_COUNTER_FIELDS_def)
qed

lemma flush_reset:
  assumes "counters_ok base r" and "find_user r i = Some u" and "reset_user_counters_in_memory u = Inr v"
    and "clock_ahead r i now" and "flush_user sha256 isoformat eid now u v r = Inr r'"
  shows "counters_ok base r'"
proof -
  have u: "user_ok base r u" "usr_id u = i" using find_user_ok [OF assms(1,2)] by simp_all
  let ?E = "events r (usr_id u)"
  have ro: "resets_ordered ?E" and ep: "usr_counter_epoch u = spec_epoch ?E" using u(1) by (simp_all add: user_ok_def Let_def)
  have pos: "1 \<le> usr_counter_epoch u" using spec_epoch_pos [OF finite_events ro] ep by simp
  note res = reset_facts [OF assms(3) pos]
  obtain ev where ev: "build_user_counter_event eid now u v = Inr (Some ev)" "ce_kind ev = ''reset''" "ce_deltas ev = []"
    "ce_epoch ev = usr_counter_epoch u + 1" "ce_occurred_at ev = now"
    using assms(5) res by (auto simp: flush_user_def build_user_counter_event_def Let_def split: if_splits sum.splits)
  let ?prev = "latest_reset (rp_receipts r) (usr_id v)"
  obtain receipts h where rec: "insert_receipt_row (receipt_of ev (rp_server r) (usr_id v) h ''applied'') (rp_receipts r) = Inr receipts"
    and r': "r' = (store_user v r)\<lparr>rp_receipts := receipts\<rparr>"
    and mono: "\<not> (case ?prev of None \<Rightarrow> False | Some l \<Rightarrow> ce_occurred_at ev \<le> ce_occurred_at l)"
    using assms(5) ev(1,2)
    by (auto simp: flush_user_def record_local_user_counter_event_def Let_def split: sum.splits if_splits)
  have app: "receipts = rp_receipts r @ [receipt_of ev (rp_server r) (usr_id u) h ''applied'']"
    using rec res(1) by (auto simp: insert_receipt_row_def split: if_splits)
  have b: "\<forall>a \<in> resets ?E. ce_occurred_at a < ce_occurred_at ev"
  proof (cases ?prev)
    case None
    then show ?thesis using latest_reset_None [of r "usr_id u"] res(1) by simp
  next
    case (Some l)
    then show ?thesis using latest_boundary [OF _ ro, of l] mono res(1) by fastforce
  qed
  have none: "{x \<in> ?E. ce_kind x = ''increment'' \<and> ce_occurred_at ev \<le> ce_occurred_at x} = {}"
    using assms(4) u(2) ev(5) by (auto simp: clock_ahead_def list_all_iff events_def)
  have "user_ok base (r\<lparr>rp_receipts := receipts\<rparr>) v"
    unfolding app using user_ok_reset [OF u(1) ev(2) _ ev(4) b res(1)] res(2,3) ev(3,4)
    by (simp add: none delta_of_def USER_COUNTER_MAX_VALUE_def)
  then show ?thesis unfolding r' using counters_ok_record [OF assms(1) rec] by blast
qed

lemma insert_receipt_None:
  "insert_receipt ev source i h out receipts = (None, receipts') \<Longrightarrow>
     insert_receipt_row (receipt_of ev source i h out) receipts = Inr receipts'"
  by (auto simp: insert_receipt_def split: sum.splits option.splits)

lemma insert_row_Inr:
  "insert_receipt_row (receipt_of ev source i h out) receipts = Inr receipts' \<Longrightarrow>
     receipts' = receipts @ [receipt_of ev source i h out] \<and> \<not> list_ex (\<lambda>c. ce_event_id c = ce_event_id ev) receipts"
  by (auto simp: insert_receipt_row_def split: if_splits)

lemma store_same: "counters_ok base r \<Longrightarrow> find_user r i = Some u \<Longrightarrow> store_user u r = r"
proof -
  assume a: "counters_ok base r" "find_user r i = Some u"
  have "usr_id w = usr_id u \<Longrightarrow> w = u" if "w \<in> set (rp_users r)" for w
    using a that find_user_in [OF a(2)] by (auto simp: counters_ok_def distinct_map inj_on_def)
  then have "map (\<lambda>w. if usr_id w = usr_id u then u else w) (rp_users r) = rp_users r" by (intro map_idI) auto
  then show ?thesis by (simp add: store_user_def)
qed

lemma apply_increment_ok:
  assumes "counters_ok base r" and "find_user r (usr_id u) = Some u" and "ce_kind ev = ''increment''"
    and "\<forall>f. 0 \<le> delta_of (ce_deltas ev) f" and "apply_increment ev source h u epoch boundary r = (st, r')"
    and "boundary = map_option ce_occurred_at (latest_reset (rp_receipts r) (usr_id u))"
  shows "counters_ok base r'"
proof -
  let ?E = "events r (usr_id u)"
  have u: "user_ok base r u" using find_user_ok [OF assms(1,2)] by simp
  then have ro: "resets_ordered ?E" by (simp add: user_ok_def Let_def)
  consider (same) "r' = r"
    | (excluded) b receipts where "boundary = Some b" "ce_occurred_at ev < b"
        "insert_receipt_row (receipt_of ev source (usr_id u) h ''excluded_pre_boundary'') (rp_receipts r) = Inr receipts"
        "r' = r\<lparr>rp_receipts := receipts\<rparr>"
    | (applied) vs receipts where "\<forall>b. boundary = Some b \<longrightarrow> b \<le> ce_occurred_at ev"
        "remote_values (usr_counters u) (ce_deltas ev) USER_COUNTER_FIELDS = Some vs"
        "insert_receipt_row (receipt_of ev source (usr_id u) h ''applied'') (rp_receipts r) = Inr receipts"
        "r' = (store_user (set_counters vs u) r)\<lparr>rp_receipts := receipts\<rparr>"
    using assms(5) unfolding apply_increment_def
    by (fastforce split: if_splits option.splits prod.splits dest: insert_receipt_None)
  then show ?thesis
  proof cases
    case same
    then show ?thesis using assms(1) by simp
  next
    case excluded
    obtain l where l: "latest_reset (rp_receipts r) (usr_id u) = Some l" "b = ce_occurred_at l"
      using excluded(1) assms(6) by auto
    have app: "receipts = rp_receipts r @ [receipt_of ev source (usr_id u) h ''excluded_pre_boundary'']"
      using insert_row_Inr [OF excluded(3)] by simp
    have "user_ok base (r\<lparr>rp_receipts := receipts\<rparr>) u"
      unfolding app using user_ok_excluded [OF u assms(3,4) latest_reset_Some(1) [OF l(1)]] excluded(2) l(2) by simp
    then show ?thesis
      using counters_ok_record [OF assms(1) excluded(3)] store_same [OF assms(1,2)] excluded(4) by simp
  next
    case applied
    have app: "receipts = rp_receipts r @ [receipt_of ev source (usr_id u) h ''applied'']"
      and fresh: "\<not> list_ex (\<lambda>c. ce_event_id c = ce_event_id ev) (rp_receipts r)"
      using insert_row_Inr [OF applied(3)] by simp_all
    have b: "\<forall>a \<in> resets ?E. ce_occurred_at a \<le> ce_occurred_at ev"
    proof (cases "latest_reset (rp_receipts r) (usr_id u)")
      case None
      then show ?thesis using latest_reset_None [of r "usr_id u"] by simp
    next
      case (Some l)
      then show ?thesis using latest_boundary [OF Some ro] applied(1) assms(6) by fastforce
    qed
    let ?v = "set_counters vs u"
    have v: "usr_id ?v = usr_id u" "usr_counter_epoch ?v = usr_counter_epoch u" by (simp_all add: set_counters_def)
    note sum = remote_values_sum [OF applied(2) fields_complete(2), of "usr_counters u"]
    have c: "\<forall>f. usr_counters ?v f = usr_counters u f + delta_of (ce_deltas ev) f"
      using sum by (simp add: set_counters_def)
    have le: "\<forall>f. usr_counters ?v f \<le> USER_COUNTER_MAX_VALUE"
      using sum user_ok_le [OF u] by (simp add: set_counters_def)
    have "user_ok base (r\<lparr>rp_receipts := receipts\<rparr>) ?v"
      unfolding app by (rule user_ok_counted [OF u fresh assms(3,4) b v c le])
    then show ?thesis unfolding applied(4) using counters_ok_record [OF assms(1)] applied(3) v(1) by metis
  qed
qed

lemma receipts_sum:
  assumes "counters_ok base r"
  shows "sum_list (map (\<lambda>ds. delta_of ds f) (map ce_deltas (filter (\<lambda>c. cr_user_id c = i \<and> P (event_of c)) (rp_receipts r)))) =
    (\<Sum>x \<in> {x \<in> events r i. P x}. delta_of (ce_deltas x) f)"
proof -
  let ?cs = "filter (\<lambda>c. cr_user_id c = i \<and> P (event_of c)) (rp_receipts r)"
  have d: "distinct (map ce_event_id (rp_receipts r))" using assms by (simp add: counters_ok_def)
  then have "distinct (map ce_event_id ?cs)" by (rule distinct_map_filter)
  then have "distinct (map ce_event_id (map event_of ?cs))" by (simp add: comp_def)
  then have "distinct (map event_of ?cs)" unfolding distinct_map [of ce_event_id] by blast
  then have "(\<Sum>x \<leftarrow> map event_of ?cs. delta_of (ce_deltas x) f) = (\<Sum>x \<in> set (map event_of ?cs). delta_of (ce_deltas x) f)"
    by (rule sum_list_distinct_conv_sum_set)
  moreover have "set (map event_of ?cs) = {x \<in> events r i. P x}" by (auto simp: events_def)
  ultimately show ?thesis by (simp add: comp_def)
qed

lemma apply_reset_ok:
  assumes "counters_ok base r" and "find_user r (usr_id u) = Some u" and "ce_kind ev = ''reset''"
    and "\<forall>f. 0 \<le> delta_of (ce_deltas ev) f" and "apply_reset ev source h u (usr_counter_epoch u) boundary r = (st, r')"
    and "boundary = map_option ce_occurred_at (latest_reset (rp_receipts r) (usr_id u))"
  shows "counters_ok base r'"
proof (cases "r' = r")
  case False
  let ?E = "events r (usr_id u)" and ?P = "\<lambda>x. ce_kind x = ''increment'' \<and> ce_occurred_at ev \<le> ce_occurred_at x"
  let ?rows = "map ce_deltas (filter (\<lambda>c. cr_user_id c = usr_id u \<and> ?P (event_of c)) (rp_receipts r))"
  have u: "user_ok base r u" using find_user_ok [OF assms(1,2)] by simp
  then have ro: "resets_ordered ?E" by (simp add: user_ok_def Let_def)
  have ep: "ce_epoch ev = usr_counter_epoch u + 1" and bd: "\<forall>b. boundary = Some b \<longrightarrow> b < ce_occurred_at ev"
    using assms(5) False unfolding apply_reset_def by (auto split: if_splits option.splits)
  obtain rebuilt receipts where rb: "rebuild_counters ?rows (\<lambda>f. 0) = Some rebuilt"
    and rec: "insert_receipt_row (receipt_of ev source (usr_id u) h ''applied'') (rp_receipts r) = Inr receipts"
    and r': "r' = (store_user (u\<lparr>usr_counters := rebuilt, usr_counter_epoch := ce_epoch ev\<rparr>) r)\<lparr>rp_receipts := receipts\<rparr>"
    using assms(5) False unfolding apply_reset_def
    by (auto simp: Let_def split: if_splits option.splits prod.splits dest!: insert_receipt_None)
  let ?v = "u\<lparr>usr_counters := rebuilt, usr_counter_epoch := ce_epoch ev\<rparr>"
  have app: "receipts = rp_receipts r @ [receipt_of ev source (usr_id u) h ''applied'']"
    using insert_row_Inr [OF rec] by simp
  have b: "\<forall>a \<in> resets ?E. ce_occurred_at a < ce_occurred_at ev"
  proof (cases "latest_reset (rp_receipts r) (usr_id u)")
    case None
    then show ?thesis using latest_reset_None [of r "usr_id u"] by simp
  next
    case (Some l)
    then show ?thesis using latest_boundary [OF Some ro] bd assms(6) by fastforce
  qed
  have sum: "\<forall>f. rebuilt f = 0 + sum_list (map (\<lambda>ds. delta_of ds f) ?rows) \<and> rebuilt f \<le> USER_COUNTER_MAX_VALUE"
    by (rule rebuild_sum [OF rb]) (simp add: USER_COUNTER_MAX_VALUE_def)
  have c: "\<forall>f. usr_counters ?v f = (\<Sum>x \<in> {x \<in> ?E. ?P x}. delta_of (ce_deltas x) f)"
    using sum receipts_sum [OF assms(1), of _ "usr_id u" ?P] by simp
  have "usr_counters ?v = rebuilt" by simp
  then have le: "\<forall>f. usr_counters ?v f \<le> USER_COUNTER_MAX_VALUE" using sum by metis
  have "user_ok base (r\<lparr>rp_receipts := receipts\<rparr>) ?v"
    unfolding app by (rule user_ok_reset [OF u assms(3,4) ep b _ _ c le]) simp_all
  then show ?thesis unfolding r' using counters_ok_record [OF assms(1), of ev source ?v h "''applied''" receipts] rec by simp
qed (use assms(1) in simp)

lemma apply_event_ok:
  assumes "counters_ok base r" and "\<forall>f. 0 \<le> delta_of (ce_deltas ev) f"
    and "apply_user_counter_event sha256 isoformat record_id identity ev source r = (st, r')"
  shows "counters_ok base r'"
proof (cases "r' = r")
  case False
  then obtain i u h s where u: "find_user r i = Some u" and k: "ce_kind ev \<in> {''increment'', ''reset''}"
    and loc: "apply_located ev s h u r = (st, r')"
    using assms(3) by (auto simp: apply_user_counter_event_def Let_def
      split: if_splits prod.splits target_resolution.splits option.splits)
  have id: "usr_id u = i" "find_user r (usr_id u) = Some u" and ok: "user_ok base r u"
    using find_user_ok [OF assms(1) u] u by simp_all
  have pos: "1 \<le> usr_counter_epoch u"
    using ok spec_epoch_pos [OF finite_events] by (simp add: user_ok_def Let_def)
  let ?l = "latest_reset (rp_receipts r) (usr_id u)"
  have bd: "(if usr_counter_epoch u = 1 then None else map_option ce_occurred_at ?l) = map_option ce_occurred_at ?l"
    using loc pos False by (auto simp: apply_located_def Let_def split: if_splits)
  have "(if ce_kind ev = ''increment'' then apply_increment ev s h u (usr_counter_epoch u) (map_option ce_occurred_at ?l) r
      else apply_reset ev s h u (usr_counter_epoch u) (map_option ce_occurred_at ?l) r) = (st, r')"
    using loc pos False bd unfolding apply_located_def Let_def by (auto split: if_splits)
  then show ?thesis
    using apply_increment_ok [OF assms(1) id(2)] apply_reset_ok [OF assms(1) id(2)] k assms(2) by (auto split: if_splits)
qed (use assms(1) in simp)

section \<open>Runs of a server\<close>

text \<open>A server starts with rows in their first period and no receipts.  Local writes are the increments of
  trades and offers and the resets of administrators; \<open>clock_not_behind\<close> and \<open>clock_ahead\<close> say that the clock
  of the writing server has passed the instants it already recorded for the user.\<close>

definition initial :: "(int \<Rightarrow> counter_field \<Rightarrow> int) \<Rightarrow> replica \<Rightarrow> bool" where
  "initial base r \<longleftrightarrow>
     (\<forall>i f. 0 \<le> base i f \<and> base i f \<le> USER_COUNTER_MAX_VALUE) \<and> distinct (map usr_id (rp_users r)) \<and>
     rp_receipts r = [] \<and> (\<forall>u \<in> set (rp_users r). usr_counter_epoch u = 1 \<and> usr_counters u = base (usr_id u))"

inductive counter_step :: "(string \<Rightarrow> string) \<Rightarrow> (int \<Rightarrow> string) \<Rightarrow> replica \<Rightarrow> replica \<Rightarrow> bool"
  for sha256 :: "string \<Rightarrow> string" and isoformat :: "int \<Rightarrow> string" where
  local_write: "counter_step sha256 isoformat r r'"
    if "find_user r i = Some u" "increment_user_counters u t k m = Inr v" "clock_not_behind r i now"
       "flush_user sha256 isoformat eid now u v r = Inr r'"
| local_action: "counter_step sha256 isoformat r (increment_user_counter sha256 isoformat eid now i action r)"
    if "clock_not_behind r i now"
| local_reset: "counter_step sha256 isoformat r r'"
    if "clock_ahead r i now" "reset_user_counters sha256 isoformat eid now i r = Inr r'"
| receive: "counter_step sha256 isoformat r r'"
    if "sanitize_counter_item uuid_text fromisoformat now operation payload source = Inr ev"
       "apply_user_counter_event sha256 isoformat record_id (cp_identity payload) ev source r = (st, r')"

lemma initial_ok: "initial base r \<Longrightarrow> counters_ok base r"
  by (auto simp: initial_def counters_ok_def user_ok_def events_def resets_def spec_epoch_def spec_counter_def
      counted_def resets_ordered_def counted_deltas_def fun_eq_iff Let_def)

lemma sanitized_deltas:
  assumes "sanitize_counter_item uuid_text fromisoformat now operation payload source = Inr ev"
  shows "0 \<le> delta_of (ce_deltas ev) f"
proof -
  have "deltas_valid (ce_kind ev) (ce_deltas ev)"
    using assms unfolding sanitize_counter_item_def sanitize_user_counter_event_def Let_def
    by (auto split: if_splits option.splits json.splits prod.splits)
  then have "\<forall>p \<in> set (ce_deltas ev). 0 \<le> snd p" by (force simp: deltas_valid_def list_ex_iff)
  then show ?thesis by (auto simp: delta_of_def dest!: map_of_SomeD split: option.splits)
qed

lemma action_ok:
  assumes "counters_ok base r" and "clock_not_behind r i now"
  shows "counters_ok base (increment_user_counter sha256 isoformat eid now i action r)"
proof (cases "find_user r i")
  case None
  then show ?thesis using assms(1) by (simp add: increment_user_counter_def)
next
  case (Some u)
  have self: "flush_user sha256 isoformat eid now u u r = Inr (store_user u r)"
    by (simp add: flush_user_def build_user_counter_event_def Let_def USER_COUNTER_FIELDS_def)
  show ?thesis
    using assms Some flush_increment [OF assms(1) Some _ assms(2)] store_same [OF assms(1) Some] self
    by (auto simp: increment_user_counter_def split: counter_action.splits sum.splits)
qed

lemma step_ok: "counters_ok base r \<Longrightarrow> counter_step sha256 isoformat r r' \<Longrightarrow> counters_ok base r'"
proof (erule counter_step.cases, goal_cases)
  case (1 r i u t k m v now eid r')
  then show ?case using flush_increment by blast
next
  case (2 r i now eid action)
  then show ?case using action_ok by blast
next
  case (3 r i now eid r')
  then show ?case using flush_reset
    by (fastforce simp: reset_user_counters_def split: option.splits sum.splits)
next
  case (4 uuid_text fromisoformat now operation payload source ev record_id r st r')
  then show ?case using apply_event_ok sanitized_deltas by metis
qed

interpretation counters: invariant_system "initial base" "counter_step sha256 isoformat" "counters_ok base"
  for base sha256 isoformat
  by unfold_locales (simp_all add: initial_ok step_ok)

section \<open>Properties\<close>


definition sample_sha :: "string \<Rightarrow> string" where
  "sample_sha s = s"

definition sample_parse :: "string \<Rightarrow> pydt option" where
  "sample_parse s = map_option (\<lambda>i. Aware i 0) (py_int_of_string s)"

definition sample_user :: user_row where
  "sample_user = \<lparr>usr_id = 1, usr_account_name = [97], usr_mobile_number = [49],
     usr_normalized_account_name = [97], usr_normalized_mobile_number = [49], usr_telegram_id = None,
     usr_counters = (\<lambda>f. 0), usr_counter_epoch = 1\<rparr>"

definition sample_replica :: replica where
  "sample_replica = \<lparr>rp_server = SERVER_FOREIGN, rp_users = [sample_user], rp_receipts = []\<rparr>"

definition sample_increment :: counter_event where
  "sample_increment = \<lparr>ce_event_id = ''e1'', ce_kind = ''increment'', ce_epoch = 2,
     ce_deltas = [(Trades_count, 1), (Commodities_traded_count, 7)], ce_occurred_at = 90\<rparr>"

definition sample_reset :: counter_event where
  "sample_reset = \<lparr>ce_event_id = ''e2'', ce_kind = ''reset'', ce_epoch = 2, ce_deltas = [], ce_occurred_at = 50\<rparr>"

definition sample_receive :: "counter_event \<Rightarrow> replica \<Rightarrow> replica" where
  "sample_receive ev r = snd (apply_user_counter_event sample_sha py_str_int (Some 1)
     (cp_identity (user_counter_event_payload py_str_int sample_user ev)) ev (Some ''iran'') r)"

lemma sample_initial: "reachable (initial (\<lambda>i f. 0)) (counter_step sample_sha py_str_int) sample_replica"
  by (rule reachable_init) (simp add: initial_def sample_replica_def sample_user_def USER_COUNTER_MAX_VALUE_def)

lemma sample_step:
  assumes "reachable I (counter_step sample_sha py_str_int) r" and "ev \<in> {sample_increment, sample_reset}"
  shows "reachable I (counter_step sample_sha py_str_int) (sample_receive ev r)"
proof -
  have s: "sanitize_counter_item Some sample_parse 100 ''UPDATE'' (user_counter_event_payload py_str_int sample_user sample_increment)
      (Some ''iran'') = Inr sample_increment"
    "sanitize_counter_item Some sample_parse 100 ''UPDATE'' (user_counter_event_payload py_str_int sample_user sample_reset)
      (Some ''iran'') = Inr sample_reset"
    by code_simp+
  then have "sanitize_counter_item Some sample_parse 100 ''UPDATE'' (user_counter_event_payload py_str_int sample_user ev)
      (Some ''iran'') = Inr ev" using assms(2) by blast
  then have "counter_step sample_sha py_str_int r (sample_receive ev r)"
    unfolding sample_receive_def using prod.collapse by (rule counter_step.receive [OF _ sym])
  then show ?thesis by (rule reachable_step [OF assms(1)])
qed

definition sample_early :: replica where
  "sample_early = sample_receive sample_reset (sample_receive sample_increment sample_replica)"

definition sample_late :: replica where
  "sample_late = sample_receive sample_increment (sample_receive sample_reset sample_replica)"

lemma sample_reachable:
  "reachable (initial (\<lambda>i f. 0)) (counter_step sample_sha py_str_int) sample_early"
  "reachable (initial (\<lambda>i f. 0)) (counter_step sample_sha py_str_int) sample_late"
  unfolding sample_early_def sample_late_def by (intro sample_step sample_initial; simp)+

lemma events_code: "events r i = set (map event_of (filter (\<lambda>c. cr_user_id c = i) (rp_receipts r)))"
  by (auto simp: events_def)

lemma sample_events:
  "events sample_early 1 = {sample_increment, sample_reset}" "events sample_late 1 = {sample_increment, sample_reset}"
  unfolding events_code by code_simp+

lemma sample_found:
  "find_user sample_early 1 = Some (the (find_user sample_early 1))"
  "find_user sample_late 1 = Some (the (find_user sample_late 1))"
proof -
  have "\<not> Option.is_none (find_user sample_early 1)" "\<not> Option.is_none (find_user sample_late 1)" by code_simp+
  then show "find_user sample_early 1 = Some (the (find_user sample_early 1))"
    "find_user sample_late 1 = Some (the (find_user sample_late 1))" by (simp_all add: Option.is_none_def)
qed




lemma seen_event_kept:
  assumes "e \<in> ce_event_id ` set (rp_receipts r)" and "counter_step sha256 isoformat r r'"
  shows "e \<in> ce_event_id ` set (rp_receipts r')"
proof -
  have flush: "e \<in> ce_event_id ` set (rp_receipts s)" if "flush_user sha256 isoformat eid now u v r = Inr s" for eid now u v s
    using that assms(1) by (auto simp: flush_user_def record_local_user_counter_event_def insert_receipt_row_def Let_def
        split: if_splits sum.splits option.splits)
  have ins: "e \<in> ce_event_id ` set rs" if "insert_receipt ev source i h out (rp_receipts r) = (d, rs)" for ev source i h out d rs
    using that assms(1) by (auto simp: insert_receipt_def insert_receipt_row_def split: if_splits sum.splits option.splits)
  have app: "e \<in> ce_event_id ` set (rp_receipts s)"
    if "apply_user_counter_event sha256 isoformat record_id identity ev source r = (st, s)" for record_id identity ev source st s
  proof (cases "s = r")
    case False
    then show ?thesis using that ins
      by (auto simp: apply_user_counter_event_def apply_located_def apply_increment_def apply_reset_def Let_def
          split: if_splits prod.splits target_resolution.splits option.splits)
  qed (use assms(1) in simp)
  from assms(2) show ?thesis
  proof cases
    case (local_action i now eid action)
    then show ?thesis using flush assms(1)
      by (auto simp: increment_user_counter_def split: option.splits sum.splits counter_action.splits)
  next
    case (local_reset i now eid)
    then show ?thesis using flush assms(1)
      by (auto simp: reset_user_counters_def split: option.splits sum.splits)
  qed (use flush app in blast)+
qed

lemma seen_event_ignored:
  assumes "ce_event_id ev \<in> ce_event_id ` set (rp_receipts r)"
  shows "snd (apply_user_counter_event sha256 isoformat record_id identity ev source r) = r"
proof -
  have "find (\<lambda>c. ce_event_id c = ce_event_id ev) (rp_receipts r) \<noteq> None" using assms by (auto simp: find_None_iff)
  then obtain c where "find (\<lambda>c. ce_event_id c = ce_event_id ev) (rp_receipts r) = Some c" by blast
  then have seen: "(existing_receipt_decision (rp_receipts r) (ce_event_id ev) s i h = None) = False" for s i h
    by (simp add: existing_receipt_decision_def)
  show ?thesis
    by (auto simp: seen apply_user_counter_event_def Let_def split: prod.splits target_resolution.splits option.splits)
qed

lemma applied_event_recorded:
  assumes "apply_user_counter_event sha256 isoformat record_id identity ev source r = (Apply_ok, r')"
  shows "ce_event_id ev \<in> ce_event_id ` set (rp_receipts r')"
proof -
  have ex: "existing_receipt_decision rs e s i h \<noteq> Some Apply_ok" for rs e s i h
    by (simp add: existing_receipt_decision_def split: option.splits)
  have ok: "d \<noteq> Some Apply_ok" "d = None \<Longrightarrow> ce_event_id ev \<in> ce_event_id ` set rs"
    if "insert_receipt ev s i h out (rp_receipts r) = (d, rs)" for s i h out d rs
    using that ex by (auto simp: insert_receipt_def insert_receipt_row_def split: if_splits sum.splits option.splits)
  obtain u h s where loc: "apply_located ev s h u r = (Apply_ok, r')"
    using assms ex by (auto simp: apply_user_counter_event_def Let_def
      split: if_splits prod.splits target_resolution.splits option.splits)
  then show ?thesis using ok
    by (fastforce simp: apply_located_def apply_increment_def apply_reset_def Let_def
      split: if_splits prod.splits option.splits)
qed

text \<open>C17: Exactly once: after an event has been applied, no event with its identifier changes the server again,
  whatever happened in between and whatever the repetition contains.\<close>

theorem counter_event_applied_once:
  assumes "apply_user_counter_event sha256 isoformat record_id identity ev source r = (Apply_ok, r1)"
    and "(counter_step sha256 isoformat)\<^sup>*\<^sup>* r1 r2" and "ce_event_id ev' = ce_event_id ev"
  shows "snd (apply_user_counter_event sha256 isoformat record_id' identity' ev' source' r2) = r2"
proof -
  have "ce_event_id ev \<in> ce_event_id ` set (rp_receipts r2)"
    using assms(2) applied_event_recorded [OF assms(1)]
    by (induction rule: rtranclp_induct) (blast intro: seen_event_kept)+
  then show ?thesis using assms(3) by (intro seen_event_ignored) simp
qed

theorem counter_event_applied_once_witness:
  "sample_receive sample_increment (sample_receive sample_increment sample_replica) =
   sample_receive sample_increment sample_replica"
proof -
  let ?i = "cp_identity (user_counter_event_payload py_str_int sample_user sample_increment)"
  have "fst (apply_user_counter_event sample_sha py_str_int (Some 1) ?i sample_increment (Some ''iran'') sample_replica) = Apply_ok"
    by code_simp
  then have a: "apply_user_counter_event sample_sha py_str_int (Some 1) ?i sample_increment (Some ''iran'') sample_replica =
      (Apply_ok, sample_receive sample_increment sample_replica)"
    by (simp add: sample_receive_def prod_eq_iff)
  show ?thesis using counter_event_applied_once [OF a rtranclp.rtrancl_refl refl] unfolding sample_receive_def .
qed

lemma typed_deltas_roundtrip: "typed_deltas (map (\<lambda>(f, d). (field_name f, JInt d)) ds) = Some ds"
proof (induction ds)
  case (Cons p ds)
  have "field_of_name (field_name f) = Some f" for f
    by (cases f) (simp_all add: field_of_name_def USER_COUNTER_FIELDS_def)
  then show ?case using Cons by (cases p) simp
qed simp

lemma built_deltas_valid:
  assumes "build_user_counter_event eid t u v = Inr (Some ev)"
  shows "deltas_valid (ce_kind ev) (ce_deltas ev) \<and> ce_kind ev \<in> {''increment'', ''reset''} \<and>
    ce_epoch ev = usr_counter_epoch v \<and> ce_event_id ev = eid \<and> ce_occurred_at ev = t"
proof -
  have some: "list_ex P (filter P xs) \<longleftrightarrow> filter P xs \<noteq> []" for P and xs :: "(counter_field, int) dict"
    by (induction xs) auto
  have small: "\<not> list_ex (\<lambda>(f, d). d < 0 \<or> d > n) (filter Q xs)"
    if "\<not> list_ex (\<lambda>(f, d). d < 0) xs" "\<not> list_ex (\<lambda>(f, d). d > n) xs" for Q xs and n :: int
    using that by (fastforce simp: list_ex_iff)
  show ?thesis using assms unfolding build_user_counter_event_def Let_def deltas_valid_def
    by (auto simp: some small split: if_splits)
qed



text \<open>The clock condition is needed: a server that has recorded a reset and then counts a trade with a clock
  behind the boundary of the reset keeps the trade, while the other server excludes the same event.\<close>

definition behind_writer :: replica where
  "behind_writer = increment_user_counter sample_sha py_str_int ''e3'' 40 1 (Trade_action 5)
     (sample_receive sample_reset sample_replica)"

definition behind_reader :: replica where
  "behind_reader = sample_receive
     (\<lparr>ce_event_id = ''e3'', ce_kind = ''increment'', ce_epoch = 2,
       ce_deltas = [(Trades_count, 1), (Commodities_traded_count, 5)], ce_occurred_at = 40\<rparr>)
     (sample_receive sample_reset sample_replica)"

lemma clock_behind_diverges:
  "events behind_writer 1 = events behind_reader 1"
  "usr_counters (the (find_user behind_writer 1)) Trades_count = 1"
  "usr_counters (the (find_user behind_reader 1)) Trades_count = 0"
  unfolding events_code by code_simp+

end
