(* ===== verification/PublisherDispatch.thy ===== *)
theory PublisherDispatch
  imports DeliveryQueue OfferRequestLedger
begin

text \<open>
  The publisher lanes of the Telegram delivery: the contract of \<open>core/telegram_multi_publisher_contract.py\<close> (envelopes
  between bots, dispatch states, classification of offer actions) and the durable commands of
  \<open>core/services/telegram_publisher_dispatch_service.py\<close>.  A command tells a publisher bot that a job of its lane
  waits; the primary bot sends it as a text message until the publisher acknowledges.

  Instants are microseconds of UTC.  Arguments stand for the validity of a UUID (\<open>uuid_ok\<close>), the ISO text of a
  UTC instant (\<open>isoformat\<close>), its parser (\<open>fromisoformat\<close>), \<open>float\<close> on text (\<open>float_text\<close>), the clock, the gateway
  and random command identifiers.
\<close>

section \<open>Text\<close>

text \<open>\<open>text.split(separator)\<close> for a one-character separator.\<close>

fun split_on :: "char \<Rightarrow> string \<Rightarrow> string list" where
  "split_on sep [] = [[]]"
| "split_on sep (c # cs) =
     (if c = sep then [] # split_on sep cs
      else (case split_on sep cs of [] \<Rightarrow> [[c]] | w # ws \<Rightarrow> (c # w) # ws))"

text \<open>\<open>text.replace(old, new)\<close> for a non-empty \<open>old\<close>.\<close>

function py_replace :: "string \<Rightarrow> string \<Rightarrow> string \<Rightarrow> string" where
  "py_replace old new [] = []"
| "py_replace old new (c # cs) =
     (if old \<noteq> [] \<and> take (length old) (c # cs) = old then new @ py_replace old new (drop (length old) (c # cs))
      else c # py_replace old new cs)"
  by pat_completeness auto
termination
  by (relation "measure (\<lambda>(old, new, s). length s)") (auto simp: Suc_le_eq)

section \<open>The contract\<close>

definition TELEGRAM_B2B_PROTOCOL_VERSION :: string where
  "TELEGRAM_B2B_PROTOCOL_VERSION = ''tbq1''"

definition TELEGRAM_B2B_ENVELOPE_SEPARATOR :: char where
  "TELEGRAM_B2B_ENVELOPE_SEPARATOR = CHR ''|''"

definition TELEGRAM_PUBLISHER_IDENTITIES :: "string list" where
  "TELEGRAM_PUBLISHER_IDENTITIES = [''publisher_1'', ''publisher_2'', ''publisher_3'', ''publisher_4'', ''publisher_5'']"

datatype b2b_message_type = B2B_DISPATCH | B2B_ACK

fun b2b_message_type_value :: "b2b_message_type \<Rightarrow> string" where
  "b2b_message_type_value B2B_DISPATCH = ''dispatch''"
| "b2b_message_type_value B2B_ACK = ''ack''"

definition b2b_message_type_of :: "string \<Rightarrow> b2b_message_type option" where
  "b2b_message_type_of s = find (\<lambda>t. b2b_message_type_value t = s) [B2B_DISPATCH, B2B_ACK]"

datatype dispatch_state = DS_PENDING | DS_SENT | DS_ACKNOWLEDGED | DS_RETRY_DUE | DS_FAILED | DS_SUPERSEDED

datatype lifecycle_operation = OP_PUBLISH | OP_ACTIVE_EDIT | OP_TERMINAL_EDIT | OP_RECONCILIATION_EDIT

definition OFFER_ACTION_OPERATIONS :: "(delivery_action \<times> lifecycle_operation) list" where
  "OFFER_ACTION_OPERATIONS =
     [(OFFER_PUBLISH, OP_PUBLISH), (PARTIAL_OFFER_EDIT, OP_ACTIVE_EDIT), (OTHER_ACTIVE_OFFER_EDIT, OP_ACTIVE_EDIT),
      (OVERTIME_CHANNEL_EDIT, OP_ACTIVE_EDIT), (FINAL_TAIL_CHANNEL_EDIT, OP_ACTIVE_EDIT),
      (INVALID_ACTION_BUTTON_EDIT, OP_ACTIVE_EDIT), (TRADED_OFFER_EDIT, OP_TERMINAL_EDIT),
      (EXPIRED_OFFER_EDIT, OP_TERMINAL_EDIT), (CANCELLED_OFFER_EDIT, OP_TERMINAL_EDIT),
      (RECONCILIATION_EDIT, OP_RECONCILIATION_EDIT)]"

fun ALLOWED_DISPATCH_TRANSITIONS :: "dispatch_state \<Rightarrow> dispatch_state list" where
  "ALLOWED_DISPATCH_TRANSITIONS DS_PENDING = [DS_SENT, DS_ACKNOWLEDGED, DS_RETRY_DUE, DS_FAILED, DS_SUPERSEDED]"
| "ALLOWED_DISPATCH_TRANSITIONS DS_SENT = [DS_ACKNOWLEDGED, DS_RETRY_DUE, DS_FAILED, DS_SUPERSEDED]"
| "ALLOWED_DISPATCH_TRANSITIONS DS_RETRY_DUE = [DS_SENT, DS_ACKNOWLEDGED, DS_FAILED, DS_SUPERSEDED]"
| "ALLOWED_DISPATCH_TRANSITIONS DS_ACKNOWLEDGED = []"
| "ALLOWED_DISPATCH_TRANSITIONS DS_FAILED = []"
| "ALLOWED_DISPATCH_TRANSITIONS DS_SUPERSEDED = []"

datatype contract_error =
    CommandIdInvalid | SequenceInvalid | TimestampInvalid | OfferActionUnsupported
  | DispatchAckTimeForbidden | AckTimeMissing | EnvelopeInvalid | ProtocolUnsupported | MessageTypeInvalid
  | EnvelopeShapeInvalid

record b2b_envelope =
  env_message_type :: b2b_message_type
  env_command_id :: string
  env_sequence :: int
  env_enqueued_at :: pydt
  env_ack_sent_at :: "pydt option"

definition ULID_ALPHABET :: string where
  "ULID_ALPHABET = ''0123456789ABCDEFGHJKMNPQRSTVWXYZ''"

definition ulid_pattern :: "string \<Rightarrow> bool" where
  "ulid_pattern s \<longleftrightarrow> length s = 26 \<and> list_all (\<lambda>c. c \<in> set ULID_ALPHABET) s"

definition normalized_command_id :: "(string \<Rightarrow> bool) \<Rightarrow> string \<Rightarrow> contract_error + string" where
  "normalized_command_id uuid_ok value =
     (let command_id = py_strip value
      in if command_id = [] then Inl CommandIdInvalid
         else if uuid_ok command_id \<or> ulid_pattern command_id then Inr command_id
         else Inl CommandIdInvalid)"

text \<open>The sequence of an envelope is an integer; a field of a message is text.\<close>

definition positive_sequence :: "int \<Rightarrow> contract_error + int" where
  "positive_sequence v = (if v \<le> 0 then Inl SequenceInvalid else Inr v)"

definition positive_sequence_text :: "string \<Rightarrow> contract_error + int" where
  "positive_sequence_text v =
     (case py_int_of_string v of
        None \<Rightarrow> Inl SequenceInvalid
      | Some i \<Rightarrow> (if i \<le> 0 \<or> py_str_int i \<noteq> py_strip v then Inl SequenceInvalid else Inr i))"

definition normalized_utc_timestamp :: "pydt \<Rightarrow> contract_error + int" where
  "normalized_utc_timestamp v =
     (case v of Naive w \<Rightarrow> Inl TimestampInvalid | Aware w offset \<Rightarrow> Inr (w - offset))"

definition parse_utc_timestamp :: "(string \<Rightarrow> pydt option) \<Rightarrow> string \<Rightarrow> contract_error + int" where
  "parse_utc_timestamp fromisoformat v =
     (case fromisoformat (py_replace ''Z'' ''+00:00'' v) of
        None \<Rightarrow> Inl TimestampInvalid
      | Some t \<Rightarrow> normalized_utc_timestamp t)"

definition render_utc_timestamp :: "(int \<Rightarrow> string) \<Rightarrow> pydt \<Rightarrow> contract_error + string" where
  "render_utc_timestamp isoformat v =
     (case normalized_utc_timestamp v of
        Inl e \<Rightarrow> Inl e
      | Inr t \<Rightarrow> Inr (py_replace ''+00:00'' ''Z'' (isoformat t)))"

definition classify_telegram_publisher_offer_action :: "string \<Rightarrow> contract_error + lifecycle_operation" where
  "classify_telegram_publisher_offer_action action =
     (case find (\<lambda>p. action_value (fst p) = action) OFFER_ACTION_OPERATIONS of
        None \<Rightarrow> Inl OfferActionUnsupported
      | Some p \<Rightarrow> Inr (snd p))"

definition is_allowed_telegram_publisher_dispatch_transition :: "dispatch_state \<Rightarrow> dispatch_state \<Rightarrow> bool" where
  "is_allowed_telegram_publisher_dispatch_transition current target \<longleftrightarrow>
     target = current \<or> target \<in> set (ALLOWED_DISPATCH_TRANSITIONS current)"

definition join_fields :: "string list \<Rightarrow> string" where
  "join_fields parts = concat (separate_by [TELEGRAM_B2B_ENVELOPE_SEPARATOR] parts)"

definition render_telegram_publisher_b2b_envelope ::
  "(string \<Rightarrow> bool) \<Rightarrow> (int \<Rightarrow> string) \<Rightarrow> b2b_envelope \<Rightarrow> contract_error + string" where
  "render_telegram_publisher_b2b_envelope uuid_ok isoformat env =
     (case normalized_command_id uuid_ok (env_command_id env) of
        Inl e \<Rightarrow> Inl e
      | Inr command_id \<Rightarrow>
          (case positive_sequence (env_sequence env) of
             Inl e \<Rightarrow> Inl e
           | Inr sequence \<Rightarrow>
               (case render_utc_timestamp isoformat (env_enqueued_at env) of
                  Inl e \<Rightarrow> Inl e
                | Inr enqueued_at \<Rightarrow>
                    (let parts = [TELEGRAM_B2B_PROTOCOL_VERSION, b2b_message_type_value (env_message_type env),
                                   command_id, py_str_int sequence, enqueued_at]
                     in case (env_message_type env, env_ack_sent_at env) of
                          (B2B_DISPATCH, Some t) \<Rightarrow> Inl DispatchAckTimeForbidden
                        | (B2B_DISPATCH, None) \<Rightarrow> Inr (join_fields parts)
                        | (B2B_ACK, None) \<Rightarrow> Inl AckTimeMissing
                        | (B2B_ACK, Some t) \<Rightarrow>
                            (case render_utc_timestamp isoformat t of
                               Inl e \<Rightarrow> Inl e
                             | Inr ack \<Rightarrow> Inr (join_fields (parts @ [ack])))))))"

text \<open>The fields of a message in the order in which the code reads them.\<close>

definition parse_fields ::
  "(string \<Rightarrow> bool) \<Rightarrow> (string \<Rightarrow> pydt option) \<Rightarrow> b2b_message_type \<Rightarrow> string list \<Rightarrow> contract_error + b2b_envelope" where
  "parse_fields uuid_ok fromisoformat message_type parts =
     (case normalized_command_id uuid_ok (parts ! 2) of
        Inl e \<Rightarrow> Inl e
      | Inr command_id \<Rightarrow>
          (case positive_sequence_text (parts ! 3) of
             Inl e \<Rightarrow> Inl e
           | Inr sequence \<Rightarrow>
               (case parse_utc_timestamp fromisoformat (parts ! 4) of
                  Inl e \<Rightarrow> Inl e
                | Inr enqueued_at \<Rightarrow>
                    (if message_type = B2B_ACK
                     then (case parse_utc_timestamp fromisoformat (parts ! 5) of
                             Inl e \<Rightarrow> Inl e
                           | Inr ack \<Rightarrow>
                               Inr \<lparr>env_message_type = message_type, env_command_id = command_id,
                                    env_sequence = sequence, env_enqueued_at = Aware enqueued_at 0,
                                    env_ack_sent_at = Some (Aware ack 0)\<rparr>)
                     else Inr \<lparr>env_message_type = message_type, env_command_id = command_id,
                               env_sequence = sequence, env_enqueued_at = Aware enqueued_at 0,
                               env_ack_sent_at = None\<rparr>))))"

definition parse_telegram_publisher_b2b_envelope ::
  "(string \<Rightarrow> bool) \<Rightarrow> (string \<Rightarrow> pydt option) \<Rightarrow> string \<Rightarrow> contract_error + b2b_envelope" where
  "parse_telegram_publisher_b2b_envelope uuid_ok fromisoformat value =
     (if value = [] \<or> length value > 512 then Inl EnvelopeInvalid
      else
        (let parts = split_on TELEGRAM_B2B_ENVELOPE_SEPARATOR value
         in if parts = [] \<or> hd parts \<noteq> TELEGRAM_B2B_PROTOCOL_VERSION then Inl ProtocolUnsupported
            else
              (case (if length parts \<le> 1 then None else b2b_message_type_of (parts ! 1)) of
                 None \<Rightarrow> Inl MessageTypeInvalid
               | Some message_type \<Rightarrow>
                   (if length parts \<noteq> (if message_type = B2B_DISPATCH then 5 else 6) then Inl EnvelopeShapeInvalid
                    else parse_fields uuid_ok fromisoformat message_type parts))))"

section \<open>Lanes\<close>

datatype dispatch_error =
    DispatchIsForeignLocal | PublisherIdentityInvalid | NoHealthyLane | RoundRobinSequenceInvalid
  | InFlightCountInvalid | JobOwnerMismatch | DispatchJobInvalid | DispatchSequenceInvalid | DispatchTimeInvalid
  | CommandOwnerMismatch | DispatchLeaseInvalid | TimeOverflow | SenderInvalid | PrimarySenderInvalid
  | SenderNotAllowlisted | MalformedEnvelope | DispatchTypeRequired | AckTypeRequired | CommandNotFound
  | CommandNotAssigned | CommandStale | PublisherSenderInvalid | AckSenderMismatch | PublisherDestinationInvalid
  | RenderFailed contract_error | DuplicateCommandId

definition require_foreign :: "string option \<Rightarrow> bool" where
  "require_foreign current_server \<longleftrightarrow> py_norm current_server = SERVER_FOREIGN"

definition publisher_identity :: "string \<Rightarrow> string option" where
  "publisher_identity v =
     (let identity = py_strip v in if identity \<in> set TELEGRAM_PUBLISHER_IDENTITIES then Some identity else None)"

definition set_telegram_publisher_lane_health :: "string \<Rightarrow> bool \<Rightarrow> string set \<Rightarrow> dispatch_error + string set" where
  "set_telegram_publisher_lane_health identity healthy lanes =
     (case publisher_identity identity of
        None \<Rightarrow> Inl PublisherIdentityInvalid
      | Some i \<Rightarrow> Inr (if healthy then insert i lanes else lanes - {i}))"

text \<open>\<open>sorted({_publisher_identity(v) for v in values})\<close>: the identities are listed in lexicographic order.\<close>

definition normalized_publishers :: "string list \<Rightarrow> dispatch_error + string list" where
  "normalized_publishers vs =
     (if list_ex (\<lambda>v. publisher_identity v = None) vs then Inl PublisherIdentityInvalid
      else Inr (filter (\<lambda>p. p \<in> py_strip ` set vs) TELEGRAM_PUBLISHER_IDENTITIES))"

record lane_selection =
  ls_publisher :: string
  ls_in_flight :: int

definition lane_count :: "(string, int) dict \<Rightarrow> string \<Rightarrow> int" where
  "lane_count counts p = (case dict_get counts p of None \<Rightarrow> 0 | Some c \<Rightarrow> c)"

definition select_telegram_publisher_lane ::
  "string list \<Rightarrow> (string, int) dict \<Rightarrow> int \<Rightarrow> dispatch_error + lane_selection" where
  "select_telegram_publisher_lane healthy_publishers in_flight_counts round_robin_sequence =
     (case normalized_publishers healthy_publishers of
        Inl e \<Rightarrow> Inl e
      | Inr healthy \<Rightarrow>
          (if healthy = [] then Inl NoHealthyLane
           else if round_robin_sequence \<le> 0 then Inl RoundRobinSequenceInvalid
           else if list_ex (\<lambda>p. lane_count in_flight_counts p < 0) healthy then Inl InFlightCountInvalid
           else
             (let minimum = Min (set (map (lane_count in_flight_counts) healthy));
                  tied = filter (\<lambda>p. lane_count in_flight_counts p = minimum) healthy;
                  selected = tied ! nat ((round_robin_sequence - 1) mod int (length tied))
              in Inr \<lparr>ls_publisher = selected, ls_in_flight = lane_count in_flight_counts selected\<rparr>)))"

text \<open>\<open>SELECT bot_identity, count(id) ... GROUP BY bot_identity\<close> over the jobs that are not final.\<close>

definition in_flight_rows :: "delivery_job list \<Rightarrow> string list \<Rightarrow> (string, int) dict" where
  "in_flight_rows jobs healthy =
     filter (\<lambda>p. snd p > 0)
       (map (\<lambda>p. (p, int (length (filter (\<lambda>j. job_bot_identity j = p \<and> job_state j \<notin> set FINAL_DELIVERY_STATES) jobs))))
          healthy)"

definition select_telegram_publisher_lane_for_job ::
  "delivery_job list \<Rightarrow> string list \<Rightarrow> int \<Rightarrow> dispatch_error + lane_selection" where
  "select_telegram_publisher_lane_for_job jobs healthy_publishers round_robin_sequence =
     (case normalized_publishers healthy_publishers of
        Inl e \<Rightarrow> Inl e
      | Inr healthy \<Rightarrow>
          (if healthy = [] then Inl NoHealthyLane
           else select_telegram_publisher_lane healthy (in_flight_rows jobs healthy) round_robin_sequence))"

section \<open>Commands\<close>

record dispatch_command =
  dc_id :: int
  dc_command_id :: string
  dc_job_id :: int
  dc_publisher :: string
  dc_sequence :: int
  dc_state :: dispatch_state
  dc_attempt_count :: int
  dc_next_retry_at :: "int option"
  dc_lease_token :: int
  dc_lease_until :: "int option"
  dc_sent_at :: "int option"
  dc_acknowledged_at :: "int option"
  dc_receipt_sequence :: "int option"
  dc_receipt_received_at :: "int option"
  dc_last_error_class :: "string option"
  dc_created_at :: int
  dc_updated_at :: int

text \<open>The table in the order of its primary key.\<close>

record dispatch_table =
  dt_commands :: "dispatch_command list"
  dt_next_id :: int

definition utc_of :: "pydt \<Rightarrow> int option" where
  "utc_of v = (case v of Naive w \<Rightarrow> None | Aware w offset \<Rightarrow> Some (w - offset))"

definition update_command :: "dispatch_command \<Rightarrow> dispatch_table \<Rightarrow> dispatch_table" where
  "update_command c t = t\<lparr>dt_commands := map (\<lambda>d. if dc_id d = dc_id c then c else d) (dt_commands t)\<rparr>"

definition command_by_id :: "dispatch_table \<Rightarrow> string \<Rightarrow> dispatch_command option" where
  "command_by_id t command_id = find (\<lambda>c. dc_command_id c = command_id) (dt_commands t)"

definition new_command :: "string \<Rightarrow> int \<Rightarrow> string \<Rightarrow> int \<Rightarrow> int \<Rightarrow> int \<Rightarrow> dispatch_command" where
  "new_command command_id jid publisher sequence now key =
     \<lparr>dc_id = key, dc_command_id = command_id, dc_job_id = jid, dc_publisher = publisher,
      dc_sequence = sequence, dc_state = DS_PENDING, dc_attempt_count = 0, dc_next_retry_at = None,
      dc_lease_token = 0, dc_lease_until = None, dc_sent_at = None, dc_acknowledged_at = None,
      dc_receipt_sequence = None, dc_receipt_received_at = None, dc_last_error_class = None,
      dc_created_at = now, dc_updated_at = now\<rparr>"

text \<open>The job enters with its bot identity, identifier and sequence.  The second look-up of the code serves a
  concurrent insertion of the same job, which \<open>ON CONFLICT DO NOTHING\<close> lets win.\<close>

definition get_or_create_telegram_publisher_dispatch_command ::
  "string option \<Rightarrow> string \<Rightarrow> delivery_job \<Rightarrow> string \<Rightarrow> pydt \<Rightarrow> dispatch_table
     \<Rightarrow> dispatch_error + dispatch_command \<times> dispatch_table" where
  "get_or_create_telegram_publisher_dispatch_command current_server fresh_id job publisher_bot_identity now t =
     (if \<not> require_foreign current_server then Inl DispatchIsForeignLocal
      else case publisher_identity publisher_bot_identity of
        None \<Rightarrow> Inl PublisherIdentityInvalid
      | Some publisher \<Rightarrow>
          (if py_strip (job_bot_identity job) \<noteq> publisher then Inl JobOwnerMismatch
           else if job_id job \<le> 0 then Inl DispatchJobInvalid
           else if job_created_sequence job \<le> 0 then Inl DispatchSequenceInvalid
           else case utc_of now of
             None \<Rightarrow> Inl DispatchTimeInvalid
           | Some current_time \<Rightarrow>
               (case find (\<lambda>c. dc_job_id c = job_id job) (dt_commands t) of
                  Some c \<Rightarrow> (if dc_publisher c \<noteq> publisher then Inl CommandOwnerMismatch else Inr (c, t))
                | None \<Rightarrow>
                    (if list_ex (\<lambda>c. dc_command_id c = fresh_id) (dt_commands t) then Inl DuplicateCommandId
                     else
                       (let c = new_command fresh_id (job_id job) publisher (job_created_sequence job) current_time
                                  (dt_next_id t)
                        in Inr (c, t\<lparr>dt_commands := dt_commands t @ [c], dt_next_id := dt_next_id t + 1\<rparr>))))))"

definition render_telegram_publisher_dispatch ::
  "(string \<Rightarrow> bool) \<Rightarrow> (int \<Rightarrow> string) \<Rightarrow> dispatch_command \<Rightarrow> dispatch_error + string" where
  "render_telegram_publisher_dispatch uuid_ok isoformat c =
     (if dc_sequence c \<le> 0 then Inl DispatchSequenceInvalid
      else case render_telegram_publisher_b2b_envelope uuid_ok isoformat
             \<lparr>env_message_type = B2B_DISPATCH, env_command_id = dc_command_id c, env_sequence = dc_sequence c,
              env_enqueued_at = Aware (dc_created_at c) 0, env_ack_sent_at = None\<rparr> of
             Inl e \<Rightarrow> Inl (RenderFailed e)
           | Inr text \<Rightarrow> Inr text)"

definition due :: "int \<Rightarrow> int option \<Rightarrow> bool" where
  "due now instant = (case instant of None \<Rightarrow> True | Some a \<Rightarrow> a \<le> now)"

definition claimable_command :: "int \<Rightarrow> dispatch_command \<Rightarrow> bool" where
  "claimable_command now c \<longleftrightarrow>
     dc_state c \<in> {DS_PENDING, DS_RETRY_DUE, DS_SENT} \<and> due now (dc_next_retry_at c) \<and> due now (dc_lease_until c)"

definition lease_command :: "int \<Rightarrow> rat \<Rightarrow> dispatch_command \<Rightarrow> dispatch_command" where
  "lease_command now lease_seconds c =
     c\<lparr>dc_lease_token := dc_lease_token c + 1, dc_lease_until := Some (now + seconds_us lease_seconds),
       dc_attempt_count := dc_attempt_count c + 1, dc_next_retry_at := None, dc_updated_at := now\<rparr>"

definition claim_next_telegram_publisher_dispatch_command ::
  "string option \<Rightarrow> pyfloat \<Rightarrow> pydt \<Rightarrow> dispatch_table
     \<Rightarrow> dispatch_error + (dispatch_command \<times> int) option \<times> dispatch_table" where
  "claim_next_telegram_publisher_dispatch_command current_server lease_seconds now t =
     (if \<not> require_foreign current_server then Inl DispatchIsForeignLocal
      else case utc_of now of
        None \<Rightarrow> Inl DispatchTimeInvalid
      | Some current_time \<Rightarrow>
          (case lease_seconds of
             FFin s \<Rightarrow>
               (if s \<le> 0 then Inl DispatchLeaseInvalid
                else case find (claimable_command current_time) (dt_commands t) of
                  None \<Rightarrow> Inr (None, t)
                | Some c \<Rightarrow>
                    (let leased = lease_command current_time s c
                     in Inr (Some (leased, dc_lease_token leased), update_command leased t)))
           | _ \<Rightarrow> Inl DispatchLeaseInvalid))"

text \<open>\<open>float(value)\<close> with the errors the code catches.\<close>

definition float_of_json :: "(string \<Rightarrow> pyfloat option) \<Rightarrow> pyval \<Rightarrow> pyfloat option" where
  "float_of_json float_text v =
     (case v of PInt i \<Rightarrow> Some (FFin (of_int i)) | PFloat f \<Rightarrow> Some f | PStr s \<Rightarrow> float_text s | _ \<Rightarrow> None)"

text \<open>\<open>max(0.1, x)\<close>: a value that is not a number loses every comparison.\<close>

definition at_least_tenth :: "pyfloat \<Rightarrow> pyfloat" where
  "at_least_tenth x = (case x of FFin r \<Rightarrow> FFin (max (1 / 10) r) | FInf \<Rightarrow> FInf | FNan \<Rightarrow> FFin (1 / 10))"

definition gateway_retry_after_seconds :: "(string \<Rightarrow> pyfloat option) \<Rightarrow> gateway_result \<Rightarrow> pyfloat \<Rightarrow> pyfloat" where
  "gateway_retry_after_seconds float_text result fallback =
     (let value = (case gr_json result of
                     None \<Rightarrow> PNone
                   | Some j \<Rightarrow> (case rj_parameters j of None \<Rightarrow> PNone | Some p \<Rightarrow> rp_retry_after p))
      in at_least_tenth (case float_of_json float_text value of None \<Rightarrow> fallback | Some x \<Rightarrow> x))"

text \<open>\<open>now + timedelta(seconds=x)\<close>; an infinite delay raises \<open>OverflowError\<close>.\<close>

definition after_seconds :: "int \<Rightarrow> pyfloat \<Rightarrow> int option" where
  "after_seconds now x = (case x of FFin r \<Rightarrow> Some (now + seconds_us r) | _ \<Rightarrow> None)"

definition settle_command ::
  "(string \<Rightarrow> pyfloat option) \<Rightarrow> gateway_result \<Rightarrow> pyfloat \<Rightarrow> pyfloat \<Rightarrow> int \<Rightarrow> dispatch_command \<Rightarrow> dispatch_command option" where
  "settle_command float_text result retry_delay acknowledgement_timeout_seconds now c =
     (if gr_ok result
      then map_option (\<lambda>until. c\<lparr>dc_lease_until := None, dc_state := DS_SENT,
             dc_sent_at := (case dc_sent_at c of None \<Rightarrow> Some now | Some s \<Rightarrow> Some s),
             dc_next_retry_at := Some until, dc_last_error_class := None, dc_updated_at := now\<rparr>)
             (after_seconds now (at_least_tenth acknowledgement_timeout_seconds))
      else map_option (\<lambda>until. c\<lparr>dc_lease_until := None, dc_state := DS_RETRY_DUE, dc_next_retry_at := Some until,
             dc_last_error_class := Some (take 120 (case gr_error result of
                Some (x # xs) \<Rightarrow> x # xs | _ \<Rightarrow> ''telegram_b2b_send_failed'')),
             dc_updated_at := now\<rparr>)
             (after_seconds now (gateway_retry_after_seconds float_text result retry_delay)))"

definition record_telegram_publisher_dispatch_result ::
  "(string \<Rightarrow> pyfloat option) \<Rightarrow> string option \<Rightarrow> string \<Rightarrow> int \<Rightarrow> gateway_result \<Rightarrow> pyfloat \<Rightarrow> pyfloat \<Rightarrow> pydt
     \<Rightarrow> dispatch_table \<Rightarrow> dispatch_error + bool \<times> dispatch_table" where
  "record_telegram_publisher_dispatch_result float_text current_server command_id lease_token result
       retry_delay acknowledgement_timeout_seconds now t =
     (if \<not> require_foreign current_server then Inl DispatchIsForeignLocal
      else case utc_of now of
        None \<Rightarrow> Inl DispatchTimeInvalid
      | Some current_time \<Rightarrow>
          (case command_by_id t command_id of
             None \<Rightarrow> Inr (False, t)
           | Some c \<Rightarrow>
               (if dc_lease_token c \<noteq> lease_token then Inr (False, t)
                else if dc_state c = DS_ACKNOWLEDGED then Inr (True, t)
                else case settle_command float_text result retry_delay acknowledgement_timeout_seconds
                            current_time c of
                  None \<Rightarrow> Inl TimeOverflow
                | Some c' \<Rightarrow> Inr (True, update_command c' t))))"

definition acknowledge_command :: "int \<Rightarrow> int \<Rightarrow> dispatch_command \<Rightarrow> dispatch_command" where
  "acknowledge_command sequence now c =
     c\<lparr>dc_state := DS_ACKNOWLEDGED, dc_acknowledged_at := Some now, dc_receipt_sequence := Some sequence,
       dc_receipt_received_at := Some now, dc_lease_until := None, dc_next_retry_at := None, dc_updated_at := now\<rparr>"

record inbound_result =
  ir_publisher :: string
  ir_command_id :: string
  ir_duplicate :: bool
  ir_acknowledgement_text :: string

definition acknowledgement_text ::
  "(string \<Rightarrow> bool) \<Rightarrow> (int \<Rightarrow> string) \<Rightarrow> dispatch_command \<Rightarrow> int \<Rightarrow> contract_error + string" where
  "acknowledgement_text uuid_ok isoformat c now =
     render_telegram_publisher_b2b_envelope uuid_ok isoformat
       \<lparr>env_message_type = B2B_ACK, env_command_id = dc_command_id c, env_sequence = dc_sequence c,
        env_enqueued_at = Aware (dc_created_at c) 0, env_ack_sent_at = Some (Aware now 0)\<rparr>"

text \<open>An error rolls the transaction back, so that no table is returned with it.\<close>

definition accept_telegram_publisher_dispatch ::
  "(string \<Rightarrow> bool) \<Rightarrow> (int \<Rightarrow> string) \<Rightarrow> (string \<Rightarrow> pydt option) \<Rightarrow> string option \<Rightarrow> string \<Rightarrow> int \<Rightarrow> int \<Rightarrow> string \<Rightarrow> pydt
     \<Rightarrow> dispatch_table \<Rightarrow> dispatch_error + inbound_result \<times> dispatch_table" where
  "accept_telegram_publisher_dispatch uuid_ok isoformat fromisoformat current_server publisher_bot_identity
       expected_primary_bot_id sender_bot_id text now t =
     (if \<not> require_foreign current_server then Inl DispatchIsForeignLocal
      else case publisher_identity publisher_bot_identity of
        None \<Rightarrow> Inl PublisherIdentityInvalid
      | Some publisher \<Rightarrow>
          (if sender_bot_id \<le> 0 then Inl SenderInvalid
           else if expected_primary_bot_id \<le> 0 then Inl PrimarySenderInvalid
           else if sender_bot_id \<noteq> expected_primary_bot_id then Inl SenderNotAllowlisted
           else case parse_telegram_publisher_b2b_envelope uuid_ok fromisoformat text of
             Inl e \<Rightarrow> Inl MalformedEnvelope
           | Inr env \<Rightarrow>
               (if env_message_type env \<noteq> B2B_DISPATCH then Inl DispatchTypeRequired
                else case command_by_id t (env_command_id env) of
                  None \<Rightarrow> Inl CommandNotFound
                | Some c \<Rightarrow>
                    (if dc_publisher c \<noteq> publisher then Inl CommandNotAssigned
                     else if dc_sequence c \<noteq> env_sequence env then Inl CommandStale
                     else if dc_state c \<in> {DS_FAILED, DS_SUPERSEDED} then Inl CommandStale
                     else case utc_of now of
                       None \<Rightarrow> Inl DispatchTimeInvalid
                     | Some current_time \<Rightarrow>
                         (let duplicate = (dc_state c = DS_ACKNOWLEDGED);
                              t' = (if duplicate then t
                                    else update_command (acknowledge_command (env_sequence env) current_time c) t)
                          in case acknowledgement_text uuid_ok isoformat c current_time of
                               Inl e \<Rightarrow> Inl (RenderFailed e)
                             | Inr ack \<Rightarrow>
                                 Inr (\<lparr>ir_publisher = publisher, ir_command_id = dc_command_id c,
                                       ir_duplicate = duplicate, ir_acknowledgement_text = ack\<rparr>, t'))))))"

definition accept_telegram_publisher_acknowledgement ::
  "(string \<Rightarrow> bool) \<Rightarrow> (string \<Rightarrow> pydt option) \<Rightarrow> string option \<Rightarrow> int \<Rightarrow> (string, int) dict \<Rightarrow> string \<Rightarrow> pydt
     \<Rightarrow> dispatch_table \<Rightarrow> dispatch_error + dispatch_table" where
  "accept_telegram_publisher_acknowledgement uuid_ok fromisoformat current_server sender_bot_id publisher_bot_ids text now t =
     (if \<not> require_foreign current_server then Inl DispatchIsForeignLocal
      else case parse_telegram_publisher_b2b_envelope uuid_ok fromisoformat text of
        Inl e \<Rightarrow> Inl MalformedEnvelope
      | Inr env \<Rightarrow>
          (if env_message_type env \<noteq> B2B_ACK then Inl AckTypeRequired
           else case command_by_id t (env_command_id env) of
             None \<Rightarrow> Inl CommandNotFound
           | Some c \<Rightarrow>
               (case publisher_identity (dc_publisher c) of
                  None \<Rightarrow> Inl PublisherIdentityInvalid
                | Some publisher \<Rightarrow>
                    (case dict_get publisher_bot_ids publisher of
                       None \<Rightarrow> Inl PublisherSenderInvalid
                     | Some expected_sender \<Rightarrow>
                         (if expected_sender \<le> 0 then Inl PublisherSenderInvalid
                          else if sender_bot_id \<le> 0 then Inl SenderInvalid
                          else if sender_bot_id \<noteq> expected_sender then Inl AckSenderMismatch
                          else if dc_sequence c \<noteq> env_sequence env then Inl CommandStale
                          else if dc_state c = DS_ACKNOWLEDGED then Inr t
                          else if dc_state c \<in> {DS_FAILED, DS_SUPERSEDED} then Inl CommandStale
                          else case utc_of now of
                            None \<Rightarrow> Inl DispatchTimeInvalid
                          | Some current_time \<Rightarrow>
                              Inr (update_command (acknowledge_command (env_sequence env) current_time c) t))))))"

text \<open>The message of a leased command: destination and text of the \<open>sendMessage\<close> call.\<close>

definition dispatch_claimed_telegram_publisher_command ::
  "(string \<Rightarrow> bool) \<Rightarrow> (int \<Rightarrow> string) \<Rightarrow> dispatch_command \<Rightarrow> (string, int) dict \<Rightarrow> dispatch_error + int \<times> string" where
  "dispatch_claimed_telegram_publisher_command uuid_ok isoformat c publisher_bot_ids =
     (case publisher_identity (dc_publisher c) of
        None \<Rightarrow> Inl PublisherIdentityInvalid
      | Some publisher \<Rightarrow>
          (case dict_get publisher_bot_ids publisher of
             None \<Rightarrow> Inl PublisherDestinationInvalid
           | Some bot_id \<Rightarrow>
               (if bot_id \<le> 0 then Inl PublisherDestinationInvalid
                else case render_telegram_publisher_dispatch uuid_ok isoformat c of
                  Inl e \<Rightarrow> Inl e
                | Inr text \<Rightarrow> Inr (bot_id, text))))"

record dispatch_settings =
  set_uuid_ok :: "string \<Rightarrow> bool"
  set_isoformat :: "int \<Rightarrow> string"
  set_float_text :: "string \<Rightarrow> pyfloat option"
  set_current_server :: "string option"
  set_publisher_bot_ids :: "(string, int) dict"
  set_lease_seconds :: pyfloat
  set_retry_after_seconds :: pyfloat
  set_acknowledgement_timeout_seconds :: pyfloat

record cycle_report =
  cy_claimed_count :: nat
  cy_sent_count :: nat
  cy_retry_due_count :: nat

text \<open>The rounds of a cycle.  The gateway answers a message, the clock is read before a claim and before the
  result is recorded; round \<open>k\<close> reads it at \<open>2 * k\<close> and \<open>2 * k + 1\<close>.  Every transaction of a finished round
  is committed, also when a later round raises an error.\<close>

fun dispatch_rounds ::
  "dispatch_settings \<Rightarrow> (int \<Rightarrow> string \<Rightarrow> gateway_result) \<Rightarrow> (nat \<Rightarrow> pydt) \<Rightarrow> nat \<Rightarrow> nat \<Rightarrow> cycle_report \<Rightarrow> dispatch_table
     \<Rightarrow> (dispatch_error + cycle_report) \<times> dispatch_table" where
  "dispatch_rounds cfg gateway clock k 0 rep t = (Inr rep, t)"
| "dispatch_rounds cfg gateway clock k (Suc n) rep t =
     (case claim_next_telegram_publisher_dispatch_command (set_current_server cfg) (set_lease_seconds cfg) (clock (2 * k)) t of
        Inl e \<Rightarrow> (Inl e, t)
      | Inr (None, t1) \<Rightarrow> (Inr rep, t)
      | Inr (Some (c, token), t1) \<Rightarrow>
          (case dispatch_claimed_telegram_publisher_command (set_uuid_ok cfg) (set_isoformat cfg) c
                  (set_publisher_bot_ids cfg) of
             Inl e \<Rightarrow> (Inl e, t1)
           | Inr (bot_id, text) \<Rightarrow>
               (let result = gateway bot_id text
                in case record_telegram_publisher_dispatch_result (set_float_text cfg) (set_current_server cfg)
                          (dc_command_id c) token result (set_retry_after_seconds cfg)
                          (set_acknowledgement_timeout_seconds cfg) (clock (2 * k + 1)) t1 of
                     Inl e \<Rightarrow> (Inl e, t1)
                   | Inr (recorded, t2) \<Rightarrow>
                       dispatch_rounds cfg gateway clock (k + 1) n
                         (rep\<lparr>cy_claimed_count := cy_claimed_count rep + 1,
                              cy_sent_count := cy_sent_count rep + (if gr_ok result then 1 else 0),
                              cy_retry_due_count := cy_retry_due_count rep + (if gr_ok result then 0 else 1)\<rparr>) t2)))"

definition run_telegram_publisher_dispatch_cycle ::
  "dispatch_settings \<Rightarrow> (int \<Rightarrow> string \<Rightarrow> gateway_result) \<Rightarrow> (nat \<Rightarrow> pydt) \<Rightarrow> int \<Rightarrow> dispatch_table
     \<Rightarrow> (dispatch_error + cycle_report) \<times> dispatch_table" where
  "run_telegram_publisher_dispatch_cycle cfg gateway clock limit t =
     (if \<not> require_foreign (set_current_server cfg) then (Inl DispatchIsForeignLocal, t)
      else dispatch_rounds cfg gateway clock 0 (nat (max 1 limit))
             \<lparr>cy_claimed_count = 0, cy_sent_count = 0, cy_retry_due_count = 0\<rparr> t)"

end
