(* ===== verification/PublisherProtocol.thy ===== *)
theory PublisherProtocol
  imports PublisherDispatch
begin

text \<open>
  Properties of the publisher lanes: messages between the bots survive the wire, the table of commands keeps its
  constraints, acknowledgements are final, a sender whose lease was taken over cannot change a command, and
  the choice of a lane is fair.
\<close>

section \<open>Text\<close>

lemma split_on_word: "sep \<notin> set w \<Longrightarrow> split_on sep w = [w]"
  by (induction w) auto

lemma split_on_append: "sep \<notin> set w \<Longrightarrow> split_on sep (w @ sep # rest) = w # split_on sep rest"
  by (induction w) auto

lemma split_on_join:
  assumes "ws \<noteq> []" and "\<forall>w \<in> set ws. sep \<notin> set w"
  shows "split_on sep (concat (separate_by [sep] ws)) = ws"
  using assms by (induction "[sep]" ws rule: separate_by.induct) (auto simp: split_on_word split_on_append)

lemma replace_last:
  assumes "old = c # cs" and "c \<notin> set p"
  shows "py_replace old new (p @ old) = p @ new"
  using assms(2)
proof (induction p)
  case Nil
  show ?case by (simp add: assms(1))
next
  case (Cons x p)
  then show ?case by (auto simp: assms(1))
qed

lemma nat_str_digits: "c \<in> set (nat_str n) \<Longrightarrow> digit_val c \<noteq> None"
proof (induction n rule: nat_str.induct)
  case (1 n)
  have d: "digit_val (char_of (48 + m)) \<noteq> None" if "m < 10" for m :: nat using digit_char [OF that] by simp
  show ?case
  proof (cases "n < 10")
    case True
    then show ?thesis using 1(2) d [of n] by (subst (asm) nat_str.simps) simp
  next
    case False
    then show ?thesis using 1 d [of "n mod 10"] by (subst (asm) (2) nat_str.simps) auto
  qed
qed

lemma separator_free_number: "0 < i \<Longrightarrow> CHR ''|'' \<notin> set (py_str_int i)"
  using nat_str_digits [of "CHR ''|''" "nat i"] by (auto simp: py_str_int_def digit_val_def)

section \<open>Envelopes\<close>

text \<open>What the code relies on of the standard library, for the instants of the years 1 to 9999: a UUID has no separator, the ISO text of a UTC instant is
  some text without plus sign, Z or separator before \<open>+00:00\<close>, of at most 32 characters, and \<open>fromisoformat\<close> reads
  it back.\<close>

definition representable :: "int \<Rightarrow> bool" where
  "representable t \<longleftrightarrow> - 62135596800000000 \<le> t \<and> t \<le> 253402300799999999"

definition library_texts :: "(string \<Rightarrow> bool) \<Rightarrow> (int \<Rightarrow> string) \<Rightarrow> (string \<Rightarrow> pydt option) \<Rightarrow> bool" where
  "library_texts uuid_ok isoformat fromisoformat \<longleftrightarrow>
     (\<forall>s. uuid_ok s \<longrightarrow> CHR ''|'' \<notin> set s) \<and>
     (\<forall>t. representable t \<longrightarrow> (\<exists>p. isoformat t = p @ ''+00:00'' \<and> set p \<inter> {CHR ''+'', CHR ''Z'', CHR ''|''} = {} \<and>
              length (isoformat t) \<le> 32 \<and> fromisoformat (isoformat t) = Some (Aware t 0)))"

lemma timestamp_text:
  assumes "library_texts uuid_ok isoformat fromisoformat" and "representable (w - off)"
  shows "\<exists>s. render_utc_timestamp isoformat (Aware w off) = Inr s \<and> CHR ''|'' \<notin> set s \<and> length s \<le> 32 \<and>
    parse_utc_timestamp fromisoformat s = Inr (w - off)"
proof -
  obtain p where p: "isoformat (w - off) = p @ ''+00:00''" "set p \<inter> {CHR ''+'', CHR ''Z'', CHR ''|''} = {}"
    "fromisoformat (isoformat (w - off)) = Some (Aware (w - off) 0)" "length (isoformat (w - off)) \<le> 32"
    using assms unfolding library_texts_def by blast
  have r: "render_utc_timestamp isoformat (Aware w off) = Inr (p @ ''Z'')"
    using p(1,2) replace_last [of "''+00:00''" "CHR ''+''" "''00:00''" p "''Z''"]
    by (simp add: render_utc_timestamp_def normalized_utc_timestamp_def)
  have "py_replace ''Z'' ''+00:00'' (p @ ''Z'') = isoformat (w - off)"
    using p(1,2) replace_last [of "''Z''" "CHR ''Z''" "[]" p "''+00:00''"] by simp
  then have "parse_utc_timestamp fromisoformat (p @ ''Z'') = Inr (w - off)"
    using p(3) by (simp add: parse_utc_timestamp_def normalized_utc_timestamp_def)
  then show ?thesis using r p(1,2,4) by auto
qed

lemma command_id_text:
  assumes "library_texts uuid_ok isoformat fromisoformat" and "normalized_command_id uuid_ok v = Inr s"
  shows "CHR ''|'' \<notin> set s \<and> normalized_command_id uuid_ok s = Inr s \<and> py_strip v = s"
proof -
  have u: "CHR ''|'' \<notin> set ULID_ALPHABET" by code_simp
  show ?thesis using assms u
    by (auto simp: normalized_command_id_def library_texts_def ulid_pattern_def Let_def list_all_iff split: if_splits)
qed

lemma sequence_text: "0 < i \<Longrightarrow> positive_sequence_text (py_str_int i) = Inr i"
  using py_int_of_string_str [of i] py_strip_word [OF py_word_str [of i]] by (simp add: positive_sequence_text_def)

text \<open>The envelope a message is read as: surrounding white space of the identifier and time zones are gone.\<close>

definition envelope_times :: "b2b_envelope \<Rightarrow> bool" where
  "envelope_times env \<longleftrightarrow>
     (\<forall>w off. env_enqueued_at env = Aware w off \<longrightarrow> representable (w - off)) \<and>
     (\<forall>w off. env_ack_sent_at env = Some (Aware w off) \<longrightarrow> representable (w - off))"

definition canonical_envelope :: "b2b_envelope \<Rightarrow> b2b_envelope" where
  "canonical_envelope env =
     env\<lparr>env_command_id := py_strip (env_command_id env),
         env_enqueued_at := (case utc_of (env_enqueued_at env) of Some t \<Rightarrow> Aware t 0 | None \<Rightarrow> env_enqueued_at env),
         env_ack_sent_at := map_option (\<lambda>a. case utc_of a of Some t \<Rightarrow> Aware t 0 | None \<Rightarrow> a) (env_ack_sent_at env)\<rparr>"

lemma render_timestamp_Aware:
  "render_utc_timestamp isoformat v = Inr s \<Longrightarrow> \<exists>w off. v = Aware w off"
  by (auto simp: render_utc_timestamp_def normalized_utc_timestamp_def split: pydt.splits)

lemma parse_joined:
  assumes "parts = [''tbq1'', b2b_message_type_value m, i, s, e] @ tail" and "\<forall>p \<in> set parts. CHR ''|'' \<notin> set p"
    and "length tail = (if m = B2B_DISPATCH then 0 else 1)" and "length (join_fields parts) \<le> 512"
  shows "parse_telegram_publisher_b2b_envelope uuid_ok fromisoformat (join_fields parts) =
    parse_fields uuid_ok fromisoformat m parts"
proof -
  have sp: "split_on CHR ''|'' (join_fields parts) = parts"
    unfolding join_fields_def TELEGRAM_B2B_ENVELOPE_SEPARATOR_def using assms(1,2) by (intro split_on_join) auto
  have ne: "join_fields parts \<noteq> []" using sp assms(1) by auto
  have m: "b2b_message_type_of (b2b_message_type_value m) = Some m" by (cases m) (simp_all add: b2b_message_type_of_def)
  have parts: "parts \<noteq> []" "hd parts = ''tbq1''" "\<not> length parts \<le> 1" "b2b_message_type_of (parts ! 1) = Some m"
    "length parts = (if m = B2B_DISPATCH then 5 else 6)" using assms(1,3) m by simp_all
  show ?thesis using assms(4) ne parts
    by (simp add: parse_telegram_publisher_b2b_envelope_def TELEGRAM_B2B_ENVELOPE_SEPARATOR_def sp
        TELEGRAM_B2B_PROTOCOL_VERSION_def)
qed

lemma parse_rendered:
  assumes "library_texts uuid_ok isoformat fromisoformat"
    and "render_telegram_publisher_b2b_envelope uuid_ok isoformat env = Inr text" and "length text \<le> 512"
    and "envelope_times env"
  shows "parse_telegram_publisher_b2b_envelope uuid_ok fromisoformat text = Inr (canonical_envelope env)"
proof -
  obtain i e where i: "normalized_command_id uuid_ok (env_command_id env) = Inr i" and pos: "0 < env_sequence env"
    and e: "render_utc_timestamp isoformat (env_enqueued_at env) = Inr e"
    using assms(2) by (auto simp: render_telegram_publisher_b2b_envelope_def positive_sequence_def Let_def
      split: sum.splits if_splits)
  note id = command_id_text [OF assms(1) i]
  obtain w off where w: "env_enqueued_at env = Aware w off" using render_timestamp_Aware [OF e] by blast
  have te: "CHR ''|'' \<notin> set e" "parse_utc_timestamp fromisoformat e = Inr (w - off)"
    using timestamp_text [OF assms(1), of w off] e w assms(4) by (auto simp: envelope_times_def)
  let ?m = "env_message_type env"
  let ?parts = "[''tbq1'', b2b_message_type_value ?m, i, py_str_int (env_sequence env), e]"
  have mt: "CHR ''|'' \<notin> set (b2b_message_type_value ?m)" by (cases ?m) simp_all
  have head: "\<forall>p \<in> set ?parts. CHR ''|'' \<notin> set p" using id te(1) mt separator_free_number [OF pos] by simp
  note fields = sequence_text [OF pos] id te(2)
  show ?thesis
  proof (cases ?m)
    case B2B_DISPATCH
    then have t: "text = join_fields (?parts @ [])" and a: "env_ack_sent_at env = None"
      using assms(2) i pos e by (auto simp: render_telegram_publisher_b2b_envelope_def positive_sequence_def Let_def
        TELEGRAM_B2B_PROTOCOL_VERSION_def split: option.splits)
    show ?thesis
      using parse_joined [of "?parts @ []" ?m i "py_str_int (env_sequence env)" e "[]"] head B2B_DISPATCH assms(3) t a w fields
      by (cases env) (simp add: parse_fields_def canonical_envelope_def utc_of_def)
  next
    case B2B_ACK
    then obtain v a where v: "env_ack_sent_at env = Some v" and a: "render_utc_timestamp isoformat v = Inr a"
      and t: "text = join_fields (?parts @ [a])"
      using assms(2) i pos e by (auto simp: render_telegram_publisher_b2b_envelope_def positive_sequence_def Let_def
        TELEGRAM_B2B_PROTOCOL_VERSION_def split: option.splits sum.splits)
    obtain w2 off2 where w2: "v = Aware w2 off2" using render_timestamp_Aware [OF a] by blast
    have ta: "CHR ''|'' \<notin> set a" "parse_utc_timestamp fromisoformat a = Inr (w2 - off2)"
      using timestamp_text [OF assms(1), of w2 off2] a v w2 assms(4) by (auto simp: envelope_times_def)
    show ?thesis
      using parse_joined [of "?parts @ [a]" ?m i "py_str_int (env_sequence env)" e "[a]"] head ta B2B_ACK assms(3) t v w w2 fields
      by (cases env) (simp add: parse_fields_def canonical_envelope_def utc_of_def)
  qed
qed

text \<open>Round trip of the messages between bots: a rendered envelope of at most 512 characters is parsed as the same
  message.\<close>

theorem envelope_roundtrip:
  assumes "library_texts uuid_ok isoformat fromisoformat"
    and "render_telegram_publisher_b2b_envelope uuid_ok isoformat env = Inr text" and "length text \<le> 512"
    and "envelope_times env"
  shows "parse_telegram_publisher_b2b_envelope uuid_ok fromisoformat text = Inr (canonical_envelope env)"
  using assms by (rule parse_rendered)

section \<open>Steps of the table\<close>

inductive dispatch_step :: "dispatch_table \<Rightarrow> dispatch_table \<Rightarrow> bool" where
  create: "get_or_create_telegram_publisher_dispatch_command server fresh_id job publisher now t = Inr (c, t') \<Longrightarrow>
    dispatch_step t t'"
| claim: "claim_next_telegram_publisher_dispatch_command server lease now t = Inr (r, t') \<Longrightarrow> dispatch_step t t'"
| record_result: "record_telegram_publisher_dispatch_result float_text server i token result retry ack now t = Inr (b, t') \<Longrightarrow>
    dispatch_step t t'"
| receive_dispatch: "accept_telegram_publisher_dispatch uuid_ok isoformat fromisoformat server publisher primary sender text now t =
    Inr (ir, t') \<Longrightarrow> dispatch_step t t'"
| receive_ack: "accept_telegram_publisher_acknowledgement uuid_ok fromisoformat server sender bots text now t = Inr t' \<Longrightarrow>
    dispatch_step t t'"

text \<open>What an operation can do to a stored command.\<close>

inductive command_change :: "dispatch_command \<Rightarrow> dispatch_command \<Rightarrow> bool" where
  lease: "claimable_command now c \<Longrightarrow> command_change c (lease_command now s c)"
| settle: "dc_state c \<noteq> DS_ACKNOWLEDGED \<Longrightarrow> settle_command float_text result retry ack now c = Some c' \<Longrightarrow> command_change c c'"
| acknowledge: "dc_state c \<notin> {DS_ACKNOWLEDGED, DS_FAILED, DS_SUPERSEDED} \<Longrightarrow>
    command_change c (acknowledge_command (dc_sequence c) now c)"

definition same_command :: "dispatch_command \<Rightarrow> dispatch_command \<Rightarrow> bool" where
  "same_command c c' \<longleftrightarrow>
     dc_id c' = dc_id c \<and> dc_command_id c' = dc_command_id c \<and> dc_job_id c' = dc_job_id c \<and>
     dc_publisher c' = dc_publisher c \<and> dc_sequence c' = dc_sequence c \<and> dc_created_at c' = dc_created_at c"

lemma same_command_refl [simp]: "same_command c c"
  by (simp add: same_command_def)

definition command_ok :: "dispatch_command \<Rightarrow> bool" where
  "command_ok c \<longleftrightarrow>
     dc_publisher c \<in> set TELEGRAM_PUBLISHER_IDENTITIES \<and> 0 < dc_sequence c \<and> 0 < dc_job_id c \<and>
     0 \<le> dc_attempt_count c \<and> 0 \<le> dc_lease_token c \<and>
     (dc_state c = DS_ACKNOWLEDGED \<longleftrightarrow> dc_acknowledged_at c \<noteq> None) \<and>
     (dc_state c = DS_ACKNOWLEDGED \<longleftrightarrow> dc_receipt_sequence c = Some (dc_sequence c)) \<and>
     (dc_receipt_sequence c = None \<longleftrightarrow> dc_receipt_received_at c = None)"

definition table_ok :: "dispatch_table \<Rightarrow> bool" where
  "table_ok t \<longleftrightarrow>
     (\<forall>c \<in> set (dt_commands t). command_ok c \<and> dc_id c < dt_next_id t) \<and>
     distinct (map dc_id (dt_commands t)) \<and> distinct (map dc_command_id (dt_commands t)) \<and>
     distinct (map dc_job_id (dt_commands t))"

lemma change_same: "command_change c c' \<Longrightarrow> same_command c c'"
  by (erule command_change.cases)
    (auto simp: same_command_def lease_command_def settle_command_def acknowledge_command_def split: if_splits)

lemma change_ok: "command_change c c' \<Longrightarrow> command_ok c \<Longrightarrow> command_ok c'"
  by (erule command_change.cases)
    (auto simp: command_ok_def lease_command_def settle_command_def acknowledge_command_def claimable_command_def split: if_splits)

lemma change_token: "command_change c c' \<Longrightarrow> dc_lease_token c \<le> dc_lease_token c' \<and> dc_attempt_count c \<le> dc_attempt_count c'"
  by (erule command_change.cases)
    (auto simp: lease_command_def settle_command_def acknowledge_command_def split: if_splits)

lemma change_not_acknowledged: "command_change c c' \<Longrightarrow> dc_state c \<noteq> DS_ACKNOWLEDGED"
  by (erule command_change.cases) (auto simp: claimable_command_def)

lemma command_by_id_in: "command_by_id t i = Some c \<Longrightarrow> c \<in> set (dt_commands t) \<and> dc_command_id c = i"
  by (auto simp: command_by_id_def find_Some_iff)

lemma claimed_in: "find P cs = Some c \<Longrightarrow> c \<in> set cs \<and> P c"
  by (auto simp: find_Some_iff)

lemma step_change:
  assumes "dispatch_step t t'"
  obtains (same) "t' = t"
    | (added) c where "t' = t\<lparr>dt_commands := dt_commands t @ [c], dt_next_id := dt_next_id t + 1\<rparr>"
        "command_ok c" "dc_id c = dt_next_id t" "dc_command_id c \<notin> dc_command_id ` set (dt_commands t)"
        "dc_job_id c \<notin> dc_job_id ` set (dt_commands t)"
    | (changed) c c' where "c \<in> set (dt_commands t)" "command_change c c'" "t' = update_command c' t"
  using assms
proof cases
  case (create server fresh_id job publisher now c)
  consider "t' = t" | key where "publisher_identity publisher = Some (dc_publisher c)"
      "t' = t\<lparr>dt_commands := dt_commands t @ [c], dt_next_id := dt_next_id t + 1\<rparr>"
      "c = new_command fresh_id (job_id job) (dc_publisher c) (job_created_sequence job) key (dt_next_id t)"
      "0 < job_id job" "0 < job_created_sequence job" "\<forall>d \<in> set (dt_commands t). dc_command_id d \<noteq> fresh_id"
      "find (\<lambda>d. dc_job_id d = job_id job) (dt_commands t) = None"
    using create unfolding get_or_create_telegram_publisher_dispatch_command_def
    by (auto simp: Let_def list_ex_iff new_command_def split: if_splits option.splits)
  then show ?thesis
  proof cases
    case 1
    then show ?thesis by (rule same)
  next
    case 2
    have "dc_publisher c \<in> set TELEGRAM_PUBLISHER_IDENTITIES"
      using 2(1) by (auto simp: publisher_identity_def Let_def split: if_splits)
    moreover have c: "dc_command_id c = fresh_id" "dc_job_id c = job_id job" "dc_sequence c = job_created_sequence job"
      "dc_id c = dt_next_id t" by (subst 2(3), simp add: new_command_def)+
    moreover have "dc_state c = DS_PENDING" "dc_attempt_count c = 0" "dc_lease_token c = 0" "dc_acknowledged_at c = None"
      "dc_receipt_sequence c = None" "dc_receipt_received_at c = None" by (subst 2(3), simp add: new_command_def)+
    ultimately show ?thesis using 2 by (intro added) (auto simp: command_ok_def find_None_iff)
  qed
next
  case (claim server lease now r)
  then show ?thesis
    by (auto simp: claim_next_telegram_publisher_dispatch_command_def Let_def
        split: if_splits option.splits pyfloat.splits dest!: claimed_in intro: same changed command_change.lease)
next
  case (record_result float_text server i token result retry ack now b)
  then show ?thesis
    by (auto simp: record_telegram_publisher_dispatch_result_def
        split: if_splits option.splits dest!: command_by_id_in intro: same changed command_change.settle)
next
  case (receive_dispatch uuid_ok isoformat fromisoformat server publisher primary sender msg now ir)
  then consider "t' = t" | c n where "c \<in> set (dt_commands t)"
      "dc_state c \<notin> {DS_ACKNOWLEDGED, DS_FAILED, DS_SUPERSEDED}"
      "t' = update_command (acknowledge_command (dc_sequence c) n c) t"
    unfolding accept_telegram_publisher_dispatch_def
    by (fastforce simp: Let_def split: if_splits option.splits sum.splits dest!: command_by_id_in)
  then show ?thesis by cases (use same changed command_change.acknowledge in metis)+
next
  case (receive_ack uuid_ok fromisoformat server sender bots msg now)
  then consider "t' = t" | c n where "c \<in> set (dt_commands t)"
      "dc_state c \<notin> {DS_ACKNOWLEDGED, DS_FAILED, DS_SUPERSEDED}"
      "t' = update_command (acknowledge_command (dc_sequence c) n c) t"
    unfolding accept_telegram_publisher_acknowledgement_def
    by (fastforce split: if_splits option.splits sum.splits dest!: command_by_id_in)
  then show ?thesis by cases (use same changed command_change.acknowledge in metis)+
qed

section \<open>The constraints of the table\<close>

lemma update_in: "d \<in> set (dt_commands (update_command c t)) \<Longrightarrow> d = c \<or> d \<in> set (dt_commands t)"
  by (auto simp: update_command_def)

lemma update_maps:
  assumes "same_command c c'" and "c \<in> set (dt_commands t)" and "distinct (map dc_id (dt_commands t))"
  shows "map dc_id (dt_commands (update_command c' t)) = map dc_id (dt_commands t)"
    "map dc_command_id (dt_commands (update_command c' t)) = map dc_command_id (dt_commands t)"
    "map dc_job_id (dt_commands (update_command c' t)) = map dc_job_id (dt_commands t)"
proof -
  have "d = c" if "d \<in> set (dt_commands t)" "dc_id d = dc_id c'" for d
    using assms that by (auto simp: same_command_def distinct_map inj_on_def)
  then show "map dc_id (dt_commands (update_command c' t)) = map dc_id (dt_commands t)"
    "map dc_command_id (dt_commands (update_command c' t)) = map dc_command_id (dt_commands t)"
    "map dc_job_id (dt_commands (update_command c' t)) = map dc_job_id (dt_commands t)"
    using assms(1) by (auto simp: update_command_def same_command_def)
qed

lemma step_table_ok: "table_ok t \<Longrightarrow> dispatch_step t t' \<Longrightarrow> table_ok t'"
proof (erule step_change)
  fix c assume "table_ok t" "t' = t\<lparr>dt_commands := dt_commands t @ [c], dt_next_id := dt_next_id t + 1\<rparr>"
    "command_ok c" "dc_id c = dt_next_id t" "dc_command_id c \<notin> dc_command_id ` set (dt_commands t)"
    "dc_job_id c \<notin> dc_job_id ` set (dt_commands t)"
  then show "table_ok t'" by (fastforce simp: table_ok_def)
next
  fix c c' assume a: "table_ok t" "c \<in> set (dt_commands t)" "command_change c c'" "t' = update_command c' t"
  have d: "distinct (map dc_id (dt_commands t))" using a(1) by (simp add: table_ok_def)
  have ok: "command_ok c'" "dc_id c' = dc_id c"
    using change_ok [OF a(3)] change_same [OF a(3)] a(1,2) by (auto simp: table_ok_def same_command_def)
  have n: "dt_next_id t' = dt_next_id t" using a(4) by (simp add: update_command_def)
  have "\<forall>e \<in> set (dt_commands t'). command_ok e \<and> dc_id e < dt_next_id t'"
    unfolding n using a ok by (auto simp: table_ok_def dest!: update_in)
  then show "table_ok t'"
    using a(1) update_maps [OF change_same [OF a(3)] a(2) d] unfolding table_ok_def a(4) by simp
qed simp

definition empty_table :: "dispatch_table \<Rightarrow> bool" where
  "empty_table t \<longleftrightarrow> dt_commands t = []"

interpretation dispatch: invariant_system empty_table dispatch_step table_ok
  by unfold_locales (simp add: empty_table_def table_ok_def, rule step_table_ok)


section \<open>Histories of a command\<close>

lemma update_keeps:
  assumes "table_ok t" and "d \<in> set (dt_commands t)" and "c \<in> set (dt_commands t)" and "same_command c c'"
  shows "if d = c then c' \<in> set (dt_commands (update_command c' t)) else d \<in> set (dt_commands (update_command c' t))"
proof -
  have "dc_id d = dc_id c \<Longrightarrow> d = c" using assms(1-3) by (auto simp: table_ok_def distinct_map inj_on_def)
  then show ?thesis using assms(2-4) by (auto simp: update_command_def same_command_def image_iff)
qed

lemma step_history:
  assumes "table_ok t" and "dispatch_step t t'" and "d \<in> set (dt_commands t)"
  shows "\<exists>d' \<in> set (dt_commands t'). same_command d d' \<and> dc_lease_token d \<le> dc_lease_token d' \<and>
    dc_attempt_count d \<le> dc_attempt_count d' \<and> (dc_state d = DS_ACKNOWLEDGED \<longrightarrow> d' = d)"
  using assms(2)
proof (rule step_change)
  fix c c' assume c: "c \<in> set (dt_commands t)" "command_change c c'" "t' = update_command c' t"
  note k = update_keeps [OF assms(1,3) c(1) change_same [OF c(2)]]
  show ?thesis
  proof (cases "d = c")
    case True
    then show ?thesis
      using k c change_same [OF c(2)] change_token [OF c(2)] change_not_acknowledged [OF c(2)] by auto
  next
    case False
    then show ?thesis using k c(3) by (intro bexI [of _ d]) auto
  qed
qed (use assms(3) in \<open>auto intro!: bexI [of _ d]\<close>)

lemma steps_history:
  assumes "dispatch_step\<^sup>*\<^sup>* t t'" and "table_ok t" and "d \<in> set (dt_commands t)"
  shows "table_ok t' \<and> (\<exists>d' \<in> set (dt_commands t'). same_command d d' \<and> dc_lease_token d \<le> dc_lease_token d' \<and>
    dc_attempt_count d \<le> dc_attempt_count d' \<and> (dc_state d = DS_ACKNOWLEDGED \<longrightarrow> d' = d))"
  using assms(1)
proof (induction rule: rtranclp_induct)
  case base
  then show ?case using assms(2,3) by (auto intro: bexI [of _ d])
next
  case (step t1 t2)
  then obtain d1 where d1: "d1 \<in> set (dt_commands t1)" "same_command d d1" "dc_lease_token d \<le> dc_lease_token d1"
    "dc_attempt_count d \<le> dc_attempt_count d1" "dc_state d = DS_ACKNOWLEDGED \<longrightarrow> d1 = d" by blast
  obtain d2 where d2: "d2 \<in> set (dt_commands t2)" "same_command d1 d2" "dc_lease_token d1 \<le> dc_lease_token d2"
    "dc_attempt_count d1 \<le> dc_attempt_count d2" "dc_state d1 = DS_ACKNOWLEDGED \<longrightarrow> d2 = d1"
    using step_history [OF _ step.hyps(2) d1(1)] step.IH by blast
  have "same_command d d2" using d1(2) d2(2) by (simp add: same_command_def)
  moreover have "dc_lease_token d \<le> dc_lease_token d2" "dc_attempt_count d \<le> dc_attempt_count d2"
    using d1(3,4) d2(3,4) by simp_all
  moreover have "dc_state d = DS_ACKNOWLEDGED \<longrightarrow> d2 = d" using d1(5) d2(5) by auto
  ultimately show ?case using d2(1) step_table_ok [OF _ step.hyps(2)] step.IH by blast
qed

text \<open>C30: A command is never lost and never changes its job, its publisher or its sequence, and an acknowledgement is
  final: whatever senders, publishers and repeated messages do afterwards, the acknowledged row stays as it is.\<close>

theorem acknowledgement_is_final:
  assumes "reachable empty_table dispatch_step t" and "dispatch_step\<^sup>*\<^sup>* t t'" and "c \<in> set (dt_commands t)"
  shows "\<exists>c' \<in> set (dt_commands t'). dc_id c' = dc_id c \<and> dc_command_id c' = dc_command_id c \<and> dc_job_id c' = dc_job_id c \<and>
    dc_publisher c' = dc_publisher c \<and> dc_sequence c' = dc_sequence c \<and> (dc_state c = DS_ACKNOWLEDGED \<longrightarrow> c' = c)"
  using steps_history [OF assms(2) dispatch.reachable_invar [OF assms(1)] assms(3)] by (auto simp: same_command_def)

section \<open>Fenced senders\<close>

definition command_token :: "dispatch_table \<Rightarrow> string \<Rightarrow> int" where
  "command_token t i = (case command_by_id t i of None \<Rightarrow> 0 | Some c \<Rightarrow> dc_lease_token c)"

definition holds_command :: "dispatch_table \<Rightarrow> string \<Rightarrow> unit \<Rightarrow> int \<Rightarrow> bool" where
  "holds_command t i w k \<longleftrightarrow> command_by_id t i \<noteq> None \<and> command_token t i = k"

definition claims_command :: "dispatch_table \<Rightarrow> string \<Rightarrow> dispatch_table \<Rightarrow> bool" where
  "claims_command t i t' \<longleftrightarrow>
     (\<exists>server lease now c k. claim_next_telegram_publisher_dispatch_command server lease now t = Inr (Some (c, k), t') \<and>
        dc_command_id c = i)"

lemma command_by_id_unique:
  assumes "table_ok t" and "c \<in> set (dt_commands t)"
  shows "command_by_id t (dc_command_id c) = Some c"
proof -
  obtain d where d: "command_by_id t (dc_command_id c) = Some d"
    using assms(2) by (cases "command_by_id t (dc_command_id c)") (auto simp: command_by_id_def find_None_iff)
  then have "d = c" using command_by_id_in [OF d] assms by (auto simp: table_ok_def distinct_map inj_on_def)
  with d show ?thesis by simp
qed

lemma claim_facts:
  assumes "claim_next_telegram_publisher_dispatch_command server lease now t = Inr (Some (c, k), t')"
  shows "\<exists>d n s. d \<in> set (dt_commands t) \<and> claimable_command n d \<and> c = lease_command n s d \<and> t' = update_command c t \<and>
    k = dc_lease_token c"
  using assms by (auto simp: claim_next_telegram_publisher_dispatch_command_def Let_def
      split: if_splits option.splits pyfloat.splits dest!: claimed_in)

lemma token_mono:
  assumes "table_ok t" and "dispatch_step t t'"
  shows "command_token t i \<le> command_token t' i"
proof (cases "command_by_id t i")
  case None
  have "0 \<le> command_token t' i" using step_table_ok [OF assms] command_by_id_in [of t' i]
    by (auto simp: command_token_def table_ok_def command_ok_def split: option.splits)
  then show ?thesis using None by (simp add: command_token_def)
next
  case (Some c)
  then obtain c' where c': "c' \<in> set (dt_commands t')" "same_command c c'" "dc_lease_token c \<le> dc_lease_token c'"
    using step_history [OF assms, of c] command_by_id_in [OF Some] by blast
  then have "command_by_id t' i = Some c'"
    using command_by_id_unique [OF step_table_ok [OF assms] c'(1)] command_by_id_in [OF Some] by (simp add: same_command_def)
  then show ?thesis using Some c'(3) by (simp add: command_token_def)
qed

lemma claim_token:
  assumes "table_ok t" and "claims_command t i t'"
  shows "command_token t i < command_token t' i"
proof -
  obtain server lease now c k where cl: "claim_next_telegram_publisher_dispatch_command server lease now t = Inr (Some (c, k), t')"
    "dc_command_id c = i" using assms(2) by (auto simp: claims_command_def)
  obtain d n s where d: "d \<in> set (dt_commands t)" "c = lease_command n s d" "t' = update_command c t"
    using claim_facts [OF cl(1)] by blast
  have "same_command d c" by (simp add: d(2) same_command_def lease_command_def)
  then have "c \<in> set (dt_commands t')" using update_keeps [OF assms(1) d(1) d(1)] d(3) by simp
  moreover have "table_ok t'" using step_table_ok [OF assms(1)] dispatch_step.claim [OF cl(1)] by blast
  ultimately have "command_by_id t' i = Some c" using command_by_id_unique cl(2) by blast
  moreover have "command_by_id t i = Some d"
    using command_by_id_unique [OF assms(1) d(1)] cl(2) by (simp add: d(2) lease_command_def)
  ultimately show ?thesis by (simp add: command_token_def d(2) lease_command_def)
qed

interpretation sender: lease_fence table_ok dispatch_step command_token claims_command holds_command
proof (unfold_locales, goal_cases)
  case (1 s t)
  then show ?case by (rule step_table_ok)
next
  case (2 s t i)
  then show ?case by (rule token_mono)
next
  case (3 s i t)
  then show ?case by (auto simp: claims_command_def intro: dispatch_step.claim)
next
  case (4 s i t)
  then show ?case by (rule claim_token)
next
  case (5 s i w k)
  then show ?case by (simp add: holds_command_def)
qed

text \<open>C28: Once a command has been claimed again, the result of the previous sender is refused for ever and changes
  nothing, whatever happens in between.\<close>

theorem stale_sender_is_fenced:
  assumes "reachable empty_table dispatch_step t" and "k \<le> command_token t i" and "claims_command t i t1"
    and "dispatch_step\<^sup>*\<^sup>* t1 t2" and "require_foreign server"
  shows "record_telegram_publisher_dispatch_result float_text server i k result retry ack (Aware w off) t2 = Inr (False, t2)"
proof -
  have "\<not> holds_command t2 i () k"
    using sender.stale_never_holds [OF dispatch.reachable_invar [OF assms(1)] assms(2-4)] .
  then show ?thesis using assms(5)
    by (auto simp: holds_command_def command_token_def record_telegram_publisher_dispatch_result_def utc_of_def split: option.splits)
qed

section \<open>The handshake\<close>

lemma sequence_length: "0 < i \<Longrightarrow> i \<le> 9223372036854775807 \<Longrightarrow> length (py_str_int i) \<le> 19"
  using length_py_str_int [of i 18] by simp

lemma rendered_message:
  assumes "library_texts uuid_ok isoformat fromisoformat" and "normalized_command_id uuid_ok i = Inr i" and "length i \<le> 64"
    and "0 < n" and "n \<le> 9223372036854775807"
    and "(m = B2B_DISPATCH) = (a = None)" and "representable t" and "\<forall>x. a = Some x \<longrightarrow> representable x"
  shows "\<exists>text. render_telegram_publisher_b2b_envelope uuid_ok isoformat
      \<lparr>env_message_type = m, env_command_id = i, env_sequence = n, env_enqueued_at = Aware t 0,
       env_ack_sent_at = map_option (\<lambda>x. Aware x 0) a\<rparr> = Inr text \<and> length text \<le> 512 \<and>
    parse_telegram_publisher_b2b_envelope uuid_ok fromisoformat text =
      Inr \<lparr>env_message_type = m, env_command_id = i, env_sequence = n, env_enqueued_at = Aware t 0,
           env_ack_sent_at = map_option (\<lambda>x. Aware x 0) a\<rparr>"
proof -
  let ?env = "\<lparr>env_message_type = m, env_command_id = i, env_sequence = n, env_enqueued_at = Aware t 0,
       env_ack_sent_at = map_option (\<lambda>x. Aware x 0) a\<rparr>"
  obtain e where e: "render_utc_timestamp isoformat (Aware t 0) = Inr e" "length e \<le> 32"
    using timestamp_text [OF assms(1), of t 0] assms(7) by auto
  have n: "length (py_str_int n) \<le> 19" using sequence_length assms(4,5) by blast
  have "\<exists>text. render_telegram_publisher_b2b_envelope uuid_ok isoformat ?env = Inr text \<and> length text \<le> 512"
  proof (cases a)
    case None
    then show ?thesis using assms(2-4,6) e n
      by (simp add: render_telegram_publisher_b2b_envelope_def positive_sequence_def join_fields_def
          TELEGRAM_B2B_PROTOCOL_VERSION_def)
  next
    case (Some x)
    then have m: "m = B2B_ACK" using assms(6) by (cases m) auto
    obtain b where b: "render_utc_timestamp isoformat (Aware x 0) = Inr b" "length b \<le> 32"
      using timestamp_text [OF assms(1), of x 0] assms(8) Some by auto
    then show ?thesis using Some m assms(2-4) e n
      by (simp add: render_telegram_publisher_b2b_envelope_def positive_sequence_def join_fields_def
          TELEGRAM_B2B_PROTOCOL_VERSION_def)
  qed
  moreover have "py_strip i = i" using command_id_text [OF assms(1,2)] by simp
  then have "canonical_envelope ?env = ?env"
    by (cases a) (simp_all add: canonical_envelope_def utc_of_def)
  moreover have "envelope_times ?env" using assms(7,8) by (cases a) (auto simp: envelope_times_def)
  ultimately show ?thesis using parse_rendered [OF assms(1)] by fastforce
qed

text \<open>C29: The handshake works: the message rendered for a command is accepted by the publisher of its lane when it comes
  from the primary bot, the command is then acknowledged, and the reply of the publisher is accepted by the
  primary bot at any later time.  Repeated messages are answered without changing the row.\<close>

theorem dispatch_is_acknowledged:
  assumes "library_texts uuid_ok isoformat fromisoformat" and "reachable empty_table dispatch_step t"
    and "c \<in> set (dt_commands t)" and "dc_state c \<notin> {DS_FAILED, DS_SUPERSEDED}"
    and "normalized_command_id uuid_ok (dc_command_id c) = Inr (dc_command_id c)" and "length (dc_command_id c) \<le> 64"
    and "dc_sequence c \<le> 9223372036854775807" and "require_foreign server" and "0 < primary"
    and "publisher_identity (dc_publisher c) = Some (dc_publisher c)"
    and "dict_get bots (dc_publisher c) = Some b" and "0 < b" and "representable (dc_created_at c)" and "representable n"
  shows "\<exists>msg ir t1. render_telegram_publisher_dispatch uuid_ok isoformat c = Inr msg \<and>
    accept_telegram_publisher_dispatch uuid_ok isoformat fromisoformat server (dc_publisher c) primary primary msg
      (Aware n 0) t = Inr (ir, t1) \<and>
    (\<exists>c1. command_by_id t1 (dc_command_id c) = Some c1 \<and> dc_state c1 = DS_ACKNOWLEDGED) \<and>
    ir_duplicate ir = (dc_state c = DS_ACKNOWLEDGED) \<and>
    (\<forall>t2 n2. dispatch_step\<^sup>*\<^sup>* t1 t2 \<longrightarrow>
       accept_telegram_publisher_acknowledgement uuid_ok fromisoformat server b bots (ir_acknowledgement_text ir)
         (Aware n2 0) t2 = Inr t2)"
proof -
  have ok: "table_ok t" using assms(2) by (rule dispatch.reachable_invar)
  have pos: "0 < dc_sequence c" using ok assms(3) by (auto simp: table_ok_def command_ok_def)
  note msg = rendered_message [OF assms(1,5,6) pos assms(7)]
  obtain m where m: "render_telegram_publisher_dispatch uuid_ok isoformat c = Inr m"
    "parse_telegram_publisher_b2b_envelope uuid_ok fromisoformat m =
       Inr \<lparr>env_message_type = B2B_DISPATCH, env_command_id = dc_command_id c, env_sequence = dc_sequence c,
            env_enqueued_at = Aware (dc_created_at c) 0, env_ack_sent_at = None\<rparr>"
    using msg [of B2B_DISPATCH None "dc_created_at c"] pos assms(13) by (auto simp: render_telegram_publisher_dispatch_def)
  obtain r where r: "acknowledgement_text uuid_ok isoformat c n = Inr r"
    "parse_telegram_publisher_b2b_envelope uuid_ok fromisoformat r =
       Inr \<lparr>env_message_type = B2B_ACK, env_command_id = dc_command_id c, env_sequence = dc_sequence c,
            env_enqueued_at = Aware (dc_created_at c) 0, env_ack_sent_at = Some (Aware n 0)\<rparr>"
    using msg [of B2B_ACK "Some n" "dc_created_at c"] assms(13,14) by (auto simp: acknowledgement_text_def)
  let ?c1 = "if dc_state c = DS_ACKNOWLEDGED then c else acknowledge_command (dc_sequence c) n c"
  let ?t1 = "if dc_state c = DS_ACKNOWLEDGED then t else update_command ?c1 t"
  let ?ir = "\<lparr>ir_publisher = dc_publisher c, ir_command_id = dc_command_id c,
    ir_duplicate = (dc_state c = DS_ACKNOWLEDGED), ir_acknowledgement_text = r\<rparr>"
  have acc: "accept_telegram_publisher_dispatch uuid_ok isoformat fromisoformat server (dc_publisher c) primary primary m
      (Aware n 0) t = Inr (?ir, ?t1)"
    using assms(4,8-10) m(2) r(1) command_by_id_unique [OF ok assms(3)]
    by (simp add: accept_telegram_publisher_dispatch_def utc_of_def)
  have ok1: "table_ok ?t1" using step_table_ok [OF ok dispatch_step.receive_dispatch [OF acc]] .
  have same: "same_command c ?c1" by (simp add: same_command_def acknowledge_command_def)
  have c1: "?c1 \<in> set (dt_commands ?t1)" using update_keeps [OF ok assms(3,3) same] assms(3) by auto
  have st: "dc_state ?c1 = DS_ACKNOWLEDGED" by (simp add: acknowledge_command_def)
  have "accept_telegram_publisher_acknowledgement uuid_ok fromisoformat server b bots r (Aware n2 0) t2 = Inr t2"
    if "dispatch_step\<^sup>*\<^sup>* ?t1 t2" for t2 n2
  proof -
    have "table_ok t2" "?c1 \<in> set (dt_commands t2)" using steps_history [OF that ok1 c1] st by auto
    then have "command_by_id t2 (dc_command_id c) = Some ?c1"
      using command_by_id_unique [of t2 ?c1] same by (simp add: same_command_def)
    moreover have "dc_publisher ?c1 = dc_publisher c" "dc_sequence ?c1 = dc_sequence c"
      using same by (simp_all add: same_command_def)
    ultimately show ?thesis using st assms(8,10-12) r(2)
      by (simp add: accept_telegram_publisher_acknowledgement_def split del: if_split)
  qed
  moreover have "command_by_id ?t1 (dc_command_id c) = Some ?c1"
    using command_by_id_unique [OF ok1 c1] same by (simp add: same_command_def)
  ultimately show ?thesis using m(1) acc st by (intro exI [of _ m] exI [of _ ?ir] exI [of _ ?t1]) auto
qed

section \<open>The choice of a lane\<close>

lemma shifted_index:
  assumes "j < n" and "(0 :: int) < s"
  shows "\<exists>k < n. nat ((s + int k - 1) mod int n) = j"
proof -
  let ?k = "nat ((int j - (s - 1)) mod int n)"
  have n: "0 < int n" using assms(1) by simp
  then have k: "int ?k = (int j - (s - 1)) mod int n" by simp
  have "s + int ?k - 1 = s - 1 + (int j - (s - 1)) mod int n" unfolding k by simp
  then have "(s + int ?k - 1) mod int n = (s - 1 + (int j - (s - 1))) mod int n" by (simp only: mod_add_right_eq)
  also have "\<dots> = int j" using assms(1) by simp
  finally show ?thesis using n k by (intro exI [of _ ?k]) (simp add: nat_less_iff)
qed

text \<open>The choice of a lane: it succeeds whenever a lane is healthy, the chosen lane is healthy and carries the fewest
  unfinished jobs, and as long as the loads stay the same the sequence numbers walk through all the least
  loaded lanes.\<close>

theorem lane_selection_is_fair:
  assumes "normalized_publishers hs = Inr healthy" and "healthy \<noteq> []"
    and "\<forall>p \<in> set healthy. 0 \<le> lane_count counts p" and "0 < s"
  shows "(\<exists>r. select_telegram_publisher_lane hs counts s = Inr r \<and> ls_publisher r \<in> set healthy \<and>
      (\<forall>q \<in> set healthy. ls_in_flight r \<le> lane_count counts q)) \<and>
    (\<forall>p \<in> set healthy. (\<forall>q \<in> set healthy. lane_count counts p \<le> lane_count counts q) \<longrightarrow>
       (\<exists>k < length healthy. \<exists>r. select_telegram_publisher_lane hs counts (s + int k) = Inr r \<and> ls_publisher r = p))"
proof -
  let ?m = "Min (set (map (lane_count counts) healthy))"
  let ?tied = "filter (\<lambda>p. lane_count counts p = ?m) healthy"
  have sel: "select_telegram_publisher_lane hs counts x =
      Inr \<lparr>ls_publisher = ?tied ! nat ((x - 1) mod int (length ?tied)),
           ls_in_flight = lane_count counts (?tied ! nat ((x - 1) mod int (length ?tied)))\<rparr>" if "0 < x" for x
    using assms(1-3) that by (simp add: select_telegram_publisher_lane_def Let_def list_ex_iff not_less)
  have "?m \<in> set (map (lane_count counts) healthy)" using assms(2) by (intro Min_in) auto
  then have "?tied \<noteq> []" by (auto simp: filter_empty_conv)
  then have n: "nat ((x - 1) mod int (length ?tied)) < length ?tied" for x
    by (simp add: nat_less_iff)
  have m: "?m \<le> lane_count counts q" if "q \<in> set healthy" for q using that by (intro Min_le) auto
  have 1: "\<exists>r. select_telegram_publisher_lane hs counts s = Inr r \<and> ls_publisher r \<in> set healthy \<and>
      (\<forall>q \<in> set healthy. ls_in_flight r \<le> lane_count counts q)"
    using sel [OF assms(4)] nth_mem [OF n [of s]] m by auto
  have "\<exists>k < length healthy. \<exists>r. select_telegram_publisher_lane hs counts (s + int k) = Inr r \<and> ls_publisher r = p"
    if p: "p \<in> set healthy" "\<forall>q \<in> set healthy. lane_count counts p \<le> lane_count counts q" for p
  proof -
    have "?m = lane_count counts p" using p by (intro Min_eqI) auto
    then have "p \<in> set ?tied" using p(1) by simp
    then obtain j where j: "j < length ?tied" "?tied ! j = p" unfolding in_set_conv_nth by blast
    obtain k where k: "k < length ?tied" "nat ((s + int k - 1) mod int (length ?tied)) = j"
      using shifted_index [OF j(1) assms(4)] by blast
    have "k < length healthy" using k(1) by (rule less_le_trans) simp
    then show ?thesis using sel [of "s + int k"] assms(4) k(2) j(2) by auto
  qed
  then show ?thesis using 1 by blast
qed

section \<open>Samples\<close>

definition sample_isoformat :: "int \<Rightarrow> string" where
  "sample_isoformat t = py_str_int (t + 62135596800000001) @ ''+00:00''"

definition sample_fromisoformat :: "string \<Rightarrow> pydt option" where
  "sample_fromisoformat s =
     map_option (\<lambda>i. Aware (i - 62135596800000001) 0) (py_int_of_string (take (length s - 6) s))"

lemma sample_library: "library_texts (\<lambda>s. False) sample_isoformat sample_fromisoformat"
proof -
  have "\<exists>p. sample_isoformat t = p @ ''+00:00'' \<and> set p \<inter> {CHR ''+'', CHR ''Z'', CHR ''|''} = {} \<and>
      length (sample_isoformat t) \<le> 32 \<and> sample_fromisoformat (sample_isoformat t) = Some (Aware t 0)"
    if "representable t" for t
  proof -
    let ?i = "t + 62135596800000001"
    have i: "0 < ?i" "?i \<le> 9223372036854775807" using that by (auto simp: representable_def)
    have "c \<in> {CHR ''+'', CHR ''Z'', CHR ''|''} \<Longrightarrow> c \<notin> set (py_str_int ?i)" for c
      using nat_str_digits [of c "nat ?i"] i(1) by (auto simp: py_str_int_def digit_val_def)
    then show ?thesis using sequence_length [OF i] py_int_of_string_str [OF i(1)]
      by (auto simp: sample_isoformat_def sample_fromisoformat_def)
  qed
  then show ?thesis unfolding library_texts_def by blast
qed

definition sample_id :: string where
  "sample_id = ''01ARZ3NDEKTSV4RRFFQ69G5FAV''"

definition sample_envelope :: b2b_envelope where
  "sample_envelope = \<lparr>env_message_type = B2B_ACK, env_command_id = sample_id, env_sequence = 12,
     env_enqueued_at = Aware 7200 0, env_ack_sent_at = map_option (\<lambda>x. Aware x 0) (Some 9000)\<rparr>"

theorem envelope_roundtrip_witness:
  "\<exists>msg. render_telegram_publisher_b2b_envelope (\<lambda>s. False) sample_isoformat sample_envelope = Inr msg \<and>
     parse_telegram_publisher_b2b_envelope (\<lambda>s. False) sample_fromisoformat msg = Inr (canonical_envelope sample_envelope)"
proof -
  have i: "normalized_command_id (\<lambda>s. False) sample_id = Inr sample_id" "length sample_id \<le> 64" by code_simp+
  have t: "envelope_times sample_envelope" by (simp add: envelope_times_def sample_envelope_def representable_def)
  obtain msg where r: "render_telegram_publisher_b2b_envelope (\<lambda>s. False) sample_isoformat sample_envelope = Inr msg"
    "length msg \<le> 512"
    using rendered_message [OF sample_library i, of 12 B2B_ACK "Some 9000" 7200]
    unfolding sample_envelope_def by (auto simp: representable_def)
  show ?thesis using envelope_roundtrip [OF sample_library r t] r(1) by blast
qed

definition sample_job :: delivery_job where
  "sample_job = \<lparr>job_id = 7, job_dedupe_key = ''k'', job_feeder = FEED_OFFER_CONTROL, job_feeder_rank = 0,
     job_source_natural_id = ''o'', job_source_version = 1, job_destination_key = ''d'', job_destination_class = DEST_CHANNEL,
     job_method = ''sendMessage'', job_payload = [], job_action = OFFER_PUBLISH, job_created_sequence = 3,
     job_bot_identity = ''publisher_2'', job_delivery_deadline_at = None, job_eligible_at = None,
     job_freshness_deadline_at = None, job_campaign_id = None, job_state = ST_PENDING, job_attempt_count = 0,
     job_provider_attempt_count = 0, job_next_retry_at = None, job_lease_until = None, job_lease_token = 0,
     job_worker_id = None, job_last_error_class = None, job_last_error_message = None, job_telegram_message_id = None\<rparr>"

definition sample_command :: dispatch_command where
  "sample_command = new_command sample_id 7 ''publisher_2'' 3 1000 1"

definition sample_table :: dispatch_table where
  "sample_table = \<lparr>dt_commands = [sample_command], dt_next_id = 2\<rparr>"

definition sample_claimed :: dispatch_table where
  "sample_claimed = update_command (lease_command 2000 30 sample_command) sample_table"

lemma sample_reachable_table: "reachable empty_table dispatch_step sample_table"
proof -
  let ?t = "\<lparr>dt_commands = [], dt_next_id = 1\<rparr>"
  have "get_or_create_telegram_publisher_dispatch_command (Some ''foreign'') sample_id sample_job ''publisher_2''
    (Aware 1000 0) ?t = Inr (sample_command, sample_table)" by code_simp
  then have "dispatch_step ?t sample_table" by (rule dispatch_step.create)
  moreover have "reachable empty_table dispatch_step ?t" by (rule reachable_init) (simp add: empty_table_def)
  ultimately show ?thesis by blast
qed

lemma sample_command_claim:
  "claim_next_telegram_publisher_dispatch_command (Some ''foreign'') (FFin 30) (Aware 2000 0) sample_table =
     Inr (Some (lease_command 2000 30 sample_command, 1), sample_claimed)"
  by code_simp

lemma sample_in: "sample_command \<in> set (dt_commands sample_table)"
  by (simp add: sample_table_def)


theorem acknowledgement_is_final_witness:
  "\<exists>c' \<in> set (dt_commands sample_claimed). dc_command_id c' = sample_id \<and> dc_publisher c' = ''publisher_2''"
proof -
  have "dispatch_step sample_table sample_claimed" using sample_command_claim by (rule dispatch_step.claim)
  then have s: "dispatch_step\<^sup>*\<^sup>* sample_table sample_claimed" by blast
  show ?thesis using acknowledgement_is_final [OF sample_reachable_table s sample_in]
    by (auto simp: sample_command_def new_command_def)
qed

theorem stale_sender_is_fenced_witness:
  "record_telegram_publisher_dispatch_result (\<lambda>s. None) (Some ''foreign'') sample_id 0
     \<lparr>gr_ok = True, gr_method = [], gr_status_code = None, gr_response_text = [], gr_json = None, gr_error = None,
      gr_transport_phase = None, gr_message_id = None\<rparr> (FFin 5) (FFin 5) (Aware 3000 0) sample_claimed = Inr (False, sample_claimed)"
proof -
  have c: "claims_command sample_table sample_id sample_claimed"
    unfolding claims_command_def using sample_command_claim
    by (intro exI conjI) (assumption, simp add: lease_command_def sample_command_def new_command_def)
  have k: "0 \<le> command_token sample_table sample_id" by code_simp
  have f: "require_foreign (Some ''foreign'')" by (simp add: require_foreign_def py_norm_servers SERVER_FOREIGN_def)
  show ?thesis by (rule stale_sender_is_fenced [OF sample_reachable_table k c rtranclp.rtrancl_refl f])
qed

theorem dispatch_is_acknowledged_witness:
  "\<exists>msg ir t1. render_telegram_publisher_dispatch (\<lambda>s. False) sample_isoformat sample_command = Inr msg \<and>
     accept_telegram_publisher_dispatch (\<lambda>s. False) sample_isoformat sample_fromisoformat (Some ''foreign'') ''publisher_2'' 5 5
       msg (Aware 4000 0) sample_table = Inr (ir, t1) \<and>
     accept_telegram_publisher_acknowledgement (\<lambda>s. False) sample_fromisoformat (Some ''foreign'') 9 [(''publisher_2'', 9)]
       (ir_acknowledgement_text ir) (Aware 5000 0) t1 = Inr t1"
proof -
  have c: "dc_publisher sample_command = ''publisher_2''" "dc_command_id sample_command = sample_id"
    "dc_state sample_command = DS_PENDING" "dc_sequence sample_command = 3" "dc_created_at sample_command = 1000"
    by (simp_all add: sample_command_def new_command_def)
  have i: "normalized_command_id (\<lambda>s. False) (dc_command_id sample_command) = Inr (dc_command_id sample_command)"
    "length (dc_command_id sample_command) \<le> 64"
    "publisher_identity (dc_publisher sample_command) = Some (dc_publisher sample_command)" by code_simp+
  have f: "require_foreign (Some ''foreign'')" by (simp add: require_foreign_def py_norm_servers SERVER_FOREIGN_def)
  have s: "dc_state sample_command \<notin> {DS_FAILED, DS_SUPERSEDED}" "dc_sequence sample_command \<le> 9223372036854775807"
    "dict_get [(''publisher_2'', 9)] (dc_publisher sample_command) = Some 9"
    "representable (dc_created_at sample_command)" "representable 4000"
    by (simp_all add: c representable_def)
  show ?thesis
    using dispatch_is_acknowledged [OF sample_library sample_reachable_table sample_in s(1) i(1,2) s(2) f _ i(3) s(3) _ s(4,5),
      of 5] c(1) by fastforce
qed

theorem lane_selection_is_fair_witness:
  "\<exists>r. select_telegram_publisher_lane [''publisher_3'', ''publisher_1''] [(''publisher_3'', 2)] 4 = Inr r \<and>
     ls_publisher r \<in> {''publisher_1'', ''publisher_3''}"
proof -
  have n: "normalized_publishers [''publisher_3'', ''publisher_1''] = Inr [''publisher_1'', ''publisher_3'']" by code_simp
  show ?thesis using lane_selection_is_fair [OF n, of "[(''publisher_3'', 2)]" 4] by (auto simp: lane_count_def)
qed

end
