(* ===== verification/PublicationState.thy ===== *)
theory PublicationState
  imports PublisherDispatch
begin

text \<open>
  The publication of an offer on a surface (Telegram channel or web market):
  \<open>core/services/offer_publication_state_service.py\<close> on the rows of \<open>models/offer_publication_state.py\<close>.  Columns have the types
  of the table; identifiers that come from the provider may be anything and are checked.  Instants are
  microseconds.
\<close>

section \<open>Data\<close>

datatype publication_surface = TELEGRAM_CHANNEL | WEBAPP_MARKET

datatype publication_status = PUB_PENDING | PUB_SENT | PUB_VISIBLE | PUB_FAILED | PUB_DISABLED | PUB_LAGGED

fun surface_value :: "publication_surface \<Rightarrow> string" where
  "surface_value TELEGRAM_CHANNEL = ''telegram_channel''"
| "surface_value WEBAPP_MARKET = ''webapp_market''"

record publication_state =
  ps_offer_id :: "int option"
  ps_offer_public_id :: string
  ps_offer_home_server :: string
  ps_surface :: publication_surface
  ps_publication_owner_server :: string
  ps_publisher :: "string option"
  ps_status :: publication_status
  ps_dedupe_key :: string
  ps_surface_resource_id :: "string option"
  ps_telegram_chat_id :: "int option"
  ps_telegram_message_id :: "int option"
  ps_offer_version_id :: "int option"
  ps_last_known_offer_status :: "string option"
  ps_last_attempt_at :: "int option"
  ps_last_success_at :: "int option"
  ps_disabled_at :: "int option"
  ps_lagged_at :: "int option"
  ps_error_code :: "string option"
  ps_error_message :: "string option"
  ps_created_at :: "int option"

text \<open>A value the provider returned as an identifier.\<close>

datatype provider_value = PvInt int | PvBool bool | PvOther

datatype identity_field = ChatIdField | MessageIdField

datatype publication_error =
    ProviderIntegerInvalid identity_field | ProviderIntegerMismatch identity_field | PublisherMismatch
  | SurfaceMismatch | TelegramFieldsOnOtherSurface | PublisherOnOtherSurface | PublisherMissing
  | SurfaceResourceMismatch | SurfaceResourceMessageMismatch | OfferPublicIdRequired

datatype apply_reason = StaleOfferVersion | Applied | ConvertedTerminalOffer

record publication_apply_result =
  pr_applied :: bool
  pr_reason :: apply_reason
  pr_status :: publication_status

record telegram_publication_identity =
  ti_publisher :: string
  ti_chat_id :: int
  ti_message_id :: int

definition TERMINAL_OFFER_STATUSES :: "string list" where
  "TERMINAL_OFFER_STATUSES = [''completed'', ''cancelled'', ''expired'']"

definition ACTIVE_PUBLICATION_STATUSES :: "publication_status list" where
  "ACTIVE_PUBLICATION_STATUSES = [PUB_PENDING, PUB_SENT, PUB_VISIBLE, PUB_LAGGED]"

definition TELEGRAM_PRIMARY_PUBLISHER_BOT_IDENTITY :: string where
  "TELEGRAM_PRIMARY_PUBLISHER_BOT_IDENTITY = ''primary''"

definition TELEGRAM_PUBLICATION_PUBLISHER_BOT_IDENTITIES :: "string list" where
  "TELEGRAM_PUBLICATION_PUBLISHER_BOT_IDENTITIES = TELEGRAM_PRIMARY_PUBLISHER_BOT_IDENTITY # TELEGRAM_PUBLISHER_IDENTITIES"

section \<open>Operations\<close>

definition normalize_offer_status :: "string option \<Rightarrow> string" where
  "normalize_offer_status v = py_lower (case v of None \<Rightarrow> [] | Some s \<Rightarrow> s)"

fun publication_owner_server_for_surface :: "publication_surface \<Rightarrow> string" where
  "publication_owner_server_for_surface TELEGRAM_CHANNEL = ''foreign''"
| "publication_owner_server_for_surface WEBAPP_MARKET = ''iran''"

definition publication_dedupe_key :: "string \<Rightarrow> publication_surface \<Rightarrow> string" where
  "publication_dedupe_key offer_public_id surface =
     ''offer-publication:'' @ surface_value surface @ '':'' @ offer_public_id"

definition strict_provider_integer :: "identity_field \<Rightarrow> bool \<Rightarrow> provider_value \<Rightarrow> publication_error + int" where
  "strict_provider_integer field allow_negative v =
     (case v of
        PvInt i \<Rightarrow> (if i = 0 \<or> \<not> allow_negative \<and> i < 0 then Inl (ProviderIntegerInvalid field) else Inr i)
      | _ \<Rightarrow> Inl (ProviderIntegerInvalid field))"

definition normalize_telegram_publication_publisher_identity :: "string option \<Rightarrow> publication_error + string" where
  "normalize_telegram_publication_publisher_identity v =
     (let publisher = py_strip (case v of None \<Rightarrow> [] | Some s \<Rightarrow> s)
      in if publisher \<in> set TELEGRAM_PUBLICATION_PUBLISHER_BOT_IDENTITIES then Inr publisher else Inl PublisherMismatch)"

text \<open>\<open>str(state.publisher_bot_identity or "").strip()\<close>.\<close>

definition current_publisher_text :: "publication_state \<Rightarrow> string" where
  "current_publisher_text st = py_strip (case ps_publisher st of None \<Rightarrow> [] | Some s \<Rightarrow> s)"

text \<open>An optional identity: absent, or normalised.\<close>

definition optional_publisher :: "string option \<Rightarrow> publication_error + string option" where
  "optional_publisher v =
     (case v of
        None \<Rightarrow> Inr None
      | Some s \<Rightarrow> map_sum id Some (normalize_telegram_publication_publisher_identity (Some s)))"

definition current_publisher :: "publication_state \<Rightarrow> publication_error + string option" where
  "current_publisher st = optional_publisher (if current_publisher_text st = [] then None else Some (current_publisher_text st))"

definition ensure_telegram_publication_publisher_identity ::
  "publication_state \<Rightarrow> string option \<Rightarrow> publication_error + string \<times> publication_state" where
  "ensure_telegram_publication_publisher_identity st publisher_bot_identity =
     (if ps_surface st \<noteq> TELEGRAM_CHANNEL then Inl SurfaceMismatch
      else case optional_publisher publisher_bot_identity of
        Inl e \<Rightarrow> Inl e
      | Inr incoming \<Rightarrow>
          (case current_publisher st of
             Inl e \<Rightarrow> Inl e
           | Inr (Some current) \<Rightarrow>
               (if incoming \<noteq> None \<and> incoming \<noteq> Some current then Inl PublisherMismatch else Inr (current, st))
           | Inr None \<Rightarrow>
               (let assigned = (case incoming of None \<Rightarrow> TELEGRAM_PRIMARY_PUBLISHER_BOT_IDENTITY | Some p \<Rightarrow> p)
                in Inr (assigned, st\<lparr>ps_publisher := Some assigned\<rparr>))))"

definition stored_value :: "int option \<Rightarrow> provider_value" where
  "stored_value v = (case v of None \<Rightarrow> PvOther | Some i \<Rightarrow> PvInt i)"

definition canonical_telegram_publication_identity ::
  "publication_state \<Rightarrow> publication_error + telegram_publication_identity" where
  "canonical_telegram_publication_identity st =
     (if ps_surface st \<noteq> TELEGRAM_CHANNEL then Inl SurfaceMismatch
      else case normalize_telegram_publication_publisher_identity (Some (current_publisher_text st)) of
        Inl e \<Rightarrow> Inl e
      | Inr publisher \<Rightarrow>
          (case strict_provider_integer ChatIdField True (stored_value (ps_telegram_chat_id st)) of
             Inl e \<Rightarrow> Inl e
           | Inr chat_id \<Rightarrow>
               (case strict_provider_integer MessageIdField False (stored_value (ps_telegram_message_id st)) of
                  Inl e \<Rightarrow> Inl e
                | Inr message_id \<Rightarrow>
                    Inr \<lparr>ti_publisher = publisher, ti_chat_id = chat_id, ti_message_id = message_id\<rparr>)))"

text \<open>One identifier of an update against the stored one; \<open>None\<close> is no error.\<close>

definition identifier_conflict ::
  "identity_field \<Rightarrow> bool \<Rightarrow> provider_value option \<Rightarrow> int option \<Rightarrow> publication_error option" where
  "identifier_conflict field allow_negative incoming existing =
     (case incoming of
        None \<Rightarrow> None
      | Some v \<Rightarrow>
          (case strict_provider_integer field allow_negative v of
             Inl e \<Rightarrow> Some e
           | Inr validated \<Rightarrow>
               (case existing of
                  None \<Rightarrow> None
                | Some x \<Rightarrow>
                    (case strict_provider_integer field allow_negative (PvInt x) of
                       Inl e \<Rightarrow> Some e
                     | Inr y \<Rightarrow> (if y \<noteq> validated then Some (ProviderIntegerMismatch field) else None)))))"

definition provider_text :: "provider_value \<Rightarrow> string option" where
  "provider_text v = (case v of PvInt i \<Rightarrow> Some (py_str_int i) | _ \<Rightarrow> None)"

text \<open>The checks of an update; \<open>Inr True\<close> for a Telegram publication.\<close>

definition validate_canonical_telegram_update ::
  "publication_state \<Rightarrow> string option \<Rightarrow> string option \<Rightarrow> provider_value option \<Rightarrow> provider_value option
     \<Rightarrow> publication_error + bool" where
  "validate_canonical_telegram_update st publisher_bot_identity surface_resource_id telegram_chat_id telegram_message_id =
     (if ps_surface st \<noteq> TELEGRAM_CHANNEL
      then if publisher_bot_identity \<noteq> None \<or> telegram_chat_id \<noteq> None \<or> telegram_message_id \<noteq> None
           then Inl TelegramFieldsOnOtherSurface
           else if ps_publisher st \<noteq> None then Inl PublisherOnOtherSurface
           else Inr False
      else case current_publisher st of
        Inl e \<Rightarrow> Inl e
      | Inr current \<Rightarrow>
          (case optional_publisher publisher_bot_identity of
             Inl e \<Rightarrow> Inl e
           | Inr incoming \<Rightarrow>
               (if current \<noteq> None \<and> incoming \<noteq> None \<and> current \<noteq> incoming then Inl PublisherMismatch
                else case identifier_conflict ChatIdField True telegram_chat_id (ps_telegram_chat_id st) of
                  Some e \<Rightarrow> Inl e
                | None \<Rightarrow>
                    (case identifier_conflict MessageIdField False telegram_message_id (ps_telegram_message_id st) of
                       Some e \<Rightarrow> Inl e
                     | None \<Rightarrow>
                         (if current = None \<and> incoming = None \<and>
                             (telegram_message_id \<noteq> None \<or> ps_telegram_message_id st \<noteq> None) then Inl PublisherMissing
                          else case surface_resource_id of
                            None \<Rightarrow> Inr True
                          | Some resource \<Rightarrow>
                              (if ps_surface_resource_id st \<noteq> None \<and> ps_surface_resource_id st \<noteq> Some resource
                               then Inl SurfaceResourceMismatch
                               else if (case telegram_message_id of None \<Rightarrow> False | Some v \<Rightarrow> provider_text v \<noteq> Some resource)
                               then Inl SurfaceResourceMessageMismatch
                               else Inr True))))))"

record publication_offer =
  po_id :: "int option"
  po_public_id :: "string option"
  po_home_server :: "string option"
  po_version_id :: "int option"
  po_status :: "string option"

text \<open>The publisher argument of \<open>build_offer_publication_state\<close>: absent, or given (possibly as \<open>None\<close>).\<close>

datatype publisher_argument = DefaultPublisher | GivenPublisher "string option"

definition build_publisher :: "publication_surface \<Rightarrow> publisher_argument \<Rightarrow> publication_error + string option" where
  "build_publisher surface arg =
     (case (surface, arg) of
        (TELEGRAM_CHANNEL, DefaultPublisher) \<Rightarrow> optional_publisher (Some TELEGRAM_PRIMARY_PUBLISHER_BOT_IDENTITY)
      | (TELEGRAM_CHANNEL, GivenPublisher p) \<Rightarrow> optional_publisher p
      | (_, GivenPublisher (Some p)) \<Rightarrow> Inl TelegramFieldsOnOtherSurface
      | _ \<Rightarrow> Inr None)"

definition text_or_blank :: "string option \<Rightarrow> string" where
  "text_or_blank v = (case v of None \<Rightarrow> [] | Some s \<Rightarrow> s)"

definition none_if_empty :: "string \<Rightarrow> string option" where
  "none_if_empty s = (if s = [] then None else Some s)"

definition build_offer_publication_state ::
  "publication_offer \<Rightarrow> publication_surface \<Rightarrow> publication_status \<Rightarrow> int \<Rightarrow> publisher_argument
     \<Rightarrow> publication_error + publication_state" where
  "build_offer_publication_state offer surface status now arg =
     (let public_id = py_strip (text_or_blank (po_public_id offer))
      in if public_id = [] then Inl OfferPublicIdRequired
         else case build_publisher surface arg of
           Inl e \<Rightarrow> Inl e
         | Inr publisher \<Rightarrow>
             Inr \<lparr>ps_offer_id = po_id offer, ps_offer_public_id = public_id,
                  ps_offer_home_server = text_or_blank (po_home_server offer), ps_surface = surface,
                  ps_publication_owner_server = publication_owner_server_for_surface surface,
                  ps_publisher = publisher, ps_status = status,
                  ps_dedupe_key = publication_dedupe_key public_id surface, ps_surface_resource_id = None,
                  ps_telegram_chat_id = None, ps_telegram_message_id = None,
                  ps_offer_version_id = po_version_id offer,
                  ps_last_known_offer_status = none_if_empty (normalize_offer_status (po_status offer)),
                  ps_last_attempt_at = None, ps_last_success_at = None, ps_disabled_at = None, ps_lagged_at = None,
                  ps_error_code = None, ps_error_message = None, ps_created_at = Some now\<rparr>)"

record publication_update =
  pu_offer_status :: "string option"
  pu_offer_version_id :: "int option"
  pu_requested_status :: publication_status
  pu_error_code :: "string option"
  pu_error_message :: "string option"
  pu_publisher :: "string option"
  pu_surface_resource_id :: "string option"
  pu_telegram_chat_id :: "provider_value option"
  pu_telegram_message_id :: "provider_value option"

definition stale_update :: "publication_state \<Rightarrow> publication_update \<Rightarrow> bool" where
  "stale_update st u =
     (case (ps_offer_version_id st, pu_offer_version_id u) of (Some c, Some i) \<Rightarrow> i < c | _ \<Rightarrow> False)"

text \<open>A validated identifier is an integer and is stored when it is given.\<close>

definition set_identifier :: "provider_value option \<Rightarrow> int option \<Rightarrow> int option" where
  "set_identifier incoming existing = (case incoming of Some (PvInt i) \<Rightarrow> Some i | _ \<Rightarrow> existing)"

definition write_publication_state ::
  "publication_update \<Rightarrow> publication_status \<Rightarrow> string option \<Rightarrow> int \<Rightarrow> publication_state \<Rightarrow> publication_state" where
  "write_publication_state u applied error_code now st =
     st\<lparr>ps_status := applied,
        ps_offer_version_id := (case pu_offer_version_id u of Some v \<Rightarrow> Some v | None \<Rightarrow> ps_offer_version_id st),
        ps_last_known_offer_status := none_if_empty (normalize_offer_status (pu_offer_status u)),
        ps_error_code := error_code, ps_error_message := pu_error_message u,
        ps_last_attempt_at := (if applied \<in> {PUB_PENDING, PUB_FAILED} then Some now else ps_last_attempt_at st),
        ps_last_success_at := (if applied \<in> {PUB_SENT, PUB_VISIBLE} then Some now else ps_last_success_at st),
        ps_disabled_at := (if applied = PUB_DISABLED then Some now else ps_disabled_at st),
        ps_lagged_at := (if applied = PUB_LAGGED then Some now else ps_lagged_at st),
        ps_surface_resource_id := (case pu_surface_resource_id u of Some r \<Rightarrow> Some r | None \<Rightarrow> ps_surface_resource_id st),
        ps_telegram_chat_id := set_identifier (pu_telegram_chat_id u) (ps_telegram_chat_id st),
        ps_telegram_message_id := set_identifier (pu_telegram_message_id u) (ps_telegram_message_id st)\<rparr>"

definition converts_terminal :: "publication_update \<Rightarrow> bool" where
  "converts_terminal u \<longleftrightarrow>
     normalize_offer_status (pu_offer_status u) \<in> set TERMINAL_OFFER_STATUSES \<and>
     pu_requested_status u \<in> set ACTIVE_PUBLICATION_STATUSES"

definition apply_publication_state_update ::
  "publication_state \<Rightarrow> publication_update \<Rightarrow> int \<Rightarrow> publication_error + publication_apply_result \<times> publication_state" where
  "apply_publication_state_update st u now =
     (if stale_update st u
      then Inr (\<lparr>pr_applied = False, pr_reason = StaleOfferVersion, pr_status = ps_status st\<rparr>, st)
      else case validate_canonical_telegram_update st (pu_publisher u) (pu_surface_resource_id u)
                  (pu_telegram_chat_id u) (pu_telegram_message_id u) of
        Inl e \<Rightarrow> Inl e
      | Inr is_telegram \<Rightarrow>
          (case (if is_telegram \<and> pu_publisher u \<noteq> None
                 then map_sum id snd (ensure_telegram_publication_publisher_identity st (pu_publisher u)) else Inr st) of
             Inl e \<Rightarrow> Inl e
           | Inr st' \<Rightarrow>
               (let converted = converts_terminal u;
                    applied = (if converted then PUB_DISABLED else pu_requested_status u);
                    code = (if converted \<and> (pu_error_code u = None \<or> pu_error_code u = Some [])
                            then Some ''offer_terminal'' else pu_error_code u)
                in Inr (\<lparr>pr_applied = True, pr_reason = (if converted then ConvertedTerminalOffer else Applied),
                         pr_status = applied\<rparr>, write_publication_state u applied code now st'))))"

definition mark_publication_lagged_if_overdue ::
  "publication_state \<Rightarrow> int \<Rightarrow> int \<Rightarrow> bool \<times> publication_state" where
  "mark_publication_lagged_if_overdue st now threshold_seconds =
     (if ps_status st \<noteq> PUB_PENDING then (False, st)
      else case (case ps_last_attempt_at st of Some a \<Rightarrow> Some a | None \<Rightarrow> ps_created_at st) of
        None \<Rightarrow> (False, st)
      | Some anchor \<Rightarrow>
          (if now - anchor \<le> threshold_seconds * us_per_second then (False, st)
           else (True, st\<lparr>ps_status := PUB_LAGGED, ps_lagged_at := Some now,
                  ps_error_code := (if ps_error_code st = None \<or> ps_error_code st = Some []
                                    then Some ''publication_lagged'' else ps_error_code st)\<rparr>)))"

section \<open>Histories of a publication\<close>

inductive publication_step :: "publication_state \<Rightarrow> publication_state \<Rightarrow> bool" where
  update: "apply_publication_state_update st u now = Inr (res, st') \<Longrightarrow> publication_step st st'"
| ensure: "ensure_telegram_publication_publisher_identity st p = Inr (r, st') \<Longrightarrow> publication_step st st'"
| lagged: "mark_publication_lagged_if_overdue st now threshold = (b, st') \<Longrightarrow> publication_step st st'"

definition built :: "publication_state \<Rightarrow> bool" where
  "built st \<longleftrightarrow> (\<exists>offer surface status now arg. build_offer_publication_state offer surface status now arg = Inr st)"

text \<open>A row of the table: the publisher is known and belongs to the Telegram surface, provider identifiers are
  valid, a message has a publisher, other surfaces have no Telegram identifiers.\<close>

definition publication_ok :: "publication_state \<Rightarrow> bool" where
  "publication_ok st \<longleftrightarrow>
     (case ps_publisher st of
        None \<Rightarrow> ps_telegram_message_id st = None
      | Some p \<Rightarrow> ps_surface st = TELEGRAM_CHANNEL \<and> p \<in> set TELEGRAM_PUBLICATION_PUBLISHER_BOT_IDENTITIES) \<and>
     (case ps_telegram_chat_id st of None \<Rightarrow> True | Some i \<Rightarrow> i \<noteq> 0 \<and> ps_surface st = TELEGRAM_CHANNEL) \<and>
     (case ps_telegram_message_id st of None \<Rightarrow> True | Some i \<Rightarrow> 0 < i) \<and>
     ps_publication_owner_server st = publication_owner_server_for_surface (ps_surface st) \<and>
     ps_dedupe_key st = publication_dedupe_key (ps_offer_public_id st) (ps_surface st)"

definition keeps :: "'a option \<Rightarrow> 'a option \<Rightarrow> bool" where
  "keeps old new \<longleftrightarrow> old = None \<or> new = old"

text \<open>What never changes once it is set.\<close>

definition identity_kept :: "publication_state \<Rightarrow> publication_state \<Rightarrow> bool" where
  "identity_kept st st' \<longleftrightarrow>
     ps_surface st' = ps_surface st \<and> ps_offer_public_id st' = ps_offer_public_id st \<and>
     ps_publication_owner_server st' = ps_publication_owner_server st \<and> ps_dedupe_key st' = ps_dedupe_key st \<and>
     keeps (ps_publisher st) (ps_publisher st') \<and> keeps (ps_telegram_chat_id st) (ps_telegram_chat_id st') \<and>
     keeps (ps_telegram_message_id st) (ps_telegram_message_id st') \<and>
     (ps_surface st = TELEGRAM_CHANNEL \<longrightarrow> keeps (ps_surface_resource_id st) (ps_surface_resource_id st'))"

section \<open>Rows stay well formed and keep their identity\<close>

lemma keeps_refl [simp]: "keeps x x" and keeps_none [simp]: "keeps None x"
  by (simp_all add: keeps_def)

lemma keeps_some [simp]: "keeps (Some x) y \<longleftrightarrow> y = Some x"
  by (auto simp: keeps_def)

lemma identity_kept_refl: "identity_kept st st"
  by (simp add: identity_kept_def)

lemma keeps_trans: "keeps x y \<Longrightarrow> keeps y z \<Longrightarrow> keeps x z"
  by (cases x) simp_all

lemma identity_kept_trans: "identity_kept a b \<Longrightarrow> identity_kept b c \<Longrightarrow> identity_kept a c"
  unfolding identity_kept_def by (elim conjE, intro conjI) (simp | blast intro: keeps_trans)+

lemma known_publisher_stripped:
  "p \<in> set TELEGRAM_PUBLICATION_PUBLISHER_BOT_IDENTITIES \<Longrightarrow> py_strip p = p \<and> p \<noteq> []"
  by (auto simp: TELEGRAM_PUBLICATION_PUBLISHER_BOT_IDENTITIES_def TELEGRAM_PRIMARY_PUBLISHER_BOT_IDENTITY_def
        TELEGRAM_PUBLISHER_IDENTITIES_def) code_simp+

lemma normalized_publisher [simp]:
  "p \<in> set TELEGRAM_PUBLICATION_PUBLISHER_BOT_IDENTITIES \<Longrightarrow>
     normalize_telegram_publication_publisher_identity (Some p) = Inr p"
  by (simp add: normalize_telegram_publication_publisher_identity_def known_publisher_stripped)

lemma normalized_publisher_known:
  "normalize_telegram_publication_publisher_identity v = Inr p \<Longrightarrow>
     p \<in> set TELEGRAM_PUBLICATION_PUBLISHER_BOT_IDENTITIES"
  by (auto simp: normalize_telegram_publication_publisher_identity_def Let_def split: if_splits)

lemma optional_publisher_known:
  "optional_publisher v = Inr (Some p) \<Longrightarrow> p \<in> set TELEGRAM_PUBLICATION_PUBLISHER_BOT_IDENTITIES"
  by (cases v; cases "normalize_telegram_publication_publisher_identity v")
     (auto simp: optional_publisher_def dest: normalized_publisher_known)

lemma publication_ok_publisher:
  "publication_ok st \<Longrightarrow> ps_publisher st = Some p \<Longrightarrow>
     ps_surface st = TELEGRAM_CHANNEL \<and> p \<in> set TELEGRAM_PUBLICATION_PUBLISHER_BOT_IDENTITIES"
  by (simp add: publication_ok_def)

text \<open>In a well-formed row the publisher that the checks see is the stored one.\<close>

lemma current_publisher_ok: "publication_ok st \<Longrightarrow> current_publisher st = Inr (ps_publisher st)"
  by (cases "ps_publisher st")
     (auto simp: current_publisher_def current_publisher_text_def optional_publisher_def known_publisher_stripped
        dest!: publication_ok_publisher)

lemma ensure_known:
  assumes "ensure_telegram_publication_publisher_identity st p = Inr (r, st')" "publication_ok st"
  shows "ps_surface st = TELEGRAM_CHANNEL \<and> r \<in> set TELEGRAM_PUBLICATION_PUBLISHER_BOT_IDENTITIES \<and>
    keeps (ps_publisher st) (Some r) \<and> st' = st\<lparr>ps_publisher := Some r\<rparr>"
  using assms
  by (auto simp: ensure_telegram_publication_publisher_identity_def current_publisher_ok Let_def
        TELEGRAM_PUBLICATION_PUBLISHER_BOT_IDENTITIES_def dest: publication_ok_publisher
        dest!: optional_publisher_known [unfolded TELEGRAM_PUBLICATION_PUBLISHER_BOT_IDENTITIES_def]
        split: if_splits sum.splits option.splits)

lemma identifier_accepted:
  assumes "identifier_conflict field neg incoming existing = None"
  shows "keeps existing (set_identifier incoming existing) \<and>
    (case incoming of None \<Rightarrow> True | Some v \<Rightarrow> (\<exists>i. v = PvInt i \<and> i \<noteq> 0 \<and> (neg \<or> 0 < i)))"
  using assms
  by (auto simp: identifier_conflict_def strict_provider_integer_def set_identifier_def keeps_def
        split: option.splits sum.splits provider_value.splits if_splits)

text \<open>What an accepted update may write.\<close>

lemma update_cases:
  assumes "apply_publication_state_update st u now = Inr (res, st')"
  obtains (stale) "stale_update st u" "st' = st" "\<not> pr_applied res" "pr_reason res = StaleOfferVersion"
  | (applied) is_telegram st1 code where "\<not> stale_update st u"
      "validate_canonical_telegram_update st (pu_publisher u) (pu_surface_resource_id u)
         (pu_telegram_chat_id u) (pu_telegram_message_id u) = Inr is_telegram"
      "(if is_telegram \<and> pu_publisher u \<noteq> None
        then map_sum id snd (ensure_telegram_publication_publisher_identity st (pu_publisher u)) else Inr st) = Inr st1"
      "pr_applied res" "pr_status res = (if converts_terminal u then PUB_DISABLED else pu_requested_status u)"
      "st' = write_publication_state u (pr_status res) code now st1"
proof (cases "stale_update st u")
  case True
  then show ?thesis using assms by (intro stale) (auto simp: apply_publication_state_update_def)
next
  case False
  then obtain t where t: "validate_canonical_telegram_update st (pu_publisher u) (pu_surface_resource_id u)
      (pu_telegram_chat_id u) (pu_telegram_message_id u) = Inr t"
    using assms by (auto simp: apply_publication_state_update_def split: sum.splits)
  then obtain st1 where st1: "(if t \<and> pu_publisher u \<noteq> None
      then map_sum id snd (ensure_telegram_publication_publisher_identity st (pu_publisher u)) else Inr st) = Inr st1"
    using assms False by (simp only: apply_publication_state_update_def if_False sum.case) (auto split: sum.splits)
  show ?thesis
  proof (rule applied [OF False t st1])
    show "pr_applied res" "pr_status res = (if converts_terminal u then PUB_DISABLED else pu_requested_status u)"
      using assms False t st1 by (auto simp: apply_publication_state_update_def Let_def)
    show "st' = write_publication_state u (pr_status res)
        (if converts_terminal u \<and> (pu_error_code u = None \<or> pu_error_code u = Some [])
         then Some ''offer_terminal'' else pu_error_code u) now st1"
      using assms False t st1 by (auto simp: apply_publication_state_update_def Let_def)
  qed
qed

lemma validated_update:
  assumes "validate_canonical_telegram_update st p r c m = Inr is_telegram" "publication_ok st"
  shows "is_telegram \<longleftrightarrow> ps_surface st = TELEGRAM_CHANNEL"
    and "\<not> is_telegram \<Longrightarrow> p = None \<and> c = None \<and> m = None"
    and "is_telegram \<Longrightarrow> identifier_conflict ChatIdField True c (ps_telegram_chat_id st) = None"
    and "is_telegram \<Longrightarrow> identifier_conflict MessageIdField False m (ps_telegram_message_id st) = None"
    and "is_telegram \<Longrightarrow> ps_publisher st = None \<Longrightarrow> p = None \<Longrightarrow> m = None"
    and "is_telegram \<Longrightarrow> r = None \<or> keeps (ps_surface_resource_id st) r"
  using assms(1)
  by (auto simp: validate_canonical_telegram_update_def current_publisher_ok [OF assms(2)] optional_publisher_def
        keeps_def split: if_splits sum.splits option.splits)

lemma publisher_written:
  assumes "(if is_telegram \<and> p \<noteq> None
      then map_sum id snd (ensure_telegram_publication_publisher_identity st p) else Inr st) = Inr st1"
    and "publication_ok st"
  shows "\<exists>q. st1 = st\<lparr>ps_publisher := q\<rparr> \<and> keeps (ps_publisher st) q \<and> (is_telegram \<and> p \<noteq> None \<longrightarrow> q \<noteq> None) \<and>
    (\<forall>x. q = Some x \<longrightarrow> ps_surface st = TELEGRAM_CHANNEL \<and> x \<in> set TELEGRAM_PUBLICATION_PUBLISHER_BOT_IDENTITIES)"
proof (cases "is_telegram \<and> p \<noteq> None")
  case True
  then obtain r where "ensure_telegram_publication_publisher_identity st p = Inr (r, st1)"
    using assms(1) by (cases "ensure_telegram_publication_publisher_identity st p") auto
  then have e: "ps_surface st = TELEGRAM_CHANNEL" "r \<in> set TELEGRAM_PUBLICATION_PUBLISHER_BOT_IDENTITIES"
      "keeps (ps_publisher st) (Some r)" "st1 = st\<lparr>ps_publisher := Some r\<rparr>"
    using ensure_known [OF _ assms(2)] by blast+
  show ?thesis by (rule exI [of _ "Some r"]) (use e in simp)
next
  case False
  then have "st1 = st" using assms(1) by auto
  then have "st1 = st\<lparr>ps_publisher := ps_publisher st\<rparr>" by simp
  with False show ?thesis using publication_ok_publisher [OF assms(2)] keeps_refl [of "ps_publisher st"] by blast
qed

lemma set_identifier_ok:
  assumes "identifier_conflict field neg incoming existing = None"
    and "\<And>i. existing = Some i \<Longrightarrow> i \<noteq> 0 \<and> (neg \<or> 0 < i)" "set_identifier incoming existing = Some j"
  shows "j \<noteq> 0 \<and> (neg \<or> 0 < j)"
  using identifier_accepted [OF assms(1)] assms(2, 3)
  by (auto simp: set_identifier_def split: option.splits provider_value.splits)

lemma set_identifier_none [simp]: "set_identifier None x = x"
  by (simp add: set_identifier_def)

lemma publication_ok_iff:
  "publication_ok st \<longleftrightarrow>
     (\<forall>p. ps_publisher st = Some p \<longrightarrow> ps_surface st = TELEGRAM_CHANNEL \<and>
        p \<in> set TELEGRAM_PUBLICATION_PUBLISHER_BOT_IDENTITIES) \<and>
     (ps_publisher st = None \<longrightarrow> ps_telegram_message_id st = None) \<and>
     (\<forall>i. ps_telegram_chat_id st = Some i \<longrightarrow> i \<noteq> 0 \<and> ps_surface st = TELEGRAM_CHANNEL) \<and>
     (\<forall>i. ps_telegram_message_id st = Some i \<longrightarrow> 0 < i) \<and>
     ps_publication_owner_server st = publication_owner_server_for_surface (ps_surface st) \<and>
     ps_dedupe_key st = publication_dedupe_key (ps_offer_public_id st) (ps_surface st)"
  by (auto simp: publication_ok_def split: option.splits)

text \<open>The row an accepted update leaves, on the columns that identify the publication.\<close>

lemma written_columns [simp]:
  "ps_surface (write_publication_state u a e n st) = ps_surface st"
  "ps_offer_public_id (write_publication_state u a e n st) = ps_offer_public_id st"
  "ps_publication_owner_server (write_publication_state u a e n st) = ps_publication_owner_server st"
  "ps_dedupe_key (write_publication_state u a e n st) = ps_dedupe_key st"
  "ps_publisher (write_publication_state u a e n st) = ps_publisher st"
  "ps_status (write_publication_state u a e n st) = a"
  "ps_offer_version_id (write_publication_state u a e n st) =
     (case pu_offer_version_id u of Some v \<Rightarrow> Some v | None \<Rightarrow> ps_offer_version_id st)"
  "ps_surface_resource_id (write_publication_state u a e n st) =
     (case pu_surface_resource_id u of Some r \<Rightarrow> Some r | None \<Rightarrow> ps_surface_resource_id st)"
  "ps_telegram_chat_id (write_publication_state u a e n st) =
     set_identifier (pu_telegram_chat_id u) (ps_telegram_chat_id st)"
  "ps_telegram_message_id (write_publication_state u a e n st) =
     set_identifier (pu_telegram_message_id u) (ps_telegram_message_id st)"
  by (simp_all add: write_publication_state_def)

lemma update_preserves:
  assumes upd: "apply_publication_state_update st u now = Inr (res, st')" and ok: "publication_ok st"
  shows "publication_ok st' \<and> identity_kept st st'"
  using upd
proof (cases rule: update_cases)
  case stale
  with ok show ?thesis by (simp add: identity_kept_refl)
next
  case (applied is_telegram st1 code)
  note val = validated_update [OF applied(2) ok]
  obtain q where q: "st1 = st\<lparr>ps_publisher := q\<rparr>" "keeps (ps_publisher st) q"
      "is_telegram \<and> pu_publisher u \<noteq> None \<longrightarrow> q \<noteq> None"
      "\<forall>x. q = Some x \<longrightarrow> ps_surface st = TELEGRAM_CHANNEL \<and> x \<in> set TELEGRAM_PUBLICATION_PUBLISHER_BOT_IDENTITIES"
    using publisher_written [OF applied(3) ok] by blast
  have ids: "keeps (ps_telegram_chat_id st) (set_identifier (pu_telegram_chat_id u) (ps_telegram_chat_id st))"
      "keeps (ps_telegram_message_id st) (set_identifier (pu_telegram_message_id u) (ps_telegram_message_id st))"
    using identifier_accepted [OF val(3)] identifier_accepted [OF val(4)] val(2) by (cases is_telegram; simp)+
  have chat: "i \<noteq> 0 \<and> ps_surface st = TELEGRAM_CHANNEL"
    if "set_identifier (pu_telegram_chat_id u) (ps_telegram_chat_id st) = Some i" for i
    using that val(1, 2) ok set_identifier_ok [OF val(3), of i] by (cases is_telegram) (auto simp: publication_ok_iff)
  have message: "0 < i"
    if "set_identifier (pu_telegram_message_id u) (ps_telegram_message_id st) = Some i" for i
    using that val(1, 2) ok set_identifier_ok [OF val(4), of i] by (cases is_telegram) (auto simp: publication_ok_iff)
  have publisher: "set_identifier (pu_telegram_message_id u) (ps_telegram_message_id st) = None" if "q = None"
    using that q(2, 3) val(2, 5) ok by (cases is_telegram; cases "ps_publisher st") (auto simp: publication_ok_iff)
  have resource: "keeps (ps_surface_resource_id st) (ps_surface_resource_id st')" if "ps_surface st = TELEGRAM_CHANNEL"
    using val(1, 6) that applied(6) q(1) by (auto split: option.splits)
  have "publication_ok st'"
    using ok chat message publisher q(1, 4) applied(6) by (simp add: publication_ok_iff)
  moreover have "identity_kept st st'"
    using ids resource q(1, 2) applied(6) by (simp add: identity_kept_def)
  ultimately show ?thesis ..
qed

lemma step_preserves:
  assumes "publication_step st st'" "publication_ok st"
  shows "publication_ok st' \<and> identity_kept st st'"
  using assms
proof cases
  case (update u now res)
  then show ?thesis using assms(2) by (rule update_preserves)
next
  case (ensure p r)
  from ensure_known [OF this assms(2)] assms(2) show ?thesis
    by (auto simp: publication_ok_iff identity_kept_def keeps_def)
next
  case (lagged now threshold b)
  then have "st' = st \<or> (\<exists>l e. st' = st\<lparr>ps_status := PUB_LAGGED, ps_lagged_at := l, ps_error_code := e\<rparr>)"
    by (force simp: mark_publication_lagged_if_overdue_def split: if_splits option.splits)
  then show ?thesis using assms(2) by (auto simp: publication_ok_iff identity_kept_def)
qed

lemma built_ok:
  assumes "built st"
  shows "publication_ok st"
proof -
  obtain offer surface status now arg where b: "build_offer_publication_state offer surface status now arg = Inr st"
    using assms by (auto simp: built_def)
  then obtain p where p: "build_publisher surface arg = Inr p"
    by (auto simp: build_offer_publication_state_def Let_def split: if_splits sum.splits)
  have "surface = TELEGRAM_CHANNEL \<and> x \<in> set TELEGRAM_PUBLICATION_PUBLISHER_BOT_IDENTITIES" if "p = Some x" for x
    using p that by (auto simp: build_publisher_def dest: optional_publisher_known
        split: publication_surface.splits publisher_argument.splits option.splits)
  then show ?thesis using b p
    by (auto simp: build_offer_publication_state_def Let_def publication_ok_iff split: if_splits)
qed

interpretation publication: invariant_system built publication_step publication_ok
  by unfold_locales (simp_all add: built_ok step_preserves)

lemma history_keeps_identity:
  "publication_step\<^sup>*\<^sup>* st st' \<Longrightarrow> publication_ok st \<Longrightarrow> publication_ok st' \<and> identity_kept st st'"
  by (induction rule: rtranclp_induct) (auto intro: identity_kept_refl identity_kept_trans dest: step_preserves)

text \<open>The canonical identity of a well-formed row is read from its three columns.\<close>

lemma canonical_identity_iff:
  assumes "publication_ok st"
  shows "canonical_telegram_publication_identity st = Inr t \<longleftrightarrow>
    ps_publisher st = Some (ti_publisher t) \<and> ps_telegram_chat_id st = Some (ti_chat_id t) \<and>
    ps_telegram_message_id st = Some (ti_message_id t)"
proof (cases "ps_publisher st")
  case None
  then show ?thesis
    by (auto simp: canonical_telegram_publication_identity_def current_publisher_text_def
        normalize_telegram_publication_publisher_identity_def TELEGRAM_PUBLICATION_PUBLISHER_BOT_IDENTITIES_def
        TELEGRAM_PRIMARY_PUBLISHER_BOT_IDENTITY_def TELEGRAM_PUBLISHER_IDENTITIES_def)
next
  case (Some p)
  with publication_ok_publisher [OF assms this] assms show ?thesis
    by (cases "ps_telegram_chat_id st"; cases "ps_telegram_message_id st"; cases t)
       (auto simp: canonical_telegram_publication_identity_def current_publisher_text_def known_publisher_stripped
         strict_provider_integer_def stored_value_def publication_ok_iff)
qed

section \<open>Properties\<close>


text \<open>an update that carries an older version of the offer changes nothing; an accepted one never lowers the
  version, and one that reports a terminal offer leaves the publication with no active status.\<close>

theorem publication_follows_offer_version:
  assumes "apply_publication_state_update st u now = Inr (res, st')"
  shows "(pr_applied res \<longleftrightarrow> \<not> stale_update st u) \<and> (stale_update st u \<longrightarrow> st' = st) \<and>
    (\<forall>v. ps_offer_version_id st = Some v \<longrightarrow> (\<exists>w \<ge> v. ps_offer_version_id st' = Some w)) \<and>
    (\<not> stale_update st u \<and> normalize_offer_status (pu_offer_status u) \<in> set TERMINAL_OFFER_STATUSES \<longrightarrow>
       ps_status st' \<notin> set ACTIVE_PUBLICATION_STATUSES)"
  using assms
proof (cases rule: update_cases)
  case stale
  then show ?thesis by auto
next
  case (applied is_telegram st1 code)
  have v: "ps_offer_version_id st1 = ps_offer_version_id st"
    using applied(3) by (auto simp: ensure_telegram_publication_publisher_identity_def Let_def
        split: if_splits sum.splits option.splits)
  have "\<exists>w \<ge> x. ps_offer_version_id st' = Some w" if "ps_offer_version_id st = Some x" for x
    using that v applied(1, 6) by (auto simp: stale_update_def split: option.splits)
  moreover have "ps_status st' \<notin> set ACTIVE_PUBLICATION_STATUSES"
    if "normalize_offer_status (pu_offer_status u) \<in> set TERMINAL_OFFER_STATUSES"
    using that applied(5, 6) by (auto simp: converts_terminal_def ACTIVE_PUBLICATION_STATUSES_def)
  ultimately show ?thesis using applied(1, 4) by blast
qed

definition sample_publication_offer :: publication_offer where
  "sample_publication_offer = \<lparr>po_id = Some 7, po_public_id = Some ''ofr_7'', po_home_server = Some ''foreign'',
     po_version_id = Some 3, po_status = Some ''active''\<rparr>"

definition sample_publication_update :: "string \<Rightarrow> int \<Rightarrow> publication_update" where
  "sample_publication_update status version = \<lparr>pu_offer_status = Some status, pu_offer_version_id = Some version,
     pu_requested_status = PUB_SENT, pu_error_code = None, pu_error_message = None, pu_publisher = Some ''publisher_2'',
     pu_surface_resource_id = Some ''41'', pu_telegram_chat_id = Some (PvInt (-1001)), pu_telegram_message_id = Some (PvInt 41)\<rparr>"

definition right_value :: "'e + 'a \<Rightarrow> 'a option" where
  "right_value r = (case r of Inl e \<Rightarrow> None | Inr a \<Rightarrow> Some a)"

definition sample_publication :: publication_state where
  "sample_publication = (case build_offer_publication_state sample_publication_offer TELEGRAM_CHANNEL PUB_PENDING 1000
     (GivenPublisher None) of Inr st \<Rightarrow> st)"

definition sample_published :: publication_state where
  "sample_published = (case apply_publication_state_update sample_publication (sample_publication_update ''active'' 3) 2000 of
     Inr (res, st) \<Rightarrow> st)"


theorem publication_follows_offer_version_witness:
  "\<exists>res st'. apply_publication_state_update sample_publication (sample_publication_update ''EXPIRED'' 4) 2000 = Inr (res, st') \<and>
     ps_status st' \<notin> set ACTIVE_PUBLICATION_STATUSES"
proof -
  let ?u = "sample_publication_update ''EXPIRED'' 4"
  have "right_value (apply_publication_state_update sample_publication ?u 2000) \<noteq> None" by code_simp
  then obtain res st' where a: "apply_publication_state_update sample_publication ?u 2000 = Inr (res, st')"
    by (cases "apply_publication_state_update sample_publication ?u 2000") (auto simp: right_value_def)
  have "\<not> stale_update sample_publication ?u"
    "normalize_offer_status (pu_offer_status ?u) \<in> set TERMINAL_OFFER_STATUSES" by code_simp+
  with publication_follows_offer_version [OF a] a show ?thesis by blast
qed

end
