(* ===== verification/Sessions.thy ===== *)
theory Sessions
  imports Prelude
begin

text \<open>
  User sessions: \<open>core/services/session_service.py\<close>, \<open>core/session_expiry.py\<close>, the local part of
  \<open>core/session_authority.py\<close>, \<open>core/services/session_reset_service.py\<close>, the session check of \<open>api/deps.py\<close> and the
  session endpoints of \<open>api/routers/sessions.py\<close> on the tables of \<open>models/session.py\<close>.  The state holds the rows of the
  tables and the Redis blacklist; every operation is one database transaction.  UUIDs are numbers; the ones
  that are drawn, the clock, the users and the availability of Redis are arguments.  A draw that is already
  in use violates the primary key and rolls the transaction back.  Instants are microseconds.
\<close>

section \<open>Data\<close>

type_synonym uuid = nat

datatype platform = TELEGRAM_MINI_APP | WEB | ANDROID

datatype login_request_status = LR_PENDING | LR_APPROVED | LR_REJECTED | LR_EXPIRED

datatype recovery_status =
    PENDING_ADMIN_REVIEW | IDENTITY_VERIFICATION_REQUESTED | IDENTITY_SUBMITTED
  | RECOVERY_APPROVED | RECOVERY_REJECTED | RECOVERY_CANCELLED | RECOVERY_EXPIRED

record user_session =
  us_id :: uuid
  us_user_id :: int
  us_device_name :: string
  us_device_ip :: "string option"
  us_home_server :: string
  us_platform :: platform
  us_refresh_token_hash :: "string option"
  us_is_primary :: bool
  us_is_active :: bool
  us_created_at :: int
  us_last_active_at :: int
  us_expires_at :: "int option"

record login_request =
  lr_id :: uuid
  lr_user_id :: int
  lr_device_name :: string
  lr_ip :: "string option"
  lr_home_server :: string
  lr_status :: login_request_status
  lr_created_at :: int
  lr_expires_at :: int
  lr_resolved_by :: "uuid option"

record recovery_request =
  rr_id :: uuid
  rr_user_id :: int
  rr_login_request_id :: "uuid option"
  rr_device_name :: string
  rr_ip :: "string option"
  rr_status :: recovery_status
  rr_created_at :: int
  rr_inline_action_expires_at :: int
  rr_chat_action_expires_at :: int
  rr_identity_requested_at :: "int option"
  rr_identity_submitted_at :: "int option"
  rr_decided_at :: "int option"
  rr_decided_by :: "int option"
  rr_cancelled_at :: "int option"

record admin_target =
  at_recovery :: uuid
  at_admin :: int
  at_message :: "int option"

record session_db =
  sd_sessions :: "user_session list"
  sd_requests :: "login_request list"
  sd_recoveries :: "recovery_request list"
  sd_targets :: "admin_target list"
  sd_blacklist :: "(uuid, int) dict"

datatype user_role = WATCH | STANDARD | POLICE | MIDDLE_MANAGER | SUPER_ADMIN

record session_user =
  su_id :: int
  su_role :: user_role
  su_max_sessions :: int
  su_inactive :: bool
  su_is_deleted :: bool

text \<open>What a request finds besides the session tables: the users, who is an accountant, the clock, whether
  Redis answers, and the digest of tokens.\<close>

record session_env =
  se_users :: "session_user list"
  se_accountant :: "int \<Rightarrow> bool"
  se_now :: int
  se_redis :: bool
  se_hash :: "string \<Rightarrow> string"

datatype session_error =
    PrimaryKeyViolation | AmbiguousRow | RequestNotFound | RequestProcessed | RequestExpired | RecoveryActive
  | AccountInactive | NotPrimary | SessionNotFound | SessionUnknown | PrimaryWithOthers | AccountantForbidden
  | SessionRevoked | UserNotFound

definition days :: "int \<Rightarrow> int" where
  "days n = n * 86400 * us_per_second"

definition LOGIN_SESSION_LIFETIME_DAYS :: int where
  "LOGIN_SESSION_LIFETIME_DAYS = 30"

definition SESSION_BLACKLIST_TTL :: int where
  "SESSION_BLACKLIST_TTL = 3600"

section \<open>Rows\<close>

definition find_user :: "session_env \<Rightarrow> int \<Rightarrow> session_user option" where
  "find_user env u = find (\<lambda>x. su_id x = u) (se_users env)"

definition find_session :: "session_db \<Rightarrow> uuid \<Rightarrow> user_session option" where
  "find_session db i = find (\<lambda>s. us_id s = i) (sd_sessions db)"

definition find_request :: "session_db \<Rightarrow> uuid \<Rightarrow> login_request option" where
  "find_request db i = find (\<lambda>r. lr_id r = i) (sd_requests db)"

text \<open>Assignments to the row with a given identifier.\<close>

definition change_session :: "uuid \<Rightarrow> (user_session \<Rightarrow> user_session) \<Rightarrow> session_db \<Rightarrow> session_db" where
  "change_session i f db = db\<lparr>sd_sessions := map (\<lambda>s. if us_id s = i then f s else s) (sd_sessions db)\<rparr>"

definition change_request :: "uuid \<Rightarrow> (login_request \<Rightarrow> login_request) \<Rightarrow> session_db \<Rightarrow> session_db" where
  "change_request i f db = db\<lparr>sd_requests := map (\<lambda>r. if lr_id r = i then f r else r) (sd_requests db)\<rparr>"

definition set_inactive :: "uuid list \<Rightarrow> session_db \<Rightarrow> session_db" where
  "set_inactive ids db =
     db\<lparr>sd_sessions := map (\<lambda>s. if us_id s \<in> set ids then s\<lparr>us_is_active := False\<rparr> else s) (sd_sessions db)\<rparr>"

text \<open>A rolled back transaction keeps what was written to Redis.\<close>

definition rollback_to :: "session_db \<Rightarrow> session_db \<Rightarrow> session_db" where
  "rollback_to db db' = db\<lparr>sd_blacklist := sd_blacklist db'\<rparr>"

section \<open>Sessions\<close>

definition is_admin :: "session_user \<Rightarrow> bool" where
  "is_admin u \<longleftrightarrow> su_role u \<in> {SUPER_ADMIN, MIDDLE_MANAGER}"

definition get_effective_max_sessions :: "session_user \<Rightarrow> int" where
  "get_effective_max_sessions u = (if is_admin u then 1 else min (max (su_max_sessions u) 1) 3)"

definition session_limit :: "session_env \<Rightarrow> session_user \<Rightarrow> int" where
  "session_limit env u = (if se_accountant env (su_id u) then 1 else get_effective_max_sessions u)"

definition get_active_sessions :: "session_db \<Rightarrow> int \<Rightarrow> user_session list" where
  "get_active_sessions db u = sort_key us_created_at (filter (\<lambda>s. us_user_id s = u \<and> us_is_active s) (sd_sessions db))"

definition get_session_by_refresh_token :: "session_env \<Rightarrow> session_db \<Rightarrow> string \<Rightarrow> db_error + user_session option" where
  "get_session_by_refresh_token env db token =
     scalar_one_or_none (filter (\<lambda>s. us_refresh_token_hash s = Some (se_hash env token) \<and> us_is_active s) (sd_sessions db))"

record device =
  dv_name :: string
  dv_ip :: "string option"
  dv_platform :: platform
  dv_home_server :: string

definition create_session ::
  "session_env \<Rightarrow> uuid \<Rightarrow> int \<Rightarrow> string \<Rightarrow> device \<Rightarrow> bool \<Rightarrow> session_db \<Rightarrow> session_error + user_session \<times> session_db" where
  "create_session env new_id user_id refresh_token dv is_primary db =
     (if new_id \<in> us_id ` set (sd_sessions db) then Inl PrimaryKeyViolation
      else
        (let s = \<lparr>us_id = new_id, us_user_id = user_id, us_device_name = dv_name dv, us_device_ip = dv_ip dv,
                  us_home_server = dv_home_server dv, us_platform = dv_platform dv,
                  us_refresh_token_hash = Some (se_hash env refresh_token), us_is_primary = is_primary, us_is_active = True,
                  us_created_at = se_now env, us_last_active_at = se_now env,
                  us_expires_at = Some (se_now env + days LOGIN_SESSION_LIFETIME_DAYS)\<rparr>
         in Inr (s, db\<lparr>sd_sessions := sd_sessions db @ [s]\<rparr>)))"

definition blacklist_session :: "session_env \<Rightarrow> uuid \<Rightarrow> session_db \<Rightarrow> session_db" where
  "blacklist_session env i db =
     (if se_redis env
      then db\<lparr>sd_blacklist := dict_put i (se_now env + SESSION_BLACKLIST_TTL * us_per_second) (sd_blacklist db)\<rparr> else db)"

definition is_session_blacklisted :: "session_env \<Rightarrow> session_db \<Rightarrow> uuid \<Rightarrow> bool" where
  "is_session_blacklisted env db i \<longleftrightarrow>
     se_redis env \<and> (case dict_get (sd_blacklist db) i of None \<Rightarrow> False | Some expiry \<Rightarrow> se_now env < expiry)"

definition deactivate_session :: "session_env \<Rightarrow> uuid \<Rightarrow> session_db \<Rightarrow> session_db" where
  "deactivate_session env i db = blacklist_session env i (set_inactive [i] db)"

definition promote_next_primary :: "int \<Rightarrow> session_db \<Rightarrow> user_session option \<times> session_db" where
  "promote_next_primary u db =
     (case get_active_sessions db u of
        [] \<Rightarrow> (None, db)
      | oldest # _ \<Rightarrow>
          (Some (oldest\<lparr>us_is_primary := True\<rparr>), change_session (us_id oldest) (\<lambda>s. s\<lparr>us_is_primary := True\<rparr>) db))"

definition publish_session_revocation :: "session_env \<Rightarrow> uuid list \<Rightarrow> session_db \<Rightarrow> session_db" where
  "publish_session_revocation env ids db = fold (blacklist_session env) ids db"

section \<open>Login\<close>

datatype login_action = SessionCreated user_session int | LoginBlocked

definition revive_session :: "session_env \<Rightarrow> string \<Rightarrow> device \<Rightarrow> user_session \<Rightarrow> user_session" where
  "revive_session env refresh_token dv s =
     s\<lparr>us_refresh_token_hash := Some (se_hash env refresh_token), us_device_name := dv_name dv,
       us_device_ip := (case dv_ip dv of None \<Rightarrow> us_device_ip s | Some ip \<Rightarrow> (if ip = [] then us_device_ip s else Some ip)),
       us_platform := dv_platform dv, us_home_server := dv_home_server dv, us_last_active_at := se_now env,
       us_expires_at := Some (se_now env + days LOGIN_SESSION_LIFETIME_DAYS)\<rparr>"

definition suspended_sessions :: "session_env \<Rightarrow> session_db \<Rightarrow> int \<Rightarrow> string option \<Rightarrow> user_session list" where
  "suspended_sessions env db u token =
     (case token of
        None \<Rightarrow> []
      | Some t \<Rightarrow>
          (if t = [] then []
           else filter (\<lambda>s. us_user_id s = u \<and> us_refresh_token_hash s = Some (se_hash env t) \<and> us_is_active s)
                  (sd_sessions db)))"

text \<open>The end of a login: commit, then revocation of the replaced sessions.\<close>

definition finish_login ::
  "session_env \<Rightarrow> uuid list \<Rightarrow> session_db \<Rightarrow> session_error + user_session \<times> session_db
     \<Rightarrow> (session_error + login_action) \<times> session_db" where
  "finish_login env revoked db created =
     (case created of
        Inl e \<Rightarrow> (Inl e, db)
      | Inr (s, db') \<Rightarrow> (Inr (SessionCreated s (int (length revoked))), publish_session_revocation env revoked db'))"

text \<open>A login without a session to revive.\<close>

definition admit_login ::
  "session_env \<Rightarrow> uuid \<Rightarrow> session_user \<Rightarrow> string \<Rightarrow> device \<Rightarrow> session_db \<Rightarrow> (session_error + login_action) \<times> session_db" where
  "admit_login env new_id user refresh_token dv db =
     (let active_sessions = get_active_sessions db (su_id user);
          max_sessions = session_limit env user
      in if active_sessions = []
         then finish_login env [] db (create_session env new_id (su_id user) refresh_token dv True db)
         else if int (length active_sessions) < max_sessions
         then finish_login env [] db (create_session env new_id (su_id user) refresh_token dv False db)
         else
           (let replace_count = nat (int (length active_sessions) - max_sessions + 1);
                revoked = map us_id (take replace_count active_sessions);
                remaining = drop replace_count active_sessions
            in finish_login env revoked db
                 (create_session env new_id (su_id user) refresh_token dv (\<not> list_ex us_is_primary remaining)
                    (set_inactive revoked db))))"

definition handle_login_session ::
  "session_env \<Rightarrow> uuid \<Rightarrow> session_user \<Rightarrow> string \<Rightarrow> device \<Rightarrow> string option \<Rightarrow> session_db
     \<Rightarrow> (session_error + login_action) \<times> session_db" where
  "handle_login_session env new_id user refresh_token dv suspended_refresh_token db =
     (if su_inactive user then (Inr LoginBlocked, db)
      else case scalar_one_or_none (suspended_sessions env db (su_id user) suspended_refresh_token) of
        Inl e \<Rightarrow> (Inl AmbiguousRow, db)
      | Inr (Some s) \<Rightarrow>
          (Inr (SessionCreated (revive_session env refresh_token dv s) 0),
           change_session (us_id s) (revive_session env refresh_token dv) db)
      | Inr None \<Rightarrow> admit_login env new_id user refresh_token dv db)"

section \<open>Ending sessions\<close>

definition logout_session :: "session_env \<Rightarrow> user_session \<Rightarrow> session_db \<Rightarrow> user_session option \<times> session_db" where
  "logout_session env s db =
     (let db' = deactivate_session env (us_id s) db
      in if us_is_primary s then promote_next_primary (us_user_id s) db' else (None, db'))"

definition revocable_sessions :: "session_db \<Rightarrow> int \<Rightarrow> uuid option \<Rightarrow> uuid list" where
  "revocable_sessions db u exclude = filter (\<lambda>i. exclude \<noteq> Some i) (map us_id (get_active_sessions db u))"

definition deactivate_active_sessions :: "int \<Rightarrow> uuid option \<Rightarrow> session_db \<Rightarrow> uuid list \<times> session_db" where
  "deactivate_active_sessions u exclude db =
     (let revoked = revocable_sessions db u exclude in (revoked, set_inactive revoked db))"

definition force_clear_sessions :: "session_env \<Rightarrow> int \<Rightarrow> uuid option \<Rightarrow> session_db \<Rightarrow> int \<times> session_db" where
  "force_clear_sessions env u exclude db =
     (let (cleared, db') = deactivate_active_sessions u exclude db
      in (int (length cleared), publish_session_revocation env cleared db'))"

text \<open>The loop of the expiry job: the flag of a session is read when its turn comes.\<close>

fun expire_sessions :: "session_env \<Rightarrow> uuid list \<Rightarrow> session_db \<Rightarrow> session_db" where
  "expire_sessions env [] db = db"
| "expire_sessions env (i # rest) db =
     (case find_session db i of
        None \<Rightarrow> expire_sessions env rest db
      | Some s \<Rightarrow>
          (let db' = deactivate_session env i db
           in expire_sessions env rest (if us_is_primary s then snd (promote_next_primary (us_user_id s) db') else db')))"

definition expire_stale_sessions :: "session_env \<Rightarrow> session_db \<Rightarrow> int \<times> session_db" where
  "expire_stale_sessions env db =
     (let cutoff = se_now env - days 5;
          expired = map us_id (filter (\<lambda>s. us_is_active s \<and>
            (case us_expires_at s of None \<Rightarrow> False | Some e \<Rightarrow> e < cutoff)) (sd_sessions db))
      in (int (length expired), expire_sessions env expired db))"

definition is_expired :: "session_env \<Rightarrow> user_session \<Rightarrow> bool" where
  "is_expired env s \<longleftrightarrow> (case us_expires_at s of None \<Rightarrow> False | Some e \<Rightarrow> e < se_now env)"

definition deactivate_expired_active_sessions :: "session_env \<Rightarrow> int \<Rightarrow> session_db \<Rightarrow> int \<times> session_db" where
  "deactivate_expired_active_sessions env u db =
     (let expired = filter (is_expired env) (get_active_sessions db u);
          db' = fold (\<lambda>s. deactivate_session env (us_id s)) expired db
      in (int (length expired),
          if list_ex us_is_primary expired then snd (promote_next_primary u db') else db'))"

record session_authority =
  sa_active_session_count :: int
  sa_expired_sessions_deactivated :: int
  sa_can_transfer_home :: bool

definition inspect_local_session_authority :: "session_env \<Rightarrow> int \<Rightarrow> session_db \<Rightarrow> session_authority \<times> session_db" where
  "inspect_local_session_authority env u db =
     (let (expired_count, db') = deactivate_expired_active_sessions env u db;
          active_count = int (length (get_active_sessions db' u))
      in (\<lparr>sa_active_session_count = active_count, sa_expired_sessions_deactivated = expired_count,
           sa_can_transfer_home = (active_count = 0)\<rparr>, db'))"

text \<open>Deleted login requests leave \<open>NULL\<close> in the recoveries that refer to them; the targets of deleted recoveries go
  with them.\<close>

definition reset_user_session_state :: "session_env \<Rightarrow> int \<Rightarrow> bool \<Rightarrow> session_db \<Rightarrow> session_db" where
  "reset_user_session_state env u delete_session_rows db =
     (let db1 = snd (force_clear_sessions env u None db);
          gone = map lr_id (filter (\<lambda>r. lr_user_id r = u) (sd_requests db1));
          recoveries = filter (\<lambda>r. rr_user_id r \<noteq> u) (sd_recoveries db1);
          dropped = map rr_id (filter (\<lambda>r. rr_user_id r = u) (sd_recoveries db1))
      in db1\<lparr>sd_requests := filter (\<lambda>r. lr_user_id r \<noteq> u) (sd_requests db1),
             sd_recoveries := map (\<lambda>r. case rr_login_request_id r of
                 None \<Rightarrow> r
               | Some i \<Rightarrow> (if i \<in> set gone then r\<lparr>rr_login_request_id := None\<rparr> else r)) recoveries,
             sd_targets := filter (\<lambda>t. at_recovery t \<notin> set dropped) (sd_targets db1),
             sd_sessions := (if delete_session_rows then filter (\<lambda>s. us_user_id s \<noteq> u) (sd_sessions db1)
                             else sd_sessions db1)\<rparr>)"

section \<open>Session check of a request\<close>

text \<open>The part of \<open>get_current_user\<close> that checks the session of an access token of user \<open>u\<close>.\<close>

definition check_token_session :: "session_env \<Rightarrow> session_db \<Rightarrow> int \<Rightarrow> uuid option \<Rightarrow> session_error option" where
  "check_token_session env db u sid =
     (case sid of
        None \<Rightarrow> (if find_user env u = None then Some UserNotFound else None)
      | Some i \<Rightarrow>
          (if is_session_blacklisted env db i then Some SessionRevoked
           else if find_user env u = None then Some UserNotFound
           else case find_session db i of
             None \<Rightarrow> Some SessionRevoked
           | Some s \<Rightarrow> (if \<not> us_is_active s \<or> us_user_id s \<noteq> u then Some SessionRevoked else None)))"

definition terminate_session ::
  "session_env \<Rightarrow> int \<Rightarrow> uuid option \<Rightarrow> uuid \<Rightarrow> session_db \<Rightarrow> (session_error + unit) \<times> session_db" where
  "terminate_session env u caller sid db =
     (if se_accountant env u then (Inl AccountantForbidden, db)
      else case find_session db sid of
        None \<Rightarrow> (Inl SessionNotFound, db)
      | Some s \<Rightarrow>
          (if us_user_id s \<noteq> u \<or> \<not> us_is_active s then (Inl SessionNotFound, db)
           else
             (let refusal =
                (if caller = Some sid then None
                 else case caller of
                   None \<Rightarrow> Some SessionUnknown
                 | Some c \<Rightarrow>
                     (case find_session db c of
                        None \<Rightarrow> Some NotPrimary
                      | Some cs \<Rightarrow> (if us_is_primary cs then None else Some NotPrimary)))
              in case refusal of
                   Some e \<Rightarrow> (Inl e, db)
                 | None \<Rightarrow>
                     (if us_is_primary s \<and> 1 < length (get_active_sessions db u) then (Inl PrimaryWithOthers, db)
                      else (Inr (), snd (logout_session env s db))))))"

definition logout_all_sessions ::
  "session_env \<Rightarrow> int \<Rightarrow> uuid option \<Rightarrow> session_db \<Rightarrow> (session_error + int) \<times> session_db" where
  "logout_all_sessions env u caller db =
     (if se_accountant env u then (Inl AccountantForbidden, db)
      else case caller of
        None \<Rightarrow> (Inl SessionUnknown, db)
      | Some c \<Rightarrow>
          (case find_session db c of
             None \<Rightarrow> (Inl NotPrimary, db)
           | Some cs \<Rightarrow>
               (if \<not> us_is_primary cs then (Inl NotPrimary, db)
                else map_prod Inr id (force_clear_sessions env u (Some c) db))))"

section \<open>Recovery requests\<close>

definition INLINE_ACTION_WINDOW_SECONDS :: int where
  "INLINE_ACTION_WINDOW_SECONDS = 30"

definition CHAT_ACTION_WINDOW_SECONDS :: int where
  "CHAT_ACTION_WINDOW_SECONDS = 2 * 60 * 60"

definition ACTIVE_SINGLE_SESSION_RECOVERY_STATUSES :: "recovery_status list" where
  "ACTIVE_SINGLE_SESSION_RECOVERY_STATUSES = [PENDING_ADMIN_REVIEW, IDENTITY_VERIFICATION_REQUESTED, IDENTITY_SUBMITTED]"

definition TERMINAL_SINGLE_SESSION_RECOVERY_STATUSES :: "recovery_status list" where
  "TERMINAL_SINGLE_SESSION_RECOVERY_STATUSES = [RECOVERY_APPROVED, RECOVERY_REJECTED, RECOVERY_CANCELLED, RECOVERY_EXPIRED]"

definition is_active_recovery_status :: "recovery_status \<Rightarrow> bool" where
  "is_active_recovery_status st \<longleftrightarrow> st \<in> set ACTIVE_SINGLE_SESSION_RECOVERY_STATUSES"

definition is_terminal_recovery_status :: "recovery_status \<Rightarrow> bool" where
  "is_terminal_recovery_status st \<longleftrightarrow> st \<in> set TERMINAL_SINGLE_SESSION_RECOVERY_STATUSES"

datatype recovery_error =
    InvalidTransition recovery_status | LoginRequestMissing | RecoveryClosed | LoginRequestExpired | RequesterMissing
  | ManagerForbidden | NotSingleSession | NoAdmins | RecoveryMissing | AdminOnly | TargetMissing | RequesterGone
  | DeadlinePassed | WrongStatus | FileRefused | AccountantSession | ProvisionFailed session_error

definition extend_action_windows :: "int \<Rightarrow> recovery_request \<Rightarrow> recovery_request" where
  "extend_action_windows now r =
     r\<lparr>rr_inline_action_expires_at := now + INLINE_ACTION_WINDOW_SECONDS * us_per_second,
       rr_chat_action_expires_at := now + CHAT_ACTION_WINDOW_SECONDS * us_per_second\<rparr>"

definition close_action_windows :: "int \<Rightarrow> recovery_request \<Rightarrow> recovery_request" where
  "close_action_windows now r = r\<lparr>rr_inline_action_expires_at := now, rr_chat_action_expires_at := now\<rparr>"

definition ensure_status :: "recovery_status list \<Rightarrow> recovery_request \<Rightarrow> recovery_error + recovery_request" where
  "ensure_status allowed r = (if rr_status r \<notin> set allowed then Inl (InvalidTransition (rr_status r)) else Inr r)"

definition request_identity_verification :: "int \<Rightarrow> recovery_request \<Rightarrow> recovery_error + recovery_request" where
  "request_identity_verification now r =
     map_sum id (\<lambda>r. extend_action_windows now
         (r\<lparr>rr_status := IDENTITY_VERIFICATION_REQUESTED, rr_identity_requested_at := Some now\<rparr>))
       (ensure_status [PENDING_ADMIN_REVIEW, IDENTITY_SUBMITTED] r)"

definition submit_identity_material :: "int \<Rightarrow> recovery_request \<Rightarrow> recovery_error + recovery_request" where
  "submit_identity_material now r =
     map_sum id (\<lambda>r. extend_action_windows now
         (r\<lparr>rr_status := IDENTITY_SUBMITTED, rr_identity_submitted_at := Some now\<rparr>))
       (ensure_status [IDENTITY_VERIFICATION_REQUESTED] r)"

definition approve_recovery_request :: "int \<Rightarrow> int \<Rightarrow> recovery_request \<Rightarrow> recovery_error + recovery_request" where
  "approve_recovery_request decided_by now r =
     map_sum id (\<lambda>r. close_action_windows now
         (r\<lparr>rr_status := RECOVERY_APPROVED, rr_decided_at := Some now, rr_decided_by := Some decided_by\<rparr>))
       (ensure_status [PENDING_ADMIN_REVIEW, IDENTITY_SUBMITTED] r)"

definition reject_recovery_request :: "int \<Rightarrow> int \<Rightarrow> recovery_request \<Rightarrow> recovery_error + recovery_request" where
  "reject_recovery_request decided_by now r =
     map_sum id (\<lambda>r. close_action_windows now
         (r\<lparr>rr_status := RECOVERY_REJECTED, rr_decided_at := Some now, rr_decided_by := Some decided_by\<rparr>))
       (ensure_status [PENDING_ADMIN_REVIEW, IDENTITY_VERIFICATION_REQUESTED, IDENTITY_SUBMITTED] r)"

definition cancel_recovery_request :: "int \<Rightarrow> recovery_request \<Rightarrow> recovery_error + recovery_request" where
  "cancel_recovery_request now r =
     map_sum id (\<lambda>r. close_action_windows now (r\<lparr>rr_status := RECOVERY_CANCELLED, rr_cancelled_at := Some now\<rparr>))
       (ensure_status ACTIVE_SINGLE_SESSION_RECOVERY_STATUSES r)"

definition expire_recovery_request :: "int \<Rightarrow> recovery_request \<Rightarrow> recovery_error + recovery_request" where
  "expire_recovery_request now r =
     map_sum id (\<lambda>r. close_action_windows now (r\<lparr>rr_status := RECOVERY_EXPIRED\<rparr>))
       (ensure_status ACTIVE_SINGLE_SESSION_RECOVERY_STATUSES r)"

definition should_show_inline_recovery_prompt :: "int \<Rightarrow> recovery_request \<Rightarrow> admin_target \<Rightarrow> bool" where
  "should_show_inline_recovery_prompt now r t \<longleftrightarrow>
     now < rr_inline_action_expires_at r \<and>
     (rr_status r = PENDING_ADMIN_REVIEW \<or> rr_status r = IDENTITY_SUBMITTED \<and> at_message t \<noteq> None)"

text \<open>\<open>ORDER BY created_at DESC LIMIT 1\<close>.\<close>

definition newest_recovery :: "recovery_request list \<Rightarrow> recovery_request option" where
  "newest_recovery rs = (case sort_key (\<lambda>r. - rr_created_at r) rs of [] \<Rightarrow> None | r # _ \<Rightarrow> Some r)"

definition get_active_recovery_request_for_login_request :: "session_db \<Rightarrow> uuid \<Rightarrow> recovery_request option" where
  "get_active_recovery_request_for_login_request db i =
     newest_recovery (filter (\<lambda>r. rr_login_request_id r = Some i \<and> is_active_recovery_status (rr_status r)) (sd_recoveries db))"

definition get_latest_recovery_request_for_login_request :: "session_db \<Rightarrow> uuid \<Rightarrow> recovery_request option" where
  "get_latest_recovery_request_for_login_request db i =
     newest_recovery (filter (\<lambda>r. rr_login_request_id r = Some i) (sd_recoveries db))"

definition put_recovery :: "recovery_request \<Rightarrow> session_db \<Rightarrow> session_db" where
  "put_recovery r db = db\<lparr>sd_recoveries := map (\<lambda>x. if rr_id x = rr_id r then r else x) (sd_recoveries db)\<rparr>"

definition create_recovery_request ::
  "int \<Rightarrow> uuid \<Rightarrow> login_request \<Rightarrow> session_db \<Rightarrow> session_error + recovery_request \<times> session_db" where
  "create_recovery_request now new_id q db =
     (case get_active_recovery_request_for_login_request db (lr_id q) of
        Some r \<Rightarrow> Inr (r, db)
      | None \<Rightarrow>
          (if new_id \<in> rr_id ` set (sd_recoveries db) then Inl PrimaryKeyViolation
           else
             (let r = \<lparr>rr_id = new_id, rr_user_id = lr_user_id q, rr_login_request_id = Some (lr_id q),
                       rr_device_name = lr_device_name q, rr_ip = lr_ip q, rr_status = PENDING_ADMIN_REVIEW,
                       rr_created_at = now,
                       rr_inline_action_expires_at = now + INLINE_ACTION_WINDOW_SECONDS * us_per_second,
                       rr_chat_action_expires_at = now + CHAT_ACTION_WINDOW_SECONDS * us_per_second,
                       rr_identity_requested_at = None, rr_identity_submitted_at = None, rr_decided_at = None,
                       rr_decided_by = None, rr_cancelled_at = None\<rparr>
              in Inr (r, db\<lparr>sd_recoveries := sd_recoveries db @ [r]\<rparr>))))"

section \<open>Login requests\<close>

definition is_login_request_resolvable_by :: "login_request \<Rightarrow> user_session \<Rightarrow> bool" where
  "is_login_request_resolvable_by q s \<longleftrightarrow> lr_user_id q = us_user_id s"

definition session_to_evict :: "user_session list \<Rightarrow> user_session" where
  "session_to_evict active =
     (let non_primary = filter (\<lambda>s. \<not> us_is_primary s) active; primaries = filter us_is_primary active
      in if non_primary \<noteq> [] then last non_primary else if primaries \<noteq> [] then last primaries else last active)"

fun evict_sessions :: "session_env \<Rightarrow> nat \<Rightarrow> user_session list \<Rightarrow> session_db \<Rightarrow> user_session list \<times> session_db" where
  "evict_sessions env 0 active db = (active, db)"
| "evict_sessions env (Suc n) active db =
     (if active = [] then (active, db)
      else let s = session_to_evict active
           in evict_sessions env n (remove1 s active) (deactivate_session env (us_id s) db))"

definition provision_session_for_login_request ::
  "session_env \<Rightarrow> uuid \<Rightarrow> login_request \<Rightarrow> string \<Rightarrow> session_user \<Rightarrow> platform \<Rightarrow> string \<Rightarrow> session_db
     \<Rightarrow> (session_error + user_session) \<times> session_db" where
  "provision_session_for_login_request env new_id q refresh_token user platform home_server db =
     (let active = get_active_sessions db (lr_user_id q);
          num_to_evict = nat (max 0 (int (length active) - session_limit env user + 1));
          (active', db') = evict_sessions env num_to_evict active db;
          dv = \<lparr>dv_name = lr_device_name q, dv_ip = lr_ip q, dv_platform = platform,
                dv_home_server = (if home_server = [] then lr_home_server q else home_server)\<rparr>
      in case create_session env new_id (lr_user_id q) refresh_token dv (\<not> list_ex us_is_primary active') db' of
           Inl e \<Rightarrow> (Inl e, rollback_to db db')
         | Inr (s, db2) \<Rightarrow> (Inr s, db2))"

definition approve_login_request ::
  "session_env \<Rightarrow> uuid \<Rightarrow> uuid \<Rightarrow> user_session \<Rightarrow> string \<Rightarrow> platform \<Rightarrow> string \<Rightarrow> session_db
     \<Rightarrow> (session_error + user_session) \<times> session_db" where
  "approve_login_request env new_id request_id approver refresh_token platform home_server db =
     (case find_request db request_id of
        None \<Rightarrow> (Inl RequestNotFound, db)
      | Some q \<Rightarrow>
          (if \<not> is_login_request_resolvable_by q approver then (Inl RequestNotFound, db)
           else if lr_status q \<noteq> LR_PENDING then (Inl RequestProcessed, db)
           else if lr_expires_at q < se_now env
           then (Inl RequestExpired, change_request request_id (\<lambda>r. r\<lparr>lr_status := LR_EXPIRED\<rparr>) db)
           else if get_active_recovery_request_for_login_request db request_id \<noteq> None then (Inl RecoveryActive, db)
           else case find_user env (lr_user_id q) of
             None \<Rightarrow> (Inl AccountInactive, db)
           | Some user \<Rightarrow>
               (if su_inactive user then (Inl AccountInactive, db)
                else
                  (case provision_session_for_login_request env new_id q refresh_token user platform home_server
                          (change_request request_id
                             (\<lambda>r. r\<lparr>lr_status := LR_APPROVED, lr_resolved_by := Some (us_id approver)\<rparr>) db) of
                     (Inl e, db') \<Rightarrow> (Inl e, rollback_to db db')
                   | (Inr s, db') \<Rightarrow> (Inr s, db')))))"

definition reject_login_request ::
  "uuid \<Rightarrow> user_session \<Rightarrow> session_db \<Rightarrow> (session_error + unit) \<times> session_db" where
  "reject_login_request request_id approver db =
     (case find_request db request_id of
        None \<Rightarrow> (Inl RequestNotFound, db)
      | Some q \<Rightarrow>
          (if \<not> is_login_request_resolvable_by q approver then (Inl RequestNotFound, db)
           else if lr_status q \<noteq> LR_PENDING then (Inl RequestProcessed, db)
           else if get_active_recovery_request_for_login_request db request_id \<noteq> None then (Inl RecoveryActive, db)
           else (Inr (), change_request request_id
                   (\<lambda>r. r\<lparr>lr_status := LR_REJECTED, lr_resolved_by := Some (us_id approver)\<rparr>) db)))"

text \<open>The endpoints act for the primary session of the account of the caller.\<close>

definition primary_session_of :: "session_db \<Rightarrow> int \<Rightarrow> db_error + user_session option" where
  "primary_session_of db u =
     scalar_one_or_none (filter (\<lambda>s. us_user_id s = u \<and> us_is_primary s \<and> us_is_active s) (sd_sessions db))"

definition approve_request ::
  "session_env \<Rightarrow> uuid \<Rightarrow> int \<Rightarrow> uuid \<Rightarrow> string \<Rightarrow> session_db \<Rightarrow> (session_error + user_session) \<times> session_db" where
  "approve_request env new_id u request_id new_refresh db =
     (if se_accountant env u then (Inl AccountantForbidden, db)
      else case primary_session_of db u of
        Inl e \<Rightarrow> (Inl AmbiguousRow, db)
      | Inr None \<Rightarrow> (Inl NotPrimary, db)
      | Inr (Some primary) \<Rightarrow>
          (case find_request db request_id of
             None \<Rightarrow> (Inl RequestNotFound, db)
           | Some q \<Rightarrow>
               (if lr_user_id q \<noteq> u then (Inl RequestNotFound, db)
                else approve_login_request env new_id request_id primary new_refresh WEB (lr_home_server q) db)))"

definition reject_request :: "session_env \<Rightarrow> int \<Rightarrow> uuid \<Rightarrow> session_db \<Rightarrow> (session_error + unit) \<times> session_db" where
  "reject_request env u request_id db =
     (if se_accountant env u then (Inl AccountantForbidden, db)
      else case primary_session_of db u of
        Inl e \<Rightarrow> (Inl AmbiguousRow, db)
      | Inr None \<Rightarrow> (Inl NotPrimary, db)
      | Inr (Some primary) \<Rightarrow> reject_login_request request_id primary db)"

section \<open>The recovery flow\<close>

definition clear_recovery_admin_action_messages :: "uuid \<Rightarrow> session_db \<Rightarrow> session_db" where
  "clear_recovery_admin_action_messages i db =
     db\<lparr>sd_targets := map (\<lambda>t. if at_recovery t = i then t\<lparr>at_message := None\<rparr> else t) (sd_targets db)\<rparr>"

text \<open>A pending login request of a recovery that ends gets the status \<open>st\<close>.\<close>

definition close_login_request :: "login_request_status \<Rightarrow> recovery_request \<Rightarrow> session_db \<Rightarrow> session_db" where
  "close_login_request st r db =
     (case rr_login_request_id r of
        None \<Rightarrow> db
      | Some i \<Rightarrow> change_request i (\<lambda>q. if lr_status q = LR_PENDING then q\<lparr>lr_status := st\<rparr> else q) db)"

text \<open>The end of a transition of a recovery: the row is written, the buttons of the administrators are removed.\<close>

definition settle_recovery :: "recovery_request \<Rightarrow> session_db \<Rightarrow> session_db" where
  "settle_recovery r db = clear_recovery_admin_action_messages (rr_id r) (put_recovery r db)"

definition expire_recovery_if_needed :: "session_env \<Rightarrow> recovery_request \<Rightarrow> session_db \<Rightarrow> bool \<times> session_db" where
  "expire_recovery_if_needed env r db =
     (if \<not> is_active_recovery_status (rr_status r) then (False, db)
      else if rr_chat_action_expires_at r \<ge> se_now env then (False, db)
      else case expire_recovery_request (se_now env) r of
        Inl e \<Rightarrow> (False, db)
      | Inr r' \<Rightarrow> (True, settle_recovery r' (close_login_request LR_EXPIRED r db)))"

definition list_recovery_admin_users :: "session_env \<Rightarrow> session_user list" where
  "list_recovery_admin_users env =
     sort_key (\<lambda>u. (if su_role u = SUPER_ADMIN then 0 else 1 :: int, su_id u))
       (filter (\<lambda>u. \<not> su_is_deleted u \<and> is_admin u) (se_users env))"

text \<open>One target per administrator; the message of a target is set when its delivery succeeds.\<close>

definition deliver_initial_recovery_messages ::
  "(int \<Rightarrow> int option) \<Rightarrow> recovery_request \<Rightarrow> session_user list \<Rightarrow> session_db \<Rightarrow> session_error + session_db" where
  "deliver_initial_recovery_messages delivered r admins db =
     (if list_ex (\<lambda>t. at_recovery t = rr_id r \<and> at_admin t \<in> su_id ` set admins) (sd_targets db) then Inl PrimaryKeyViolation
      else Inr (db\<lparr>sd_targets := sd_targets db @
             map (\<lambda>u. \<lparr>at_recovery = rr_id r, at_admin = su_id u, at_message = delivered (su_id u)\<rparr>) admins\<rparr>))"

definition deliver_identity_submission_messages ::
  "session_env \<Rightarrow> (int \<Rightarrow> int option) \<Rightarrow> uuid \<Rightarrow> session_db \<Rightarrow> session_db" where
  "deliver_identity_submission_messages env delivered i db =
     db\<lparr>sd_targets := map (\<lambda>t. if at_recovery t = i \<and> find_user env (at_admin t) \<noteq> None \<and> delivered (at_admin t) \<noteq> None
                              then t\<lparr>at_message := delivered (at_admin t)\<rparr> else t) (sd_targets db)\<rparr>"

definition start_single_session_recovery ::
  "session_env \<Rightarrow> uuid \<Rightarrow> (int \<Rightarrow> int option) \<Rightarrow> uuid \<Rightarrow> session_db
     \<Rightarrow> (recovery_error + recovery_request) \<times> session_db" where
  "start_single_session_recovery env new_id delivered request_id db =
     (case find_request db request_id of
        None \<Rightarrow> (Inl LoginRequestMissing, db)
      | Some q \<Rightarrow>
          (case (case get_latest_recovery_request_for_login_request db request_id of
                   Some r \<Rightarrow> (if is_active_recovery_status (rr_status r) then Some r else None)
                 | None \<Rightarrow> None) of
             Some r \<Rightarrow> (Inr r, db)
           | None \<Rightarrow>
               (if lr_status q \<noteq> LR_PENDING then (Inl RecoveryClosed, db)
                else if lr_expires_at q < se_now env then (Inl LoginRequestExpired, db)
                else case find_user env (lr_user_id q) of
                  None \<Rightarrow> (Inl RequesterMissing, db)
                | Some user \<Rightarrow>
                    (if su_is_deleted user then (Inl RequesterMissing, db)
                     else if is_admin user then (Inl ManagerForbidden, db)
                     else if get_effective_max_sessions user \<noteq> 1 then (Inl NotSingleSession, db)
                     else if list_recovery_admin_users env = [] then (Inl NoAdmins, db)
                     else case create_recovery_request (se_now env) new_id q db of
                       Inl e \<Rightarrow> (Inl (ProvisionFailed e), db)
                     | Inr (r, db') \<Rightarrow>
                         (case deliver_initial_recovery_messages delivered r (list_recovery_admin_users env) db' of
                            Inl e \<Rightarrow> (Inl (ProvisionFailed e), db')
                          | Inr db'' \<Rightarrow> (Inr r, db''))))))"

definition cancel_single_session_recovery ::
  "session_env \<Rightarrow> uuid \<Rightarrow> session_db \<Rightarrow> (recovery_error + recovery_request) \<times> session_db" where
  "cancel_single_session_recovery env request_id db =
     (case get_active_recovery_request_for_login_request db request_id of
        None \<Rightarrow> (Inl RecoveryMissing, db)
      | Some r \<Rightarrow>
          (case cancel_recovery_request (se_now env) r of
             Inl e \<Rightarrow> (Inl e, db)
           | Inr r' \<Rightarrow> (Inr r', settle_recovery r' (close_login_request LR_REJECTED r db))))"

definition get_single_session_recovery_status ::
  "session_env \<Rightarrow> uuid \<Rightarrow> session_db \<Rightarrow> bool \<times> session_db" where
  "get_single_session_recovery_status env request_id db =
     (case get_latest_recovery_request_for_login_request db request_id of
        None \<Rightarrow> (False, db)
      | Some r \<Rightarrow> expire_recovery_if_needed env r db)"

definition ensure_recovery_admin_access ::
  "session_env \<Rightarrow> session_user \<Rightarrow> uuid \<Rightarrow> session_db \<Rightarrow> (recovery_error + recovery_request \<times> session_user) \<times> session_db" where
  "ensure_recovery_admin_access env admin recovery_id db =
     (if \<not> is_admin admin then (Inl AdminOnly, db)
      else if \<not> list_ex (\<lambda>t. at_recovery t = recovery_id \<and> at_admin t = su_id admin) (sd_targets db) then (Inl TargetMissing, db)
      else case find (\<lambda>r. rr_id r = recovery_id) (sd_recoveries db) of
        None \<Rightarrow> (Inl TargetMissing, db)
      | Some r \<Rightarrow>
          (case find_user env (rr_user_id r) of
             None \<Rightarrow> (Inl RequesterGone, db)
           | Some requester \<Rightarrow>
               (case expire_recovery_if_needed env r db of
                  (True, db') \<Rightarrow> (Inl DeadlinePassed, db')
                | (False, db') \<Rightarrow> (Inr (r, requester), db'))))"

definition request_single_session_recovery_identity ::
  "session_env \<Rightarrow> session_user \<Rightarrow> uuid \<Rightarrow> session_db \<Rightarrow> (recovery_error + recovery_request) \<times> session_db" where
  "request_single_session_recovery_identity env admin recovery_id db =
     (if se_accountant env (su_id admin) then (Inl AccountantSession, db)
      else case ensure_recovery_admin_access env admin recovery_id db of
        (Inl e, db') \<Rightarrow> (Inl e, db')
      | (Inr (r, requester), db') \<Rightarrow>
          (if rr_status r \<noteq> PENDING_ADMIN_REVIEW then (Inl WrongStatus, db')
           else case request_identity_verification (se_now env) r of
             Inl e \<Rightarrow> (Inl e, db')
           | Inr r' \<Rightarrow> (Inr r', settle_recovery r' db')))"

definition approve_single_session_recovery ::
  "session_env \<Rightarrow> uuid \<Rightarrow> session_user \<Rightarrow> uuid \<Rightarrow> string \<Rightarrow> session_db \<Rightarrow> (recovery_error + user_session) \<times> session_db" where
  "approve_single_session_recovery env new_id admin recovery_id refresh_token db =
     (if se_accountant env (su_id admin) then (Inl AccountantSession, db)
      else case ensure_recovery_admin_access env admin recovery_id db of
        (Inl e, db') \<Rightarrow> (Inl e, db')
      | (Inr (r, requester), db') \<Rightarrow>
          (if rr_status r \<notin> {PENDING_ADMIN_REVIEW, IDENTITY_SUBMITTED} then (Inl WrongStatus, db')
           else case Option.bind (rr_login_request_id r) (find_request db') of
             None \<Rightarrow> (Inl LoginRequestMissing, db')
           | Some q \<Rightarrow>
               (case approve_recovery_request (su_id admin) (se_now env) r of
                  Inl e \<Rightarrow> (Inl e, db')
                | Inr r' \<Rightarrow>
                    (case find_user env (lr_user_id q) of
                       None \<Rightarrow> (Inl (ProvisionFailed UserNotFound), db')
                     | Some user \<Rightarrow>
                         (case provision_session_for_login_request env new_id q refresh_token user WEB (lr_home_server q)
                                 (settle_recovery r' (change_request (lr_id q)
                                    (\<lambda>q. q\<lparr>lr_status := LR_APPROVED, lr_resolved_by := None\<rparr>) db')) of
                            (Inl e, db2) \<Rightarrow> (Inl (ProvisionFailed e), rollback_to db' db2)
                          | (Inr s, db2) \<Rightarrow> (Inr s, db2))))))"

definition reject_single_session_recovery ::
  "session_env \<Rightarrow> session_user \<Rightarrow> uuid \<Rightarrow> session_db \<Rightarrow> (recovery_error + recovery_request) \<times> session_db" where
  "reject_single_session_recovery env admin recovery_id db =
     (if se_accountant env (su_id admin) then (Inl AccountantSession, db)
      else case ensure_recovery_admin_access env admin recovery_id db of
        (Inl e, db') \<Rightarrow> (Inl e, db')
      | (Inr (r, requester), db') \<Rightarrow>
          (if rr_status r \<notin> {PENDING_ADMIN_REVIEW, IDENTITY_SUBMITTED} then (Inl WrongStatus, db')
           else case reject_recovery_request (su_id admin) (se_now env) r of
             Inl e \<Rightarrow> (Inl e, db')
           | Inr r' \<Rightarrow> (Inr r', settle_recovery r' (close_login_request LR_REJECTED r db'))))"

text \<open>The file of the requester has been checked and stored before; \<open>stored\<close> says whether that succeeded.\<close>

definition submit_single_session_recovery_identity ::
  "session_env \<Rightarrow> bool \<Rightarrow> (int \<Rightarrow> int option) \<Rightarrow> uuid \<Rightarrow> session_db \<Rightarrow> (recovery_error + recovery_request) \<times> session_db" where
  "submit_single_session_recovery_identity env stored delivered request_id db =
     (case get_active_recovery_request_for_login_request db request_id of
        None \<Rightarrow> (Inl RecoveryMissing, db)
      | Some r \<Rightarrow>
          (if rr_status r \<noteq> IDENTITY_VERIFICATION_REQUESTED then (Inl WrongStatus, db)
           else case find_user env (rr_user_id r) of
             None \<Rightarrow> (Inl RequesterGone, db)
           | Some requester \<Rightarrow>
               (if su_is_deleted requester then (Inl RequesterGone, db)
                else case expire_recovery_if_needed env r db of
                  (True, db') \<Rightarrow> (Inl DeadlinePassed, db')
                | (False, db') \<Rightarrow>
                    (if \<not> stored then (Inl FileRefused, db')
                     else case submit_identity_material (se_now env) r of
                       Inl e \<Rightarrow> (Inl e, db')
                     | Inr r' \<Rightarrow>
                         (Inr r', deliver_identity_submission_messages env delivered (rr_id r) (settle_recovery r' db'))))))"

text \<open>The status a waiting device polls; an approved request hands out a token for the newest session.\<close>

definition poll_login_request_status ::
  "session_env \<Rightarrow> session_db \<Rightarrow> uuid \<Rightarrow> session_error + login_request_status \<times> user_session option" where
  "poll_login_request_status env db request_id =
     (case find_request db request_id of
        None \<Rightarrow> Inl RequestNotFound
      | Some q \<Rightarrow>
          (if lr_status q = LR_APPROVED
           then Inr (LR_APPROVED, (case rev (get_active_sessions db (lr_user_id q)) of [] \<Rightarrow> None | s # _ \<Rightarrow> Some s))
           else if lr_expires_at q < se_now env then Inr (LR_EXPIRED, None)
           else Inr (lr_status q, None)))"

end
