(* ===== verification/SessionSafety.thy ===== *)
theory SessionSafety
  imports Sessions
begin

text \<open>
  Properties of user sessions: the step relation over all operations of \<open>Sessions\<close>, the active sessions of an
  account seen as two sets of identifiers, and what every history keeps.
\<close>

section \<open>Active and primary sessions of an account\<close>

definition act :: "session_db \<Rightarrow> int \<Rightarrow> uuid set" where
  "act db u = {i. \<exists>s \<in> set (sd_sessions db). us_id s = i \<and> us_user_id s = u \<and> us_is_active s}"

definition prim :: "session_db \<Rightarrow> int \<Rightarrow> uuid set" where
  "prim db u = {i. \<exists>s \<in> set (sd_sessions db). us_id s = i \<and> us_user_id s = u \<and> us_is_active s \<and> us_is_primary s}"

definition ids :: "session_db \<Rightarrow> uuid set" where
  "ids db = us_id ` set (sd_sessions db)"

definition distinct_ids :: "session_db \<Rightarrow> bool" where
  "distinct_ids db \<longleftrightarrow> distinct (map us_id (sd_sessions db))"

text \<open>No account has more than three active sessions, and an account with active sessions has one primary session.\<close>

definition sessions_ok :: "session_db \<Rightarrow> bool" where
  "sessions_ok db \<longleftrightarrow>
     distinct_ids db \<and> (\<forall>u. card (act db u) \<le> 3 \<and> (act db u = {} \<or> (\<exists>p. prim db u = {p})))"

lemma prim_act: "prim db u \<subseteq> act db u"
  by (auto simp: prim_def act_def)

lemma act_ids: "act db u \<subseteq> ids db"
  by (auto simp: act_def ids_def)

lemma act_image: "act db u = us_id ` {s \<in> set (sd_sessions db). us_user_id s = u \<and> us_is_active s}"
  by (auto simp: act_def)

lemma finite_act [simp]: "finite (act db u)"
  by (simp add: act_image)

lemma row_unique: "distinct_ids db \<Longrightarrow> s \<in> set (sd_sessions db) \<Longrightarrow> t \<in> set (sd_sessions db) \<Longrightarrow> us_id s = us_id t \<Longrightarrow> s = t"
  by (auto simp: distinct_ids_def distinct_map dest: inj_onD)

lemma act_disjoint: "distinct_ids db \<Longrightarrow> i \<in> act db u \<Longrightarrow> i \<in> act db v \<Longrightarrow> u = v"
  unfolding act_def using row_unique by blast

lemma find_session_row: "find_session db i = Some s \<Longrightarrow> s \<in> set (sd_sessions db) \<and> us_id s = i"
  by (auto simp: find_session_def find_Some_iff)

lemma row_found: "distinct_ids db \<Longrightarrow> s \<in> set (sd_sessions db) \<Longrightarrow> find_session db (us_id s) = Some s"
  by (cases "find_session db (us_id s)")
     (auto simp: find_session_def find_None_iff dest!: find_session_row [unfolded find_session_def] intro: row_unique)

text \<open>What the writes do to the two sets.\<close>

lemma blacklist_fields [simp]:
  "sd_sessions (blacklist_session env i db) = sd_sessions db"
  "sd_requests (blacklist_session env i db) = sd_requests db"
  "sd_recoveries (blacklist_session env i db) = sd_recoveries db"
  "sd_targets (blacklist_session env i db) = sd_targets db"
  by (simp_all add: blacklist_session_def)

lemma revocation_fields [simp]:
  "sd_sessions (publish_session_revocation env is db) = sd_sessions db"
  "sd_requests (publish_session_revocation env is db) = sd_requests db"
  "sd_recoveries (publish_session_revocation env is db) = sd_recoveries db"
  by (induction "is" arbitrary: db) (simp_all add: publish_session_revocation_def)

lemma change_session_fields [simp]:
  "sd_requests (change_session i f db) = sd_requests db" "sd_recoveries (change_session i f db) = sd_recoveries db"
  "sd_targets (change_session i f db) = sd_targets db"
  by (simp_all add: change_session_def)

lemma set_inactive_fields [simp]:
  "sd_requests (set_inactive js db) = sd_requests db" "sd_recoveries (set_inactive js db) = sd_recoveries db"
  "sd_targets (set_inactive js db) = sd_targets db"
  by (simp_all add: set_inactive_def)

lemma same_sessions:
  "sd_sessions db = sd_sessions db' \<Longrightarrow> act db = act db' \<and> prim db = prim db' \<and> ids db = ids db' \<and> distinct_ids db = distinct_ids db'"
  by (simp add: act_def prim_def ids_def distinct_ids_def fun_eq_iff)

lemma sessions_ok_cong: "sd_sessions db = sd_sessions db' \<Longrightarrow> sessions_ok db = sessions_ok db'"
  using same_sessions [of db db'] by (simp add: sessions_ok_def)

lemma same_ok: "sd_sessions db' = sd_sessions db \<Longrightarrow> sessions_ok db \<Longrightarrow> sessions_ok db'"
  using sessions_ok_cong by blast

lemma set_inactive_sets [simp]:
  "act (set_inactive js db) u = act db u - set js" "prim (set_inactive js db) u = prim db u - set js"
  "ids (set_inactive js db) = ids db" "distinct_ids (set_inactive js db) = distinct_ids db"
proof -
  have m: "map us_id (sd_sessions (set_inactive js db)) = map us_id (sd_sessions db)"
    by (simp add: set_inactive_def)
  show "act (set_inactive js db) u = act db u - set js" "prim (set_inactive js db) u = prim db u - set js"
    by (auto simp: act_def prim_def set_inactive_def split: if_splits)
  show "ids (set_inactive js db) = ids db" using m by (simp add: ids_def flip: set_map)
  show "distinct_ids (set_inactive js db) = distinct_ids db" using m by (simp add: distinct_ids_def)
qed

lemma change_session_sets:
  assumes "\<And>s. us_id (f s) = us_id s \<and> us_user_id (f s) = us_user_id s \<and> us_is_active (f s) = us_is_active s"
  shows "act (change_session i f db) u = act db u" "ids (change_session i f db) = ids db"
    "distinct_ids (change_session i f db) = distinct_ids db"
proof -
  have m: "map us_id (sd_sessions (change_session i f db)) = map us_id (sd_sessions db)"
    using assms by (simp add: change_session_def)
  show "act (change_session i f db) u = act db u"
    using assms by (simp add: act_def change_session_def if_distrib del: if_image_distrib cong: if_cong)
  show "ids (change_session i f db) = ids db" using m by (simp add: ids_def flip: set_map)
  show "distinct_ids (change_session i f db) = distinct_ids db" using m by (simp add: distinct_ids_def)
qed

lemma promote_sets:
  "prim (change_session i (\<lambda>s. s\<lparr>us_is_primary := True\<rparr>) db) u = prim db u \<union> ({i} \<inter> act db u)"
  by (auto simp: prim_def act_def change_session_def simp del: if_image_distrib split: if_splits)

lemma keep_primary_sets:
  assumes "\<And>s. us_id (f s) = us_id s \<and> us_user_id (f s) = us_user_id s \<and> us_is_active (f s) = us_is_active s \<and>
    us_is_primary (f s) = us_is_primary s"
  shows "prim (change_session i f db) u = prim db u"
  using assms by (simp add: prim_def change_session_def if_distrib del: if_image_distrib cong: if_cong)

lemma create_session_cases:
  assumes "create_session env i u token dv p db = Inr (s, db')"
  shows "i \<notin> ids db \<and> us_id s = i \<and> us_user_id s = u \<and> us_is_active s \<and> us_is_primary s = p \<and>
    us_refresh_token_hash s = Some (se_hash env token) \<and> db' = db\<lparr>sd_sessions := sd_sessions db @ [s]\<rparr>"
  using assms by (auto simp: create_session_def Let_def ids_def split: if_splits)

lemma create_session_sets:
  assumes "create_session env i u token dv p db = Inr (s, db')"
  shows "act db' v = (if v = u then insert i (act db v) else act db v)"
    "prim db' v = (if v = u \<and> p then insert i (prim db v) else prim db v)"
    "ids db' = insert i (ids db)" "distinct_ids db' = distinct_ids db" "i \<notin> ids db"
  using create_session_cases [OF assms] by (auto simp: act_def prim_def ids_def distinct_ids_def)

text \<open>The listed sessions of an account.\<close>

lemma active_list:
  "set (get_active_sessions db u) = {s \<in> set (sd_sessions db). us_user_id s = u \<and> us_is_active s}"
  by (auto simp: get_active_sessions_def)

lemma active_list_ids: "us_id ` set (get_active_sessions db u) = act db u"
  by (simp add: active_list act_image)

lemma active_list_primary: "us_id ` {s \<in> set (get_active_sessions db u). us_is_primary s} = prim db u"
  by (auto simp: active_list prim_def)

lemma active_list_distinct: "distinct_ids db \<Longrightarrow> distinct (map us_id (get_active_sessions db u))"
  by (simp add: get_active_sessions_def distinct_ids_def distinct_map inj_on_def)

lemma active_list_length: "distinct_ids db \<Longrightarrow> length (get_active_sessions db u) = card (act db u)"
  using distinct_card [OF active_list_distinct [of db u]] by (simp add: active_list_ids)

lemma active_list_empty: "get_active_sessions db u = [] \<longleftrightarrow> act db u = {}"
  using active_list_ids [of db u] by auto

section \<open>Every operation keeps the sessions well formed\<close>

lemma limit_range: "1 \<le> session_limit env user" "session_limit env user \<le> 3"
  by (simp_all add: session_limit_def get_effective_max_sessions_def)

lemma sessions_okD:
  assumes "sessions_ok db"
  shows "distinct_ids db" "card (act db u) \<le> 3" "act db u = {} \<or> (\<exists>p. prim db u = {p})"
  using assms by (simp_all add: sessions_ok_def)

lemma others_kept:
  assumes "distinct_ids db" "set js \<subseteq> act db u" "v \<noteq> u"
  shows "act db v - set js = act db v" "prim db v - set js = prim db v"
  using assms act_disjoint [of db] prim_act [of db v] by blast+

text \<open>A new session for account \<open>u\<close> after the sessions \<open>js\<close> were ended.\<close>

lemma create_ok:
  assumes ok: "sessions_ok db" and js: "set js \<subseteq> act db u"
    and new: "create_session env i u token dv p db1 = Inr (s, db2)"
    and db1: "sd_sessions db1 = sd_sessions (set_inactive js db)"
    and room: "card (act db u - set js) < 3" and p: "p \<longleftrightarrow> prim db u \<subseteq> set js"
  shows "sessions_ok db2"
proof -
  note s1 = same_sessions [OF db1] and s2 = create_session_sets [OF new]
  have at_u: "card (act db2 u) \<le> 3 \<and> (\<exists>p. prim db2 u = {p})"
  proof -
    have "i \<notin> act db u" using s2(5) s1 act_ids [of db u] by auto
    then have "card (act db2 u) \<le> 3" using room s1 by (simp add: s2(1))
    moreover have "\<exists>q. prim db2 u = {q}"
      using sessions_okD(3) [OF ok, of u] p prim_act [of db u] s1 by (auto simp: s2(2))
    ultimately show ?thesis ..
  qed
  have at_v: "card (act db2 v) \<le> 3 \<and> (act db2 v = {} \<or> (\<exists>p. prim db2 v = {p}))" if "v \<noteq> u" for v
    using that sessions_okD(2,3) [OF ok, of v] others_kept [OF sessions_okD(1) [OF ok] js that] s1 by (simp add: s2(1,2))
  have "distinct_ids db2" using sessions_okD(1) [OF ok] s1 by (simp add: s2(4))
  with at_u at_v show ?thesis unfolding sessions_ok_def by metis
qed

lemma promote_next_primary_sets:
  fixes u db
  defines "db' \<equiv> snd (promote_next_primary u db)"
  shows "act db' v = act db v" "ids db' = ids db" "distinct_ids db' = distinct_ids db"
    "distinct_ids db \<Longrightarrow> v \<noteq> u \<Longrightarrow> prim db' v = prim db v"
    "act db u \<noteq> {} \<Longrightarrow> \<exists>q \<in> act db u. prim db' u = insert q (prim db u)"
    "sd_requests db' = sd_requests db" "sd_recoveries db' = sd_recoveries db"
proof -
  consider "get_active_sessions db u = []" "db' = db"
    | x xs where "get_active_sessions db u = x # xs" "db' = change_session (us_id x) (\<lambda>s. s\<lparr>us_is_primary := True\<rparr>) db"
    by (cases "get_active_sessions db u") (simp_all add: db'_def promote_next_primary_def)
  then have "act db' v = act db v \<and> ids db' = ids db \<and> distinct_ids db' = distinct_ids db \<and>
      sd_requests db' = sd_requests db \<and> sd_recoveries db' = sd_recoveries db \<and>
      (distinct_ids db \<longrightarrow> v \<noteq> u \<longrightarrow> prim db' v = prim db v) \<and>
      (act db u \<noteq> {} \<longrightarrow> (\<exists>q \<in> act db u. prim db' u = insert q (prim db u)))"
  proof cases
    case 1
    then show ?thesis by (simp add: active_list_empty)
  next
    case (2 x xs)
    have x: "us_id x \<in> act db u" using 2(1) active_list_ids [of db u] by auto
    have "us_id x \<notin> act db v" if "distinct_ids db" "v \<noteq> u" using that x act_disjoint [of db] by blast
    then show ?thesis using x 2(2) by (auto simp: change_session_sets promote_sets)
  qed
  then show "act db' v = act db v" "ids db' = ids db" "distinct_ids db' = distinct_ids db"
    "distinct_ids db \<Longrightarrow> v \<noteq> u \<Longrightarrow> prim db' v = prim db v"
    "act db u \<noteq> {} \<Longrightarrow> \<exists>q \<in> act db u. prim db' u = insert q (prim db u)"
    "sd_requests db' = sd_requests db" "sd_recoveries db' = sd_recoveries db" by blast+
qed

text \<open>Sessions \<open>js\<close> of account \<open>u\<close> are ended; the next one is promoted when the primary one is among them.\<close>

lemma deactivate_ok:
  assumes ok: "sessions_ok db" and js: "set js \<subseteq> act db u"
    and db1: "sd_sessions db1 = sd_sessions (set_inactive js db)"
    and promoted: "b \<longleftrightarrow> prim db u \<inter> set js \<noteq> {}"
  shows "sessions_ok (if b then snd (promote_next_primary u db1) else db1)"
proof -
  let ?db2 = "if b then snd (promote_next_primary u db1) else db1"
  note s1 = same_sessions [OF db1]
  note ps = promote_next_primary_sets [where u = u and db = db1]
  have d: "distinct_ids db1" using sessions_okD(1) [OF ok] s1 by simp
  have a: "act ?db2 v = act db v - set js" for v using s1 ps(1) by simp
  have small: "card (act ?db2 v) \<le> 3" for v
    using sessions_okD(2) [OF ok, of v] card_mono [of "act db v" "act db v - set js"] by (simp add: a)
  have at_u: "act ?db2 u = {} \<or> (\<exists>q. prim ?db2 u = {q})"
  proof (cases "act db u - set js = {}")
    case False
    then have ne: "act db1 u \<noteq> {}" and one: "\<exists>p. prim db u = {p}" using sessions_okD(3) [OF ok, of u] s1 by auto
    from one promoted s1 ps(5) [OF ne] show ?thesis by (cases b) auto
  qed (simp add: a)
  have at_v: "act ?db2 v = {} \<or> (\<exists>q. prim ?db2 v = {q})" if "v \<noteq> u" for v
    using sessions_okD(3) [OF ok, of v] others_kept [OF sessions_okD(1) [OF ok] js that] s1 ps(4) [OF d that] by (auto simp: a)
  have "distinct_ids ?db2" using d ps(3) by simp
  with small at_u at_v show ?thesis unfolding sessions_ok_def by metis
qed

lemma clear_ok:
  assumes ok: "sessions_ok db" and js: "set js \<subseteq> act db u"
    and db1: "sd_sessions db1 = sd_sessions (set_inactive js db)"
    and "prim db u \<inter> set js = {} \<or> act db u \<subseteq> set js"
  shows "sessions_ok db1"
proof (cases "prim db u \<inter> set js = {}")
  case True
  then show ?thesis using deactivate_ok [OF ok js db1, of False] by simp
next
  case False
  then have "act db u \<subseteq> set js" using assms(4) by blast
  then have "get_active_sessions db1 u = []" using same_sessions [OF db1] by (simp add: active_list_empty)
  then have "snd (promote_next_primary u db1) = db1" by (simp add: promote_next_primary_def)
  then show ?thesis using deactivate_ok [OF ok js db1, of True] False by simp
qed

text \<open>The three branches of a login without a session to revive.\<close>

lemma admit_login_cases:
  assumes "admit_login env i user token dv db = (r, db')"
  obtains (failed) e where "r = Inl e" "db' = db"
  | (created) s js p db2 where "r = Inr (SessionCreated s (int (length js)))"
      "create_session env i (su_id user) token dv p (set_inactive js db) = Inr (s, db2)"
      "db' = publish_session_revocation env js db2"
      "js = map us_id (take (length js) (get_active_sessions db (su_id user)))"
      "p \<longleftrightarrow> (if get_active_sessions db (su_id user) = [] then True
             else if int (length (get_active_sessions db (su_id user))) < session_limit env user then False
             else \<not> list_ex us_is_primary (drop (length js) (get_active_sessions db (su_id user))))"
      "int (length (get_active_sessions db (su_id user)) - length js) < session_limit env user"
      "js = [] \<or> int (length (get_active_sessions db (su_id user)) - length js) + 1 = session_limit env user"
proof -
  let ?A = "get_active_sessions db (su_id user)"
  let ?k = "if ?A = [] \<or> int (length ?A) < session_limit env user then 0
    else nat (int (length ?A) - session_limit env user + 1)"
  let ?js = "map us_id (take ?k ?A)"
  let ?p = "if ?A = [] then True else if int (length ?A) < session_limit env user then False
    else \<not> list_ex us_is_primary (drop ?k ?A)"
  have l: "1 \<le> session_limit env user" by (rule limit_range)
  have k: "?k \<le> length ?A" using l by auto
  then have lk: "length ?js = ?k" by simp
  have e0: "set_inactive [] db = db" by (simp add: set_inactive_def)
  have eq: "admit_login env i user token dv db =
      finish_login env ?js db (create_session env i (su_id user) token dv ?p (set_inactive ?js db))"
    by (simp add: admit_login_def Let_def e0)
  show thesis
  proof (cases "create_session env i (su_id user) token dv ?p (set_inactive ?js db)")
    case (Inl e)
    then have "r = Inl e" "db' = db" using assms by (simp_all add: eq finish_login_def)
    then show thesis by (rule failed)
  next
    case (Inr x)
    obtain s db2 where x: "x = (s, db2)" by (cases x)
    have r: "r = Inr (SessionCreated s (int (length ?js)))" "db' = publish_session_revocation env ?js db2"
      using assms Inr x by (simp_all add: eq finish_login_def)
    show thesis
      by (rule created [OF r(1) Inr [unfolded x] r(2)]) (use l k lk in auto)
  qed
qed

lemma take_ids_act: "set (map us_id (take n (get_active_sessions db u))) \<subseteq> act db u"
  using active_list_ids [of db u] set_take_subset [of n "get_active_sessions db u"] by auto

lemma remaining_card:
  assumes "distinct_ids db" "js = map us_id (take (length js) (get_active_sessions db u))"
  shows "card (act db u - set js) = length (get_active_sessions db u) - length js"
proof -
  have d: "distinct js" using active_list_distinct [OF assms(1), of u] assms(2) by (metis distinct_take take_map)
  have s: "set js \<subseteq> act db u" using take_ids_act assms(2) by metis
  show ?thesis using card_Diff_subset [OF _ s] distinct_card [OF d] by (simp add: active_list_length [OF assms(1)])
qed

lemma remaining_primary:
  assumes "distinct_ids db" "js = map us_id (take (length js) (get_active_sessions db u))"
  shows "list_ex us_is_primary (drop (length js) (get_active_sessions db u)) \<longleftrightarrow> \<not> prim db u \<subseteq> set js"
proof -
  let ?A = "get_active_sessions db u" and ?n = "length js"
  have split: "set ?A = set (take ?n ?A) \<union> set (drop ?n ?A)" by (metis append_take_drop_id set_append)
  have "distinct (map us_id (take ?n ?A) @ map us_id (drop ?n ?A))"
    using active_list_distinct [OF assms(1), of u] by (simp flip: map_append)
  then have dis: "us_id ` set (take ?n ?A) \<inter> us_id ` set (drop ?n ?A) = {}" by auto
  have js: "set js = us_id ` set (take ?n ?A)" using assms(2) by (metis set_map)
  have pr: "prim db u = us_id ` {s \<in> set (take ?n ?A) \<union> set (drop ?n ?A). us_is_primary s}"
    using active_list_primary [of db u] unfolding split ..
  show ?thesis unfolding list_ex_iff js pr using dis by blast
qed

lemma admit_login_ok:
  assumes ok: "sessions_ok db" and l: "admit_login env i user token dv db = (r, db')"
  shows "sessions_ok db'"
  using l
proof (cases rule: admit_login_cases)
  case failed
  then show ?thesis using ok by simp
next
  case (created s js p db2)
  let ?u = "su_id user" and ?A = "get_active_sessions db (su_id user)"
  note d = sessions_okD(1) [OF ok]
  have "set js \<subseteq> act db ?u" using take_ids_act created(4) by metis
  moreover have "card (act db ?u - set js) < 3"
    using remaining_card [OF d created(4)] created(6) limit_range(2) [of env user] by simp
  moreover have "p \<longleftrightarrow> prim db ?u \<subseteq> set js"
  proof -
    have "length js \<le> length ?A" using created(4) by (metis length_map length_take min.cobounded1)
    then have "js = []" if "int (length ?A) < session_limit env user" using that created(7) by (cases js) auto
    moreover have "prim db ?u = {}" if "?A = []" using that prim_act [of db ?u] by (simp add: active_list_empty)
    moreover have "prim db ?u \<noteq> {}" if "?A \<noteq> []" using that sessions_okD(3) [OF ok, of ?u] by (auto simp: active_list_empty)
    ultimately show ?thesis using created(5) remaining_primary [OF d created(4)] by auto
  qed
  ultimately have "sessions_ok db2" using create_ok [OF ok _ created(2)] by simp
  then show ?thesis using created(3) sessions_ok_cong [of db' db2] by simp
qed

lemma revive_kept:
  "us_id (revive_session env t dv s) = us_id s \<and> us_user_id (revive_session env t dv s) = us_user_id s \<and>
   us_is_active (revive_session env t dv s) = us_is_active s \<and> us_is_primary (revive_session env t dv s) = us_is_primary s"
  by (simp add: revive_session_def)

lemma login_ok:
  assumes ok: "sessions_ok db" and l: "handle_login_session env i user token dv susp db = (r, db')"
  shows "sessions_ok db'"
proof -
  have "sessions_ok (change_session j (revive_session env token dv) db)" for j
    using ok revive_kept by (simp add: sessions_ok_def change_session_sets keep_primary_sets)
  then show ?thesis using ok l admit_login_ok [OF ok, of env i user token dv]
    by (auto simp: handle_login_session_def split: if_splits sum.splits option.splits)
qed

text \<open>Ending sessions one by one ends them all.\<close>

lemma deactivate_fields [simp]:
  "sd_sessions (deactivate_session env i db) = sd_sessions (set_inactive [i] db)"
  "sd_requests (deactivate_session env i db) = sd_requests db"
  "sd_recoveries (deactivate_session env i db) = sd_recoveries db"
  "sd_targets (deactivate_session env i db) = sd_targets db"
  by (simp_all add: deactivate_session_def)

lemma set_inactive_cons:
  "sd_sessions db1 = sd_sessions (set_inactive [i] db) \<Longrightarrow>
     sd_sessions (set_inactive js db1) = sd_sessions (set_inactive (i # js) db)"
  by (simp add: set_inactive_def)

lemma deactivate_fold:
  "sd_sessions (fold (\<lambda>s. deactivate_session env (us_id s)) xs db) = sd_sessions (set_inactive (map us_id xs) db) \<and>
   sd_requests (fold (\<lambda>s. deactivate_session env (us_id s)) xs db) = sd_requests db \<and>
   sd_recoveries (fold (\<lambda>s. deactivate_session env (us_id s)) xs db) = sd_recoveries db"
proof (induction xs arbitrary: db)
  case Nil
  then show ?case by (simp add: set_inactive_def)
next
  case (Cons x xs)
  then show ?case using set_inactive_cons [of "deactivate_session env (us_id x) db" "us_id x" db "map us_id xs"] by simp
qed

lemma session_in_prim:
  assumes "distinct_ids db" "s \<in> set (sd_sessions db)" "us_is_active s"
  shows "us_id s \<in> act db (us_user_id s)" "us_id s \<in> prim db (us_user_id s) \<longleftrightarrow> us_is_primary s"
  using assms row_unique [OF assms(1) _ assms(2)] by (auto simp: act_def prim_def)

lemma logout_ok:
  assumes ok: "sessions_ok db" and s: "s \<in> set (sd_sessions db)" "us_is_active s"
  shows "sessions_ok (snd (logout_session env s db))"
proof -
  note d = sessions_okD(1) [OF ok]
  have "sessions_ok (if us_is_primary s then snd (promote_next_primary (us_user_id s) (deactivate_session env (us_id s) db))
      else deactivate_session env (us_id s) db)"
    using session_in_prim [OF d s] by (intro deactivate_ok [OF ok, where js = "[us_id s]"]) auto
  then show ?thesis by (simp add: logout_session_def Let_def split: if_splits)
qed

lemma revocable_act: "set (revocable_sessions db u exclude) = act db u - set_option exclude"
  using active_list_ids [of db u] by (auto simp: revocable_sessions_def)

lemma force_clear_fields:
  "sd_sessions (snd (force_clear_sessions env u exclude db)) = sd_sessions (set_inactive (revocable_sessions db u exclude) db)"
  "sd_requests (snd (force_clear_sessions env u exclude db)) = sd_requests db"
  "sd_recoveries (snd (force_clear_sessions env u exclude db)) = sd_recoveries db"
  by (simp_all add: force_clear_sessions_def deactivate_active_sessions_def Let_def)

lemma force_clear_ok:
  assumes ok: "sessions_ok db" and "exclude = None \<or> exclude = Some c \<and> c \<in> prim db u"
  shows "sessions_ok (snd (force_clear_sessions env u exclude db))"
proof (rule clear_ok [OF ok _ force_clear_fields(1)])
  show "prim db u \<inter> set (revocable_sessions db u exclude) = {} \<or> act db u \<subseteq> set (revocable_sessions db u exclude)"
    using assms sessions_okD(3) [OF ok, of u] by (auto simp: revocable_act)
qed (simp add: revocable_act)

lemma expire_loop_ok:
  "sessions_ok db \<Longrightarrow> distinct js \<Longrightarrow> \<forall>i \<in> set js. \<exists>u. i \<in> act db u \<Longrightarrow>
     sessions_ok (expire_sessions env js db) \<and> sd_requests (expire_sessions env js db) = sd_requests db \<and>
     sd_recoveries (expire_sessions env js db) = sd_recoveries db"
proof (induction js arbitrary: db)
  case Nil
  then show ?case by simp
next
  case (Cons i js)
  obtain s where s: "s \<in> set (sd_sessions db)" "us_id s = i" "us_is_active s" using Cons.prems(3) by (auto simp: act_def)
  note d = sessions_okD(1) [OF Cons.prems(1)]
  let ?db1 = "deactivate_session env i db"
  let ?db2 = "if us_is_primary s then snd (promote_next_primary (us_user_id s) ?db1) else ?db1"
  have f: "find_session db i = Some s" using row_found [OF d s(1)] s(2) by simp
  have ok2: "sessions_ok ?db2" using logout_ok [OF Cons.prems(1) s(1,3), of env] s(2)
    by (simp add: logout_session_def Let_def split: if_splits)
  have "act ?db2 v = act db v - {i}" for v
    using promote_next_primary_sets(1) [of "us_user_id s" ?db1 v] same_sessions [of ?db1 "set_inactive [i] db"] by simp
  then have "\<forall>j \<in> set js. \<exists>u. j \<in> act ?db2 u" using Cons.prems(2,3) by auto
  moreover have "sd_requests ?db2 = sd_requests db" "sd_recoveries ?db2 = sd_recoveries db"
    using promote_next_primary_sets(6,7) [of "us_user_id s" ?db1] by simp_all
  ultimately show ?case using Cons.IH [OF ok2] Cons.prems(2) f by (simp add: Let_def)
qed

lemma expire_stale_ok:
  assumes ok: "sessions_ok db"
  shows "sessions_ok (snd (expire_stale_sessions env db))" "sd_requests (snd (expire_stale_sessions env db)) = sd_requests db"
    "sd_recoveries (snd (expire_stale_sessions env db)) = sd_recoveries db"
proof -
  let ?P = "\<lambda>s. us_is_active s \<and> (case us_expires_at s of None \<Rightarrow> False | Some e \<Rightarrow> e < se_now env - days 5)"
  have "distinct (map us_id (filter ?P (sd_sessions db)))"
    using sessions_okD(1) [OF ok] by (simp add: distinct_ids_def distinct_map_filter)
  moreover have "\<forall>i \<in> set (map us_id (filter ?P (sd_sessions db))). \<exists>u. i \<in> act db u" by (auto simp: act_def)
  ultimately have "sessions_ok (expire_sessions env (map us_id (filter ?P (sd_sessions db))) db) \<and>
      sd_requests (expire_sessions env (map us_id (filter ?P (sd_sessions db))) db) = sd_requests db \<and>
      sd_recoveries (expire_sessions env (map us_id (filter ?P (sd_sessions db))) db) = sd_recoveries db"
    using expire_loop_ok [OF ok] by blast
  then show "sessions_ok (snd (expire_stale_sessions env db))" "sd_requests (snd (expire_stale_sessions env db)) = sd_requests db"
    "sd_recoveries (snd (expire_stale_sessions env db)) = sd_recoveries db"
    by (simp_all add: expire_stale_sessions_def Let_def)
qed

lemma inspect_ok:
  assumes ok: "sessions_ok db"
  shows "sessions_ok (snd (inspect_local_session_authority env u db))"
proof -
  let ?xs = "filter (is_expired env) (get_active_sessions db u)"
  let ?db1 = "fold (\<lambda>s. deactivate_session env (us_id s)) ?xs db"
  have "us_id s \<in> prim db u \<longleftrightarrow> us_is_primary s" if "s \<in> set ?xs" for s
    using that session_in_prim(2) [OF sessions_okD(1) [OF ok], of s] active_list [of db u] by auto
  then have e: "list_ex us_is_primary ?xs \<longleftrightarrow> prim db u \<inter> set (map us_id ?xs) \<noteq> {}" by (auto simp: list_ex_iff)
  have "sessions_ok (if list_ex us_is_primary ?xs then snd (promote_next_primary u ?db1) else ?db1)"
    using active_list_ids [of db u] by (intro deactivate_ok [OF ok _ _ e]) (auto simp only: deactivate_fold, auto)
  then show ?thesis
    by (simp add: inspect_local_session_authority_def deactivate_expired_active_sessions_def Let_def)
qed

text \<open>Eviction for a new session ends the newest sessions that are not primary first.\<close>

lemma session_to_evict_in: "xs \<noteq> [] \<Longrightarrow> session_to_evict xs \<in> set xs"
  by (auto simp: session_to_evict_def Let_def dest!: last_in_set)

lemma evict_effect:
  "evict_sessions env n xs db = (ys, db') \<Longrightarrow> distinct (map us_id xs) \<Longrightarrow>
     \<exists>js. sd_sessions db' = sd_sessions (set_inactive js db) \<and> set js \<subseteq> us_id ` set xs \<and>
       set ys = {s \<in> set xs. us_id s \<notin> set js} \<and> length ys = length xs - n \<and> length js = min n (length xs) \<and> distinct js \<and>
       sd_requests db' = sd_requests db \<and> sd_recoveries db' = sd_recoveries db \<and> sd_targets db' = sd_targets db"
proof (induction n arbitrary: xs db)
  case 0
  then show ?case by (intro exI [of _ "[]"]) (auto simp: set_inactive_def)
next
  case (Suc n)
  show ?case
  proof (cases "xs = []")
    case True
    then show ?thesis using Suc.prems by (intro exI [of _ "[]"]) (auto simp: set_inactive_def)
  next
    case False
    let ?s = "session_to_evict xs"
    have mem: "?s \<in> set xs" using False by (rule session_to_evict_in)
    have d: "distinct (map us_id (remove1 ?s xs))" "distinct xs"
      using Suc.prems(2) by (auto simp: distinct_map intro: inj_on_subset dest: notin_set_remove1)
    have set1: "set (remove1 ?s xs) = {x \<in> set xs. us_id x \<noteq> us_id ?s}"
      using Suc.prems(2) mem d(2) by (auto simp: distinct_map dest: inj_onD)
    obtain js where js: "sd_sessions db' = sd_sessions (set_inactive js (deactivate_session env (us_id ?s) db))"
        "set js \<subseteq> us_id ` set (remove1 ?s xs)" "set ys = {x \<in> set (remove1 ?s xs). us_id x \<notin> set js}"
        "length ys = length (remove1 ?s xs) - n" "length js = min n (length (remove1 ?s xs))" "distinct js"
        "sd_requests db' = sd_requests db" "sd_recoveries db' = sd_recoveries db" "sd_targets db' = sd_targets db"
      using Suc.IH [of "remove1 ?s xs" "deactivate_session env (us_id ?s) db"] Suc.prems(1) False d(1)
      by (auto simp: Let_def)
    have l: "length (remove1 ?s xs) = length xs - 1" using mem by (simp add: length_remove1)
    obtain k where k: "length xs = Suc k" using False by (cases xs) auto
    have "sd_sessions db' = sd_sessions (set_inactive (us_id ?s # js) db)"
      using js(1) set_inactive_cons [of "deactivate_session env (us_id ?s) db" "us_id ?s" db js] by simp
    moreover have "set (us_id ?s # js) \<subseteq> us_id ` set xs" using js(2) set1 mem by auto
    moreover have "set ys = {x \<in> set xs. us_id x \<notin> set (us_id ?s # js)}" unfolding js(3) set1 by auto
    moreover have "length ys = length xs - Suc n" using js(4) l by simp
    moreover have "length (us_id ?s # js) = min (Suc n) (length xs)" using js(5) l k by simp
    moreover have "distinct (us_id ?s # js)" using js(2,6) set1 by auto
    ultimately show ?thesis using js(7-9) by blast
  qed
qed

lemma provision_cases:
  assumes "provision_session_for_login_request env i q token user pl home db = (r, db')" "distinct_ids db"
  obtains (failed) e where "r = Inl e" "sd_sessions db' = sd_sessions db" "sd_requests db' = sd_requests db"
      "sd_recoveries db' = sd_recoveries db" "sd_targets db' = sd_targets db"
  | (created) s js dv p db1 where "r = Inr s" "set js \<subseteq> act db (lr_user_id q)" "sd_sessions db1 = sd_sessions (set_inactive js db)"
      "create_session env i (lr_user_id q) token dv p db1 = Inr (s, db')" "p \<longleftrightarrow> prim db (lr_user_id q) \<subseteq> set js"
      "int (card (act db (lr_user_id q) - set js)) < session_limit env user"
      "sd_requests db' = sd_requests db" "sd_recoveries db' = sd_recoveries db" "sd_targets db' = sd_targets db"
proof -
  let ?u = "lr_user_id q"
  let ?A = "get_active_sessions db ?u"
  let ?n = "nat (max 0 (int (length ?A) - session_limit env user + 1))"
  obtain ys db1 where ev: "evict_sessions env ?n ?A db = (ys, db1)" by (cases "evict_sessions env ?n ?A db")
  obtain js where js: "sd_sessions db1 = sd_sessions (set_inactive js db)" "set js \<subseteq> us_id ` set ?A"
      "set ys = {s \<in> set ?A. us_id s \<notin> set js}" "length js = min ?n (length ?A)" "distinct js"
      "sd_requests db1 = sd_requests db" "sd_recoveries db1 = sd_recoveries db" "sd_targets db1 = sd_targets db"
    using evict_effect [OF ev active_list_distinct [OF assms(2)]] by blast
  have sub: "set js \<subseteq> act db ?u" using js(2) by (simp add: active_list_ids)
  have prim: "\<not> list_ex us_is_primary ys \<longleftrightarrow> prim db ?u \<subseteq> set js"
    unfolding active_list_primary [of db ?u, symmetric] list_ex_iff js(3) by blast
  have "card (act db ?u - set js) = length ?A - min ?n (length ?A)"
    using card_Diff_subset [OF _ sub] distinct_card [OF js(5)] js(4) by (simp add: active_list_length [OF assms(2)])
  then have room: "int (card (act db ?u - set js)) < session_limit env user" using limit_range(1) [of env user] by auto
  let ?dv = "\<lparr>dv_name = lr_device_name q, dv_ip = lr_ip q, dv_platform = pl,
    dv_home_server = (if home = [] then lr_home_server q else home)\<rparr>"
  show thesis
  proof (cases "create_session env i ?u token ?dv (\<not> list_ex us_is_primary ys) db1")
    case (Inl e)
    then have "r = Inl e" "db' = rollback_to db db1"
      using assms(1) ev by (simp_all add: provision_session_for_login_request_def Let_def)
    then show thesis by (intro failed) (simp_all add: rollback_to_def)
  next
    case (Inr x)
    obtain s db2 where x: "x = (s, db2)" by (cases x)
    have r: "r = Inr s" "db' = db2" using assms(1) ev Inr x by (simp_all add: provision_session_for_login_request_def Let_def)
    then have new: "create_session env i ?u token ?dv (\<not> list_ex us_is_primary ys) db1 = Inr (s, db')" using Inr x by simp
    show thesis
      by (rule created [OF r(1) sub js(1) new prim room]) (use create_session_cases [OF new] js(6-8) in simp_all)
  qed
qed

lemma provision_ok:
  assumes ok: "sessions_ok db" and l: "provision_session_for_login_request env i q token user pl home db = (r, db')"
  shows "sessions_ok db' \<and> sd_requests db' = sd_requests db \<and> sd_recoveries db' = sd_recoveries db"
  using l sessions_okD(1) [OF ok]
proof (cases rule: provision_cases)
  case (failed e)
  then show ?thesis using ok sessions_ok_cong by blast
next
  case (created s js dv p db1)
  have "card (act db (lr_user_id q) - set js) < 3" using created(6) limit_range(2) [of env user] by simp
  then show ?thesis using create_ok [OF ok created(2,4,3) _ created(5)] created(7,8) by simp
qed

section \<open>Steps\<close>

text \<open>One request or job on the tables.  \<open>I\<close> holds the identifiers that are drawn; users, clock and Redis may differ
  from step to step.\<close>

inductive session_step :: "uuid set \<Rightarrow> session_db \<Rightarrow> session_db \<Rightarrow> bool"
  for I :: "uuid set" where
  login: "handle_login_session env i user token dv susp db = (r, db') \<Longrightarrow> i \<in> I \<Longrightarrow> session_step I db db'"
| logout: "s \<in> set (sd_sessions db) \<Longrightarrow> us_is_active s \<Longrightarrow> logout_session env s db = (r, db') \<Longrightarrow> session_step I db db'"
| clear: "force_clear_sessions env u None db = (n, db') \<Longrightarrow> session_step I db db'"
| terminate: "check_token_session env db u (Some c) = None \<Longrightarrow> terminate_session env u (Some c) j db = (t, db') \<Longrightarrow>
    session_step I db db'"
| logout_all: "check_token_session env db u (Some c) = None \<Longrightarrow> logout_all_sessions env u (Some c) db = (t, db') \<Longrightarrow>
    session_step I db db'"
| expire: "expire_stale_sessions env db = (n, db') \<Longrightarrow> session_step I db db'"
| inspect: "inspect_local_session_authority env u db = (a, db') \<Longrightarrow> session_step I db db'"
| reset: "reset_user_session_state env u rows db = db' \<Longrightarrow> session_step I db db'"
| approve: "approve_request env i u k token db = (r, db') \<Longrightarrow> i \<in> I \<Longrightarrow> session_step I db db'"
| reject: "reject_request env u k db = (t, db') \<Longrightarrow> session_step I db db'"
| start: "start_single_session_recovery env i delivered k db = (rr, db') \<Longrightarrow> i \<in> I \<Longrightarrow> session_step I db db'"
| cancel: "cancel_single_session_recovery env k db = (rr, db') \<Longrightarrow> session_step I db db'"
| poll: "get_single_session_recovery_status env k db = (b, db') \<Longrightarrow> session_step I db db'"
| ask: "request_single_session_recovery_identity env admin j db = (rr, db') \<Longrightarrow> session_step I db db'"
| submit: "submit_single_session_recovery_identity env stored delivered k db = (rr, db') \<Longrightarrow> session_step I db db'"
| accept: "approve_single_session_recovery env i admin j token db = (rs, db') \<Longrightarrow> i \<in> I \<Longrightarrow> session_step I db db'"
| refuse: "reject_single_session_recovery env admin j db = (rr, db') \<Longrightarrow> session_step I db db'"

lemma request_writes [simp]:
  "sd_sessions (change_request i f db) = sd_sessions db" "sd_sessions (put_recovery r db) = sd_sessions db"
  "sd_sessions (clear_recovery_admin_action_messages i db) = sd_sessions db"
  "sd_sessions (deliver_identity_submission_messages env delivered i db) = sd_sessions db"
  "sd_sessions (rollback_to db db1) = sd_sessions db"
  by (simp_all add: change_request_def put_recovery_def clear_recovery_admin_action_messages_def
      deliver_identity_submission_messages_def rollback_to_def)

lemma settle_sessions [simp]:
  "sd_sessions (settle_recovery r db) = sd_sessions db" "sd_sessions (close_login_request st r db) = sd_sessions db"
  by (simp_all add: settle_recovery_def close_login_request_def split: option.splits)

lemma expire_recovery_sessions:
  "expire_recovery_if_needed env r db = (b, db') \<Longrightarrow> sd_sessions db' = sd_sessions db"
  by (auto simp: expire_recovery_if_needed_def split: if_splits sum.splits)

lemma admin_access_sessions:
  "ensure_recovery_admin_access env admin j db = (x, db') \<Longrightarrow> sd_sessions db' = sd_sessions db"
  by (auto simp: ensure_recovery_admin_access_def dest: expire_recovery_sessions
      split: if_splits option.splits prod.splits bool.splits)

text \<open>Operations on requests and recoveries that create no session leave the sessions alone.\<close>

lemma start_sessions: "start_single_session_recovery env i delivered k db = (r, db') \<Longrightarrow> sd_sessions db' = sd_sessions db"
  by (auto simp: start_single_session_recovery_def create_recovery_request_def deliver_initial_recovery_messages_def Let_def
      split: if_splits sum.splits option.splits prod.splits)

lemma recovery_sessions:
  "cancel_single_session_recovery env k db = (r, db') \<Longrightarrow> sd_sessions db' = sd_sessions db"
  "get_single_session_recovery_status env k db = (b, db') \<Longrightarrow> sd_sessions db' = sd_sessions db"
  "reject_request env u k db = (t, db') \<Longrightarrow> sd_sessions db' = sd_sessions db"
  by (auto simp: cancel_single_session_recovery_def get_single_session_recovery_status_def reject_request_def
      reject_login_request_def dest: expire_recovery_sessions split: if_splits sum.splits option.splits)

lemma admin_sessions:
  "request_single_session_recovery_identity env admin j db = (r, db') \<Longrightarrow> sd_sessions db' = sd_sessions db"
  "reject_single_session_recovery env admin j db = (r, db') \<Longrightarrow> sd_sessions db' = sd_sessions db"
  by (cases "ensure_recovery_admin_access env admin j db";
      auto simp: request_single_session_recovery_identity_def reject_single_session_recovery_def
        dest!: admin_access_sessions split: if_splits sum.splits)+

lemma submit_sessions:
  "submit_single_session_recovery_identity env stored delivered k db = (r, db') \<Longrightarrow> sd_sessions db' = sd_sessions db"
  by (auto simp: submit_single_session_recovery_identity_def dest!: expire_recovery_sessions
      split: if_splits sum.splits option.splits prod.splits bool.splits)

lemma approve_login_ok:
  assumes ok: "sessions_ok db" and a: "approve_login_request env i k approver token pl home db = (r, db')"
  shows "sessions_ok db'"
proof -
  have "sessions_ok (change_request k f db)" for f using ok sessions_ok_cong [of "change_request k f db" db] by simp
  note prov = provision_ok [OF this, THEN conjunct1]
  have "sessions_ok (rollback_to db db1)" for db1 using ok sessions_ok_cong [of "rollback_to db db1" db] by simp
  then show ?thesis using a ok prov
    by (auto simp: approve_login_request_def sessions_ok_cong [of "change_request k (lr_status_update (\<lambda>_. LR_EXPIRED)) db" db]
        split: if_splits option.splits prod.splits sum.splits)
qed

lemma accept_ok:
  assumes ok: "sessions_ok db" and a: "approve_single_session_recovery env i admin j token db = (r, db')"
  shows "sessions_ok db'"
proof -
  obtain x db1 where x: "ensure_recovery_admin_access env admin j db = (x, db1)" by fastforce
  have s1: "sd_sessions db1 = sd_sessions db" using x by (rule admin_access_sessions)
  have same: "sessions_ok db2" if "sd_sessions db2 = sd_sessions db1" for db2
    using ok s1 that sessions_ok_cong [of db2 db] by simp
  have "sessions_ok (settle_recovery r' (change_request k f db1))" for r' k f by (rule same) simp
  note prov = provision_ok [OF this, THEN conjunct1]
  have "sessions_ok (rollback_to db1 db2)" for db2 by (rule same) simp
  then show ?thesis using a ok prov same [OF refl] x
    by (auto simp: approve_single_session_recovery_def split: if_splits option.splits prod.splits sum.splits)
qed

lemma authenticated_session:
  assumes "check_token_session env db u (Some c) = None"
  obtains s where "find_session db c = Some s" "us_is_active s" "us_user_id s = u"
  using assms by (auto simp: check_token_session_def split: if_splits option.splits)

lemma logout_all_ok:
  assumes ok: "sessions_ok db" and c: "check_token_session env db u (Some c) = None"
    and l: "logout_all_sessions env u (Some c) db = (t, db')"
  shows "sessions_ok db'"
proof -
  obtain s where s: "find_session db c = Some s" "us_is_active s" "us_user_id s = u" using c by (rule authenticated_session)
  have "c \<in> prim db u" if "us_is_primary s" using that s find_session_row [OF s(1)] by (auto simp: prim_def)
  then show ?thesis using l ok s(1) force_clear_ok [OF ok, of "Some c" c u env]
    by (cases "force_clear_sessions env u (Some c) db") (auto simp: logout_all_sessions_def split: if_splits)
qed

lemma terminate_ok:
  assumes ok: "sessions_ok db" and t: "terminate_session env u c j db = (t, db')"
  shows "sessions_ok db'"
  using t ok logout_ok [OF ok] find_session_row [of db j]
  by (auto simp: terminate_session_def Let_def split: if_splits option.splits)

lemma reset_ok:
  assumes ok: "sessions_ok db"
  shows "sessions_ok (reset_user_session_state env u rows db)"
proof -
  let ?db1 = "snd (force_clear_sessions env u None db)" and ?db2 = "reset_user_session_state env u rows db"
  have ok1: "sessions_ok ?db1" using force_clear_ok [OF ok] by blast
  have none: "act ?db1 u = {}" using same_sessions [OF force_clear_fields(1) [of env u None db]] by (simp add: revocable_act)
  have sub: "sd_sessions ?db2 = filter (\<lambda>s. us_user_id s \<noteq> u \<or> \<not> rows) (sd_sessions ?db1)"
    by (simp add: reset_user_session_state_def Let_def)
  have a: "act ?db2 v = act ?db1 v" "prim ?db2 v = prim ?db1 v" for v
    using none sub by (auto simp: act_def prim_def)
  have "distinct_ids ?db2" using sessions_okD(1) [OF ok1] sub by (simp add: distinct_ids_def distinct_map_filter)
  then show ?thesis using ok1 by (simp add: sessions_ok_def a)
qed

lemma session_step_ok:
  assumes "session_step I db db'" "sessions_ok db"
  shows "sessions_ok db'"
  using assms
proof (induction rule: session_step.induct)
  case (logout s db env r db')
  then show ?case using logout_ok [of db s env] by simp
next
  case (clear env u db n db')
  then show ?case using force_clear_ok [of db None _ u env] by simp
next
  case (expire env db n db')
  then show ?case using expire_stale_ok(1) [of db env] by simp
next
  case (inspect env u db a db')
  then show ?case using inspect_ok [of db env u] by simp
next
  case (approve env i u k token db r db')
  then show ?case using approve_login_ok
    by (auto simp: approve_request_def split: if_splits sum.splits option.splits)
next
  case (reset env u rows db db')
  then show ?case using reset_ok [of db env u rows] by simp
qed (blast intro: login_ok terminate_ok logout_all_ok accept_ok same_ok start_sessions recovery_sessions admin_sessions
      submit_sessions)+

section \<open>No step revives an ended session\<close>

lemma act_same: "sd_sessions db' = sd_sessions db \<Longrightarrow> act db' u \<subseteq> act db u"
  using same_sessions [of db' db] by simp

lemma deactivate_act: "act (deactivate_session env i db) v = act db v - {i}"
  using same_sessions [of "deactivate_session env i db" "set_inactive [i] db"] by simp

lemma logout_act: "act (snd (logout_session env s db)) v \<subseteq> act db v"
  by (auto simp: logout_session_def Let_def promote_next_primary_sets(1) deactivate_act)

lemma force_clear_act: "act (snd (force_clear_sessions env u ex db)) v = act db v - (act db u - set_option ex)"
  using same_sessions [OF force_clear_fields(1) [of env u ex db]] by (simp add: revocable_act)

lemma expire_loop_act: "act (expire_sessions env js db) v \<subseteq> act db v"
proof (induction js arbitrary: db)
  case (Cons i js)
  show ?case
  proof (cases "find_session db i")
    case (Some s)
    let ?db1 = "deactivate_session env i db"
    have "act (if us_is_primary s then snd (promote_next_primary (us_user_id s) ?db1) else ?db1) v \<subseteq> act db v"
      by (auto simp: promote_next_primary_sets(1) deactivate_act)
    then show ?thesis using Cons.IH Some by (force simp: Let_def)
  qed (use Cons.IH in simp)
qed simp

lemma inspect_act: "act (snd (inspect_local_session_authority env u db)) v \<subseteq> act db v"
proof -
  let ?xs = "filter (is_expired env) (get_active_sessions db u)"
  let ?db1 = "fold (\<lambda>s. deactivate_session env (us_id s)) ?xs db"
  have "act ?db1 = act (set_inactive (map us_id ?xs) db)" using same_sessions deactivate_fold by blast
  then have "act ?db1 v \<subseteq> act db v" by simp
  then show ?thesis
    by (simp add: inspect_local_session_authority_def deactivate_expired_active_sessions_def Let_def promote_next_primary_sets(1))
qed

lemma create_act: "create_session env i u token dv p db = Inr (s, db') \<Longrightarrow> act db' v \<subseteq> insert i (act db v)"
  using create_session_sets(1) by auto

lemma login_act:
  assumes "handle_login_session env i user token dv susp db = (r, db')"
  shows "act db' v \<subseteq> insert i (act db v)"
proof -
  have "act db1 v \<subseteq> insert i (act db v)" if "admit_login env i user token dv db = (r1, db1)" for r1 db1
    using that
  proof (cases rule: admit_login_cases)
    case (created s js p db2)
    have "act db1 v = act db2 v" using created(3) same_sessions [of db1 db2] by simp
    then show ?thesis using create_act [OF created(2), of v] by auto
  qed auto
  moreover have "act (change_session j (revive_session env token dv) db) v = act db v" for j
    using revive_kept by (simp add: change_session_sets)
  ultimately show ?thesis using assms
    by (auto simp: handle_login_session_def split: if_splits sum.splits option.splits)
qed

lemma provision_act:
  assumes "provision_session_for_login_request env i q token user pl home db = (r, db')" "distinct_ids db"
  shows "act db' v \<subseteq> insert i (act db v)"
  using assms
proof (cases rule: provision_cases)
  case (failed e)
  then show ?thesis using act_same by blast
next
  case (created s js dv p db1)
  then show ?thesis using create_act [OF created(4), of v] same_sessions [OF created(3)] by auto
qed

lemma approve_login_act:
  assumes "approve_login_request env i k approver token pl home db = (r, db')" "distinct_ids db"
  shows "act db' v \<subseteq> insert i (act db v)"
proof -
  have c: "act (change_request k f db) = act db \<and> distinct_ids (change_request k f db)" for f
    using same_sessions [of "change_request k f db" db] assms(2) by simp
  have r: "act (rollback_to db db1) = act db" for db1 using same_sessions [of "rollback_to db db1" db] by simp
  show ?thesis using assms(1) provision_act [where v = v and db = "change_request k _ db"] c r
    by (fastforce simp: approve_login_request_def split: if_splits option.splits prod.splits sum.splits)
qed

lemma accept_act:
  assumes "approve_single_session_recovery env i admin j token db = (r, db')" "distinct_ids db"
  shows "act db' v \<subseteq> insert i (act db v)"
proof -
  obtain x db1 where x: "ensure_recovery_admin_access env admin j db = (x, db1)" by fastforce
  have s1: "act db1 = act db" "distinct_ids db1" using same_sessions [OF admin_access_sessions [OF x]] assms(2) by auto
  have c: "act (settle_recovery r' (change_request k f db1)) = act db \<and> distinct_ids (settle_recovery r' (change_request k f db1))"
    for r' k f using same_sessions [of "settle_recovery r' (change_request k f db1)" db1] s1 by simp
  have r: "act (rollback_to db1 db2) = act db" for db2 using same_sessions [of "rollback_to db1 db2" db1] s1 by simp
  show ?thesis using assms(1) x provision_act [where v = v and db = "settle_recovery _ (change_request _ _ db1)"] c r s1
    by (fastforce simp: approve_single_session_recovery_def split: if_splits option.splits prod.splits sum.splits)
qed

lemma step_act:
  assumes "session_step I db db'" "distinct_ids db"
  shows "act db' v \<subseteq> act db v \<union> I"
  using assms
proof (induction rule: session_step.induct)
  case (login env i user token dv susp db r db')
  then show ?case using login_act by blast
next
  case (logout s db env r db')
  then show ?case using logout_act [of env s db v] by simp blast
next
  case (clear env u db n db')
  then show ?case using force_clear_act [of env u None db v] by auto
next
  case (terminate env db u c j t db')
  then show ?case using logout_act [of env _ db v]
    by (auto simp: terminate_session_def Let_def split: if_splits option.splits)
next
  case (logout_all env db u c t db')
  then show ?case using force_clear_act [of env u "Some c" db v]
    by (cases "force_clear_sessions env u (Some c) db") (auto simp: logout_all_sessions_def split: if_splits option.splits)
next
  case (expire env db n db')
  then show ?case by (auto simp: expire_stale_sessions_def Let_def dest: expire_loop_act [THEN subsetD])
next
  case (inspect env u db a db')
  then show ?case using inspect_act [of env u db v] by auto
next
  case (reset env u rows db db')
  have "act (reset_user_session_state env u rows db) v \<subseteq> act (snd (force_clear_sessions env u None db)) v"
    by (auto simp: reset_user_session_state_def Let_def act_def)
  then show ?case using reset force_clear_act [of env u None db v] by auto
next
  case (approve env i u k token db r db')
  then show ?case using approve_login_act [of env i k _ token WEB _ db _ db' v]
    by (fastforce simp: approve_request_def split: if_splits sum.splits option.splits)
next
  case (accept env i admin j token db rs db')
  then show ?case using accept_act by blast
qed (rule subset_trans [OF act_same Un_upper1], erule start_sessions recovery_sessions admin_sessions submit_sessions)+

section \<open>Properties of the sessions\<close>

definition fresh_tables :: "session_db \<Rightarrow> bool" where
  "fresh_tables db \<longleftrightarrow>
     sd_sessions db = [] \<and> sd_recoveries db = [] \<and> sd_targets db = [] \<and> sd_blacklist db = [] \<and>
     distinct (map lr_id (sd_requests db))"

interpretation sessions: invariant_system fresh_tables "session_step I" sessions_ok for I
  by unfold_locales (simp add: fresh_tables_def sessions_ok_def distinct_ids_def act_def, rule session_step_ok)

lemma primary_list:
  assumes "distinct_ids db" "prim db u = {p}"
  shows "length (filter us_is_primary (get_active_sessions db u)) = 1"
proof -
  have d: "distinct (map us_id (filter us_is_primary (get_active_sessions db u)))"
    using active_list_distinct [OF assms(1), of u] by (simp add: distinct_map_filter)
  have "set (map us_id (filter us_is_primary (get_active_sessions db u))) = {p}"
    using active_list_primary [of db u] assms(2) by auto
  then show ?thesis using distinct_card [OF d] by simp
qed

text \<open>C33: In every history an account has at most three active sessions, identifiers are unique, and an account with
  active sessions has exactly one primary session.\<close>

theorem one_primary_session:
  assumes "reachable fresh_tables (session_step I) db"
  shows "distinct (map us_id (sd_sessions db)) \<and> length (get_active_sessions db u) \<le> 3 \<and>
    (get_active_sessions db u = [] \<or> length (filter us_is_primary (get_active_sessions db u)) = 1)"
proof -
  note ok = sessions.reachable_invar [OF assms]
  note d = sessions_okD(1) [OF ok]
  show ?thesis using sessions_okD(2,3) [OF ok, of u] active_list_length [OF d, of u] primary_list [OF d, of u] d
    by (auto simp: active_list_empty distinct_ids_def)
qed

lemma blacklisted_all:
  "se_redis env \<Longrightarrow> i \<in> set js \<Longrightarrow> is_session_blacklisted env (publish_session_revocation env js db) i"
proof (induction js arbitrary: db)
  case (Cons j js)
  have kept: "is_session_blacklisted env (publish_session_revocation env js db') i"
    if "is_session_blacklisted env db' i" for db'
    using that
  proof (induction js arbitrary: db')
    case (Cons k js)
    have "is_session_blacklisted env (blacklist_session env k db') i" using Cons.prems
      by (auto simp: is_session_blacklisted_def blacklist_session_def dict_get_put SESSION_BLACKLIST_TTL_def)
    then show ?case using Cons.IH by (simp add: publish_session_revocation_def)
  qed (simp add: publish_session_revocation_def)
  have "is_session_blacklisted env (blacklist_session env i db) i" using Cons.prems(1)
    by (simp add: is_session_blacklisted_def blacklist_session_def dict_get_put SESSION_BLACKLIST_TTL_def)
  then show ?case using Cons kept by (auto simp: publish_session_revocation_def)
qed simp

text \<open>A login that succeeds leaves the account with the returned session, which carries the new token, and touches no
  other account.  Either it continues a session of the account, or it opens a new one: then the account is
  within its limit, exactly the oldest sessions were ended for it, and their access tokens are refused at once
  when Redis answers.\<close>

theorem login_replaces_oldest:
  assumes "reachable fresh_tables (session_step I) db"
    and "handle_login_session env i user token dv susp db = (Inr (SessionCreated s n), db')"
  shows "s \<in> set (sd_sessions db') \<and> us_is_active s \<and> us_user_id s = su_id user \<and>
    us_refresh_token_hash s = Some (se_hash env token) \<and>
    (\<forall>v. v \<noteq> su_id user \<longrightarrow> act db' v = act db v) \<and>
    (us_id s \<in> act db (su_id user) \<and> n = 0 \<and> act db' (su_id user) = act db (su_id user) \<or>
     us_id s \<notin> ids db \<and> int (length (get_active_sessions db' (su_id user))) \<le> session_limit env user \<and>
       act db' (su_id user) = insert (us_id s)
         (act db (su_id user) - set (map us_id (take (nat n) (get_active_sessions db (su_id user))))) \<and>
       (se_redis env \<longrightarrow> (\<forall>x \<in> set (take (nat n) (get_active_sessions db (su_id user))).
          is_session_blacklisted env db' (us_id x))))"
proof -
  let ?u = "su_id user"
  note ok = sessions.reachable_invar [OF assms(1)]
  note d = sessions_okD(1) [OF ok]
  consider (revived) t where "suspended_sessions env db ?u susp = [t]" "s = revive_session env token dv t" "n = 0"
      "db' = change_session (us_id t) (revive_session env token dv) db"
    | (admitted) "admit_login env i user token dv db = (Inr (SessionCreated s n), db')"
    using assms(2) by (auto simp: handle_login_session_def scalar_one_or_none_Some split: if_splits sum.splits option.splits)
  then show ?thesis
  proof cases
    case (revived t)
    have "t \<in> set (suspended_sessions env db ?u susp)" using revived(1) by simp
    then have t: "t \<in> set (sd_sessions db)" "us_user_id t = ?u" "us_is_active t"
      by (auto simp: suspended_sessions_def split: option.splits if_splits)
    have "s \<in> set (sd_sessions db')" using t(1) revived(2,4) by (force simp: change_session_def)
    moreover have "us_id s \<in> act db ?u" using t revived(2) revive_kept [of env token dv t] by (auto simp: act_def)
    moreover have "act db' v = act db v" for v using revived(4) revive_kept by (simp add: change_session_sets)
    ultimately show ?thesis using t revived(2,3) revive_kept [of env token dv t] by (simp add: revive_session_def)
  next
    case admitted
    then show ?thesis
    proof (cases rule: admit_login_cases)
      case (created s' js p db2)
      have s': "s' = s" "n = int (length js)" using created(1) by simp_all
      note new = created(2) [unfolded s'(1)]
      note row = create_session_cases [OF new] and sets = create_session_sets [OF new]
      have db': "act db' = act db2" "distinct_ids db'" "sd_sessions db' = sd_sessions db2"
        using created(3) same_sessions [of db' db2] d sets(4) by simp_all
      have js: "set js \<subseteq> act db ?u" using take_ids_act created(4) by metis
      have u: "act db' ?u = insert (us_id s) (act db ?u - set js)" using sets(1) row db'(1) by simp
      have "us_id s \<notin> ids db" using row by simp
      then have "us_id s \<notin> act db ?u - set js" using act_ids [of db ?u] by blast
      then have "int (length (get_active_sessions db' ?u)) \<le> session_limit env user"
        using remaining_card [OF d created(4)] created(6) by (simp add: active_list_length [OF db'(2)] u)
      moreover have "act db' v = act db v" if "v \<noteq> ?u" for v
        using that sets(1) others_kept [OF d js that] db'(1) by simp
      moreover have "map us_id (take (nat n) (get_active_sessions db ?u)) = js" using created(4) s'(2) by simp
      moreover from this have "is_session_blacklisted env db' (us_id x)"
        if "se_redis env" "x \<in> set (take (nat n) (get_active_sessions db ?u))" for x
        using that blacklisted_all [of env "us_id x" js db2] created(3) by (metis image_eqI set_map)
      ultimately show ?thesis using row u db'(3) \<open>us_id s \<notin> ids db\<close> by auto
    qed simp
  qed
qed

lemma history_act:
  assumes "(session_step I)\<^sup>*\<^sup>* db db'" "sessions_ok db"
  shows "sessions_ok db' \<and> act db' v \<subseteq> act db v \<union> I"
  using assms
proof (induction rule: rtranclp_induct)
  case (step y z)
  then show ?case using session_step_ok [OF step.hyps(2)] step_act [OF step.hyps(2), of v] sessions_okD(1) by blast
qed simp


section \<open>Concrete histories\<close>

definition sample_account :: session_user where
  "sample_account = \<lparr>su_id = 7, su_role = STANDARD, su_max_sessions = 1, su_inactive = False, su_is_deleted = False\<rparr>"

definition sample_session_env :: session_env where
  "sample_session_env = \<lparr>se_users = [sample_account], se_accountant = (\<lambda>u. False), se_now = 1000, se_redis = True, se_hash = id\<rparr>"

definition sample_device :: device where
  "sample_device = \<lparr>dv_name = ''phone'', dv_ip = None, dv_platform = WEB, dv_home_server = ''foreign''\<rparr>"

definition sample_login_request :: login_request where
  "sample_login_request = \<lparr>lr_id = 90, lr_user_id = 7, lr_device_name = ''tablet'', lr_ip = None, lr_home_server = ''foreign'',
     lr_status = LR_PENDING, lr_created_at = 0, lr_expires_at = 5000, lr_resolved_by = None\<rparr>"

definition sample_session_tables :: session_db where
  "sample_session_tables = \<lparr>sd_sessions = [], sd_requests = [sample_login_request], sd_recoveries = [], sd_targets = [], sd_blacklist = []\<rparr>"

definition sample_logged_in :: session_db where
  "sample_logged_in = snd (handle_login_session sample_session_env 1 sample_account ''t1'' sample_device None sample_session_tables)"

lemma sample_login_reachable: "reachable fresh_tables (session_step {1, 2, 3}) sample_logged_in"
proof -
  have "reachable fresh_tables (session_step {1, 2, 3}) sample_session_tables"
    by (rule reachable_init) (simp add: fresh_tables_def sample_session_tables_def)
  moreover have "session_step {1, 2, 3} sample_session_tables sample_logged_in"
    unfolding sample_logged_in_def by (rule session_step.login [OF surjective_pairing]) simp
  ultimately show ?thesis by (rule reachable_step)
qed

theorem one_primary_session_witness:
  "get_active_sessions sample_logged_in 7 \<noteq> [] \<and> length (filter us_is_primary (get_active_sessions sample_logged_in 7)) = 1"
proof -
  have "get_active_sessions sample_logged_in 7 \<noteq> []" by code_simp
  then show ?thesis using one_primary_session [OF sample_login_reachable, of 7] by blast
qed

theorem login_replaces_oldest_witness:
  "\<exists>s n db'. handle_login_session sample_session_env 2 sample_account ''t2'' sample_device None sample_logged_in =
       (Inr (SessionCreated s n), db') \<and> s \<in> set (sd_sessions db') \<and> us_user_id s = 7"
proof -
  let ?r = "handle_login_session sample_session_env 2 sample_account ''t2'' sample_device None sample_logged_in"
  have "case fst ?r of Inr (SessionCreated s n) \<Rightarrow> True | _ \<Rightarrow> False" by code_simp
  then obtain s n where "fst ?r = Inr (SessionCreated s n)" by (auto split: sum.splits login_action.splits)
  then have l: "?r = (Inr (SessionCreated s n), snd ?r)" by (metis prod.collapse)
  have "su_id sample_account = 7" by (simp add: sample_account_def)
  with login_replaces_oldest [OF sample_login_reachable l] l show ?thesis by metis
qed

definition sample_replaced :: session_db where
  "sample_replaced = snd (handle_login_session sample_session_env 2 sample_account ''t2'' sample_device None sample_logged_in)"

lemma sample_replaced_reachable: "reachable fresh_tables (session_step {1, 2, 3}) sample_replaced"
  unfolding sample_replaced_def
  by (rule reachable_step [OF sample_login_reachable], rule session_step.login [OF surjective_pairing]) simp


end
