(* ===== verification/LoginRequests.thy ===== *)
theory LoginRequests
  imports SessionSafety
begin

text \<open>
  Properties of login requests and of the recovery of single-session accounts: the changes that the operations of
  \<open>Sessions\<close> make to the two tables as a step relation of their own, its invariant, and the finality of decisions.
\<close>

section \<open>Login requests and recoveries\<close>

definition active_recovery :: "recovery_request \<Rightarrow> bool" where
  "active_recovery r \<longleftrightarrow> is_active_recovery_status (rr_status r)"

definition request_moves :: "login_request_status \<Rightarrow> login_request_status \<Rightarrow> bool" where
  "request_moves a b \<longleftrightarrow> a = b \<or> a = LR_PENDING \<or> a = LR_EXPIRED \<and> b = LR_APPROVED"

text \<open>An unfinished recovery is the only one of its login request, which is still undecided.\<close>

definition requests_ok :: "session_db \<Rightarrow> bool" where
  "requests_ok db \<longleftrightarrow>
     distinct (map lr_id (sd_requests db)) \<and> distinct (map rr_id (sd_recoveries db)) \<and>
     (\<forall>r \<in> set (sd_recoveries db). \<forall>q \<in> set (sd_requests db).
        active_recovery r \<and> rr_login_request_id r = Some (lr_id q) \<longrightarrow> lr_status q \<in> {LR_PENDING, LR_EXPIRED}) \<and>
     (\<forall>r \<in> set (sd_recoveries db). \<forall>r' \<in> set (sd_recoveries db).
        active_recovery r \<and> active_recovery r' \<and> rr_login_request_id r = rr_login_request_id r' \<and>
        rr_login_request_id r \<noteq> None \<longrightarrow> r = r')"

text \<open>The changes the operations make to the two tables.\<close>

inductive request_step :: "uuid set \<Rightarrow> session_db \<Rightarrow> session_db \<Rightarrow> bool"
  for I :: "uuid set" where
  keep: "sd_requests db' = sd_requests db \<Longrightarrow> sd_recoveries db' = sd_recoveries db \<Longrightarrow> request_step I db db'"
| decide: "sd_requests db' = map (\<lambda>q. if lr_id q = i then f q else q) (sd_requests db) \<Longrightarrow>
    sd_recoveries db' = sd_recoveries db \<Longrightarrow>
    (\<And>q. lr_id (f q) = lr_id q \<and> lr_user_id (f q) = lr_user_id q) \<Longrightarrow>
    (\<And>q. q \<in> set (sd_requests db) \<Longrightarrow> lr_id q = i \<Longrightarrow> lr_status q = LR_PENDING) \<Longrightarrow>
    (\<forall>r \<in> set (sd_recoveries db). active_recovery r \<longrightarrow> rr_login_request_id r \<noteq> Some i) \<or> (\<forall>q. lr_status (f q) = LR_EXPIRED) \<Longrightarrow>
    request_step I db db'"
| begin_recovery: "sd_requests db' = sd_requests db \<Longrightarrow> sd_recoveries db' = sd_recoveries db @ [r] \<Longrightarrow>
    rr_id r \<in> I \<Longrightarrow> rr_id r \<notin> rr_id ` set (sd_recoveries db) \<Longrightarrow> rr_status r = PENDING_ADMIN_REVIEW \<Longrightarrow>
    rr_login_request_id r = Some (lr_id q) \<Longrightarrow> q \<in> set (sd_requests db) \<Longrightarrow> lr_status q = LR_PENDING \<Longrightarrow>
    (\<forall>x \<in> set (sd_recoveries db). active_recovery x \<longrightarrow> rr_login_request_id x \<noteq> Some (lr_id q)) \<Longrightarrow> request_step I db db'"
| move: "sd_requests db' = map (\<lambda>q. if rr_login_request_id r = Some (lr_id q) then f q else q) (sd_requests db) \<Longrightarrow>
    sd_recoveries db' = map (\<lambda>x. if rr_id x = rr_id r then r' else x) (sd_recoveries db) \<Longrightarrow>
    r \<in> set (sd_recoveries db) \<Longrightarrow> active_recovery r \<Longrightarrow> rr_id r' = rr_id r \<Longrightarrow>
    rr_login_request_id r' = rr_login_request_id r \<Longrightarrow>
    (\<And>q. lr_id (f q) = lr_id q \<and> lr_user_id (f q) = lr_user_id q) \<Longrightarrow>
    (\<And>q. lr_status q \<in> {LR_PENDING, LR_EXPIRED} \<Longrightarrow> request_moves (lr_status q) (lr_status (f q))) \<Longrightarrow>
    \<not> active_recovery r' \<or> (\<forall>q. f q = q) \<Longrightarrow> request_step I db db'"
| purge: "sd_requests db' = filter P (sd_requests db) \<Longrightarrow> sd_recoveries db' = map g (filter R (sd_recoveries db)) \<Longrightarrow>
    (\<And>r. rr_id (g r) = rr_id r \<and> rr_status (g r) = rr_status r \<and>
       (rr_login_request_id (g r) = None \<or> g r = r)) \<Longrightarrow> request_step I db db'"

lemma requests_okD:
  assumes "requests_ok db"
  shows "distinct (map lr_id (sd_requests db))" "distinct (map rr_id (sd_recoveries db))"
    "r \<in> set (sd_recoveries db) \<Longrightarrow> q \<in> set (sd_requests db) \<Longrightarrow> active_recovery r \<Longrightarrow>
       rr_login_request_id r = Some (lr_id q) \<Longrightarrow> lr_status q \<in> {LR_PENDING, LR_EXPIRED}"
    "r \<in> set (sd_recoveries db) \<Longrightarrow> r' \<in> set (sd_recoveries db) \<Longrightarrow> active_recovery r \<Longrightarrow> active_recovery r' \<Longrightarrow>
       rr_login_request_id r = Some i \<Longrightarrow> rr_login_request_id r' = Some i \<Longrightarrow> r = r'"
  using assms by (auto simp: requests_ok_def)

lemma requests_okI:
  assumes "distinct (map lr_id (sd_requests db))" "distinct (map rr_id (sd_recoveries db))"
    "\<And>r q. r \<in> set (sd_recoveries db) \<Longrightarrow> q \<in> set (sd_requests db) \<Longrightarrow> active_recovery r \<Longrightarrow>
       rr_login_request_id r = Some (lr_id q) \<Longrightarrow> lr_status q \<in> {LR_PENDING, LR_EXPIRED}"
    "\<And>r r' i. r \<in> set (sd_recoveries db) \<Longrightarrow> r' \<in> set (sd_recoveries db) \<Longrightarrow> active_recovery r \<Longrightarrow> active_recovery r' \<Longrightarrow>
       rr_login_request_id r = Some i \<Longrightarrow> rr_login_request_id r' = Some i \<Longrightarrow> r = r'"
  shows "requests_ok db"
  unfolding requests_ok_def
proof (intro conjI ballI impI)
  fix r r' assume a: "r \<in> set (sd_recoveries db)" "r' \<in> set (sd_recoveries db)"
    "active_recovery r \<and> active_recovery r' \<and> rr_login_request_id r = rr_login_request_id r' \<and> rr_login_request_id r \<noteq> None"
  then obtain i where "rr_login_request_id r = Some i" "rr_login_request_id r' = Some i" by (metis not_None_eq)
  then show "r = r'" using a assms(4) by blast
qed (use assms in blast)+

lemma recovery_unique:
  "distinct (map rr_id rs) \<Longrightarrow> r \<in> set rs \<Longrightarrow> r' \<in> set rs \<Longrightarrow> rr_id r = rr_id r' \<Longrightarrow> r = r'"
  by (auto simp: distinct_map dest: inj_onD)

lemma request_unique:
  "distinct (map lr_id qs) \<Longrightarrow> q \<in> set qs \<Longrightarrow> q' \<in> set qs \<Longrightarrow> lr_id q = lr_id q' \<Longrightarrow> q = q'"
  by (auto simp: distinct_map dest: inj_onD)

lemma requests_ok_step:
  assumes "request_step I db db'" "requests_ok db"
  shows "requests_ok db'"
  using assms(1)
proof cases
  case keep
  then show ?thesis using assms(2) unfolding requests_ok_def by metis
next
  case (decide i f)
  note ok = requests_okD [OF assms(2)]
  have m: "map lr_id (sd_requests db') = map lr_id (sd_requests db)" using decide(1,3) by simp
  show ?thesis
  proof (rule requests_okI)
    fix r q assume a: "r \<in> set (sd_recoveries db')" "q \<in> set (sd_requests db')" "active_recovery r"
      "rr_login_request_id r = Some (lr_id q)"
    then obtain p where p: "p \<in> set (sd_requests db)" "q = (if lr_id p = i then f p else p)" using decide(1) by auto
    then have "lr_id q = lr_id p" using decide(3) by simp
    then show "lr_status q \<in> {LR_PENDING, LR_EXPIRED}" using a p decide(2,5) ok(3) [of r p] by (auto split: if_splits)
  qed (use ok m decide(2) in auto)
next
  case (begin_recovery r q)
  note ok = requests_okD [OF assms(2)]
  show ?thesis
  proof (rule requests_okI)
    fix x p assume a: "x \<in> set (sd_recoveries db')" "p \<in> set (sd_requests db')" "active_recovery x"
      "rr_login_request_id x = Some (lr_id p)"
    then show "lr_status p \<in> {LR_PENDING, LR_EXPIRED}"
      using begin_recovery ok(3) [of x p] request_unique [OF ok(1), of p q] by auto
  qed (use ok begin_recovery in auto)
next
  case (move r f r')
  note ok = requests_okD [OF assms(2)]
  have m: "map lr_id (sd_requests db') = map lr_id (sd_requests db)" "map rr_id (sd_recoveries db') = map rr_id (sd_recoveries db)"
    using move(1,2,5,7) by simp_all
  have mem: "x = r' \<or> x \<in> set (sd_recoveries db) \<and> rr_id x \<noteq> rr_id r" if "x \<in> set (sd_recoveries db')" for x
    using that move(2) by (auto split: if_splits)
  have other: "x = r" if "x \<in> set (sd_recoveries db)" "active_recovery x" "rr_login_request_id x = Some i"
    "rr_login_request_id r = Some i" for x i using that ok(4) move(3,4) by blast
  show ?thesis
  proof (rule requests_okI)
    fix x q assume a: "x \<in> set (sd_recoveries db')" "q \<in> set (sd_requests db')" "active_recovery x"
      "rr_login_request_id x = Some (lr_id q)"
    obtain p where p: "p \<in> set (sd_requests db)" "q = (if rr_login_request_id r = Some (lr_id p) then f p else p)"
      using a(2) move(1) by auto
    then have i: "lr_id q = lr_id p" using move(7) by simp
    show "lr_status q \<in> {LR_PENDING, LR_EXPIRED}"
      using mem [OF a(1)] a(3,4) i p move(3-6,9) ok(3) [of _ p] other [of x "lr_id p"] by (auto split: if_splits)
  next
    fix x y i assume "x \<in> set (sd_recoveries db')" "y \<in> set (sd_recoveries db')" "active_recovery x" "active_recovery y"
      "rr_login_request_id x = Some i" "rr_login_request_id y = Some i"
    then show "x = y" using mem [of x] mem [of y] move(4,6) other [of x i] other [of y i] ok(4) by auto
  qed (use ok m in auto)
next
  case (purge P g R)
  note ok = requests_okD [OF assms(2)]
  have g: "rr_login_request_id (g r) = Some i \<Longrightarrow> g r = r" for r i using purge(3) [of r] by auto
  have "distinct (map rr_id (sd_recoveries db'))" using ok(2) purge(2,3) by (simp add: comp_def distinct_map_filter)
  then show ?thesis
    using ok purge(1,2) g by (intro requests_okI) (auto simp: distinct_map_filter, metis+)
qed

text \<open>Operations on sessions keep both tables.\<close>

definition same_tables :: "session_db \<Rightarrow> session_db \<Rightarrow> bool" where
  "same_tables db db' \<longleftrightarrow> sd_requests db' = sd_requests db \<and> sd_recoveries db' = sd_recoveries db"

lemma same_tables_step: "same_tables db db' \<Longrightarrow> request_step I db db'"
  by (simp add: same_tables_def request_step.keep)

lemma login_tables:
  assumes "handle_login_session env i user token dv susp db = (r, db')"
  shows "same_tables db db'"
proof -
  have "same_tables db db1" if "admit_login env i user token dv db = (r1, db1)" for r1 db1
    using that
  proof (cases rule: admit_login_cases)
    case (created s js p db2)
    then show ?thesis using create_session_cases [OF created(2)] by (simp add: same_tables_def)
  qed (simp add: same_tables_def)
  then show ?thesis using assms
    by (auto simp: handle_login_session_def same_tables_def split: if_splits sum.splits option.splits)
qed

lemma logout_tables: "same_tables db (snd (logout_session env s db))"
  by (simp add: logout_session_def Let_def same_tables_def promote_next_primary_sets)

lemma clear_tables: "same_tables db (snd (force_clear_sessions env u ex db))"
  by (simp add: same_tables_def force_clear_fields)

lemma expire_loop_tables: "same_tables db (expire_sessions env js db)"
proof (induction js arbitrary: db)
  case (Cons i js)
  show ?case
  proof (cases "find_session db i")
    case (Some s)
    let ?db1 = "deactivate_session env i db"
    have "same_tables db (if us_is_primary s then snd (promote_next_primary (us_user_id s) ?db1) else ?db1)"
      by (simp add: same_tables_def promote_next_primary_sets)
    then show ?thesis using Cons.IH Some by (simp add: Let_def same_tables_def)
  qed (use Cons.IH in simp)
qed (simp add: same_tables_def)

lemma inspect_tables: "same_tables db (snd (inspect_local_session_authority env u db))"
  by (simp add: same_tables_def inspect_local_session_authority_def deactivate_expired_active_sessions_def Let_def
      promote_next_primary_sets deactivate_fold)

lemma session_tables:
  "terminate_session env u c j db = (t, db') \<Longrightarrow> same_tables db db'"
  "logout_all_sessions env u c db = (t', db') \<Longrightarrow> same_tables db db'"
proof -
  show "terminate_session env u c j db = (t, db') \<Longrightarrow> same_tables db db'"
    using logout_tables [of db env]
    by (auto simp: terminate_session_def Let_def same_tables_def split: if_splits option.splits)
  have "same_tables db db1" if "force_clear_sessions env u ex db = (n, db1)" for ex n db1
    using clear_tables [of db env u ex] that by simp
  then show "logout_all_sessions env u c db = (t', db') \<Longrightarrow> same_tables db db'"
    by (auto simp: logout_all_sessions_def same_tables_def map_prod_def split: if_splits option.splits prod.splits)
qed

lemma reset_step: "request_step I db (reset_user_session_state env u rows db)"
proof (rule request_step.purge)
  let ?db1 = "snd (force_clear_sessions env u None db)"
  let ?gone = "map lr_id (filter (\<lambda>r. lr_user_id r = u) (sd_requests ?db1))"
  let ?g = "\<lambda>r. case rr_login_request_id r of None \<Rightarrow> r
    | Some i \<Rightarrow> (if i \<in> set ?gone then r\<lparr>rr_login_request_id := None\<rparr> else r)"
  show "sd_requests (reset_user_session_state env u rows db) = filter (\<lambda>r. lr_user_id r \<noteq> u) (sd_requests db)"
    by (simp add: reset_user_session_state_def Let_def force_clear_fields)
  show "sd_recoveries (reset_user_session_state env u rows db) = map ?g (filter (\<lambda>r. rr_user_id r \<noteq> u) (sd_recoveries db))"
    by (simp add: reset_user_session_state_def Let_def force_clear_fields)
  show "rr_id (?g r) = rr_id r \<and> rr_status (?g r) = rr_status r \<and> (rr_login_request_id (?g r) = None \<or> ?g r = r)" for r
    by (auto split: option.splits)
qed

text \<open>Reading rows.\<close>

lemma find_request_row: "find_request db k = Some q \<Longrightarrow> q \<in> set (sd_requests db) \<and> lr_id q = k"
  by (auto simp: find_request_def find_Some_iff)

lemma newest_recovery_in: "newest_recovery rs = Some r \<Longrightarrow> r \<in> set rs"
  by (auto simp: newest_recovery_def split: list.splits) (metis list.set_intros(1) set_sort)

lemma newest_recovery_none [simp]: "newest_recovery rs = None \<longleftrightarrow> rs = []"
  by (auto simp: newest_recovery_def split: list.splits) (metis list.distinct(1) set_empty set_sort)

lemma active_recovery_found:
  "get_active_recovery_request_for_login_request db k = Some r \<Longrightarrow>
     r \<in> set (sd_recoveries db) \<and> active_recovery r \<and> rr_login_request_id r = Some k"
  by (auto simp: get_active_recovery_request_for_login_request_def active_recovery_def dest!: newest_recovery_in)

lemma active_recovery_absent:
  "get_active_recovery_request_for_login_request db k = None \<Longrightarrow>
     \<forall>r \<in> set (sd_recoveries db). active_recovery r \<longrightarrow> rr_login_request_id r \<noteq> Some k"
  by (auto simp: get_active_recovery_request_for_login_request_def active_recovery_def filter_empty_conv)

lemma pending_unique:
  assumes "requests_ok db" "find_request db k = Some q" "lr_status q = LR_PENDING" "x \<in> set (sd_requests db)" "lr_id x = k"
  shows "lr_status x = LR_PENDING"
  using assms request_unique [OF requests_okD(1) [OF assms(1)], of x q] find_request_row [OF assms(2)] by auto

lemma request_fields [simp]:
  "sd_requests (change_request i f db) = map (\<lambda>q. if lr_id q = i then f q else q) (sd_requests db)"
  "sd_recoveries (change_request i f db) = sd_recoveries db"
  "sd_requests (rollback_to db db1) = sd_requests db" "sd_recoveries (rollback_to db db1) = sd_recoveries db"
  "sd_requests (settle_recovery r db) = sd_requests db"
  "sd_recoveries (settle_recovery r db) = map (\<lambda>x. if rr_id x = rr_id r then r else x) (sd_recoveries db)"
  by (simp_all add: change_request_def rollback_to_def settle_recovery_def put_recovery_def
      clear_recovery_admin_action_messages_def)

lemma decide_step:
  assumes "requests_ok db" "find_request db k = Some q" "lr_status q = LR_PENDING"
    and "sd_requests db' = map (\<lambda>q. if lr_id q = k then f q else q) (sd_requests db)" "sd_recoveries db' = sd_recoveries db"
    and "\<And>q. lr_id (f q) = lr_id q \<and> lr_user_id (f q) = lr_user_id q"
    and "get_active_recovery_request_for_login_request db k = None \<or> (\<forall>q. lr_status (f q) = LR_EXPIRED)"
  shows "request_step I db db'"
proof (rule request_step.decide [OF assms(4-6)])
  show "(\<forall>r \<in> set (sd_recoveries db). active_recovery r \<longrightarrow> rr_login_request_id r \<noteq> Some k) \<or> (\<forall>q. lr_status (f q) = LR_EXPIRED)"
    using assms(7) active_recovery_absent [of db k] by blast
qed (rule pending_unique [OF assms(1-3)])

lemma reject_cases:
  "reject_login_request k p db = (t, db') \<Longrightarrow> db' = db \<or>
     (\<exists>q. find_request db k = Some q \<and> lr_status q = LR_PENDING \<and> get_active_recovery_request_for_login_request db k = None \<and>
        db' = change_request k (\<lambda>r. r\<lparr>lr_status := LR_REJECTED, lr_resolved_by := Some (us_id p)\<rparr>) db)"
  by (auto simp: reject_login_request_def split: if_splits option.splits)

lemma reject_step:
  assumes ok: "requests_ok db" and "reject_login_request k p db = (t, db')"
  shows "request_step I db db'"
proof (cases "db' = db")
  case False
  then obtain q where q: "find_request db k = Some q" "lr_status q = LR_PENDING"
      "get_active_recovery_request_for_login_request db k = None"
      "db' = change_request k (\<lambda>r. r\<lparr>lr_status := LR_REJECTED, lr_resolved_by := Some (us_id p)\<rparr>) db"
    using reject_cases [OF assms(2)] by blast
  show ?thesis
    by (rule decide_step [OF ok q(1,2), where f = "\<lambda>r. r\<lparr>lr_status := LR_REJECTED, lr_resolved_by := Some (us_id p)\<rparr>"])
       (simp_all add: q(3,4))
qed (simp add: request_step.keep)

lemma approve_cases:
  assumes "approve_login_request env i k p token pl home db = (r, db')"
  shows "same_tables db db' \<or>
    (\<exists>q. find_request db k = Some q \<and> lr_status q = LR_PENDING \<and> db' = change_request k (\<lambda>r. r\<lparr>lr_status := LR_EXPIRED\<rparr>) db) \<or>
    (\<exists>q user s. find_request db k = Some q \<and> lr_status q = LR_PENDING \<and> r = Inr s \<and>
       get_active_recovery_request_for_login_request db k = None \<and>
       provision_session_for_login_request env i q token user pl home
         (change_request k (\<lambda>r. r\<lparr>lr_status := LR_APPROVED, lr_resolved_by := Some (us_id p)\<rparr>) db) = (Inr s, db'))"
  using assms
  by (auto simp: approve_login_request_def same_tables_def split: if_splits sum.splits option.splits prod.splits)

lemma approve_step:
  assumes ok: "requests_ok db" "sessions_ok db" and "approve_login_request env i k p token pl home db = (r, db')"
  shows "request_step I db db'"
  using approve_cases [OF assms(3)]
proof (elim disjE exE conjE)
  assume "same_tables db db'"
  then show ?thesis by (rule same_tables_step)
next
  fix q assume q: "find_request db k = Some q" "lr_status q = LR_PENDING" "db' = change_request k (\<lambda>r. r\<lparr>lr_status := LR_EXPIRED\<rparr>) db"
  show ?thesis by (rule decide_step [OF ok(1) q(1,2), where f = "\<lambda>r. r\<lparr>lr_status := LR_EXPIRED\<rparr>"]) (simp_all add: q(3))
next
  fix q user s
  let ?f = "\<lambda>r. r\<lparr>lr_status := LR_APPROVED, lr_resolved_by := Some (us_id p)\<rparr>"
  assume q: "find_request db k = Some q" "lr_status q = LR_PENDING" "get_active_recovery_request_for_login_request db k = None"
    "provision_session_for_login_request env i q token user pl home (change_request k ?f db) = (Inr s, db')"
  have "sessions_ok (change_request k ?f db)" by (rule same_ok [OF _ ok(2)]) simp
  then have "same_tables (change_request k ?f db) db'" using provision_ok [OF _ q(4)] by (simp add: same_tables_def)
  then show ?thesis by (intro decide_step [OF ok(1) q(1,2), where f = ?f]) (simp_all add: q(3) same_tables_def)
qed

text \<open>Recoveries: every accepted transition keeps the identity of the row and leaves an unfinished status.\<close>

definition recovery_move :: "recovery_request \<Rightarrow> recovery_request \<Rightarrow> bool" where
  "recovery_move r r' \<longleftrightarrow> active_recovery r \<and> rr_id r' = rr_id r \<and> rr_login_request_id r' = rr_login_request_id r"

lemma active_statuses [simp]: "is_active_recovery_status st \<longleftrightarrow>
    st = PENDING_ADMIN_REVIEW \<or> st = IDENTITY_VERIFICATION_REQUESTED \<or> st = IDENTITY_SUBMITTED"
  by (auto simp: is_active_recovery_status_def ACTIVE_SINGLE_SESSION_RECOVERY_STATUSES_def)

lemma ensure_status_right [simp]: "ensure_status sts r = Inr r' \<longleftrightarrow> rr_status r \<in> set sts \<and> r' = r"
  by (auto simp: ensure_status_def)

lemma map_sum_right: "map_sum id f x = Inr y \<longleftrightarrow> (\<exists>z. x = Inr z \<and> y = f z)"
  by (cases x) auto

lemmas recovery_operations = request_identity_verification_def submit_identity_material_def approve_recovery_request_def
  reject_recovery_request_def cancel_recovery_request_def expire_recovery_request_def map_sum_right
  extend_action_windows_def close_action_windows_def ACTIVE_SINGLE_SESSION_RECOVERY_STATUSES_def
  recovery_move_def active_recovery_def

lemma recovery_moves:
  "request_identity_verification now r = Inr r' \<Longrightarrow> recovery_move r r'"
  "submit_identity_material now r = Inr r' \<Longrightarrow> recovery_move r r'"
  "approve_recovery_request a now r = Inr r' \<Longrightarrow> recovery_move r r' \<and> \<not> active_recovery r'"
  "reject_recovery_request a now r = Inr r' \<Longrightarrow> recovery_move r r' \<and> \<not> active_recovery r'"
  "cancel_recovery_request now r = Inr r' \<Longrightarrow> recovery_move r r' \<and> \<not> active_recovery r'"
  "expire_recovery_request now r = Inr r' \<Longrightarrow> recovery_move r r' \<and> \<not> active_recovery r'"
  by (auto simp: recovery_operations)

lemma settle_step:
  assumes "r \<in> set (sd_recoveries db)" "recovery_move r r'" "sd_requests db' = sd_requests db"
    "sd_recoveries db' = sd_recoveries (settle_recovery r' db)"
  shows "request_step I db db'"
  using assms by (intro request_step.move [where r = r and f = "\<lambda>q. q" and r' = r'])
    (simp_all add: recovery_move_def request_moves_def)

lemma close_step:
  assumes "r \<in> set (sd_recoveries db)" "recovery_move r r'" "\<not> active_recovery r'"
  shows "request_step I db (settle_recovery r' (close_login_request st r db))"
proof (rule request_step.move [where r = r and f = "\<lambda>q. if lr_status q = LR_PENDING then q\<lparr>lr_status := st\<rparr> else q" and r' = r'])
  show "sd_recoveries (settle_recovery r' (close_login_request st r db)) =
      map (\<lambda>x. if rr_id x = rr_id r then r' else x) (sd_recoveries db)"
    using assms(2) by (auto simp: close_login_request_def recovery_move_def split: option.splits)
  show "sd_requests (settle_recovery r' (close_login_request st r db)) = map (\<lambda>q. if rr_login_request_id r = Some (lr_id q)
      then if lr_status q = LR_PENDING then q\<lparr>lr_status := st\<rparr> else q else q) (sd_requests db)"
    by (auto simp: close_login_request_def split: option.splits)
qed (use assms in \<open>auto simp: recovery_move_def request_moves_def\<close>)

lemma expire_if_needed_step:
  assumes "expire_recovery_if_needed env r db = (b, db')" "r \<in> set (sd_recoveries db)"
  shows "request_step I db db'" "\<not> b \<Longrightarrow> db' = db"
proof -
  show "\<not> b \<Longrightarrow> db' = db" using assms(1) by (auto simp: expire_recovery_if_needed_def split: if_splits sum.splits)
  show "request_step I db db'"
  proof (cases b)
    case True
    then obtain r' where "expire_recovery_request (se_now env) r = Inr r'"
        "db' = settle_recovery r' (close_login_request LR_EXPIRED r db)"
      using assms(1) by (auto simp: expire_recovery_if_needed_def split: if_splits sum.splits)
    then show ?thesis using close_step [OF assms(2)] recovery_moves(6) by blast
  next
    case False
    then have "db' = db" using assms(1) by (auto simp: expire_recovery_if_needed_def split: if_splits sum.splits)
    then show ?thesis by (simp add: request_step.keep)
  qed
qed

lemma cancel_step:
  assumes "cancel_single_session_recovery env k db = (x, db')"
  shows "request_step I db db'"
  using assms close_step [of _ db] active_recovery_found [of db k] recovery_moves(5)
  by (auto simp: cancel_single_session_recovery_def request_step.keep split: option.splits sum.splits)

lemma poll_step:
  assumes "get_single_session_recovery_status env k db = (b, db')"
  shows "request_step I db db'"
  using assms expire_if_needed_step(1) [of env _ db b db'] newest_recovery_in
  by (fastforce simp: get_single_session_recovery_status_def get_latest_recovery_request_for_login_request_def
      intro: request_step.keep split: option.splits)

lemma find_recovery_row: "find (\<lambda>r. rr_id r = j) rs = Some r \<Longrightarrow> r \<in> set rs \<and> rr_id r = j"
  by (auto simp: find_Some_iff)

lemma admin_access_cases:
  "ensure_recovery_admin_access env admin j db = (x, db') \<Longrightarrow> db' = db \<and> (\<exists>e. x = Inl e) \<or>
     (\<exists>r u b. find (\<lambda>r. rr_id r = j) (sd_recoveries db) = Some r \<and> expire_recovery_if_needed env r db = (b, db') \<and>
        x = (if b then Inl DeadlinePassed else Inr (r, u)))"
  by (auto simp: ensure_recovery_admin_access_def split: if_splits option.splits prod.splits bool.splits)

lemma admin_access_step:
  assumes "ensure_recovery_admin_access env admin j db = (x, db')"
  shows "request_step I db db'" "x = Inr (r, u) \<Longrightarrow> db' = db \<and> r \<in> set (sd_recoveries db) \<and> rr_id r = j"
  using admin_access_cases [OF assms] find_recovery_row [of j "sd_recoveries db"] expire_if_needed_step [of env _ db _ db']
  by (auto intro: request_step.keep split: if_splits)

lemma admin_steps:
  "request_single_session_recovery_identity env admin j db = (x, db') \<Longrightarrow> request_step I db db'"
  "reject_single_session_recovery env admin j db = (y, db') \<Longrightarrow> request_step I db db'"
proof -
  obtain z db1 where z: "ensure_recovery_admin_access env admin j db = (z, db1)" by fastforce
  note access = admin_access_step [OF z]
  show "request_step I db db'" if a: "request_single_session_recovery_identity env admin j db = (x, db')"
  proof (cases "db' = db1 \<or> db' = db")
    case True
    then show ?thesis using access(1) request_step.keep by blast
  next
    case False
    then obtain r u where z': "z = Inr (r, u)"
      using a z by (auto simp: request_single_session_recovery_identity_def split: if_splits sum.splits)
    with False obtain r' where "request_identity_verification (se_now env) r = Inr r'" "db' = settle_recovery r' db1"
      by (cases "request_identity_verification (se_now env) r")
         (use a z in \<open>auto simp: request_single_session_recovery_identity_def split: if_splits\<close>)
    with z' show ?thesis using access(2) settle_step [of r db r' db' I] recovery_moves(1) by auto
  qed
  show "request_step I db db'" if a: "reject_single_session_recovery env admin j db = (y, db')"
  proof (cases "db' = db1 \<or> db' = db")
    case True
    then show ?thesis using access(1) request_step.keep by blast
  next
    case False
    then obtain r u where z': "z = Inr (r, u)"
      using a z by (auto simp: reject_single_session_recovery_def split: if_splits sum.splits)
    with False obtain r' where "reject_recovery_request (su_id admin) (se_now env) r = Inr r'"
        "db' = settle_recovery r' (close_login_request LR_REJECTED r db1)"
      by (cases "reject_recovery_request (su_id admin) (se_now env) r")
         (use a z in \<open>auto simp: reject_single_session_recovery_def split: if_splits\<close>)
    with z' show ?thesis using access(2) close_step [of r db r' I LR_REJECTED] recovery_moves(4) by auto
  qed
qed

lemma submit_step:
  assumes "submit_single_session_recovery_identity env stored delivered k db = (x, db')"
  shows "request_step I db db'"
proof (cases "get_active_recovery_request_for_login_request db k")
  case None
  then show ?thesis using assms by (simp add: submit_single_session_recovery_identity_def request_step.keep)
next
  case (Some r)
  note row = active_recovery_found [OF this]
  obtain b db1 where e: "expire_recovery_if_needed env r db = (b, db1)" by fastforce
  note ex = expire_if_needed_step [OF e conjunct1 [OF row]]
  show ?thesis
  proof (cases "db' = db1 \<or> db' = db")
    case True
    then show ?thesis using ex(1) request_step.keep by blast
  next
    case False
    then obtain r' where r': "submit_identity_material (se_now env) r = Inr r'" "\<not> b"
        "db' = deliver_identity_submission_messages env delivered (rr_id r) (settle_recovery r' db1)"
      by (cases "submit_identity_material (se_now env) r")
         (use assms Some e in \<open>auto simp: submit_single_session_recovery_identity_def
            split: if_splits option.splits bool.splits\<close>)
    then show ?thesis using ex(2) row recovery_moves(2) settle_step [of r db r' db' I]
      by (simp add: deliver_identity_submission_messages_def)
  qed
qed

lemma start_step:
  assumes ok: "requests_ok db" and "start_single_session_recovery env i delivered k db = (x, db')" and "i \<in> I"
  shows "request_step I db db'"
proof (cases "same_tables db db'")
  case True
  then show ?thesis by (rule same_tables_step)
next
  case False
  then obtain q r db1 where q: "find_request db k = Some q" "lr_status q = LR_PENDING"
      "create_recovery_request (se_now env) i q db = Inr (r, db1)" "same_tables db1 db'"
    using assms(2) by (auto simp: start_single_session_recovery_def deliver_initial_recovery_messages_def same_tables_def
        split: if_splits sum.splits option.splits prod.splits)
  have none: "get_active_recovery_request_for_login_request db (lr_id q) = None"
    using q(3,4) False by (cases "get_active_recovery_request_for_login_request db (lr_id q)")
      (auto simp: create_recovery_request_def same_tables_def)
  show ?thesis
    using q none assms(3) find_request_row [OF q(1)] active_recovery_absent [OF none]
    by (intro request_step.begin_recovery [where r = r and q = q])
       (auto simp: create_recovery_request_def same_tables_def Let_def split: if_splits)
qed

lemma accept_cases:
  assumes "approve_single_session_recovery env i admin j token db = (x, db')"
  shows "(\<exists>e. x = Inl e) \<or> (\<exists>r u q r' user s. ensure_recovery_admin_access env admin j db = (Inr (r, u), db) \<and>
     rr_login_request_id r = Some (lr_id q) \<and> find_request db (lr_id q) = Some q \<and>
     approve_recovery_request (su_id admin) (se_now env) r = Inr r' \<and> x = Inr s \<and>
     provision_session_for_login_request env i q token user WEB (lr_home_server q)
       (settle_recovery r' (change_request (lr_id q) (\<lambda>q. q\<lparr>lr_status := LR_APPROVED, lr_resolved_by := None\<rparr>) db)) = (Inr s, db'))"
proof (cases x)
  case (Inr s)
  then obtain r u db1 where a: "ensure_recovery_admin_access env admin j db = (Inr (r, u), db1)"
    using assms by (auto simp: approve_single_session_recovery_def split: if_splits prod.splits sum.splits)
  then have "db1 = db" using admin_access_step(2) [OF a] by blast
  moreover obtain k q where kq: "rr_login_request_id r = Some k" "find_request db1 k = Some q"
    using assms Inr a by (auto simp: approve_single_session_recovery_def bind_eq_Some_conv
        split: if_splits option.splits sum.splits prod.splits)
  moreover have "lr_id q = k" using find_request_row [OF kq(2)] by simp
  ultimately show ?thesis using assms Inr a
    by (auto simp: approve_single_session_recovery_def split: if_splits option.splits sum.splits prod.splits)
qed simp

lemma accept_failed:
  assumes "approve_single_session_recovery env i admin j token db = (Inl e, db')"
  shows "request_step I db db'"
proof -
  obtain z db1 where z: "ensure_recovery_admin_access env admin j db = (z, db1)" by fastforce
  have "same_tables db1 db' \<or> db' = db"
    using assms z by (auto simp: approve_single_session_recovery_def same_tables_def
        split: if_splits option.splits sum.splits prod.splits)
  then show ?thesis
  proof
    assume t: "same_tables db1 db'"
    show ?thesis using admin_access_step(1) [OF z, of I] t
      by cases (auto simp: same_tables_def intro: request_step.intros)
  qed (simp add: request_step.keep)
qed

lemma accept_step:
  assumes ok: "sessions_ok db" and a: "approve_single_session_recovery env i admin j token db = (x, db')"
  shows "request_step I db db'"
  using accept_cases [OF a]
proof (elim disjE exE conjE)
  fix e assume "x = Inl e"
  then show ?thesis using a accept_failed by blast
next
  fix r u r' user s and q :: login_request
  let ?f = "\<lambda>q :: login_request. q\<lparr>lr_status := LR_APPROVED, lr_resolved_by := None\<rparr>"
  let ?db1 = "settle_recovery r' (change_request (lr_id q) ?f db)"
  assume h: "ensure_recovery_admin_access env admin j db = (Inr (r, u), db)" "rr_login_request_id r = Some (lr_id q)"
    "approve_recovery_request (su_id admin) (se_now env) r = Inr r'"
    "provision_session_for_login_request env i q token user WEB (lr_home_server q) ?db1 = (Inr s, db')"
  have r: "r \<in> set (sd_recoveries db)" using admin_access_step(2) [OF h(1)] by blast
  have m: "recovery_move r r'" "\<not> active_recovery r'" using recovery_moves(3) [OF h(3)] by auto
  have "sessions_ok ?db1" by (rule same_ok [OF _ ok]) simp
  then have t: "same_tables ?db1 db'" using provision_ok [OF _ h(4)] by (simp add: same_tables_def)
  have rq: "sd_requests db' = map (\<lambda>x. if rr_login_request_id r = Some (lr_id x) then ?f x else x) (sd_requests db)"
    using t h(2) by (auto simp: same_tables_def)
  have rc: "sd_recoveries db' = map (\<lambda>x. if rr_id x = rr_id r then r' else x) (sd_recoveries db)"
    using t m(1) by (auto simp: same_tables_def recovery_move_def)
  show ?thesis by (rule request_step.move [OF rq rc r]) (use m in \<open>auto simp: recovery_move_def request_moves_def\<close>)
qed

lemma step_requests:
  assumes "session_step I db db'" "sessions_ok db" "requests_ok db"
  shows "request_step I db db'"
  using assms
proof (induction rule: session_step.induct)
  case (logout s db env r db')
  then show ?case using same_tables_step logout_tables [of db env s] by simp
next
  case (clear env u db n db')
  then show ?case using same_tables_step clear_tables [of db env u None] by simp
next
  case (expire env db n db')
  then show ?case using same_tables_step expire_loop_tables by (auto simp: expire_stale_sessions_def Let_def)
next
  case (inspect env u db a db')
  then show ?case using same_tables_step inspect_tables [of db env u] by simp
next
  case (reset env u rows db db')
  then show ?case using reset_step by blast
next
  case (approve env i u k token db r db')
  then show ?case using approve_step request_step.keep
    by (fastforce simp: approve_request_def split: if_splits sum.splits option.splits)
next
  case (reject env u k db t db')
  then show ?case using reject_step request_step.keep
    by (fastforce simp: reject_request_def split: if_splits sum.splits option.splits)
qed (blast intro: same_tables_step login_tables session_tables start_step cancel_step poll_step admin_steps submit_step accept_step)+

definition all_ok :: "session_db \<Rightarrow> bool" where
  "all_ok db \<longleftrightarrow> sessions_ok db \<and> requests_ok db"

lemma all_ok_step: "all_ok db \<Longrightarrow> session_step I db db' \<Longrightarrow> all_ok db'"
  unfolding all_ok_def using session_step_ok step_requests requests_ok_step by blast

interpretation accounts: invariant_system fresh_tables "session_step I" all_ok for I
proof unfold_locales
  show "all_ok s" if "fresh_tables s" for s
    using that by (simp add: all_ok_def fresh_tables_def sessions_ok_def requests_ok_def distinct_ids_def act_def)
qed (rule all_ok_step)

text \<open>What a step does to one request and to one recovery.\<close>

lemma request_history_step:
  assumes "request_step I db db'" "requests_ok db" "q' \<in> set (sd_requests db')"
  shows "\<exists>q \<in> set (sd_requests db). lr_id q = lr_id q' \<and> lr_user_id q = lr_user_id q' \<and> request_moves (lr_status q) (lr_status q')"
  using assms(1)
proof cases
  case (decide i f)
  then obtain q where q: "q \<in> set (sd_requests db)" "q' = (if lr_id q = i then f q else q)" using assms(3) by auto
  then show ?thesis using decide(3) [of q] decide(4) [of q] by (intro bexI [OF _ q(1)]) (auto simp: request_moves_def)
next
  case (move r f r')
  then obtain q where q: "q \<in> set (sd_requests db)" "q' = (if rr_login_request_id r = Some (lr_id q) then f q else q)"
    using assms(3) by auto
  then show ?thesis using move(3,4) move(7,8) [of q] requests_okD(3) [OF assms(2), of r q]
    by (intro bexI [OF _ q(1)]) (auto simp: request_moves_def)
qed (use assms(3) in \<open>auto simp: request_moves_def\<close>)

lemma recovery_history_step:
  assumes "request_step I db db'" "requests_ok db" "r' \<in> set (sd_recoveries db')" "rr_id r' \<notin> I"
  shows "\<exists>r \<in> set (sd_recoveries db). rr_id r = rr_id r' \<and> (active_recovery r \<or> rr_status r' = rr_status r)"
  using assms(1)
proof cases
  case (move r f r1)
  then show ?thesis using assms(3) by (auto split: if_splits)
next
  case (purge P g R)
  then show ?thesis using assms(3) by (auto intro: bexI)
qed (use assms(3,4) in auto)

lemma request_history:
  assumes "(session_step I)\<^sup>*\<^sup>* db db'" "all_ok db"
  shows "all_ok db' \<and>
    (\<forall>q' \<in> set (sd_requests db'). \<exists>q \<in> set (sd_requests db). lr_id q = lr_id q' \<and> lr_user_id q = lr_user_id q' \<and>
       request_moves (lr_status q) (lr_status q')) \<and>
    (\<forall>r' \<in> set (sd_recoveries db'). rr_id r' \<notin> I \<longrightarrow>
       (\<exists>r \<in> set (sd_recoveries db). rr_id r = rr_id r' \<and> (active_recovery r \<or> rr_status r' = rr_status r)))"
  using assms
proof (induction rule: rtranclp_induct)
  case base
  then show ?case by (auto simp: request_moves_def)
next
  case (step y z)
  note IH = step.IH [OF step.prems]
  have ok: "all_ok y" using IH by blast
  have s: "request_step I y z" using step_requests [OF step.hyps(2)] ok by (simp add: all_ok_def)
  have rok: "requests_ok y" using ok by (simp add: all_ok_def)
  have "\<exists>q \<in> set (sd_requests db). lr_id q = lr_id q' \<and> lr_user_id q = lr_user_id q' \<and> request_moves (lr_status q) (lr_status q')"
    if q': "q' \<in> set (sd_requests z)" for q'
  proof -
    obtain p where p: "p \<in> set (sd_requests y)" "lr_id p = lr_id q'" "lr_user_id p = lr_user_id q'"
        "request_moves (lr_status p) (lr_status q')" using request_history_step [OF s rok q'] by blast
    obtain q where "q \<in> set (sd_requests db)" "lr_id q = lr_id p" "lr_user_id q = lr_user_id p"
        "request_moves (lr_status q) (lr_status p)" using IH p(1) by blast
    then show ?thesis using p by (intro bexI [of _ q]) (auto simp: request_moves_def)
  qed
  moreover have "\<exists>r \<in> set (sd_recoveries db). rr_id r = rr_id r' \<and> (active_recovery r \<or> rr_status r' = rr_status r)"
    if r': "r' \<in> set (sd_recoveries z)" "rr_id r' \<notin> I" for r'
  proof -
    obtain p where p: "p \<in> set (sd_recoveries y)" "rr_id p = rr_id r'" "active_recovery p \<or> rr_status r' = rr_status p"
      using recovery_history_step [OF s rok r'] by blast
    then obtain r where "r \<in> set (sd_recoveries db)" "rr_id r = rr_id p" "active_recovery r \<or> rr_status p = rr_status r"
      using IH r'(2) by force
    then show ?thesis using p by (intro bexI [of _ r]) (auto simp: active_recovery_def)
  qed
  ultimately show ?case using all_ok_step [OF ok step.hyps(2)] by blast
qed

section \<open>Properties of login requests\<close>

text \<open>Decisions are final: in every history an approved or rejected login request keeps its status, a finished recovery
  keeps its status as long as its identifier is not drawn again, and a login request has at most one unfinished
  recovery, which exists only while the request is undecided.\<close>

theorem login_decisions_are_final:
  assumes "reachable fresh_tables (session_step J) db" and "(session_step I)\<^sup>*\<^sup>* db db'"
    and "q \<in> set (sd_requests db)" and "q' \<in> set (sd_requests db')" and "lr_id q' = lr_id q"
    and "r \<in> set (sd_recoveries db)" and "r' \<in> set (sd_recoveries db')" and "rr_id r' = rr_id r" and "rr_id r \<notin> I"
  shows "(lr_status q \<in> {LR_APPROVED, LR_REJECTED} \<longrightarrow> lr_status q' = lr_status q) \<and>
    (is_terminal_recovery_status (rr_status r) \<longrightarrow> rr_status r' = rr_status r) \<and>
    (is_active_recovery_status (rr_status r) \<and> rr_login_request_id r = Some (lr_id q) \<longrightarrow>
       lr_status q \<in> {LR_PENDING, LR_EXPIRED} \<and>
       (\<forall>x \<in> set (sd_recoveries db). is_active_recovery_status (rr_status x) \<and> rr_login_request_id x = Some (lr_id q) \<longrightarrow> x = r))"
proof -
  have ok: "all_ok db" using assms(1) by (rule accounts.reachable_invar)
  then have rok: "requests_ok db" by (simp add: all_ok_def)
  note ind = requests_okD [OF rok] and h = request_history [OF assms(2) ok]
  obtain p where p: "p \<in> set (sd_requests db)" "lr_id p = lr_id q'" "request_moves (lr_status p) (lr_status q')"
    using h assms(4) by blast
  have "p = q" using request_unique [OF ind(1) p(1) assms(3)] p(2) assms(5) by simp
  moreover obtain y where y: "y \<in> set (sd_recoveries db)" "rr_id y = rr_id r'" "active_recovery y \<or> rr_status r' = rr_status y"
    using h assms(7-9) by metis
  have "y = r" using recovery_unique [OF ind(2) y(1) assms(6)] y(2) assms(8) by simp
  ultimately show ?thesis using p(3) y(3) ind(3) [OF assms(6,3)] ind(4) [OF assms(6)]
    by (auto simp: request_moves_def active_recovery_def is_terminal_recovery_status_def TERMINAL_SINGLE_SESSION_RECOVERY_STATUSES_def)
qed

definition approved_in :: "session_db \<Rightarrow> uuid \<Rightarrow> bool" where
  "approved_in db k \<longleftrightarrow> (\<forall>q \<in> set (sd_requests db). lr_id q = k \<longrightarrow> lr_status q = LR_APPROVED)"

lemma approved_refuses:
  assumes "all_ok db" "approved_in db k"
  shows "\<exists>e. approve_request env i u k token db = (Inl e, db)"
    and "(\<forall>r \<in> set (sd_recoveries db). rr_id r = j \<longrightarrow> rr_login_request_id r = Some k) \<Longrightarrow> find_request db k \<noteq> None \<Longrightarrow>
      \<exists>e. approve_single_session_recovery env i admin j token db = (Inl e, db)"
proof -
  have st: "lr_status q = LR_APPROVED" if "find_request db k = Some q" for q
    using find_request_row [OF that] assms(2) by (simp add: approved_in_def)
  show "\<exists>e. approve_request env i u k token db = (Inl e, db)"
    using st by (auto simp: approve_request_def approve_login_request_def split: sum.splits option.splits)
  show "\<exists>e. approve_single_session_recovery env i admin j token db = (Inl e, db)"
    if j: "\<forall>r \<in> set (sd_recoveries db). rr_id r = j \<longrightarrow> rr_login_request_id r = Some k" and k: "find_request db k \<noteq> None"
  proof -
    obtain q where q: "find_request db k = Some q" using k by blast
    have inactive: "\<not> active_recovery r" if "find (\<lambda>r. rr_id r = j) (sd_recoveries db) = Some r" for r
      using find_recovery_row [OF that] j st [OF q] find_request_row [OF q] requests_okD(3) [of db r q] assms(1)
      by (auto simp: all_ok_def)
    obtain z db1 where z: "ensure_recovery_admin_access env admin j db = (z, db1)" by fastforce
    have "db1 = db \<and> (\<forall>r u. z = Inr (r, u) \<longrightarrow> \<not> active_recovery r)"
      using admin_access_cases [OF z] inactive by (auto simp: expire_recovery_if_needed_def active_recovery_def)
    then show ?thesis using z by (auto simp: approve_single_session_recovery_def active_recovery_def split: sum.splits)
  qed
qed

lemma provision_approved:
  assumes "sessions_ok db" "provision_session_for_login_request env i q token user pl home
      (if settled then settle_recovery r (change_request k (\<lambda>x. x\<lparr>lr_status := LR_APPROVED, lr_resolved_by := by\<rparr>) db)
       else change_request k (\<lambda>x. x\<lparr>lr_status := LR_APPROVED, lr_resolved_by := by\<rparr>) db) = (x, db1)"
  shows "approved_in db1 k"
proof -
  let ?db = "if settled then settle_recovery r (change_request k (\<lambda>x. x\<lparr>lr_status := LR_APPROVED, lr_resolved_by := by\<rparr>) db)
    else change_request k (\<lambda>x. x\<lparr>lr_status := LR_APPROVED, lr_resolved_by := by\<rparr>) db"
  have "sessions_ok ?db" by (rule same_ok [OF _ assms(1)]) simp
  then have "sd_requests db1 = sd_requests ?db" using provision_ok [OF _ assms(2)] by blast
  then have r: "sd_requests db1 =
      map (\<lambda>q. if lr_id q = k then q\<lparr>lr_status := LR_APPROVED, lr_resolved_by := by\<rparr> else q) (sd_requests db)"
    by (cases settled) simp_all
  show ?thesis unfolding approved_in_def r set_map by (auto simp del: if_image_distrib)
qed

lemma device_approval:
  assumes "sessions_ok db" "approve_request env i u k token db = (Inr s, db1)"
  shows "approved_in db1 k"
proof -
  obtain p home where "approve_login_request env i k p token WEB home db = (Inr s, db1)"
    using assms(2) by (auto simp: approve_request_def split: if_splits sum.splits option.splits)
  then obtain q user where "provision_session_for_login_request env i q token user WEB home
      (change_request k (\<lambda>r. r\<lparr>lr_status := LR_APPROVED, lr_resolved_by := Some (us_id p)\<rparr>) db) = (Inr s, db1)"
    by (auto simp: approve_login_request_def split: if_splits sum.splits option.splits prod.splits)
  then show ?thesis by (intro provision_approved [OF assms(1), where settled = False]) simp
qed

lemma admin_approval:
  assumes "sessions_ok db" "requests_ok db" "approve_single_session_recovery env i admin j token db = (Inr s, db1)"
    and r0: "r0 \<in> set (sd_recoveries db)" "rr_id r0 = j" "rr_login_request_id r0 = Some k"
  shows "approved_in db1 k"
proof -
  obtain r v q r' user where h: "ensure_recovery_admin_access env admin j db = (Inr (r, v), db)"
      "rr_login_request_id r = Some (lr_id q)"
      "provision_session_for_login_request env i q token user WEB (lr_home_server q)
         (settle_recovery r' (change_request (lr_id q) (\<lambda>q. q\<lparr>lr_status := LR_APPROVED, lr_resolved_by := None\<rparr>) db)) = (Inr s, db1)"
    using accept_cases [OF assms(3)] by blast
  have "r = r0" using admin_access_step(2) [OF h(1)] r0 recovery_unique [OF requests_okD(2) [OF assms(2)]] by blast
  then have "lr_id q = k" using h(2) r0(3) by simp
  then show ?thesis using h(3) by (intro provision_approved [OF assms(1), where settled = True]) simp
qed

text \<open>C35: A login request admits at most one session: after it was approved from a device or by an administrator, both ways
  refuse it for ever and change nothing.\<close>

theorem login_request_admits_once:
  assumes "reachable fresh_tables (session_step J) db"
    and "approve_request env i u k token db = (Inr s, db1) \<or>
      approve_single_session_recovery env i admin j token db = (Inr s, db1) \<and>
        (\<exists>r \<in> set (sd_recoveries db). rr_id r = j \<and> rr_login_request_id r = Some k)"
    and "(session_step I)\<^sup>*\<^sup>* db1 db2" and "find_request db2 k \<noteq> None"
  shows "(\<exists>e. approve_request env' i' u' k token' db2 = (Inl e, db2)) \<and>
    ((\<forall>r \<in> set (sd_recoveries db2). rr_id r = j' \<longrightarrow> rr_login_request_id r = Some k) \<longrightarrow>
       (\<exists>e. approve_single_session_recovery env' i' admin' j' token' db2 = (Inl e, db2)))"
proof -
  have ok: "all_ok db" using assms(1) by (rule accounts.reachable_invar)
  then have sok: "sessions_ok db" "requests_ok db" by (simp_all add: all_ok_def)
  have "session_step {i} db db1" using assms(2) session_step.approve session_step.accept by (metis insertI1)
  then have ok1: "all_ok db1" by (rule all_ok_step [OF ok])
  have a1: "approved_in db1 k" using assms(2) device_approval [OF sok(1)] admin_approval [OF sok] by blast
  have "approved_in db2 k"
    using request_history [OF assms(3) ok1] a1 by (fastforce simp: approved_in_def request_moves_def)
  then show ?thesis using approved_refuses [of db2 k] request_history [OF assms(3) ok1] assms(4) by blast
qed

text \<open>A login request of another account is invisible: approving and rejecting it answer exactly as for a request that
  does not exist, and change nothing.\<close>

theorem foreign_request_is_invisible:
  assumes "find_request db k = Some q" and "lr_user_id q \<noteq> u" and "find_request db absent = None"
  shows "approve_request env i u k token db = approve_request env i u absent token db \<and>
    reject_request env u k db = reject_request env u absent db \<and>
    snd (approve_request env i u k token db) = db \<and> snd (reject_request env u k db) = db"
proof -
  have "us_user_id s = u" if "primary_session_of db u = Inr (Some s)" for s
  proof -
    have "s \<in> set (filter (\<lambda>s. us_user_id s = u \<and> us_is_primary s \<and> us_is_active s) (sd_sessions db))"
      using that by (simp add: primary_session_of_def scalar_one_or_none_Some)
    then show ?thesis by simp
  qed
  then show ?thesis using assms
    by (auto simp: approve_request_def reject_request_def reject_login_request_def is_login_request_resolvable_by_def
        split: sum.splits option.splits)
qed

section \<open>Concrete requests\<close>

definition sample_approved :: session_db where
  "sample_approved = snd (approve_request sample_session_env 3 7 90 ''t3'' sample_logged_in)"

theorem login_request_admits_once_witness:
  "\<exists>e. approve_request sample_session_env 4 7 90 ''t4'' sample_approved = (Inl e, sample_approved)"
proof -
  let ?r = "approve_request sample_session_env 3 7 90 ''t3'' sample_logged_in"
  have "case fst ?r of Inr s \<Rightarrow> True | _ \<Rightarrow> False" by code_simp
  then obtain s where "fst ?r = Inr s" by (auto split: sum.splits)
  then have a: "?r = (Inr s, sample_approved)" unfolding sample_approved_def by (metis prod.collapse)
  have "find_request sample_approved 90 \<noteq> None" by code_simp
  then show ?thesis
    using login_request_admits_once [OF sample_login_reachable disjI1 [OF a] rtranclp.rtrancl_refl, of sample_session_env 4 7 "''t4''"]
    by simp
qed

theorem foreign_request_is_invisible_witness:
  "snd (approve_request sample_session_env 3 8 90 ''t'' sample_logged_in) = sample_logged_in"
proof -
  have f: "find_request sample_logged_in 90 = Some sample_login_request" "find_request sample_logged_in 91 = None" by code_simp+
  have u: "lr_user_id sample_login_request \<noteq> 8" by (simp add: sample_login_request_def)
  show ?thesis using foreign_request_is_invisible [OF f(1) u f(2)] by blast
qed

definition sample_admin :: session_user where
  "sample_admin = \<lparr>su_id = 1, su_role = SUPER_ADMIN, su_max_sessions = 1, su_inactive = False, su_is_deleted = False\<rparr>"

definition sample_recovery_env :: session_env where
  "sample_recovery_env = sample_session_env\<lparr>se_users := [sample_account, sample_admin]\<rparr>"

definition sample_recovering :: session_db where
  "sample_recovering = snd (start_single_session_recovery sample_recovery_env 5 (\<lambda>a. None) 90 sample_logged_in)"

definition sample_refused :: session_db where
  "sample_refused = snd (reject_single_session_recovery sample_recovery_env sample_admin 5 sample_recovering)"

lemma sample_refused_reachable: "reachable fresh_tables (session_step {1, 2, 3, 5}) sample_refused"
proof -
  have "session_step {1, 2, 3, 5} sample_session_tables sample_logged_in"
    unfolding sample_logged_in_def by (rule session_step.login [OF surjective_pairing]) simp
  moreover have "session_step {1, 2, 3, 5} sample_logged_in sample_recovering"
    unfolding sample_recovering_def by (rule session_step.start [OF surjective_pairing]) simp
  moreover have "session_step {1, 2, 3, 5} sample_recovering sample_refused"
    unfolding sample_refused_def by (rule session_step.refuse [OF surjective_pairing])
  moreover have "reachable fresh_tables (session_step {1, 2, 3, 5}) sample_session_tables"
    by (rule reachable_init) (simp add: fresh_tables_def sample_session_tables_def)
  ultimately show ?thesis by (blast intro: reachable_step)
qed

theorem login_decisions_are_final_witness:
  "\<exists>r q. sd_recoveries sample_refused = [r] \<and> sd_requests sample_refused = [q] \<and> lr_status q = LR_REJECTED \<and>
     rr_status r = RECOVERY_REJECTED \<and>
     (\<exists>r' q'. sd_recoveries (snd (cancel_single_session_recovery sample_recovery_env 90 sample_refused)) = [r'] \<and>
        sd_requests (snd (cancel_single_session_recovery sample_recovery_env 90 sample_refused)) = [q'] \<and>
        lr_status q' = LR_REJECTED \<and> rr_status r' = RECOVERY_REJECTED)"
proof -
  let ?db' = "snd (cancel_single_session_recovery sample_recovery_env 90 sample_refused)"
  have m: "map lr_id (sd_requests sample_refused) = [90]" "map rr_id (sd_recoveries sample_refused) = [5]"
    "map lr_id (sd_requests ?db') = [90]" "map rr_id (sd_recoveries ?db') = [5]"
    "map lr_status (sd_requests sample_refused) = [LR_REJECTED]" "map rr_status (sd_recoveries sample_refused) = [RECOVERY_REJECTED]"
    by code_simp+
  obtain q r q' r' where l: "sd_requests sample_refused = [q]" "sd_recoveries sample_refused = [r]" "sd_requests ?db' = [q']"
      "sd_recoveries ?db' = [r']" using m(1-4) by (auto simp: Cons_eq_map_conv)
  have s: "(session_step {})\<^sup>*\<^sup>* sample_refused ?db'" by (rule r_into_rtranclp, rule session_step.cancel [OF surjective_pairing])
  have t: "is_terminal_recovery_status RECOVERY_REJECTED" by code_simp
  show ?thesis
    using login_decisions_are_final [OF sample_refused_reachable s, of q q' r r'] m l t by simp
qed

end
