(* ===== verification/DeliveryLimiter.thy ===== *)
theory DeliveryLimiter
  imports DeliveryResult PublisherDispatch
begin

text \<open>
  The admission control of the delivery queue: \<open>core/telegram_delivery_queue_limiter.py\<close>.  Its state lives in Redis;
  every operation is one atomic script or one command there, and time is the time of the Redis server in
  milliseconds.  A key holds a value with an optional expiry.  The digests of destinations and jobs are
  arguments, as is whether Redis answers.
\<close>

section \<open>Redis\<close>

text \<open>The keys of the limiter, by the names under which the code builds them.\<close>

datatype limiter_key =
    BotNext string | DestinationNext string | BotBlock string | DestinationBlock string string | GatewayBlock
  | Recent429 string | ProbeRequired string | ProbeInflight string

fun key_text :: "string \<Rightarrow> limiter_key \<Rightarrow> string" where
  "key_text prefix (BotNext b) = prefix @ '':bot:'' @ b @ '':next''"
| "key_text prefix (DestinationNext d) = prefix @ '':destination:'' @ d @ '':next''"
| "key_text prefix (BotBlock b) = prefix @ '':bot:'' @ b @ '':blocked''"
| "key_text prefix (DestinationBlock b d) = prefix @ '':bot:'' @ b @ '':destination:'' @ d @ '':blocked''"
| "key_text prefix GatewayBlock = prefix @ '':gateway:blocked''"
| "key_text prefix (Recent429 b) = prefix @ '':bot:'' @ b @ '':recent-429''"
| "key_text prefix (ProbeRequired b) = prefix @ '':bot:'' @ b @ '':probe-required''"
| "key_text prefix (ProbeInflight b) = prefix @ '':bot:'' @ b @ '':probe-inflight''"

text \<open>Values: numbers, texts and the hash of recent rate limits (destination, seen at, retry until).\<close>

datatype redis_value = RNum int | RText string | RHash "(string, int \<times> int) dict"

type_synonym redis = "limiter_key \<Rightarrow> (redis_value \<times> int option) option"

definition live :: "int \<Rightarrow> redis \<Rightarrow> limiter_key \<Rightarrow> redis_value option" where
  "live now db k =
     (case db k of
        None \<Rightarrow> None
      | Some (v, None) \<Rightarrow> Some v
      | Some (v, Some expiry) \<Rightarrow> (if now < expiry then Some v else None))"

definition key_exists :: "int \<Rightarrow> redis \<Rightarrow> limiter_key \<Rightarrow> bool" where
  "key_exists now db k \<longleftrightarrow> live now db k \<noteq> None"

text \<open>\<open>tonumber(redis.call('get', key) or '0')\<close>.\<close>

definition get_num :: "int \<Rightarrow> redis \<Rightarrow> limiter_key \<Rightarrow> int" where
  "get_num now db k = (case live now db k of Some (RNum n) \<Rightarrow> n | _ \<Rightarrow> 0)"

definition get_text :: "int \<Rightarrow> redis \<Rightarrow> limiter_key \<Rightarrow> string option" where
  "get_text now db k = (case live now db k of Some (RText s) \<Rightarrow> Some s | _ \<Rightarrow> None)"

definition get_hash :: "int \<Rightarrow> redis \<Rightarrow> limiter_key \<Rightarrow> (string, int \<times> int) dict" where
  "get_hash now db k = (case live now db k of Some (RHash h) \<Rightarrow> h | _ \<Rightarrow> [])"

definition set_px :: "int \<Rightarrow> limiter_key \<Rightarrow> redis_value \<Rightarrow> int \<Rightarrow> redis \<Rightarrow> redis" where
  "set_px now k v ttl_ms db = db(k \<mapsto> (v, Some (now + ttl_ms)))"

definition set_plain :: "limiter_key \<Rightarrow> redis_value \<Rightarrow> redis \<Rightarrow> redis" where
  "set_plain k v db = db(k \<mapsto> (v, None))"

definition del :: "limiter_key \<Rightarrow> redis \<Rightarrow> redis" where
  "del k db = db(k := None)"

section \<open>Scripts\<close>

text \<open>The remaining life of a key in milliseconds (\<open>PTTL\<close>), \<open>-1\<close> without expiry.\<close>

definition pttl :: "int \<Rightarrow> redis \<Rightarrow> limiter_key \<Rightarrow> int" where
  "pttl now db k =
     (case db k of Some (v, Some expiry) \<Rightarrow> (if now < expiry then expiry - now else -2) | Some (v, None) \<Rightarrow> -1 | None \<Rightarrow> -2)"

text \<open>The answer of the admission script: state, not-before, reason and time.\<close>

type_synonym admission_reply = "int \<times> int \<times> int \<times> int"

record admit_args =
  aa_bot_interval_ms :: int
  aa_destination_interval_ms :: int
  aa_ttl_ms :: int
  aa_job_digest :: string
  aa_probe_lease_ms :: int

definition admit_paced :: "int \<Rightarrow> string \<Rightarrow> string \<Rightarrow> admit_args \<Rightarrow> redis \<Rightarrow> admission_reply \<times> redis" where
  "admit_paced now_ms b d args db =
     (let bot_next = get_num now_ms db (BotNext b);
          destination_next = get_num now_ms db (DestinationNext d);
          not_before = max bot_next destination_next
      in if not_before > now_ms
         then ((0, not_before, if destination_next \<ge> bot_next then 2 else 1, now_ms), db)
         else
           (let db1 = set_px now_ms (BotNext b) (RNum (now_ms + aa_bot_interval_ms args)) (aa_ttl_ms args) db;
                db2 = set_px now_ms (DestinationNext d) (RNum (now_ms + aa_destination_interval_ms args)) (aa_ttl_ms args) db1
            in if key_exists now_ms db2 (ProbeRequired b)
               then ((2, now_ms, 0, now_ms),
                     set_px now_ms (ProbeInflight b) (RText (aa_job_digest args)) (aa_probe_lease_ms args) db2)
               else ((1, now_ms, 0, now_ms), db2)))"

definition ADMIT_SCRIPT :: "int \<Rightarrow> string \<Rightarrow> string \<Rightarrow> admit_args \<Rightarrow> redis \<Rightarrow> admission_reply \<times> redis" where
  "ADMIT_SCRIPT now_ms b d args db =
     (if key_exists now_ms db GatewayBlock then ((-1, 0, 3, now_ms), db)
      else if key_exists now_ms db (BotBlock b) then ((-1, 0, 1, now_ms), db)
      else if key_exists now_ms db (DestinationBlock b d) then ((-1, 0, 2, now_ms), db)
      else if key_exists now_ms db (ProbeInflight b)
      then if pttl now_ms db (ProbeInflight b) > 0
           then ((0, now_ms + pttl now_ms db (ProbeInflight b), 4, now_ms), db)
           else admit_paced now_ms b d args (del (ProbeInflight b) db)
      else admit_paced now_ms b d args db)"

definition set_max :: "int \<Rightarrow> limiter_key \<Rightarrow> int \<Rightarrow> int \<Rightarrow> redis \<Rightarrow> int \<times> redis" where
  "set_max now_ms k candidate ttl_ms db =
     (let current = get_num now_ms db k
      in if candidate > current then (candidate, set_px now_ms k (RNum candidate) ttl_ms db) else (current, db))"

record rate_limit_args =
  ra_retry_ms :: int
  ra_window_ms :: int
  ra_probe_delay_ms :: int
  ra_durable_bot_delay_ms :: int
  ra_job_digest :: string
  ra_ttl_ms :: int

text \<open>The recent rate limits of a bot that are still in the window.\<close>

definition recent_entries :: "int \<Rightarrow> int \<Rightarrow> (string, int \<times> int) dict \<Rightarrow> (string, int \<times> int) dict" where
  "recent_entries now_ms window_ms h = filter (\<lambda>(d, seen_at, r). seen_at \<le> now_ms \<and> now_ms - seen_at \<le> window_ms) h"

text \<open>The new rate limit enters the hash; the latest retry and the number of distinct destinations are returned.\<close>

definition note_429 :: "int \<Rightarrow> string \<Rightarrow> string \<Rightarrow> rate_limit_args \<Rightarrow> redis \<Rightarrow> int \<times> nat \<times> redis" where
  "note_429 now_ms b d args db =
     (let retry_until_ms = now_ms + ra_retry_ms args;
          recent = recent_entries now_ms (ra_window_ms args) (get_hash now_ms db (Recent429 b));
          maximum_retry = fold (\<lambda>(x, s, r) acc. if r > acc then r else acc) recent retry_until_ms;
          distinct_count = length recent + (if dict_get recent d = None then 1 else 0)
      in (maximum_retry, distinct_count,
          set_px now_ms (Recent429 b) (RHash (dict_put d (now_ms, retry_until_ms) recent)) (ra_ttl_ms args) db))"

definition RECORD_429_SCRIPT ::
  "int \<Rightarrow> string \<Rightarrow> string \<Rightarrow> rate_limit_args \<Rightarrow> redis \<Rightarrow> (int \<times> int) \<times> redis" where
  "RECORD_429_SCRIPT now_ms b d args db =
     (let durable_bot_until_ms = (if ra_durable_bot_delay_ms args > 0 then now_ms + ra_durable_bot_delay_ms args else 0);
          ttl_ms = ra_ttl_ms args;
          db1 = (if get_text now_ms db (ProbeInflight b) = Some (ra_job_digest args) then del (ProbeInflight b) db else db);
          db2 = snd (set_max now_ms (DestinationNext d) (now_ms + ra_retry_ms args) ttl_ms db1);
          db3 = (if durable_bot_until_ms > 0 then snd (set_max now_ms (BotNext b) durable_bot_until_ms ttl_ms db2) else db2)
      in case note_429 now_ms b d args db3 of
           (maximum_retry, distinct_count, db4) \<Rightarrow>
             if distinct_count \<ge> 2 \<or> durable_bot_until_ms > now_ms
             then (let (blocked_until, db5) = set_max now_ms (BotNext b) maximum_retry ttl_ms (del (ProbeRequired b) db4)
                   in ((2, blocked_until), db5))
             else (let (probe_at, db5) = set_max now_ms (BotNext b) (now_ms + ra_probe_delay_ms args) ttl_ms db4
                   in ((1, probe_at), set_px now_ms (ProbeRequired b) (RText ''required'') ttl_ms db5)))"

definition CLEAR_PROBE_SCRIPT :: "int \<Rightarrow> string \<Rightarrow> string \<Rightarrow> redis \<Rightarrow> redis" where
  "CLEAR_PROBE_SCRIPT now_ms b job_digest db =
     (if get_text now_ms db (ProbeInflight b) = Some job_digest then del (ProbeRequired b) (del (ProbeInflight b) db) else db)"

definition RELEASE_PROBE_SCRIPT :: "int \<Rightarrow> string \<Rightarrow> string \<Rightarrow> int \<Rightarrow> redis \<Rightarrow> redis" where
  "RELEASE_PROBE_SCRIPT now_ms b job_digest ttl_ms db =
     (if get_text now_ms db (ProbeInflight b) = Some job_digest
      then set_px now_ms (ProbeRequired b) (RText ''required'') ttl_ms (del (ProbeInflight b) db) else db)"

definition PREPARE_PREFLIGHT_SCRIPT :: "int \<Rightarrow> string \<Rightarrow> redis \<Rightarrow> bool \<times> redis" where
  "PREPARE_PREFLIGHT_SCRIPT now_ms b db =
     (if key_exists now_ms db (ProbeInflight b) then (False, db)
      else if get_num now_ms db (BotNext b) > now_ms then (False, db)
      else (True, del (ProbeRequired b) db))"

definition PREFLIGHT_GATE_SCRIPT :: "int \<Rightarrow> string \<Rightarrow> redis \<Rightarrow> bool" where
  "PREFLIGHT_GATE_SCRIPT now_ms b db \<longleftrightarrow>
     \<not> (key_exists now_ms db (ProbeInflight b) \<or> key_exists now_ms db (ProbeRequired b))"

definition SET_MAX_SCRIPT :: "int \<Rightarrow> limiter_key \<Rightarrow> int \<Rightarrow> int \<Rightarrow> redis \<Rightarrow> int \<times> redis" where
  "SET_MAX_SCRIPT now_ms k candidate ttl_ms db =
     (let current = get_num now_ms db k
      in if candidate > current
         then (candidate, set_px now_ms k (RNum candidate) (max ttl_ms (candidate - now_ms + 60000)) db)
         else (current, db))"

section \<open>The limiter\<close>

definition TELEGRAM_DELIVERY_LIMITER_PREFIX :: string where
  "TELEGRAM_DELIVERY_LIMITER_PREFIX = ''telegram:delivery:v1''"

definition SUPPORTED_TELEGRAM_BOT_IDENTITIES :: "string list" where
  "SUPPORTED_TELEGRAM_BOT_IDENTITIES = ''primary'' # ''channel_editor'' # TELEGRAM_PUBLISHER_IDENTITIES"

record limiter_config =
  lc_bot_min_interval_seconds :: rat
  lc_destination_min_interval_seconds :: rat
  lc_rate_limit_probe_delay_seconds :: rat
  lc_global_rate_limit_window_seconds :: rat
  lc_rate_limit_probe_lease_seconds :: rat
  lc_key_ttl_seconds :: int

record limiter =
  lm_redis :: redis
  lm_local_block_reason :: bool

datatype limiter_error =
    LocalBlock | BotNotAllowlisted | DestinationMissing | JobIdentityMissing | TimestampNaive | RedisUnavailable
  | InvalidSetting

text \<open>The checks of \<open>__post_init__\<close>.\<close>

definition config_ok :: "limiter_config \<Rightarrow> bool" where
  "config_ok c \<longleftrightarrow>
     0 < lc_bot_min_interval_seconds c \<and> 0 < lc_destination_min_interval_seconds c \<and>
     0 < lc_rate_limit_probe_delay_seconds c \<and> 0 < lc_global_rate_limit_window_seconds c \<and>
     0 < lc_rate_limit_probe_lease_seconds c \<and> 1 \<le> lc_key_ttl_seconds c"

definition ms_of :: "rat \<Rightarrow> int" where
  "ms_of seconds = rat_trunc (seconds * 1000)"

definition ttl_ms :: "limiter_config \<Rightarrow> int" where
  "ttl_ms c =
     (let longest_control_seconds =
        max (lc_bot_min_interval_seconds c) (max (lc_destination_min_interval_seconds c)
          (max (lc_rate_limit_probe_delay_seconds c)
            (max (lc_global_rate_limit_window_seconds c) (lc_rate_limit_probe_lease_seconds c))))
      in max 1000 (max (lc_key_ttl_seconds c * 1000) (ms_of longest_control_seconds + 60000)))"

definition epoch_ms :: "pydt \<Rightarrow> int option" where
  "epoch_ms t = map_option (\<lambda>us. us div 1000) (utc_of t)"

record limiter_job =
  lj_bot_identity :: "string option"
  lj_destination_key :: "string option"
  lj_id :: "string option"
  lj_job_id :: "string option"
  lj_dedupe_key :: "string option"

definition validate_bot :: "string option \<Rightarrow> limiter_error + string" where
  "validate_bot v =
     (let bot_identity = py_strip (case v of None \<Rightarrow> [] | Some s \<Rightarrow> s)
      in if bot_identity \<notin> set SUPPORTED_TELEGRAM_BOT_IDENTITIES then Inl BotNotAllowlisted else Inr bot_identity)"

definition validate_job_identity :: "(string \<Rightarrow> string) \<Rightarrow> limiter_job \<Rightarrow> limiter_error + string \<times> string" where
  "validate_job_identity digest job =
     (case validate_bot (lj_bot_identity job) of
        Inl e \<Rightarrow> Inl e
      | Inr bot_identity \<Rightarrow>
          (let destination_key = py_strip (case lj_destination_key job of None \<Rightarrow> [] | Some s \<Rightarrow> s)
           in if destination_key = [] then Inl DestinationMissing else Inr (bot_identity, digest destination_key)))"

fun first_truthy :: "string option list \<Rightarrow> string option" where
  "first_truthy [] = None"
| "first_truthy [v] = v"
| "first_truthy (v # rest) = (case v of Some s \<Rightarrow> (if s = [] then first_truthy rest else Some s) | None \<Rightarrow> first_truthy rest)"

definition job_digest_of :: "(string \<Rightarrow> string) \<Rightarrow> limiter_job \<Rightarrow> limiter_error + string" where
  "job_digest_of digest job =
     (case first_truthy [lj_id job, lj_job_id job, lj_dedupe_key job] of
        None \<Rightarrow> Inl JobIdentityMissing
      | Some s \<Rightarrow> (if py_strip s = [] then Inl JobIdentityMissing else Inr (digest s)))"

record admission =
  ad_allowed :: bool
  ad_retry_after_ms :: "int option"
  ad_wait_reason :: "string option"
  ad_not_before_ms :: "int option"
  ad_is_rate_limit_probe :: bool

definition admit_args_of :: "limiter_config \<Rightarrow> string \<Rightarrow> admit_args" where
  "admit_args_of c job_digest =
     \<lparr>aa_bot_interval_ms = max 1 (ms_of (lc_bot_min_interval_seconds c)),
      aa_destination_interval_ms = max 1 (ms_of (lc_destination_min_interval_seconds c)), aa_ttl_ms = ttl_ms c,
      aa_job_digest = job_digest, aa_probe_lease_ms = max 1 (ms_of (lc_rate_limit_probe_lease_seconds c))\<rparr>"

definition wait_reason :: "int \<Rightarrow> string" where
  "wait_reason code =
     (if code = 1 then ''bot_lane'' else if code = 2 then ''destination_gate'' else if code = 3 then ''circuit''
      else ''bot_probe_inflight'')"

text \<open>Reading the reply of the script.\<close>

definition admission_of_reply :: "admission_reply \<Rightarrow> admission" where
  "admission_of_reply r =
     (case r of (state, not_before_ms, reason_code, redis_now_ms) \<Rightarrow>
        if state = 1 \<or> state = 2
        then \<lparr>ad_allowed = True, ad_retry_after_ms = None, ad_wait_reason = None, ad_not_before_ms = None,
              ad_is_rate_limit_probe = (state = 2)\<rparr>
        else if state = -1
        then \<lparr>ad_allowed = False, ad_retry_after_ms = Some 30000, ad_wait_reason = Some (wait_reason reason_code),
              ad_not_before_ms = None, ad_is_rate_limit_probe = False\<rparr>
        else \<lparr>ad_allowed = False, ad_retry_after_ms = Some (max 1 (not_before_ms - redis_now_ms)),
              ad_wait_reason = Some (wait_reason reason_code), ad_not_before_ms = Some not_before_ms,
              ad_is_rate_limit_probe = False\<rparr>)"

text \<open>The check of the reply before it is used.\<close>

definition reply_ok :: "admission_reply \<Rightarrow> bool" where
  "reply_ok r \<longleftrightarrow>
     (case r of (state, not_before_ms, reason_code, redis_now_ms) \<Rightarrow>
        state \<in> {-1, 0, 1, 2} \<and> (state \<in> {1, 2} \<longrightarrow> reason_code = 0) \<and>
        (state = 0 \<longrightarrow> reason_code \<in> {1, 2, 4} \<and> not_before_ms > redis_now_ms) \<and>
        (state = -1 \<longrightarrow> reason_code \<in> {1, 2, 3}))"

definition fail_closed :: "limiter \<Rightarrow> (limiter_error + 'a) \<times> limiter" where
  "fail_closed lm = (Inl RedisUnavailable, lm\<lparr>lm_local_block_reason := True\<rparr>)"

text \<open>\<open>up\<close> says whether Redis answers, \<open>now_ms\<close> is its time.\<close>

definition acquire ::
  "limiter_config \<Rightarrow> (string \<Rightarrow> string) \<Rightarrow> bool \<Rightarrow> int \<Rightarrow> limiter_job \<Rightarrow> pydt \<Rightarrow> limiter
     \<Rightarrow> (limiter_error + admission) \<times> limiter" where
  "acquire c digest up now_ms job now lm =
     (if lm_local_block_reason lm then (Inl LocalBlock, lm)
      else case validate_job_identity digest job of
        Inl e \<Rightarrow> (Inl e, lm)
      | Inr (b, d) \<Rightarrow>
          (case job_digest_of digest job of
             Inl e \<Rightarrow> (Inl e, lm)
           | Inr j \<Rightarrow>
               (if epoch_ms now = None then (Inl TimestampNaive, lm)
                else if \<not> up then fail_closed lm
                else case ADMIT_SCRIPT now_ms b d (admit_args_of c j) (lm_redis lm) of
                  (r, db) \<Rightarrow>
                    (if \<not> reply_ok r then fail_closed (lm\<lparr>lm_redis := db\<rparr>)
                     else (Inr (admission_of_reply r), lm\<lparr>lm_redis := db\<rparr>)))))"

definition RATE_LIMITED :: string where
  "RATE_LIMITED = ''telegram_rate_limited''"

definition PROBE_CANCELLED :: string where
  "PROBE_CANCELLED = ''rate_limit_probe_cancelled_before_dispatch''"

text \<open>The arguments of the rate limit script: the cooldowns of the decision relative to the clock of the worker, in
  milliseconds.  Decision times are microseconds.\<close>

definition rate_limit_args_of ::
  "limiter_config \<Rightarrow> string \<Rightarrow> int \<Rightarrow> int \<Rightarrow> int option \<Rightarrow> rate_limit_args" where
  "rate_limit_args_of c job_digest now_us destination_until_us bot_until_us =
     (let ttl_until = (case bot_until_us of Some t \<Rightarrow> max t destination_until_us | None \<Rightarrow> destination_until_us)
      in \<lparr>ra_retry_ms = max 1 (destination_until_us div 1000 - now_us div 1000),
          ra_window_ms = max 1 (ms_of (lc_global_rate_limit_window_seconds c)),
          ra_probe_delay_ms = max 1 (ms_of (lc_rate_limit_probe_delay_seconds c)),
          ra_durable_bot_delay_ms = (case bot_until_us of Some t \<Rightarrow> max 1 (t div 1000 - now_us div 1000) | None \<Rightarrow> 0),
          ra_job_digest = job_digest,
          ra_ttl_ms = max (ttl_ms c) (ttl_until div 1000 - now_us div 1000 + 60000)\<rparr>)"

definition blocked_text :: "string \<Rightarrow> redis_value" where
  "blocked_text reason = RText (if reason = [] then ''blocked'' else reason)"

text \<open>The write of \<open>observe\<close> for a decision; \<open>None\<close> when the decision writes nothing.\<close>

definition observe_first ::
  "limiter_config \<Rightarrow> int \<Rightarrow> string \<Rightarrow> string \<Rightarrow> string \<Rightarrow> int \<Rightarrow> delivery_decision \<Rightarrow> redis \<Rightarrow> redis option" where
  "observe_first c now_ms b d j now_us dec db =
     (if dd_reason dec = PROBE_CANCELLED then Some (RELEASE_PROBE_SCRIPT now_ms b j (ttl_ms c) db)
      else case (dd_reason dec = RATE_LIMITED, dd_destination_cooldown_until dec) of
        (True, Some until) \<Rightarrow>
          Some (snd (RECORD_429_SCRIPT now_ms b d (rate_limit_args_of c j now_us until (dd_bot_cooldown_until dec)) db))
      | _ \<Rightarrow>
          (if dd_outcome dec = OUT_BOT_PAUSED then Some (set_plain (BotBlock b) (blocked_text (dd_reason dec)) db)
           else if dd_outcome dec = OUT_DESTINATION_PAUSED
           then Some (set_plain (DestinationBlock b d) (blocked_text (dd_reason dec)) db)
           else if dd_outcome dec = OUT_GATEWAY_PAUSED then Some (set_plain GatewayBlock (blocked_text (dd_reason dec)) db)
           else None))"

text \<open>The second call of \<open>observe\<close>, which ends a probe; it can fail after the first has been done.\<close>

definition observe_clear ::
  "bool \<Rightarrow> int \<Rightarrow> string \<Rightarrow> string \<Rightarrow> delivery_decision \<Rightarrow> limiter \<Rightarrow> (limiter_error + unit) \<times> limiter" where
  "observe_clear up now_ms b j dec lm =
     (if dd_reason dec \<notin> {RATE_LIMITED, PROBE_CANCELLED}
      then if \<not> up then fail_closed lm else (Inr (), lm\<lparr>lm_redis := CLEAR_PROBE_SCRIPT now_ms b j (lm_redis lm)\<rparr>)
      else (Inr (), lm))"

definition observe ::
  "limiter_config \<Rightarrow> (string \<Rightarrow> string) \<Rightarrow> bool \<Rightarrow> bool \<Rightarrow> int \<Rightarrow> limiter_job \<Rightarrow> delivery_decision \<Rightarrow> int \<Rightarrow> limiter
     \<Rightarrow> (limiter_error + unit) \<times> limiter" where
  "observe c digest up clear_up now_ms job dec now_us lm =
     (case validate_job_identity digest job of
        Inl e \<Rightarrow> (Inl e, lm)
      | Inr (b, d) \<Rightarrow>
          (case job_digest_of digest job of
             Inl e \<Rightarrow> (Inl e, lm)
           | Inr j \<Rightarrow>
               (case observe_first c now_ms b d j now_us dec (lm_redis lm) of
                  None \<Rightarrow> observe_clear clear_up now_ms b j dec lm
                | Some db \<Rightarrow>
                    (if \<not> up then fail_closed lm
                     else observe_clear clear_up now_ms b j dec (lm\<lparr>lm_redis := db\<rparr>)))))"

definition extend_destination_cooldown ::
  "limiter_config \<Rightarrow> (string \<Rightarrow> string) \<Rightarrow> bool \<Rightarrow> int \<Rightarrow> limiter_job \<Rightarrow> int \<Rightarrow> limiter \<Rightarrow> (limiter_error + unit) \<times> limiter" where
  "extend_destination_cooldown c digest up now_ms job until_us lm =
     (case validate_job_identity digest job of
        Inl e \<Rightarrow> (Inl e, lm)
      | Inr (b, d) \<Rightarrow>
          (if \<not> up then fail_closed lm
           else (Inr (), lm\<lparr>lm_redis := snd (SET_MAX_SCRIPT now_ms (DestinationNext d) (until_us div 1000) (ttl_ms c) (lm_redis lm))\<rparr>)))"

definition extend_bot_cooldown ::
  "limiter_config \<Rightarrow> bool \<Rightarrow> int \<Rightarrow> string option \<Rightarrow> int \<Rightarrow> limiter \<Rightarrow> (limiter_error + unit) \<times> limiter" where
  "extend_bot_cooldown c up now_ms bot_identity until_us lm =
     (case validate_bot bot_identity of
        Inl e \<Rightarrow> (Inl e, lm)
      | Inr b \<Rightarrow>
          (if \<not> up then fail_closed lm
           else (Inr (), lm\<lparr>lm_redis := snd (SET_MAX_SCRIPT now_ms (BotNext b) (until_us div 1000) (ttl_ms c) (lm_redis lm))\<rparr>)))"

definition prepare_preflight :: "bool \<Rightarrow> int \<Rightarrow> string option \<Rightarrow> limiter \<Rightarrow> (limiter_error + bool) \<times> limiter" where
  "prepare_preflight up now_ms bot_identity lm =
     (case validate_bot bot_identity of
        Inl e \<Rightarrow> (Inl e, lm)
      | Inr b \<Rightarrow>
          (if \<not> up then fail_closed lm
           else case PREPARE_PREFLIGHT_SCRIPT now_ms b (lm_redis lm) of (ready, db) \<Rightarrow> (Inr ready, lm\<lparr>lm_redis := db\<rparr>)))"

definition preflight_gate_open :: "bool \<Rightarrow> int \<Rightarrow> string option \<Rightarrow> limiter \<Rightarrow> (limiter_error + bool) \<times> limiter" where
  "preflight_gate_open up now_ms bot_identity lm =
     (case validate_bot bot_identity of
        Inl e \<Rightarrow> (Inl e, lm)
      | Inr b \<Rightarrow> (if \<not> up then fail_closed lm else (Inr (PREFLIGHT_GATE_SCRIPT now_ms b (lm_redis lm)), lm)))"

definition resume_delete :: "bool \<Rightarrow> limiter_key list \<Rightarrow> limiter \<Rightarrow> (limiter_error + unit) \<times> limiter" where
  "resume_delete up ks lm =
     (if \<not> up then fail_closed lm
      else (Inr (), lm\<lparr>lm_redis := fold del ks (lm_redis lm), lm_local_block_reason := False\<rparr>))"

definition resume_bot :: "bool \<Rightarrow> string option \<Rightarrow> limiter \<Rightarrow> (limiter_error + unit) \<times> limiter" where
  "resume_bot up bot_identity lm =
     (case validate_bot bot_identity of
        Inl e \<Rightarrow> (Inl e, lm)
      | Inr b \<Rightarrow> resume_delete up [BotBlock b, BotNext b, Recent429 b, ProbeRequired b, ProbeInflight b] lm)"

definition clear_destination_gate_after_database_resume ::
  "(string \<Rightarrow> string) \<Rightarrow> bool \<Rightarrow> string option \<Rightarrow> string option list \<Rightarrow> limiter \<Rightarrow> (limiter_error + unit) \<times> limiter" where
  "clear_destination_gate_after_database_resume digest up destination_key bot_identities lm =
     (let destination = py_strip (case destination_key of None \<Rightarrow> [] | Some s \<Rightarrow> s);
          identities = rev (remdups (rev (map (\<lambda>v. py_strip (case v of None \<Rightarrow> [] | Some s \<Rightarrow> s)) bot_identities)))
      in if destination = [] then (Inl DestinationMissing, lm)
         else if identities = [] \<or> list_ex (\<lambda>i. i \<notin> set SUPPORTED_TELEGRAM_BOT_IDENTITIES) identities
         then (Inl BotNotAllowlisted, lm)
         else resume_delete up
                (map (\<lambda>i. DestinationBlock i (digest destination)) identities @ [DestinationNext (digest destination)]) lm)"

definition resume_destination ::
  "(string \<Rightarrow> string) \<Rightarrow> bool \<Rightarrow> string option \<Rightarrow> limiter \<Rightarrow> (limiter_error + unit) \<times> limiter" where
  "resume_destination digest up destination_key lm =
     clear_destination_gate_after_database_resume digest up destination_key (map Some SUPPORTED_TELEGRAM_BOT_IDENTITIES) lm"

definition resume_gateway :: "bool \<Rightarrow> limiter \<Rightarrow> (limiter_error + unit) \<times> limiter" where
  "resume_gateway up lm = resume_delete up [GatewayBlock] lm"

section \<open>Settings\<close>

record limiter_settings =
  ls_bot_min_interval_seconds :: "rat option"
  ls_destination_min_interval_seconds :: "rat option"
  ls_rate_limit_probe_delay_seconds :: "rat option"
  ls_global_rate_limit_window_seconds :: "rat option"
  ls_worker_lease_seconds :: "rat option"
  ls_worker_request_timeout_seconds :: "rat option"
  ls_limiter_key_ttl_seconds :: "int option"

definition setting_or :: "'a \<Rightarrow> 'a option \<Rightarrow> 'a" where
  "setting_or dflt v = (case v of Some x \<Rightarrow> x | None \<Rightarrow> dflt)"

definition configured_redis_telegram_delivery_limiter :: "limiter_settings \<Rightarrow> limiter_error + limiter_config" where
  "configured_redis_telegram_delivery_limiter s =
     (let c = \<lparr>lc_bot_min_interval_seconds = setting_or (35/1000) (ls_bot_min_interval_seconds s),
         lc_destination_min_interval_seconds = setting_or (105/100) (ls_destination_min_interval_seconds s),
         lc_rate_limit_probe_delay_seconds = setting_or (1/10) (ls_rate_limit_probe_delay_seconds s),
         lc_global_rate_limit_window_seconds = setting_or 2 (ls_global_rate_limit_window_seconds s),
         lc_rate_limit_probe_lease_seconds =
           max 1 (max (setting_or 30 (ls_worker_lease_seconds s)) (setting_or 10 (ls_worker_request_timeout_seconds s) + 5)),
         lc_key_ttl_seconds = setting_or 86400 (ls_limiter_key_ttl_seconds s)\<rparr>
      in if config_ok c then Inr c else Inl InvalidSetting)"

end
