(* ===== verification/DeliveryPacing.thy ===== *)
theory DeliveryPacing
  imports DeliveryLimiter
begin

text \<open>
  Properties of the limiter: the names of its keys do not collide, and what it promises between its operations.  A
  history carries the time of the Redis server, which does not run backwards; operator resumes that delete a
  protected key and observations of protected jobs are left out of it.
\<close>

section \<open>Keys\<close>

fun key_parts :: "limiter_key \<Rightarrow> string list" where
  "key_parts (BotNext b) = [''bot'', b, ''next'']"
| "key_parts (DestinationNext d) = [''destination'', d, ''next'']"
| "key_parts (BotBlock b) = [''bot'', b, ''blocked'']"
| "key_parts (DestinationBlock b d) = [''bot'', b, ''destination'', d, ''blocked'']"
| "key_parts GatewayBlock = [''gateway'', ''blocked'']"
| "key_parts (Recent429 b) = [''bot'', b, ''recent-429'']"
| "key_parts (ProbeRequired b) = [''bot'', b, ''probe-required'']"
| "key_parts (ProbeInflight b) = [''bot'', b, ''probe-inflight'']"

lemma key_text_parts: "key_text p k = p @ concat (map (\<lambda>w. CHR '':'' # w) (key_parts k))"
  by (cases k) simp_all

lemma word_prefix:
  "c \<notin> set v \<Longrightarrow> c \<notin> set w \<Longrightarrow> (x = [] \<or> hd x = c) \<Longrightarrow> (y = [] \<or> hd y = c) \<Longrightarrow> v @ x = w @ y \<Longrightarrow> v = w \<and> x = y"
proof (induction v arbitrary: w)
  case Nil
  then show ?case by (cases w) (auto simp: Cons_eq_append_conv)
next
  case (Cons a v)
  then show ?case by (cases w) auto
qed

lemma joined_words_inj:
  "\<forall>w \<in> set vs. c \<notin> set w \<Longrightarrow> \<forall>w \<in> set ws. c \<notin> set w \<Longrightarrow>
     concat (map (\<lambda>w. c # w) vs) = concat (map (\<lambda>w. c # w) ws) \<Longrightarrow> vs = ws"
proof (induction vs arbitrary: ws)
  case Nil
  then show ?case by (cases ws) auto
next
  case (Cons v vs)
  then obtain w ws' where ws: "ws = w # ws'" by (cases ws) auto
  have start: "concat (map (\<lambda>w. c # w) us) = [] \<or> hd (concat (map (\<lambda>w. c # w) us)) = c" for us by (cases us) auto
  have eq: "v @ concat (map (\<lambda>w. c # w) vs) = w @ concat (map (\<lambda>w. c # w) ws')" using Cons.prems(3) ws by simp
  have nc: "c \<notin> set v" "c \<notin> set w" using Cons.prems(1,2) ws by simp_all
  have "v = w \<and> concat (map (\<lambda>w. c # w) vs) = concat (map (\<lambda>w. c # w) ws')"
    using word_prefix [OF nc start start eq] .
  then show ?case using Cons.IH [of ws'] Cons.prems(1,2) ws by simp
qed

text \<open>Keys of bots and digests without a colon have different names.\<close>

lemma key_text_inj:
  assumes "key_text p k = key_text p k'" "\<forall>w \<in> set (key_parts k) \<union> set (key_parts k'). CHR '':'' \<notin> set w"
  shows "k = k'"
proof -
  have "key_parts k = key_parts k'" using assms by (intro joined_words_inj [of _ "CHR '':''"]) (auto simp: key_text_parts)
  then show ?thesis by (cases k; cases k') auto
qed

section \<open>Histories\<close>

inductive limiter_step ::
  "limiter_config \<Rightarrow> (string \<Rightarrow> string) \<Rightarrow> limiter_key set \<Rightarrow> string set \<Rightarrow> int \<Rightarrow> limiter \<Rightarrow> limiter \<Rightarrow> bool"
  for c digest D J where
  acquire: "acquire c digest up now job t lm = (r, lm') \<Longrightarrow> limiter_step c digest D J now lm lm'"
| observe: "observe c digest up clear_up now job dec t lm = (u, lm') \<Longrightarrow> (\<And>j. job_digest_of digest job = Inr j \<Longrightarrow> j \<notin> J) \<Longrightarrow>
    limiter_step c digest D J now lm lm'"
| extend_destination: "extend_destination_cooldown c digest up now job t lm = (u, lm') \<Longrightarrow> limiter_step c digest D J now lm lm'"
| extend_bot: "extend_bot_cooldown c up now b t lm = (u, lm') \<Longrightarrow> limiter_step c digest D J now lm lm'"
| prepare: "prepare_preflight up now b lm = (p, lm') \<Longrightarrow> limiter_step c digest D J now lm lm'"
| gate: "preflight_gate_open up now b lm = (p, lm') \<Longrightarrow> limiter_step c digest D J now lm lm'"
| resume: "resume_delete up ks lm = (u, lm') \<Longrightarrow> set ks \<inter> D = {} \<Longrightarrow> ks \<noteq> [] \<Longrightarrow> limiter_step c digest D J now lm lm'"

inductive limiter_history ::
  "limiter_config \<Rightarrow> (string \<Rightarrow> string) \<Rightarrow> limiter_key set \<Rightarrow> string set \<Rightarrow> int \<Rightarrow> limiter \<Rightarrow> int \<Rightarrow> limiter \<Rightarrow> bool"
  for c digest D J where
  start: "limiter_history c digest D J now lm now lm"
| later: "limiter_history c digest D J now lm now1 lm1 \<Longrightarrow> now1 \<le> now2 \<Longrightarrow> limiter_step c digest D J now2 lm1 lm2 \<Longrightarrow>
    limiter_history c digest D J now lm now2 lm2"

lemma history_time: "limiter_history c digest D J now lm now' lm' \<Longrightarrow> now \<le> now'"
  by (induction rule: limiter_history.induct) auto

text \<open>The writes of an observation, with its second call done or not.\<close>

definition observe_writes ::
  "limiter_config \<Rightarrow> int \<Rightarrow> string \<Rightarrow> string \<Rightarrow> string \<Rightarrow> int \<Rightarrow> delivery_decision \<Rightarrow> bool \<Rightarrow> redis \<Rightarrow> redis" where
  "observe_writes c now b d j t dec cleared db =
     (let db1 = (case observe_first c now b d j t dec db of Some x \<Rightarrow> x | None \<Rightarrow> db)
      in if cleared \<and> dd_reason dec \<notin> {RATE_LIMITED, PROBE_CANCELLED} then CLEAR_PROBE_SCRIPT now b j db1 else db1)"

text \<open>What a step does to the store: nothing, one of the scripts, or a resume of unprotected keys.\<close>

inductive store_step :: "limiter_config \<Rightarrow> limiter_key set \<Rightarrow> string set \<Rightarrow> int \<Rightarrow> redis \<Rightarrow> redis \<Rightarrow> bool"
  for c D J now where
  nothing: "store_step c D J now db db"
| admit: "ADMIT_SCRIPT now b d (admit_args_of c j) db = (r, db') \<Longrightarrow> store_step c D J now db db'"
| settle: "j \<notin> J \<Longrightarrow> store_step c D J now db (observe_writes c now b d j t dec cl db)"
| raise: "k = DestinationNext x \<or> k = BotNext x \<Longrightarrow> store_step c D J now db (snd (SET_MAX_SCRIPT now k t (ttl_ms c) db))"
| retire: "PREPARE_PREFLIGHT_SCRIPT now b db = (p, db') \<Longrightarrow> store_step c D J now db db'"
| forget: "set ks \<inter> D = {} \<Longrightarrow> store_step c D J now db (fold del ks db)"

lemma observe_store:
  assumes "observe c digest up clear_up now job dec t lm = (u, lm')"
  shows "lm_redis lm' = lm_redis lm \<or>
    (\<exists>b d j cl. job_digest_of digest job = Inr j \<and> lm_redis lm' = observe_writes c now b d j t dec cl (lm_redis lm))"
proof -
  let ?clears = "dd_reason dec \<notin> {RATE_LIMITED, PROBE_CANCELLED}"
  have cleared: "lm_redis (snd (observe_clear clear_up now b j dec l)) =
      (if clear_up \<and> ?clears then CLEAR_PROBE_SCRIPT now b j (lm_redis l) else lm_redis l)" for b j l
    by (simp add: observe_clear_def fail_closed_def)
  show ?thesis
  proof (cases "validate_job_identity digest job")
    case (Inl e)
    then show ?thesis using assms by (auto simp: observe_def)
  next
    case (Inr bd)
    obtain b d where bd: "bd = (b, d)" by (cases bd)
    show ?thesis
    proof (cases "job_digest_of digest job")
      case (Inl e)
      then show ?thesis using assms Inr bd by (auto simp: observe_def)
    next
      case (Inr j)
      let ?first = "observe_first c now b d j t dec (lm_redis lm)"
      have lm': "lm' = snd (case ?first of None \<Rightarrow> observe_clear clear_up now b j dec lm
          | Some db \<Rightarrow> if \<not> up then fail_closed lm else observe_clear clear_up now b j dec (lm\<lparr>lm_redis := db\<rparr>))"
        using assms Inr \<open>validate_job_identity digest job = Inr bd\<close> bd by (simp add: observe_def)
      have "lm_redis lm' = lm_redis lm \<or> lm_redis lm' = observe_writes c now b d j t dec clear_up (lm_redis lm)"
        by (cases ?first; cases up) (simp_all add: lm' cleared observe_writes_def Let_def fail_closed_def)
      then show ?thesis using Inr by blast
    qed
  qed
qed

lemma limiter_step_store: "limiter_step c digest D J now lm lm' \<Longrightarrow> store_step c D J now (lm_redis lm) (lm_redis lm')"
proof (induction rule: limiter_step.induct)
  case (acquire up now job t lm r lm')
  then show ?case
    by (auto simp: acquire_def fail_closed_def intro: store_step.intros split: if_splits sum.splits prod.splits)
next
  case (observe up clear_up now job dec t lm u lm')
  from observe_store [OF observe(1)] show ?case
    using observe(2) store_step.nothing store_step.settle by (elim disjE exE conjE) (simp_all add: store_step.intros)
next
  case (prepare up now b lm p lm')
  then show ?case
    by (auto simp: prepare_preflight_def fail_closed_def intro: store_step.intros split: if_splits sum.splits prod.splits)
qed (auto simp: extend_destination_cooldown_def extend_bot_cooldown_def preflight_gate_open_def resume_delete_def
       fail_closed_def intro: store_step.intros split: if_splits sum.splits prod.splits)

section \<open>The effect of a step on one key\<close>

type_synonym entry = "(redis_value \<times> int option) option"

definition entry_value :: "int \<Rightarrow> entry \<Rightarrow> redis_value option" where
  "entry_value now e = live now (\<lambda>k. e) GatewayBlock"

definition entry_num :: "int \<Rightarrow> entry \<Rightarrow> int" where
  "entry_num now e = get_num now (\<lambda>k. e) GatewayBlock"

lemma live_entry: "live now db k = entry_value now (db k)"
  by (simp add: entry_value_def live_def)

lemma get_num_entry: "get_num now db k = entry_num now (db k)"
  by (simp add: entry_num_def get_num_def live_def)

lemma entry_num_set [simp]: "entry_num n (Some (RNum v, Some e)) = (if n < e then v else 0)"
  by (simp add: entry_num_def get_num_def live_def)

definition max_entry :: "int \<Rightarrow> int \<Rightarrow> int \<Rightarrow> entry \<Rightarrow> entry" where
  "max_entry now v ttl e = (if v > entry_num now e then Some (RNum v, Some (now + ttl)) else e)"

lemma set_max_entry: "snd (set_max now k v ttl db) = db(k := max_entry now v ttl (db k))"
  by (auto simp: set_max_def Let_def max_entry_def get_num_entry set_px_def)

lemma set_max_script_entry:
  "snd (SET_MAX_SCRIPT now k v ttl db) = db(k := max_entry now v (max ttl (v - now + 60000)) (db k))"
  by (auto simp: SET_MAX_SCRIPT_def Let_def max_entry_def get_num_entry set_px_def)

lemma fold_del: "fold del ks db k = (if k \<in> set ks then None else db k)"
  by (induction ks arbitrary: db) (auto simp: del_def)

text \<open>Intervals and leases are shorter than the life of the keys.\<close>

lemma rat_trunc_mono: "x \<le> y \<Longrightarrow> rat_trunc x \<le> rat_trunc y"
  by (auto simp: rat_trunc_def floor_mono ceiling_mono intro: order_trans [of _ 0])

lemma ms_of_mono: "x \<le> y \<Longrightarrow> ms_of x \<le> ms_of y"
  by (simp add: ms_of_def rat_trunc_mono)

lemma interval_ttl:
  "max 1 (ms_of (lc_bot_min_interval_seconds c)) \<le> ttl_ms c" "max 1 (ms_of (lc_destination_min_interval_seconds c)) \<le> ttl_ms c"
proof -
  let ?m = "max (lc_bot_min_interval_seconds c) (max (lc_destination_min_interval_seconds c)
    (max (lc_rate_limit_probe_delay_seconds c)
      (max (lc_global_rate_limit_window_seconds c) (lc_rate_limit_probe_lease_seconds c))))"
  have "ms_of ?m + 60000 \<le> ttl_ms c" "1000 \<le> ttl_ms c" by (simp_all add: ttl_ms_def Let_def le_max_iff_disj)
  moreover have "ms_of (lc_bot_min_interval_seconds c) \<le> ms_of ?m" "ms_of (lc_destination_min_interval_seconds c) \<le> ms_of ?m"
    by (simp_all add: ms_of_mono le_max_iff_disj)
  ultimately show "max 1 (ms_of (lc_bot_min_interval_seconds c)) \<le> ttl_ms c"
    "max 1 (ms_of (lc_destination_min_interval_seconds c)) \<le> ttl_ms c" by simp_all
qed

text \<open>The rate limit script, key by key.\<close>

lemma set_max_pair:
  "set_max now k v ttl db = (max v (entry_num now (db k)), db(k := max_entry now v ttl (db k)))"
  by (auto simp: set_max_def Let_def max_entry_def get_num_entry set_px_def)

lemma note_429_other:
  assumes "note_429 now b d args db = (m, n, db')" "k \<noteq> Recent429 b"
  shows "db' k = db k"
  using assms by (auto simp: note_429_def Let_def set_px_def)

lemma record_429_effect:
  fixes now b d args db
  defines "db' \<equiv> snd (RECORD_429_SCRIPT now b d args db)"
  shows "db' (DestinationNext x) = (if x = d then max_entry now (now + ra_retry_ms args) (ra_ttl_ms args) (db (DestinationNext d))
           else db (DestinationNext x))"
    and "\<exists>vs. db' (BotNext x) = fold (\<lambda>v. max_entry now v (ra_ttl_ms args)) vs (db (BotNext x))"
    and "db' (BotBlock x) = db (BotBlock x)" "db' (DestinationBlock x y) = db (DestinationBlock x y)" "db' GatewayBlock = db GatewayBlock"
    and "db' (ProbeInflight x) = (if x = b \<and> get_text now db (ProbeInflight b) = Some (ra_job_digest args) then None
           else db (ProbeInflight x))"
proof -
  let ?ttl = "ra_ttl_ms args"
  let ?u = "if ra_durable_bot_delay_ms args > 0 then now + ra_durable_bot_delay_ms args else 0"
  let ?db1 = "if get_text now db (ProbeInflight b) = Some (ra_job_digest args) then del (ProbeInflight b) db else db"
  let ?db2 = "?db1(DestinationNext d := max_entry now (now + ra_retry_ms args) ?ttl (?db1 (DestinationNext d)))"
  define db3 where "db3 = (if ?u > 0 then ?db2(BotNext b := max_entry now ?u ?ttl (?db2 (BotNext b))) else ?db2)"
  obtain m n db4 where noted: "note_429 now b d args db3 = (m, n, db4)" by (metis prod_cases3)
  note db4 = note_429_other [OF noted]
  define q where "q \<longleftrightarrow> 2 \<le> n \<or> now < ?u"
  define w where "w = (if q then m else now + ra_probe_delay_ms args)"
  let ?db5 = "if q then del (ProbeRequired b) db4 else db4"
  let ?db6 = "?db5(BotNext b := max_entry now w ?ttl (?db5 (BotNext b)))"
  have db': "db' = (if q then ?db6 else set_px now (ProbeRequired b) (RText ''required'') ?ttl ?db6)"
    unfolding db'_def RECORD_429_SCRIPT_def Let_def set_max_pair snd_conv noted [unfolded db3_def] w_def q_def by simp
  have other: "db' k = db3 k" if "k \<noteq> BotNext b" "k \<noteq> ProbeRequired b" "k \<noteq> Recent429 b" for k
    using that db4 [of k] by (simp add: db' set_px_def del_def)
  show "db' (DestinationNext x) = (if x = d then max_entry now (now + ra_retry_ms args) (ra_ttl_ms args) (db (DestinationNext d))
      else db (DestinationNext x))"
    "db' (BotBlock x) = db (BotBlock x)" "db' (DestinationBlock x y) = db (DestinationBlock x y)" "db' GatewayBlock = db GatewayBlock"
    "db' (ProbeInflight x) = (if x = b \<and> get_text now db (ProbeInflight b) = Some (ra_job_digest args) then None
       else db (ProbeInflight x))"
    by (simp_all add: other db3_def del_def)
  show "\<exists>vs. db' (BotNext x) = fold (\<lambda>v. max_entry now v (ra_ttl_ms args)) vs (db (BotNext x))"
  proof (cases "x = b")
    case True
    have "db' (BotNext b) = fold (\<lambda>v. max_entry now v (ra_ttl_ms args)) (if ?u > 0 then [?u, w] else [w]) (db (BotNext b))"
      using db4 [of "BotNext b"] by (simp add: db' db3_def set_px_def del_def)
    then show ?thesis using True by blast
  next
    case False
    then have "db' (BotNext x) = db (BotNext x)" using other [of "BotNext x"] by (simp add: db3_def del_def)
    then show ?thesis by (intro exI [of _ "[]"]) simp
  qed
qed

text \<open>The admission script, key by key.\<close>

definition admitted :: "admission_reply \<Rightarrow> bool" where
  "admitted r \<longleftrightarrow> fst r = 1 \<or> fst r = 2"

text \<open>A probe entry that has ended, or that never ends and is removed.\<close>

definition probe_over :: "int \<Rightarrow> entry \<Rightarrow> bool" where
  "probe_over now e \<longleftrightarrow> (\<forall>v t. e = Some (v, Some t) \<longrightarrow> t \<le> now)"

lemma admit_paced_effect:
  assumes "admit_paced now b d args db = (r, db')"
  shows "admitted r \<Longrightarrow> entry_num now (db (BotNext b)) \<le> now \<and> entry_num now (db (DestinationNext d)) \<le> now"
    and "db' (BotNext x) = (if admitted r \<and> x = b then Some (RNum (now + aa_bot_interval_ms args), Some (now + aa_ttl_ms args))
           else db (BotNext x))"
    and "db' (DestinationNext x) = (if admitted r \<and> x = d
           then Some (RNum (now + aa_destination_interval_ms args), Some (now + aa_ttl_ms args)) else db (DestinationNext x))"
    and "db' (BotBlock x) = db (BotBlock x)" "db' (DestinationBlock x y) = db (DestinationBlock x y)" "db' GatewayBlock = db GatewayBlock"
    and "db' (ProbeInflight x) = (if fst r = 2 \<and> x = b then Some (RText (aa_job_digest args), Some (now + aa_probe_lease_ms args))
           else db (ProbeInflight x))"
  using assms by (auto simp: admit_paced_def Let_def admitted_def get_num_entry set_px_def split: if_splits)

lemma admit_effect:
  assumes "ADMIT_SCRIPT now b d args db = (r, db')"
  shows "admitted r \<Longrightarrow> entry_num now (db (BotNext b)) \<le> now \<and> entry_num now (db (DestinationNext d)) \<le> now \<and>
      \<not> key_exists now db GatewayBlock \<and> \<not> key_exists now db (BotBlock b) \<and> \<not> key_exists now db (DestinationBlock b d) \<and>
      probe_over now (db (ProbeInflight b))"
    and "db' (BotNext x) = (if admitted r \<and> x = b then Some (RNum (now + aa_bot_interval_ms args), Some (now + aa_ttl_ms args))
           else db (BotNext x))"
    and "db' (DestinationNext x) = (if admitted r \<and> x = d
           then Some (RNum (now + aa_destination_interval_ms args), Some (now + aa_ttl_ms args)) else db (DestinationNext x))"
    and "db' (BotBlock x) = db (BotBlock x)" "db' (DestinationBlock x y) = db (DestinationBlock x y)" "db' GatewayBlock = db GatewayBlock"
    and "db' (ProbeInflight x) = db (ProbeInflight x) \<or> x = b \<and> probe_over now (db (ProbeInflight b))"
    and "fst r = 2 \<Longrightarrow> db' (ProbeInflight b) = Some (RText (aa_job_digest args), Some (now + aa_probe_lease_ms args))"
proof -
  let ?e = "db (ProbeInflight b)"
  have over: "probe_over now ?e" if "\<not> key_exists now db (ProbeInflight b) \<or> \<not> pttl now db (ProbeInflight b) > 0"
    using that by (auto simp: probe_over_def key_exists_def live_def pttl_def split: option.splits if_splits)
  consider (refused) "db' = db" "\<not> admitted r" | (paced) db1 where "admit_paced now b d args db1 = (r, db')"
      "db1 = db \<or> db1 = del (ProbeInflight b) db" "probe_over now ?e" "\<not> key_exists now db GatewayBlock"
      "\<not> key_exists now db (BotBlock b)" "\<not> key_exists now db (DestinationBlock b d)"
    using assms over by (auto simp: ADMIT_SCRIPT_def admitted_def split: if_splits)
  then have "(admitted r \<longrightarrow> entry_num now (db (BotNext b)) \<le> now \<and> entry_num now (db (DestinationNext d)) \<le> now \<and>
      \<not> key_exists now db GatewayBlock \<and> \<not> key_exists now db (BotBlock b) \<and> \<not> key_exists now db (DestinationBlock b d) \<and>
      probe_over now (db (ProbeInflight b))) \<and>
    db' (BotNext x) = (if admitted r \<and> x = b then Some (RNum (now + aa_bot_interval_ms args), Some (now + aa_ttl_ms args))
      else db (BotNext x)) \<and>
    db' (DestinationNext x) = (if admitted r \<and> x = d
      then Some (RNum (now + aa_destination_interval_ms args), Some (now + aa_ttl_ms args)) else db (DestinationNext x)) \<and>
    db' (BotBlock x) = db (BotBlock x) \<and> db' (DestinationBlock x y) = db (DestinationBlock x y) \<and> db' GatewayBlock = db GatewayBlock \<and>
    (db' (ProbeInflight x) = db (ProbeInflight x) \<or> x = b \<and> probe_over now (db (ProbeInflight b))) \<and>
    (fst r = 2 \<longrightarrow> db' (ProbeInflight b) = Some (RText (aa_job_digest args), Some (now + aa_probe_lease_ms args)))"
  proof cases
    case refused
    then show ?thesis by (simp add: admitted_def)
  next
    case (paced db1)
    note eff = admit_paced_effect [OF paced(1)]
    have k: "db1 k = db k" if "k \<noteq> ProbeInflight b" for k using paced(2) that by (auto simp: del_def)
    show ?thesis using paced(3-6) eff k by (cases "x = b") (auto simp: del_def)
  qed
  then show "admitted r \<Longrightarrow> entry_num now (db (BotNext b)) \<le> now \<and> entry_num now (db (DestinationNext d)) \<le> now \<and>
      \<not> key_exists now db GatewayBlock \<and> \<not> key_exists now db (BotBlock b) \<and> \<not> key_exists now db (DestinationBlock b d) \<and>
      probe_over now (db (ProbeInflight b))"
    "db' (BotNext x) = (if admitted r \<and> x = b then Some (RNum (now + aa_bot_interval_ms args), Some (now + aa_ttl_ms args))
      else db (BotNext x))"
    "db' (DestinationNext x) = (if admitted r \<and> x = d
      then Some (RNum (now + aa_destination_interval_ms args), Some (now + aa_ttl_ms args)) else db (DestinationNext x))"
    "db' (BotBlock x) = db (BotBlock x)" "db' (DestinationBlock x y) = db (DestinationBlock x y)" "db' GatewayBlock = db GatewayBlock"
    "db' (ProbeInflight x) = db (ProbeInflight x) \<or> x = b \<and> probe_over now (db (ProbeInflight b))"
    "fst r = 2 \<Longrightarrow> db' (ProbeInflight b) = Some (RText (aa_job_digest args), Some (now + aa_probe_lease_ms args))"
    by blast+
qed

text \<open>What a result observed for a job writes, key by key.\<close>

lemma probe_scripts_effect:
  "k \<noteq> ProbeInflight b \<Longrightarrow> k \<noteq> ProbeRequired b \<Longrightarrow> CLEAR_PROBE_SCRIPT now b j db k = db k"
  "k \<noteq> ProbeInflight b \<Longrightarrow> k \<noteq> ProbeRequired b \<Longrightarrow> RELEASE_PROBE_SCRIPT now b j ttl db k = db k"
  "CLEAR_PROBE_SCRIPT now b j db (ProbeInflight x) = db (ProbeInflight x) \<or>
     entry_value now (db (ProbeInflight x)) = Some (RText j)"
  "RELEASE_PROBE_SCRIPT now b j ttl db (ProbeInflight x) = db (ProbeInflight x) \<or>
     entry_value now (db (ProbeInflight x)) = Some (RText j)"
  by (auto simp: CLEAR_PROBE_SCRIPT_def RELEASE_PROBE_SCRIPT_def del_def set_px_def get_text_def live_entry
      split: option.splits redis_value.splits)

lemma rate_limit_args_ttl:
  "ttl_ms c \<le> ra_ttl_ms (rate_limit_args_of c j t until bu)" "ra_job_digest (rate_limit_args_of c j t until bu) = j"
  "ra_retry_ms (rate_limit_args_of c j t until bu) \<le> ra_ttl_ms (rate_limit_args_of c j t until bu)"
proof -
  show "ttl_ms c \<le> ra_ttl_ms (rate_limit_args_of c j t until bu)" "ra_job_digest (rate_limit_args_of c j t until bu) = j"
    by (simp_all add: rate_limit_args_of_def Let_def)
  have "until div 1000 \<le> (case bu of Some t \<Rightarrow> max t until | None \<Rightarrow> until) div 1000"
    by (auto split: option.splits intro: zdiv_mono1)
  moreover have "1 \<le> ttl_ms c" using interval_ttl(1) [of c] by simp
  ultimately show "ra_retry_ms (rate_limit_args_of c j t until bu) \<le> ra_ttl_ms (rate_limit_args_of c j t until bu)"
    by (simp add: rate_limit_args_of_def Let_def le_max_iff_disj) linarith
qed

text \<open>The first write of \<open>observe\<close>, before a finished probe is cleared.\<close>

lemma observe_cases:
  obtains (release) db1 where "db1 = RELEASE_PROBE_SCRIPT now b j (ttl_ms c) db" "observe_writes c now b d j t dec cl db = db1"
  | (limited) db1 until where "db1 = snd (RECORD_429_SCRIPT now b d (rate_limit_args_of c j t until (dd_bot_cooldown_until dec)) db)"
      "dd_reason dec = RATE_LIMITED" "dd_destination_cooldown_until dec = Some until" "observe_writes c now b d j t dec cl db = db1"
  | (other) db1 where "db1 = db \<or> (\<exists>k v. (k = BotBlock b \<or> k = DestinationBlock b d \<or> k = GatewayBlock) \<and> db1 = set_plain k v db)"
      "observe_writes c now b d j t dec cl db = db1 \<or> observe_writes c now b d j t dec cl db = CLEAR_PROBE_SCRIPT now b j db1"
proof -
  have ne: "RATE_LIMITED \<noteq> PROBE_CANCELLED" by (simp add: RATE_LIMITED_def PROBE_CANCELLED_def)
  consider "dd_reason dec = PROBE_CANCELLED"
    | until where "dd_reason dec = RATE_LIMITED" "dd_destination_cooldown_until dec = Some until"
    | "dd_reason dec \<noteq> PROBE_CANCELLED" "\<not> (dd_reason dec = RATE_LIMITED \<and> dd_destination_cooldown_until dec \<noteq> None)"
    by blast
  then show thesis
  proof cases
    case 1
    then show thesis using release by (simp add: observe_writes_def observe_first_def Let_def)
  next
    case (2 until)
    then show thesis using limited ne by (simp add: observe_writes_def observe_first_def Let_def)
  next
    case 3
    let ?db1 = "if dd_outcome dec = OUT_BOT_PAUSED then set_plain (BotBlock b) (blocked_text (dd_reason dec)) db
      else if dd_outcome dec = OUT_DESTINATION_PAUSED then set_plain (DestinationBlock b d) (blocked_text (dd_reason dec)) db
      else if dd_outcome dec = OUT_GATEWAY_PAUSED then set_plain GatewayBlock (blocked_text (dd_reason dec)) db else db"
    have "observe_writes c now b d j t dec cl db = (if cl \<and> dd_reason dec \<notin> {RATE_LIMITED, PROBE_CANCELLED}
        then CLEAR_PROBE_SCRIPT now b j ?db1 else ?db1)"
      using 3 by (cases "dd_reason dec = RATE_LIMITED"; cases "dd_destination_cooldown_until dec")
        (simp_all add: observe_writes_def observe_first_def Let_def)
    moreover have "?db1 = db \<or> (\<exists>k v. (k = BotBlock b \<or> k = DestinationBlock b d \<or> k = GatewayBlock) \<and> ?db1 = set_plain k v db)"
      by auto
    ultimately show thesis by (intro other [of ?db1]) auto
  qed
qed

definition block_key :: "limiter_key \<Rightarrow> bool" where
  "block_key k \<longleftrightarrow> k = GatewayBlock \<or> (\<exists>b. k = BotBlock b) \<or> (\<exists>b d. k = DestinationBlock b d)"

lemma observe_effect:
  fixes c now b d j t dec cl db
  defines "db' \<equiv> observe_writes c now b d j t dec cl db"
  shows "db' (DestinationNext x) = db (DestinationNext x) \<or>
      (\<exists>v ttl. v \<le> now + ttl \<and> db' (DestinationNext x) = max_entry now v ttl (db (DestinationNext x)))"
    and "\<exists>vs ttl. ttl_ms c \<le> ttl \<and> db' (BotNext x) = fold (\<lambda>v. max_entry now v ttl) vs (db (BotNext x))"
    and "block_key k \<Longrightarrow> db' k = db k \<or> (\<exists>v. db' k = Some (v, None))"
    and "db' (ProbeInflight x) = db (ProbeInflight x) \<or> entry_value now (db (ProbeInflight x)) = Some (RText j)"
proof -
  have "(db' (DestinationNext x) = db (DestinationNext x) \<or>
      (\<exists>v ttl. v \<le> now + ttl \<and> db' (DestinationNext x) = max_entry now v ttl (db (DestinationNext x)))) \<and>
    (\<exists>vs ttl. ttl_ms c \<le> ttl \<and> db' (BotNext x) = fold (\<lambda>v. max_entry now v ttl) vs (db (BotNext x))) \<and>
    (block_key k \<longrightarrow> db' k = db k \<or> (\<exists>v. db' k = Some (v, None))) \<and>
    (db' (ProbeInflight x) = db (ProbeInflight x) \<or> entry_value now (db (ProbeInflight x)) = Some (RText j))"
  proof (cases rule: observe_cases [of now b j c db d t dec cl, case_names release limited other])
    case (release db1)
    have n: "\<exists>vs ttl. ttl_ms c \<le> ttl \<and> e = fold (\<lambda>v. max_entry now v ttl) vs e" for e by (intro exI [of _ "[]"]) auto
    show ?thesis using release n probe_scripts_effect(2,4) by (auto simp: db'_def block_key_def)
  next
    case (limited db1 until)
    let ?args = "rate_limit_args_of c j t until (dd_bot_cooldown_until dec)"
    note eff = record_429_effect [of now b d ?args db, folded limited(1)] and args = rate_limit_args_ttl [of c j t until]
    have d: "db' = db1" using limited by (simp add: db'_def)
    have lane: "\<exists>vs ttl. ttl_ms c \<le> ttl \<and> db' (BotNext x) = fold (\<lambda>v. max_entry now v ttl) vs (db (BotNext x))"
      using eff(2) args(1) d by blast
    have dst: "db' (DestinationNext x) = db (DestinationNext x) \<or>
        (\<exists>v ttl. v \<le> now + ttl \<and> db' (DestinationNext x) = max_entry now v ttl (db (DestinationNext x)))"
    proof (cases "x = d")
      case True
      have "now + ra_retry_ms ?args \<le> now + ra_ttl_ms ?args" using args(3) by simp
      then show ?thesis using eff(1) [of x] d True by metis
    qed (use eff(1) [of x] d in simp)
    have "get_text now db (ProbeInflight b) = Some j \<Longrightarrow> entry_value now (db (ProbeInflight b)) = Some (RText j)"
      by (auto simp: get_text_def live_entry split: option.splits redis_value.splits)
    then have "db' (ProbeInflight x) = db (ProbeInflight x) \<or> entry_value now (db (ProbeInflight x)) = Some (RText j)"
      using eff(6) [of x] args(2) d by auto
    moreover have "block_key k \<longrightarrow> db' k = db k" using eff(3-5) d by (auto simp: block_key_def)
    ultimately show ?thesis using lane dst by blast
  next
    case (other db1)
    have n: "\<exists>vs ttl. ttl_ms c \<le> ttl \<and> e = fold (\<lambda>v. max_entry now v ttl) vs e" for e by (intro exI [of _ "[]"]) auto
    have k1: "db1 k = db k \<or> block_key k \<and> (\<exists>v. db1 k = Some (v, None))" for k
      using other(1) by (auto simp: set_plain_def block_key_def split: if_splits)
    have k2: "db' k = db1 k" if "\<forall>x. k \<noteq> ProbeInflight x" "\<forall>x. k \<noteq> ProbeRequired x" for k
      using other(2) that probe_scripts_effect(1) by (auto simp: db'_def)
    have "db' (ProbeInflight x) = db1 (ProbeInflight x) \<or> entry_value now (db1 (ProbeInflight x)) = Some (RText j)"
      using other(2) probe_scripts_effect(3) [of now b j db1 x] by (auto simp: db'_def)
    moreover have "db1 (ProbeInflight x) = db (ProbeInflight x)" using k1 [of "ProbeInflight x"] by (auto simp: block_key_def)
    moreover have "db' (DestinationNext x) = db (DestinationNext x)" "db' (BotNext x) = db (BotNext x)"
      using k1 [of "DestinationNext x"] k1 [of "BotNext x"] k2 by (auto simp: block_key_def)
    moreover have "block_key k \<longrightarrow> db' k = db k \<or> (\<exists>v. db' k = Some (v, None))"
      using k1 [of k] k2 [of k] by (auto simp: block_key_def)
    ultimately show ?thesis using n by auto
  qed
  then show "db' (DestinationNext x) = db (DestinationNext x) \<or>
      (\<exists>v ttl. v \<le> now + ttl \<and> db' (DestinationNext x) = max_entry now v ttl (db (DestinationNext x)))"
    "\<exists>vs ttl. ttl_ms c \<le> ttl \<and> db' (BotNext x) = fold (\<lambda>v. max_entry now v ttl) vs (db (BotNext x))"
    "block_key k \<Longrightarrow> db' k = db k \<or> (\<exists>v. db' k = Some (v, None))"
    "db' (ProbeInflight x) = db (ProbeInflight x) \<or> entry_value now (db (ProbeInflight x)) = Some (RText j)" by blast+
qed

text \<open>What a step of the store does to the keys of the pacing, the pauses and the probes.\<close>

lemma store_step_destination:
  assumes "store_step c D J now db db'"
  shows "db' (DestinationNext x) = db (DestinationNext x) \<or>
    entry_num now (db (DestinationNext x)) \<le> now \<and>
      (\<exists>v ttl. v \<le> now + ttl \<and> db' (DestinationNext x) = Some (RNum v, Some (now + ttl))) \<or>
    (\<exists>v ttl. v \<le> now + ttl \<and> db' (DestinationNext x) = max_entry now v ttl (db (DestinationNext x))) \<or>
    DestinationNext x \<notin> D \<and> db' (DestinationNext x) = None"
  using assms
proof (cases rule: store_step.cases)
  case (admit b d j r)
  have "now + aa_destination_interval_ms (admit_args_of c j) \<le> now + aa_ttl_ms (admit_args_of c j)"
    using interval_ttl(2) [of c] by (simp add: admit_args_of_def)
  then show ?thesis using admit_effect(1,3) [OF admit] by (cases "admitted r \<and> x = d") metis+
next
  case (settle j b d t dec cl)
  then show ?thesis using observe_effect(1) by metis
next
  case (raise k y t)
  have "t \<le> now + max (ttl_ms c) (t - now + 60000)" by simp
  then show ?thesis using raise by (cases "k = DestinationNext x") (simp, metis set_max_script_entry fun_upd_same, simp add: set_max_script_entry)
next
  case (retire b p)
  then show ?thesis by (auto simp: PREPARE_PREFLIGHT_SCRIPT_def del_def split: if_splits)
qed (auto simp: fold_del)

lemma store_step_bot:
  assumes "store_step c D J now db db'"
  shows "db' (BotNext x) = db (BotNext x) \<or>
    entry_num now (db (BotNext x)) \<le> now \<or>
    (\<exists>vs ttl. ttl_ms c \<le> ttl \<and> db' (BotNext x) = fold (\<lambda>v. max_entry now v ttl) vs (db (BotNext x))) \<or>
    BotNext x \<notin> D"
  using assms
proof (cases rule: store_step.cases)
  case (admit b d j r)
  then show ?thesis using admit_effect(1,2) [OF admit] by (cases "admitted r \<and> x = b") auto
next
  case (settle j b d t dec cl)
  then show ?thesis using observe_effect(2) by metis
next
  case (raise k y t)
  let ?ttl = "max (ttl_ms c) (t - now + 60000)"
  have "db' (BotNext x) = fold (\<lambda>v. max_entry now v ?ttl) (if k = BotNext x then [t] else []) (db (BotNext x))"
    using raise by (simp add: set_max_script_entry)
  moreover have "ttl_ms c \<le> ?ttl" by simp
  ultimately show ?thesis by blast
next
  case (retire b p)
  then show ?thesis by (auto simp: PREPARE_PREFLIGHT_SCRIPT_def del_def split: if_splits)
qed (auto simp: fold_del)

lemma store_step_block:
  assumes "store_step c D J now db db'" "block_key k"
  shows "db' k = db k \<or> (\<exists>v. db' k = Some (v, None)) \<or> k \<notin> D"
  using assms(1)
proof (cases rule: store_step.cases)
  case (admit b d j r)
  then show ?thesis using admit_effect(4-6) [OF admit] assms(2) by (auto simp: block_key_def)
next
  case (settle j b d t dec cl)
  then show ?thesis using observe_effect(3) [OF assms(2)] by metis
next
  case (raise l y t)
  then show ?thesis using assms(2) by (auto simp: set_max_script_entry block_key_def)
next
  case (retire b p)
  then show ?thesis using assms(2) by (auto simp: PREPARE_PREFLIGHT_SCRIPT_def del_def block_key_def split: if_splits)
qed (auto simp: fold_del)

lemma store_step_probe:
  assumes "store_step c D J now db db'"
  shows "db' (ProbeInflight x) = db (ProbeInflight x) \<or> probe_over now (db (ProbeInflight x)) \<or>
    (\<exists>j. j \<notin> J \<and> entry_value now (db (ProbeInflight x)) = Some (RText j)) \<or> ProbeInflight x \<notin> D"
  using assms
proof (cases rule: store_step.cases)
  case (admit b d j r)
  then show ?thesis using admit_effect(7) [OF admit] by blast
next
  case (settle j b d t dec cl)
  then show ?thesis using observe_effect(4) by metis
next
  case (raise l y t)
  then show ?thesis by (auto simp: set_max_script_entry)
next
  case (retire b p)
  then show ?thesis by (auto simp: PREPARE_PREFLIGHT_SCRIPT_def del_def split: if_splits)
qed (auto simp: fold_del)

end
