(* ===== verification/DeliveryAdmission.thy ===== *)
theory DeliveryAdmission
  imports DeliveryPacing
begin

text \<open>
  What the limiter promises over its histories: admissions are paced, an observed rate limit and a pause hold for
  every worker, one probe is in flight at a time, and a worker that lost Redis admits nothing.  Each promise is a
  guard on the store that time and the steps of the limiter keep.
\<close>

section \<open>Standing guards\<close>

locale standing_guard =
  fixes c :: limiter_config and D :: "limiter_key set" and J :: "string set" and G :: "int \<Rightarrow> redis \<Rightarrow> bool"
  assumes later: "G now db \<Longrightarrow> now \<le> now' \<Longrightarrow> G now' db"
    and kept: "G now db \<Longrightarrow> store_step c D J now db db' \<Longrightarrow> G now db'"
begin

lemma history_keeps:
  assumes "limiter_history c digest D J now lm now' lm'" "G now (lm_redis lm)"
  shows "G now' (lm_redis lm')"
  using assms by (induction rule: limiter_history.induct) (blast intro: later kept limiter_step_store)+

end

text \<open>An entry that holds its lane back until \<open>until\<close>.\<close>

definition holds_back :: "int \<Rightarrow> int \<Rightarrow> entry \<Rightarrow> bool" where
  "holds_back until now e \<longleftrightarrow> (\<forall>n. now \<le> n \<and> n < until \<longrightarrow> n < entry_num n e)"

lemma holds_back_past: "until \<le> now \<Longrightarrow> holds_back until now e"
  by (simp add: holds_back_def)

lemma holds_back_over: "holds_back until now e \<Longrightarrow> entry_num now e \<le> now \<Longrightarrow> until \<le> now"
  by (meson holds_back_def linorder_not_le order_refl)

lemma holds_back_set: "until \<le> v \<Longrightarrow> until \<le> t \<Longrightarrow> holds_back until now (Some (RNum v, Some t))"
  by (auto simp: holds_back_def)

lemma entry_num_num: "entry_num n e \<noteq> 0 \<Longrightarrow> \<exists>v t. e = Some (RNum v, t) \<and> (\<forall>m. entry_num m e \<noteq> 0 \<longrightarrow> entry_num m e = v)"
  by (auto simp: entry_num_def get_num_def live_def split: option.splits redis_value.splits if_splits)

text \<open>An entry that holds a lane back carries a value that is at least the end of the hold.\<close>

lemma holds_back_value:
  assumes "holds_back until now e" "now < until" "0 \<le> now"
  shows "until \<le> entry_num now e"
proof -
  have last: "until - 1 < entry_num (until - 1) e" and first: "now < entry_num now e"
    using assms by (auto simp: holds_back_def)
  have "entry_num (until - 1) e \<noteq> 0" "entry_num now e \<noteq> 0" using last first assms(2,3) by auto
  then have "entry_num now e = entry_num (until - 1) e" using entry_num_num [of now e] by metis
  then show ?thesis using last by simp
qed

lemma holds_back_max:
  assumes "holds_back until now e" "0 \<le> now" "v \<le> now + ttl \<or> until \<le> now + ttl"
  shows "holds_back until now (max_entry now v ttl e)"
proof (cases "now < until \<and> v > entry_num now e")
  case True
  then have "until \<le> v" using holds_back_value [OF assms(1)] assms(2) by simp
  then show ?thesis using True assms(3) by (auto simp: max_entry_def intro!: holds_back_set)
next
  case False
  then show ?thesis using assms(1) holds_back_past [of until now] by (auto simp: max_entry_def)
qed

text \<open>An entry whose value does not outlive its expiry.\<close>

definition entry_sound :: "entry \<Rightarrow> bool" where
  "entry_sound e \<longleftrightarrow> (case e of None \<Rightarrow> True | Some (RNum v, Some t) \<Rightarrow> v \<le> t | _ \<Rightarrow> False)"

lemma entry_sound_max: "entry_sound e \<Longrightarrow> v \<le> now + ttl \<Longrightarrow> entry_sound (max_entry now v ttl e)"
  by (simp add: max_entry_def entry_sound_def)

lemma max_entry_holds:
  assumes "entry_sound e" "v \<le> now + ttl" "0 \<le> now" "now < v"
  shows "holds_back v now (max_entry now v ttl e)"
proof (cases "v > entry_num now e")
  case True
  then show ?thesis using assms(2) by (simp add: max_entry_def holds_back_set)
next
  case False
  then obtain w t where e: "e = Some (RNum w, t)" and w: "entry_num now e = w"
    using assms(3,4) entry_num_num [of now e] by force
  obtain u where u: "t = Some u" using assms(1) e by (cases t) (auto simp: entry_sound_def)
  have "v \<le> w" "w \<le> u" using False w assms(1) e u by (auto simp: entry_sound_def)
  then have "holds_back v now e" unfolding e u by (intro holds_back_set) auto
  then show ?thesis using False by (simp add: max_entry_def)
qed

section \<open>The guards of the limiter\<close>

lemma holds_back_fold:
  assumes "holds_back until now e" "0 \<le> now" "until \<le> now + ttl"
  shows "holds_back until now (fold (\<lambda>v. max_entry now v ttl) vs e)"
  using assms(1) by (induction vs arbitrary: e) (simp_all add: holds_back_max assms(2,3))

lemma holds_back_later: "holds_back until now e \<Longrightarrow> now \<le> now' \<Longrightarrow> holds_back until now' e"
  by (simp add: holds_back_def)

text \<open>The destination waits until a time; times of the server are not negative.\<close>

definition destination_waits :: "string \<Rightarrow> int \<Rightarrow> int \<Rightarrow> redis \<Rightarrow> bool" where
  "destination_waits d until now db \<longleftrightarrow> 0 \<le> now \<and> holds_back until now (db (DestinationNext d))"

interpretation waiting: standing_guard c "insert (DestinationNext d) D" J "destination_waits d until" for c d D J until
proof
  show "destination_waits d until now db \<Longrightarrow> now \<le> now' \<Longrightarrow> destination_waits d until now' db" for now db now'
    by (auto simp: destination_waits_def intro: holds_back_later)
  show "destination_waits d until now db'" if "destination_waits d until now db"
    "store_step c (insert (DestinationNext d) D) J now db db'" for now db db'
    using store_step_destination [OF that(2), of d] that(1) holds_back_over holds_back_past holds_back_max
    unfolding destination_waits_def by fastforce
qed

text \<open>The bot waits until a time, within the life of its key.\<close>

definition bot_waits :: "limiter_config \<Rightarrow> string \<Rightarrow> int \<Rightarrow> int \<Rightarrow> redis \<Rightarrow> bool" where
  "bot_waits c b until now db \<longleftrightarrow> 0 \<le> now \<and> until \<le> now + ttl_ms c \<and> holds_back until now (db (BotNext b))"

interpretation pacing: standing_guard c "insert (BotNext b) D" J "bot_waits c b until" for c b D J until
proof
  show "bot_waits c b until now db \<Longrightarrow> now \<le> now' \<Longrightarrow> bot_waits c b until now' db" for now db now'
    by (auto simp: bot_waits_def intro: holds_back_later)
  show "bot_waits c b until now db'" if g: "bot_waits c b until now db"
    and s: "store_step c (insert (BotNext b) D) J now db db'" for now db db'
  proof -
    consider "db' (BotNext b) = db (BotNext b)" | "entry_num now (db (BotNext b)) \<le> now"
      | vs ttl where "ttl_ms c \<le> ttl" "db' (BotNext b) = fold (\<lambda>v. max_entry now v ttl) vs (db (BotNext b))"
      using store_step_bot [OF s, of b] by blast
    then have "holds_back until now (db' (BotNext b))"
    proof cases
      case 2
      then show ?thesis using g holds_back_over holds_back_past by (auto simp: bot_waits_def)
    next
      case (3 vs ttl)
      then show ?thesis using g holds_back_fold [of until now _ ttl vs] by (auto simp: bot_waits_def)
    qed (use g in \<open>simp add: bot_waits_def\<close>)
    then show ?thesis using g by (simp add: bot_waits_def)
  qed
qed

text \<open>A pause stands in the store.\<close>

definition paused :: "limiter_key \<Rightarrow> int \<Rightarrow> redis \<Rightarrow> bool" where
  "paused k now db \<longleftrightarrow> block_key k \<and> (\<exists>v. db k = Some (v, None))"

interpretation pause: standing_guard c "insert k D" J "paused k" for c k D J
proof
  show "paused k now db \<Longrightarrow> now \<le> now' \<Longrightarrow> paused k now' db" for now db now' by (simp add: paused_def)
  show "paused k now db'" if "paused k now db" "store_step c (insert k D) J now db db'" for now db db'
    using store_step_block [OF that(2), of k] that(1) by (auto simp: paused_def)
qed

text \<open>The probe of a job is in flight until its lease ends.\<close>

definition probing :: "string \<Rightarrow> string \<Rightarrow> int \<Rightarrow> int \<Rightarrow> redis \<Rightarrow> bool" where
  "probing b j until now db \<longleftrightarrow> now < until \<longrightarrow> db (ProbeInflight b) = Some (RText j, Some until)"

interpretation probe: standing_guard c "insert (ProbeInflight b) D" "insert j J" "probing b j until" for c b D j J until
proof
  show "probing b j until now db \<Longrightarrow> now \<le> now' \<Longrightarrow> probing b j until now' db" for now db now' by (simp add: probing_def)
  show "probing b j until now db'" if "probing b j until now db"
    "store_step c (insert (ProbeInflight b) D) (insert j J) now db db'" for now db db'
    using store_step_probe [OF that(2), of b] that(1)
    by (auto simp: probing_def probe_over_def entry_value_def live_def split: if_splits)
qed

text \<open>Cooldowns of destinations live at least as long as they last.\<close>

definition cooldowns_sound :: "int \<Rightarrow> redis \<Rightarrow> bool" where
  "cooldowns_sound now db \<longleftrightarrow> (\<forall>d. entry_sound (db (DestinationNext d)))"

interpretation sound: standing_guard c D J cooldowns_sound for c D J
proof
  show "cooldowns_sound now db \<Longrightarrow> now \<le> now' \<Longrightarrow> cooldowns_sound now' db" for now db now' by (simp add: cooldowns_sound_def)
  show "cooldowns_sound now db'" if g: "cooldowns_sound now db" and s: "store_step c D J now db db'" for now db db'
    unfolding cooldowns_sound_def
  proof
    fix d
    have e: "entry_sound (db (DestinationNext d))" using g by (simp add: cooldowns_sound_def)
    from store_step_destination [OF s, of d] show "entry_sound (db' (DestinationNext d))"
      using e entry_sound_max [OF e] by (elim disjE exE conjE) (simp_all add: entry_sound_def)
  qed
qed

section \<open>Admission\<close>

text \<open>An admission passed the script, for the bot and the destination of its job.\<close>

lemma acquire_admitted:
  assumes "acquire c digest up now job t lm = (Inr a, lm')" "ad_allowed a" "validate_job_identity digest job = Inr (b, d)"
  obtains j r where "job_digest_of digest job = Inr j" "ADMIT_SCRIPT now b d (admit_args_of c j) (lm_redis lm) = (r, lm_redis lm')"
    "admitted r" "ad_is_rate_limit_probe a \<longleftrightarrow> fst r = 2"
proof (cases "job_digest_of digest job")
  case (Inl e)
  then show thesis using assms by (auto simp: acquire_def split: if_splits)
next
  case (Inr j)
  obtain r db where script: "ADMIT_SCRIPT now b d (admit_args_of c j) (lm_redis lm) = (r, db)" by (cases rule: prod.exhaust)
  have "a = admission_of_reply r" "lm_redis lm' = db"
    using assms(1,3) Inr script by (auto simp: acquire_def fail_closed_def split: if_splits)
  moreover have "admitted r" "ad_is_rate_limit_probe a \<longleftrightarrow> fst r = 2"
    using assms(2) calculation(1) by (auto simp: admission_of_reply_def admitted_def split: prod.splits if_splits)
  ultimately show thesis using that Inr script by simp
qed

lemma acquire_open:
  assumes "acquire c digest up now job t lm = (Inr a, lm')" "ad_allowed a" "validate_job_identity digest job = Inr (b, d)"
  shows "entry_num now (lm_redis lm (BotNext b)) \<le> now" "entry_num now (lm_redis lm (DestinationNext d)) \<le> now"
    "\<not> key_exists now (lm_redis lm) GatewayBlock" "\<not> key_exists now (lm_redis lm) (BotBlock b)"
    "\<not> key_exists now (lm_redis lm) (DestinationBlock b d)" "probe_over now (lm_redis lm (ProbeInflight b))"
proof -
  obtain j r where "ADMIT_SCRIPT now b d (admit_args_of c j) (lm_redis lm) = (r, lm_redis lm')" "admitted r"
    using acquire_admitted [OF assms] by blast
  then show "entry_num now (lm_redis lm (BotNext b)) \<le> now" "entry_num now (lm_redis lm (DestinationNext d)) \<le> now"
    "\<not> key_exists now (lm_redis lm) GatewayBlock" "\<not> key_exists now (lm_redis lm) (BotBlock b)"
    "\<not> key_exists now (lm_redis lm) (DestinationBlock b d)" "probe_over now (lm_redis lm (ProbeInflight b))"
    using admit_effect(1) by blast+
qed

text \<open>After an admission the bot and the destination wait for their intervals.\<close>

lemma acquire_starts_waits:
  assumes "acquire c digest up now job t lm = (Inr a, lm')" "ad_allowed a" "validate_job_identity digest job = Inr (b, d)" "0 \<le> now"
  shows "bot_waits c b (now + max 1 (ms_of (lc_bot_min_interval_seconds c))) now (lm_redis lm')"
    "destination_waits d (now + max 1 (ms_of (lc_destination_min_interval_seconds c))) now (lm_redis lm')"
proof -
  obtain j r where s: "ADMIT_SCRIPT now b d (admit_args_of c j) (lm_redis lm) = (r, lm_redis lm')" "admitted r"
    using acquire_admitted [OF assms(1-3)] by blast
  then show "bot_waits c b (now + max 1 (ms_of (lc_bot_min_interval_seconds c))) now (lm_redis lm')"
    using admit_effect(2) [OF s(1), of b] interval_ttl(1) [of c] assms(4)
    by (simp add: bot_waits_def admit_args_of_def holds_back_set)
  show "destination_waits d (now + max 1 (ms_of (lc_destination_min_interval_seconds c))) now (lm_redis lm')"
    using s admit_effect(3) [OF s(1), of d] interval_ttl(2) [of c] assms(4)
    by (simp add: destination_waits_def admit_args_of_def holds_back_set)
qed


section \<open>Rate limits\<close>

lemma observe_record:
  assumes "observe c digest True clear_up now job dec t lm = (u, lm')" "validate_job_identity digest job = Inr (b, d)"
    and "job_digest_of digest job = Inr j" "dd_reason dec = RATE_LIMITED" "dd_destination_cooldown_until dec = Some until"
  shows "lm_redis lm' = snd (RECORD_429_SCRIPT now b d (rate_limit_args_of c j t until (dd_bot_cooldown_until dec)) (lm_redis lm))"
proof -
  have "RATE_LIMITED \<noteq> PROBE_CANCELLED" by (simp add: RATE_LIMITED_def PROBE_CANCELLED_def)
  then show ?thesis using assms by (auto simp: observe_def observe_first_def observe_clear_def)
qed


text \<open>C38: 
  C3: One probe at a time.  While the probe that a bot sends after a rate limit is in flight, that bot is admitted
  for nothing else until the lease of the probe ends, unless the result of the probe is observed or the operator
  resumes the bot.
\<close>

theorem one_probe_in_flight:
  assumes "acquire c digest up1 now1 job1 t1 lm0 = (Inr a1, lm1)" "ad_allowed a1" "ad_is_rate_limit_probe a1"
    and "validate_job_identity digest job1 = Inr (b, d1)" "job_digest_of digest job1 = Inr j"
    and "limiter_history c digest {ProbeInflight b} {j} now1 lm1 now2 lm2" "now2 \<le> now3"
    and "acquire c digest up3 now3 job3 t3 lm2 = (Inr a3, lm3)" "ad_allowed a3" "validate_job_identity digest job3 = Inr (b, d3)"
  shows "now1 + max 1 (ms_of (lc_rate_limit_probe_lease_seconds c)) \<le> now3"
proof -
  let ?until = "now1 + max 1 (ms_of (lc_rate_limit_probe_lease_seconds c))"
  obtain r where s: "ADMIT_SCRIPT now1 b d1 (admit_args_of c j) (lm_redis lm0) = (r, lm_redis lm1)" "fst r = 2"
    using acquire_admitted [OF assms(1,2,4)] assms(3,5) by force
  have "probing b j ?until now1 (lm_redis lm1)" using admit_effect(8) [OF s] by (simp add: probing_def admit_args_of_def)
  then have "probing b j ?until now3 (lm_redis lm2)"
    using probe.later probe.history_keeps [OF assms(6)] assms(7) by blast
  then show ?thesis using acquire_open(6) [OF assms(8-10)] by (force simp: probing_def probe_over_def)
qed

section \<open>Pauses\<close>

lemma observe_pause:
  assumes "observe c digest True clear_up now job dec t lm = (u, lm')" "validate_job_identity digest job = Inr (b, d)"
    and "job_digest_of digest job = Inr j" "dd_reason dec \<notin> {RATE_LIMITED, PROBE_CANCELLED}"
    and "(dd_outcome dec, k) \<in> {(OUT_BOT_PAUSED, BotBlock b), (OUT_DESTINATION_PAUSED, DestinationBlock b d), (OUT_GATEWAY_PAUSED, GatewayBlock)}"
  shows "paused k now (lm_redis lm')"
proof -
  let ?db = "set_plain k (blocked_text (dd_reason dec)) (lm_redis lm)"
  have "observe_first c now b d j t dec (lm_redis lm) = Some ?db" using assms(4,5) by (auto simp: observe_first_def)
  then have "lm_redis lm' = ?db \<or> lm_redis lm' = CLEAR_PROBE_SCRIPT now b j ?db"
    using assms(1-4) by (auto simp: observe_def observe_clear_def fail_closed_def split: if_splits)
  moreover have "block_key k" using assms(5) by (auto simp: block_key_def)
  moreover have "CLEAR_PROBE_SCRIPT now b j ?db k = ?db k"
    using calculation(2) by (intro probe_scripts_effect(1)) (auto simp: block_key_def)
  ultimately show ?thesis by (auto simp: paused_def set_plain_def)
qed

text \<open>C39: 
  C4: A pause holds until it is resumed.  When a result pauses a bot, a bot at a destination or the whole gateway,
  no worker is admitted there again until the operator resumes it, whatever happens in between; the pause does not expire.
\<close>

theorem pauses_hold_until_resume:
  assumes "observe c digest True clear_up now job dec t lm = (u, lm1)" "validate_job_identity digest job = Inr (b, d)"
    and "job_digest_of digest job = Inr j" "dd_reason dec \<notin> {RATE_LIMITED, PROBE_CANCELLED}"
    and "(dd_outcome dec, k) \<in> {(OUT_BOT_PAUSED, BotBlock b), (OUT_DESTINATION_PAUSED, DestinationBlock b d), (OUT_GATEWAY_PAUSED, GatewayBlock)}"
    and "limiter_history c digest {k} {} now lm1 now2 lm2" "now2 \<le> now3"
    and "validate_job_identity digest job3 = Inr (b3, d3)" "k = BotBlock b3 \<or> k = DestinationBlock b3 d3 \<or> k = GatewayBlock"
  shows "\<nexists>a lm3. acquire c digest up3 now3 job3 t3 lm2 = (Inr a, lm3) \<and> ad_allowed a"
proof -
  have "paused k now3 (lm_redis lm2)"
    using pause.later pause.history_keeps [OF assms(6) observe_pause [OF assms(1-5)]] assms(7) by blast
  then have "key_exists now3 (lm_redis lm2) k" by (auto simp: paused_def key_exists_def live_def)
  then show ?thesis using acquire_open(3-5) assms(8,9) by metis
qed

section \<open>Losing Redis\<close>

lemma local_block_step:
  "limiter_step c digest UNIV J now lm lm' \<Longrightarrow> lm_local_block_reason lm \<Longrightarrow> lm_local_block_reason lm'"
  by (induction rule: limiter_step.induct)
    (auto simp: acquire_def observe_def observe_clear_def extend_destination_cooldown_def extend_bot_cooldown_def
      prepare_preflight_def preflight_gate_open_def resume_delete_def fail_closed_def split: if_splits sum.splits prod.splits option.splits)

text \<open>C40: 
  C5: A worker that lost Redis admits nothing.  After an admission or an observation for which Redis did not answer,
  every later admission of that worker is refused, also when Redis is back, until an operator resumes something.
\<close>

theorem lost_redis_fails_closed:
  assumes "acquire c digest up now job t lm = (Inl RedisUnavailable, lm1) \<or>
      observe c digest up clear_up now job dec t_us lm = (Inl RedisUnavailable, lm1)"
    and "limiter_history c digest UNIV {} now lm1 now2 lm2"
  shows "acquire c digest up3 now3 job3 t3 lm2 = (Inl LocalBlock, lm2)"
proof -
  have "lm_local_block_reason lm1" using assms(1)
    by (auto simp: acquire_def observe_def observe_clear_def fail_closed_def validate_job_identity_def validate_bot_def
        job_digest_of_def Let_def split: if_splits sum.splits prod.splits option.splits)
  with assms(2) have "lm_local_block_reason lm2" by (induction rule: limiter_history.induct) (auto dest: local_block_step)
  then show ?thesis by (simp add: acquire_def)
qed

section \<open>Concrete histories\<close>

definition default_limits :: limiter_config where
  "default_limits =
     \<lparr>lc_bot_min_interval_seconds = 35/1000, lc_destination_min_interval_seconds = 105/100,
      lc_rate_limit_probe_delay_seconds = 1/10, lc_global_rate_limit_window_seconds = 2,
      lc_rate_limit_probe_lease_seconds = 30, lc_key_ttl_seconds = 86400\<rparr>"

definition fresh_limiter :: limiter where
  "fresh_limiter = \<lparr>lm_redis = \<lambda>k. None, lm_local_block_reason = False\<rparr>"

definition channel_job :: "string \<Rightarrow> string \<Rightarrow> limiter_job" where
  "channel_job b j =
     \<lparr>lj_bot_identity = Some b, lj_destination_key = Some ''-100'', lj_id = Some j, lj_job_id = None, lj_dedupe_key = None\<rparr>"

abbreviation channel_acquire :: "int \<Rightarrow> string \<Rightarrow> string \<Rightarrow> limiter \<Rightarrow> (limiter_error + admission) \<times> limiter" where
  "channel_acquire now b j \<equiv> acquire default_limits (\<lambda>s. s) True now (channel_job b j) (Aware 0 0)"

abbreviation channel_observe :: "int \<Rightarrow> string \<Rightarrow> string \<Rightarrow> delivery_decision \<Rightarrow> limiter \<Rightarrow> (limiter_error + unit) \<times> limiter" where
  "channel_observe now b j dec \<equiv> observe default_limits (\<lambda>s. s) True True now (channel_job b j) dec 0"

definition allows :: "(limiter_error + admission) \<times> limiter \<Rightarrow> bool" where
  "allows x \<longleftrightarrow> (case fst x of Inr a \<Rightarrow> ad_allowed a | Inl e \<Rightarrow> False)"

lemma allowsD: "allows x \<Longrightarrow> x = (Inr (projr (fst x)), snd x) \<and> ad_allowed (projr (fst x))"
  by (cases x) (auto simp: allows_def split: sum.splits)

lemma channel_identity:
  "validate_job_identity (\<lambda>s. s) (channel_job ''primary'' j) = Inr (''primary'', ''-100'')"
  "validate_job_identity (\<lambda>s. s) (channel_job ''publisher_1'' j) = Inr (''publisher_1'', ''-100'')"
  "job_digest_of (\<lambda>s. s) (channel_job b ''7'') = Inr ''7''"
  unfolding channel_job_def by code_simp+

definition rate_limited_decision :: delivery_decision where
  "rate_limited_decision = (decide OUT_RETRY_PENDING RATE_LIMITED)\<lparr>dd_destination_cooldown_until := Some 5000000\<rparr>"

definition bot_paused_decision :: delivery_decision where
  "bot_paused_decision = decide OUT_BOT_PAUSED ''telegram_unauthorized''"


definition limited_channel :: limiter where
  "limited_channel = snd (channel_observe 1100 ''primary'' ''7'' rate_limited_decision fresh_limiter)"


theorem one_probe_in_flight_witness:
  "allows (channel_acquire 40000 ''primary'' ''8'' (snd (channel_acquire 6200 ''primary'' ''7'' limited_channel))) \<and>
   6200 + max 1 (ms_of (lc_rate_limit_probe_lease_seconds default_limits)) \<le> (40000 :: int)"
proof -
  let ?x = "channel_acquire 6200 ''primary'' ''7'' limited_channel" and ?y = "channel_acquire 40000 ''primary'' ''8''"
  have a: "allows ?x" "allows (?y (snd ?x))" "ad_is_rate_limit_probe (projr (fst ?x))" by code_simp+
  note x = allowsD [OF a(1)] and y = allowsD [OF a(2)]
  have "6200 + max 1 (ms_of (lc_rate_limit_probe_lease_seconds default_limits)) \<le> (40000 :: int)"
    using one_probe_in_flight [OF x [THEN conjunct1] x [THEN conjunct2] a(3) channel_identity(1) channel_identity(3)
        limiter_history.start _ y [THEN conjunct1] y [THEN conjunct2] channel_identity(1)] by simp
  with a show ?thesis by blast
qed

definition paused_bot :: limiter where
  "paused_bot = snd (channel_observe 1000 ''primary'' ''7'' bot_paused_decision fresh_limiter)"

theorem pauses_hold_until_resume_witness:
  "paused (BotBlock ''primary'') 1000 (lm_redis paused_bot) \<and>
   (\<nexists>a lm. channel_acquire 90000000 ''primary'' ''8'' paused_bot = (Inr a, lm) \<and> ad_allowed a)"
proof -
  have o: "channel_observe 1000 ''primary'' ''7'' bot_paused_decision fresh_limiter =
      (fst (channel_observe 1000 ''primary'' ''7'' bot_paused_decision fresh_limiter), paused_bot)"
    by (simp add: paused_bot_def)
  have d: "dd_reason bot_paused_decision \<notin> {RATE_LIMITED, PROBE_CANCELLED}"
    "(dd_outcome bot_paused_decision, BotBlock ''primary'') \<in> {(OUT_BOT_PAUSED, BotBlock ''primary''),
       (OUT_DESTINATION_PAUSED, DestinationBlock ''primary'' ''-100''), (OUT_GATEWAY_PAUSED, GatewayBlock)}"
    by (simp_all add: bot_paused_decision_def decide_def RATE_LIMITED_def PROBE_CANCELLED_def)
  show ?thesis
    using pauses_hold_until_resume [OF o channel_identity(1) channel_identity(3) d limiter_history.start _ channel_identity(1)]
      observe_pause [OF o channel_identity(1) channel_identity(3) d] by simp
qed

definition lost_limiter :: "(limiter_error + admission) \<times> limiter" where
  "lost_limiter = acquire default_limits (\<lambda>s. s) False 1000 (channel_job ''primary'' ''7'') (Aware 0 0) fresh_limiter"

theorem lost_redis_fails_closed_witness:
  "fst lost_limiter = Inl RedisUnavailable \<and> channel_acquire 2000 ''primary'' ''8'' (snd lost_limiter) = (Inl LocalBlock, snd lost_limiter)"
proof -
  have "Option.is_none (case fst lost_limiter of Inl RedisUnavailable \<Rightarrow> None | _ \<Rightarrow> Some ())" by code_simp
  then have f: "fst lost_limiter = Inl RedisUnavailable" by (auto simp: Option.is_none_def split: sum.splits limiter_error.splits)
  then have "acquire default_limits (\<lambda>s. s) False 1000 (channel_job ''primary'' ''7'') (Aware 0 0) fresh_limiter =
      (Inl RedisUnavailable, snd lost_limiter)" unfolding lost_limiter_def by (metis prod.collapse)
  then show ?thesis using lost_redis_fails_closed [OF disjI1 limiter_history.start] f by metis
qed

text \<open>
  A block of a whole bot that comes from an earlier, longer rate limit is stored with the life of the later, shorter
  one: after a refusal of two days at one destination and a short one at another the bot is blocked for two days, but
  the key lives one day, and after that the bot is admitted again.
\<close>

definition other_job :: "string \<Rightarrow> limiter_job" where
  "other_job j = (channel_job ''primary'' j)\<lparr>lj_destination_key := Some ''-200''\<rparr>"

definition twice_limited :: limiter where
  "twice_limited =
     (let long = rate_limited_decision\<lparr>dd_destination_cooldown_until := Some 172800000000\<rparr>;
          lm1 = snd (channel_observe 1000 ''primary'' ''7'' long fresh_limiter)
      in snd (observe default_limits (\<lambda>s. s) True True 1500 (other_job ''8'') rate_limited_decision 0 lm1))"

theorem bot_block_outlives_its_key:
  "lm_redis twice_limited (BotNext ''primary'') = Some (RNum 172801000, Some 86401500) \<and>
   allows (acquire default_limits (\<lambda>s. s) True 86401500 (other_job ''9'') (Aware 0 0) twice_limited)"
  by (intro conjI) code_simp+

end
