(* ===== verification/DurableQueue.thy ===== *)
theory DurableQueue
  imports Feeders DeliveryLimiter
begin

text \<open>
  The delivery queue in PostgreSQL: \<open>core/services/telegram_delivery_queue_service.py\<close> on
  \<open>models/telegram_delivery_job.py\<close>, \<open>models/telegram_delivery_provider_outcome.py\<close> and
  \<open>models/telegram_delivery_runtime_gate.py\<close>.  An operation is one transaction: it answers or raises, and a
  transaction that raises is rolled back.  Instants of the database clock, which an operation may read several
  times, are arguments, as are the digests of payloads and provider facts, the rows that other transactions have
  locked, and the answers of the callbacks that the callers pass.  Times are microseconds.
\<close>

section \<open>Tables\<close>

text \<open>A job row: the columns of the contract job, and the rest.  \<open>_record_to_contract\<close> reads the former.  A sanitised
  response keeps the identifier of the sent message beside the fields of the answer.\<close>

type_synonym sanitized_response = "(response_json \<times> int option) option"

record delivery_row =
  dr_job :: delivery_job
  dr_source_order_at :: "int option"
  dr_run_id :: "string option"
  dr_template_version :: string
  dr_payload_hash :: string
  dr_priority :: int
  dr_priority_rank :: int
  dr_dispatch_started_at :: "int option"
  dr_rate_limit_probe :: bool
  dr_provider_ok :: "bool option"
  dr_provider_status_code :: "int option"
  dr_provider_error_code :: "int option"
  dr_provider_response :: sanitized_response
  dr_last_retry_after_seconds :: "int option"
  dr_last_rate_limited_at :: "int option"
  dr_last_rate_limit_until :: "int option"
  dr_bot_cooldown_until :: "int option"
  dr_outcome_reason :: "string option"
  dr_sent_at :: "int option"
  dr_terminal_at :: "int option"
  dr_updated_at :: int

abbreviation row_id :: "delivery_row \<Rightarrow> int" where
  "row_id r \<equiv> job_id (dr_job r)"

abbreviation row_state :: "delivery_row \<Rightarrow> delivery_state" where
  "row_state r \<equiv> job_state (dr_job r)"

abbreviation row_bot :: "delivery_row \<Rightarrow> string" where
  "row_bot r \<equiv> job_bot_identity (dr_job r)"

abbreviation row_destination :: "delivery_row \<Rightarrow> string" where
  "row_destination r \<equiv> job_destination_key (dr_job r)"

datatype apply_state = OUTCOME_PENDING | OUTCOME_APPLIED | OUTCOME_QUARANTINED

record provider_facts =
  pf_gateway_ok :: bool
  pf_method :: string
  pf_transport_phase :: "string option"
  pf_provider_status_code :: "int option"
  pf_provider_response :: sanitized_response
  pf_provider_error_class :: "string option"
  pf_telegram_message_id :: "int option"
  pf_retry_after_seconds :: "int option"

record provider_outcome =
  po_id :: int
  po_job_id :: int
  po_lease_token :: int
  po_worker_id :: string
  po_bot_identity :: string
  po_facts :: provider_facts
  po_outcome_hash :: string
  po_apply_state :: apply_state
  po_apply_attempt_count :: int
  po_next_apply_at :: "int option"
  po_applied_at :: "int option"
  po_last_apply_error_class :: "string option"
  po_last_apply_error_message :: "string option"
  po_created_at :: int
  po_updated_at :: int

text \<open>A runtime gate; the columns of its resume journal that this service only clears are left out.\<close>

record runtime_gate =
  rg_gate_key :: string
  rg_scope :: string
  rg_bot_identity :: "string option"
  rg_state :: string
  rg_cooldown_until :: "int option"
  rg_reason_code :: "string option"
  rg_provider_status_code :: "int option"
  rg_version :: int
  rg_request_id :: "string option"
  rg_resumed_job_ids :: "int list"
  rg_updated_at :: int

record queue_tables =
  qt_jobs :: "delivery_row list"
  qt_outcomes :: "provider_outcome list"
  qt_gates :: "runtime_gate list"
  qt_next_job_id :: int
  qt_next_outcome_id :: int

text \<open>The tables of other services that this one reads: the resume operations (destination, state), the counts of the
  edit feeder and the dispatch commands (job, publisher, state).\<close>

record queue_env =
  qe_resumes :: "(string \<times> string) list"
  qe_fresh_success_counts :: "(string \<times> pyval) list option"
  qe_dispatch_commands :: "(int \<times> string \<times> string) list"

record deferral =
  df_retry_after_us :: int
  df_reason :: string
  df_cooldown_until :: "int option"
  df_scope :: string

datatype service_error =
    NotForeign | ValidationError string | DedupeConflictError string | DispatchDeferred deferral
  | GateIdentityConstraint | ContractError delivery_error | CallbackError

definition find_row :: "queue_tables \<Rightarrow> int \<Rightarrow> delivery_row option" where
  "find_row t i = find (\<lambda>r. row_id r = i) (qt_jobs t)"

definition put_row :: "delivery_row \<Rightarrow> queue_tables \<Rightarrow> queue_tables" where
  "put_row r t = t\<lparr>qt_jobs := map (\<lambda>x. if row_id x = row_id r then r else x) (qt_jobs t)\<rparr>"

definition find_outcome :: "queue_tables \<Rightarrow> int \<Rightarrow> provider_outcome option" where
  "find_outcome t i = find (\<lambda>x. po_id x = i) (qt_outcomes t)"

definition put_outcome :: "provider_outcome \<Rightarrow> queue_tables \<Rightarrow> queue_tables" where
  "put_outcome x t = t\<lparr>qt_outcomes := map (\<lambda>y. if po_id y = po_id x then x else y) (qt_outcomes t)\<rparr>"

section \<open>Constants\<close>

fun state_value :: "delivery_state \<Rightarrow> string" where
  "state_value ST_PENDING = ''pending''"
| "state_value ST_LEASED = ''leased''"
| "state_value ST_PENDING_RETRY = ''pending_retry''"
| "state_value ST_PENDING_RECONCILE = ''pending_reconcile''"
| "state_value ST_AMBIGUOUS = ''ambiguous''"
| "state_value ST_AMBIGUOUS_UNRESOLVED = ''ambiguous_unresolved''"
| "state_value ST_SENT = ''sent''"
| "state_value ST_SENT_NOOP = ''sent_noop''"
| "state_value ST_SUPERSEDED = ''superseded''"
| "state_value ST_EXPIRED_INTERACTION = ''expired_interaction''"
| "state_value ST_PERMANENT_UNDELIVERABLE = ''permanent_undeliverable''"
| "state_value ST_TERMINAL_FAILED = ''terminal_failed''"
| "state_value ST_QUARANTINED = ''quarantined''"
| "state_value ST_BLOCKED_DESTINATION = ''blocked_destination''"
| "state_value ST_BLOCKED_BOT = ''blocked_bot''"
| "state_value ST_BLOCKED_GATEWAY = ''blocked_gateway''"

fun freshness_value :: "freshness_outcome \<Rightarrow> string" where
  "freshness_value FRESH_SEND = ''send''"
| "freshness_value FRESH_WAIT_DEPENDENCY = ''wait_dependency''"
| "freshness_value FRESH_RECLASSIFY = ''reclassify''"
| "freshness_value FRESH_SENT_NOOP = ''sent_noop''"
| "freshness_value FRESH_SUPERSEDED = ''superseded''"
| "freshness_value FRESH_EXPIRED_INTERACTION = ''expired_interaction''"
| "freshness_value FRESH_QUARANTINED = ''quarantined''"

definition SUPPORTED_TELEGRAM_QUEUE_METHODS :: "string list" where
  "SUPPORTED_TELEGRAM_QUEUE_METHODS =
     [''answerCallbackQuery'', ''banChatMember'', ''deleteMessage'', ''editMessageReplyMarkup'', ''editMessageText'',
      ''sendDocument'', ''sendMessage'', ''unbanChatMember'']"

definition CHANNEL_EDITOR_METHODS :: "string list" where
  "CHANNEL_EDITOR_METHODS = [''editMessageReplyMarkup'', ''editMessageText'']"

definition CHANNEL_EDITOR_ACTIONS :: "delivery_action list" where
  "CHANNEL_EDITOR_ACTIONS =
     [PARTIAL_OFFER_EDIT, TRADED_OFFER_EDIT, EXPIRED_OFFER_EDIT, CANCELLED_OFFER_EDIT, OTHER_ACTIVE_OFFER_EDIT,
      OVERTIME_CHANNEL_EDIT, FINAL_TAIL_CHANNEL_EDIT, INVALID_ACTION_BUTTON_EDIT, RECONCILIATION_EDIT]"

definition TELEGRAM_PUBLISHER_OWNER_REQUIRED_METHODS :: "string list" where
  "TELEGRAM_PUBLISHER_OWNER_REQUIRED_METHODS =
     [''answerCallbackQuery'', ''deleteMessage'', ''editMessageReplyMarkup'', ''editMessageText'', ''sendMessage'']"

definition NON_DURABLE_TELEGRAM_QUEUE_ACTIONS :: "delivery_action list" where
  "NON_DURABLE_TELEGRAM_QUEUE_ACTIONS = [OTP_DEADLINE]"

definition TELEGRAM_NOTIFICATION_ACTIONS :: "delivery_action list" where
  "TELEGRAM_NOTIFICATION_ACTIONS =
     [OFFER_VALIDATION_RESPONSE, TRADE_RESPONSE, TRADE_ALTERNATIVE, TRADE_UNAVAILABLE, TRADE_NONCRITICAL, ACCOUNT_STATUS,
      TARGETED_ADMIN_MESSAGE, GENERAL_ANNOUNCEMENT, GENERAL_IMMEDIATE, TIMED_SECURITY, DELAYED_RESTRICTION]"

definition DURABLE_UNRESOLVED_DESTINATION_STATES :: "delivery_state list" where
  "DURABLE_UNRESOLVED_DESTINATION_STATES = [ST_AMBIGUOUS, ST_AMBIGUOUS_UNRESOLVED, ST_PENDING_RECONCILE]"

definition ACTIVE_TELEGRAM_DELIVERY_RESUME_STATES :: "string list" where
  "ACTIVE_TELEGRAM_DELIVERY_RESUME_STATES = [''requested'', ''database_applied'', ''redis_applied'']"

section \<open>Guards\<close>

definition foreign :: "string \<Rightarrow> bool" where
  "foreign current_server \<longleftrightarrow> py_norm (Some current_server) = ''foreign''"

text \<open>The name of the callback without which a job of the action must not go on.\<close>

definition lifecycle_callback :: "delivery_action \<Rightarrow> string option" where
  "lifecycle_callback action =
     (if action = TRADE_RESULT then Some ''trade_result''
      else if action = ADMIN_BROADCAST then Some ''admin_broadcast''
      else if action = NEW_USER_MEMBERSHIP then Some ''new_user_membership''
      else if action \<in> {MARKET_TRANSITION, MARKET_STATUS_CORRECTION} then Some ''market_notice''
      else if action = OFFER_REPEAT_RESPONSE then Some ''repeat_offer_response''
      else if action \<in> set TELEGRAM_NOTIFICATION_ACTIONS then Some ''notification_action''
      else if action = OFFER_SUCCESS then Some ''offer_success''
      else if action \<in> {CALLBACK_DEADLINE, OFFER_EXPIRY_CALLBACK} then Some ''callback''
      else None)"

text \<open>A callback is absent, or present with its answer: it returns or raises.\<close>

type_synonym callback = "service_error option option"

definition require_lifecycle_callback :: "delivery_row \<Rightarrow> callback \<Rightarrow> string \<Rightarrow> service_error option" where
  "require_lifecycle_callback r cb suffix =
     (if cb \<noteq> None then None
      else map_option (\<lambda>p. ValidationError (p @ suffix)) (lifecycle_callback (job_action (dr_job r))))"

definition run_callback :: "callback \<Rightarrow> service_error option" where
  "run_callback cb = (case cb of None \<Rightarrow> None | Some r \<Rightarrow> r)"

definition after :: "int option \<Rightarrow> int \<Rightarrow> bool" where
  "after t now \<longleftrightarrow> (case t of None \<Rightarrow> False | Some u \<Rightarrow> u > now)"

definition gate_blocks :: "int \<Rightarrow> runtime_gate \<Rightarrow> bool" where
  "gate_blocks now g \<longleftrightarrow>
     rg_state g \<in> {''blocked'', ''resume_requested'', ''database_applied''} \<or>
     rg_state g = ''cooldown'' \<and> after (rg_cooldown_until g) now"

definition bot_gate_key :: "string \<Rightarrow> string" where
  "bot_gate_key b = ''bot:'' @ b"

definition GATEWAY_GATE_KEY :: string where
  "GATEWAY_GATE_KEY = ''gateway:telegram''"

definition closed_gates :: "queue_tables \<Rightarrow> int \<Rightarrow> string \<Rightarrow> runtime_gate list" where
  "closed_gates t now b =
     filter (\<lambda>g. rg_gate_key g \<in> {bot_gate_key b, GATEWAY_GATE_KEY} \<and> gate_blocks now g) (qt_gates t)"

definition resume_incomplete :: "queue_env \<Rightarrow> string \<Rightarrow> bool" where
  "resume_incomplete env destination \<longleftrightarrow>
     list_ex (\<lambda>(d, st). d = destination \<and> st \<in> set ACTIVE_TELEGRAM_DELIVERY_RESUME_STATES) (qe_resumes env)"

text \<open>The row \<open>x\<close> keeps the job of \<open>r\<close> from being claimed or dispatched.\<close>

definition in_flight :: "delivery_row \<Rightarrow> bool" where
  "in_flight x \<longleftrightarrow> row_state x = ST_LEASED \<and> dr_dispatch_started_at x \<noteq> None"

definition unresolved :: "delivery_row \<Rightarrow> bool" where
  "unresolved x \<longleftrightarrow> row_state x \<in> set DURABLE_UNRESOLVED_DESTINATION_STATES \<and> dr_dispatch_started_at x \<noteq> None"

definition blocker :: "int \<Rightarrow> delivery_row \<Rightarrow> delivery_row \<Rightarrow> bool" where
  "blocker now r x \<longleftrightarrow>
     row_id x \<noteq> row_id r \<and>
     (row_destination x = row_destination r \<and>
        (in_flight x \<or>
         row_state x = ST_PENDING_RETRY \<and> dr_outcome_reason x = Some RATE_LIMITED \<and> after (job_next_retry_at (dr_job x)) now \<or>
         unresolved x \<or>
         row_bot x = row_bot r \<and> row_state x = ST_BLOCKED_DESTINATION) \<or>
      row_bot x = row_bot r \<and> row_state x = ST_BLOCKED_BOT \<or>
      row_state x = ST_BLOCKED_GATEWAY \<or>
      row_bot x = row_bot r \<and> after (dr_bot_cooldown_until x) now \<or>
      row_bot x = row_bot r \<and> dr_rate_limit_probe x \<and> (in_flight x \<or> unresolved x))"

text \<open>How long a blocker defers, why, and whether the limiter has to wait too.\<close>

type_synonym deferral_candidate = "int \<times> string \<times> string \<times> bool"

definition blocker_candidate :: "int \<Rightarrow> delivery_row \<Rightarrow> delivery_row \<Rightarrow> deferral_candidate" where
  "blocker_candidate now r x =
     (let scope = (if row_state x = ST_BLOCKED_BOT then ''bot'' else if row_state x = ST_BLOCKED_GATEWAY then ''gateway''
            else ''destination'');
          (reason, scope) = (if dr_rate_limit_probe x then (''bot_probe_inflight'', ''bot'') else (state_value (row_state x), scope));
          (until, limiter) =
            (case (row_state x, job_next_retry_at (dr_job x)) of
               (ST_PENDING_RETRY, Some t) \<Rightarrow> (t, True)
             | (ST_LEASED, _) \<Rightarrow> (now + 100000, False)
             | _ \<Rightarrow> (now + 30000000, True))
      in case dr_bot_cooldown_until x of
           Some cooldown \<Rightarrow>
             (if row_bot x = row_bot r \<and> cooldown > until then (cooldown, ''bot_cooldown'', ''bot'', True)
              else (until, reason, scope, limiter))
         | None \<Rightarrow> (until, reason, scope, limiter))"

definition longest_deferral :: "int \<Rightarrow> deferral_candidate list \<Rightarrow> deferral_candidate" where
  "longest_deferral now cs =
     fold (\<lambda>c best. if fst c > fst best then c else best) cs (now, state_value ST_LEASED, ''destination'', False)"

text \<open>\<open>TelegramDeliveryDispatchDeferredError\<close>.\<close>

definition defer_dispatch :: "int \<Rightarrow> string \<Rightarrow> int option \<Rightarrow> string \<Rightarrow> service_error" where
  "defer_dispatch retry_after_us reason cooldown_until scope =
     DispatchDeferred
       \<lparr>df_retry_after_us = max 100000 retry_after_us, df_reason = take 96 reason, df_cooldown_until = cooldown_until,
        df_scope = scope\<rparr>"

definition assert_durable_dispatch_gate ::
  "queue_env \<Rightarrow> queue_tables \<Rightarrow> delivery_row \<Rightarrow> int \<Rightarrow> service_error option" where
  "assert_durable_dispatch_gate env t r now =
     (case sort_key rg_gate_key (closed_gates t now (row_bot r)) of
        g # _ \<Rightarrow>
          (let retry_until = (case rg_cooldown_until g of
                 Some u \<Rightarrow> (if u > now then u else now + 30000000) | None \<Rightarrow> now + 30000000)
           in Some (defer_dispatch (retry_until - now) (''durable_dispatch_gate:runtime_'' @ rg_scope g) (Some retry_until) (rg_scope g)))
      | [] \<Rightarrow>
          (if resume_incomplete env (row_destination r)
           then Some (defer_dispatch 30000000 ''durable_dispatch_gate:resume_incomplete'' (Some (now + 30000000)) ''destination'')
           else
             (case sort_key row_id (filter (blocker now r) (qt_jobs t)) of
                [] \<Rightarrow> None
              | blockers \<Rightarrow>
                  (case longest_deferral now (map (blocker_candidate now r) blockers) of
                     (retry_until, reason, scope, limiter) \<Rightarrow>
                       Some (defer_dispatch (retry_until - now) (''durable_dispatch_gate:'' @ reason)
                         (if limiter then Some retry_until else None) scope)))))"

section \<open>Evidence for the limiter\<close>

record limiter_evidence =
  le_job_id :: int
  le_bot_identity :: string
  le_destination_key :: string
  le_state :: delivery_state
  le_outcome_reason :: "string option"
  le_next_retry_at :: "int option"
  le_bot_cooldown_until :: "int option"
  le_rate_limit_probe :: bool
  le_lease_until :: "int option"
  le_observed_at :: int

definition active_evidence :: "int \<Rightarrow> delivery_row \<Rightarrow> bool" where
  "active_evidence now x \<longleftrightarrow>
     row_state x = ST_PENDING_RETRY \<and> dr_outcome_reason x = Some RATE_LIMITED \<and> after (job_next_retry_at (dr_job x)) now \<or>
     row_state x \<in> {ST_BLOCKED_DESTINATION, ST_BLOCKED_BOT, ST_BLOCKED_GATEWAY} \<or>
     after (dr_bot_cooldown_until x) now \<or>
     dr_rate_limit_probe x \<and> (in_flight x \<or> unresolved x)"

definition evidence_of :: "delivery_row \<Rightarrow> limiter_evidence" where
  "evidence_of r =
     \<lparr>le_job_id = row_id r, le_bot_identity = row_bot r, le_destination_key = row_destination r, le_state = row_state r,
      le_outcome_reason = dr_outcome_reason r, le_next_retry_at = job_next_retry_at (dr_job r),
      le_bot_cooldown_until = dr_bot_cooldown_until r, le_rate_limit_probe = dr_rate_limit_probe r,
      le_lease_until = job_lease_until (dr_job r), le_observed_at = dr_updated_at r\<rparr>"

definition load_active_telegram_limiter_evidence ::
  "string \<Rightarrow> int \<Rightarrow> queue_tables \<Rightarrow> service_error + limiter_evidence list" where
  "load_active_telegram_limiter_evidence server now t =
     (if \<not> foreign server then Inl NotForeign
      else Inr (map evidence_of (sort_key (\<lambda>r. (dr_updated_at r, row_id r)) (filter (active_evidence now) (qt_jobs t)))))"

definition load_incomplete_telegram_resume_destination_keys :: "string \<Rightarrow> queue_env \<Rightarrow> service_error + string list" where
  "load_incomplete_telegram_resume_destination_keys server env =
     (if \<not> foreign server then Inl NotForeign
      else Inr (remdups (sort (map fst (filter (\<lambda>(d, st). st \<in> set ACTIVE_TELEGRAM_DELIVERY_RESUME_STATES) (qe_resumes env))))))"

section \<open>Provider facts\<close>

definition provider_ok :: "gateway_result \<Rightarrow> bool" where
  "provider_ok result \<longleftrightarrow> gr_ok result \<and> (case gr_json result of None \<Rightarrow> False | Some j \<Rightarrow> rj_ok j = Some True)"

definition provider_error_code :: "gateway_result \<Rightarrow> int option" where
  "provider_error_code result = (case gr_json result of None \<Rightarrow> None | Some j \<Rightarrow> int_of_json (rj_error_code j))"

text \<open>The text of the provider with its white space joined, cut at 500 characters.\<close>

definition clean_text :: "string \<Rightarrow> string" where
  "clean_text s = take 500 (concat (separate_by '' '' (py_split s)))"

definition sanitized_parameters :: "response_parameters \<Rightarrow> response_parameters option" where
  "sanitized_parameters p =
     (let retry = telegram_retry_after_integer (rp_retry_after p)
      in if retry = None \<and> \<not> rp_has_migrate_to_chat_id p then None
         else Some \<lparr>rp_retry_after = (case retry of Some s \<Rightarrow> PInt s | None \<Rightarrow> PNone),
                    rp_has_migrate_to_chat_id = rp_has_migrate_to_chat_id p\<rparr>)"

definition sanitized_json :: "response_json \<Rightarrow> response_json" where
  "sanitized_json j =
     \<lparr>rj_ok = rj_ok j, rj_error_code = (case rj_error_code j of PInt c \<Rightarrow> PInt c | _ \<Rightarrow> PNone),
      rj_parameters = Option.bind (rj_parameters j) sanitized_parameters,
      rj_description = (if rj_description j = [] then [] else clean_text (rj_description j)), rj_message = [], rj_error = []\<rparr>"

text \<open>An answer of which nothing is kept.\<close>

definition empty_json :: response_json where
  "empty_json = \<lparr>rj_ok = None, rj_error_code = PNone, rj_parameters = None, rj_description = [], rj_message = [], rj_error = []\<rparr>"

definition sanitized_provider_response :: "gateway_result \<Rightarrow> sanitized_response" where
  "sanitized_provider_response result =
     (case gr_json result of
        None \<Rightarrow> None
      | Some j \<Rightarrow>
          (if sanitized_json j = empty_json \<and> gr_message_id result = None then None
           else Some (sanitized_json j, gr_message_id result)))"

definition TRANSPORT_PHASES :: "string list" where
  "TRANSPORT_PHASES = [''pre_write'', ''write_unknown'', ''response_received'']"

definition blank_none :: "string \<Rightarrow> string option" where
  "blank_none s = (if s = [] then None else Some s)"

definition provider_outcome_facts :: "gateway_result \<Rightarrow> service_error + provider_facts" where
  "provider_outcome_facts result =
     (let phase = blank_none (py_norm (gr_transport_phase result))
      in if (case phase of None \<Rightarrow> False | Some p \<Rightarrow> p \<notin> set TRANSPORT_PHASES)
         then Inl (ValidationError ''provider_outcome_transport_phase_invalid'')
         else Inr
           \<lparr>pf_gateway_ok = gr_ok result, pf_method = gr_method result, pf_transport_phase = phase,
            pf_provider_status_code = gr_status_code result, pf_provider_response = sanitized_provider_response result,
            pf_provider_error_class = blank_none (take 120 (text_or_empty (gr_error result))),
            pf_telegram_message_id = gr_message_id result, pf_retry_after_seconds = retry_after_seconds result\<rparr>)"

definition provider_outcome_to_gateway_result :: "provider_outcome \<Rightarrow> gateway_result" where
  "provider_outcome_to_gateway_result x =
     (let f = po_facts x; response = pf_provider_response f
      in \<lparr>gr_ok = pf_gateway_ok f, gr_method = pf_method f, gr_status_code = pf_provider_status_code f,
          gr_response_text = (case response of None \<Rightarrow> [] | Some (j, _) \<Rightarrow> rj_description j),
          gr_json = map_option fst response, gr_error = pf_provider_error_class f,
          gr_transport_phase = pf_transport_phase f, gr_message_id = Option.bind response snd\<rparr>)"

definition new_outcome :: "int \<Rightarrow> delivery_row \<Rightarrow> int \<Rightarrow> string \<Rightarrow> provider_facts \<Rightarrow> string \<Rightarrow> int \<Rightarrow> provider_outcome" where
  "new_outcome i r token worker facts hash now =
     \<lparr>po_id = i, po_job_id = row_id r, po_lease_token = token, po_worker_id = worker, po_bot_identity = row_bot r,
      po_facts = facts\<lparr>pf_method := job_method (dr_job r)\<rparr>, po_outcome_hash = hash, po_apply_state = OUTCOME_PENDING,
      po_apply_attempt_count = 0, po_next_apply_at = Some now, po_applied_at = None, po_last_apply_error_class = None,
      po_last_apply_error_message = None, po_created_at = now, po_updated_at = now\<rparr>"

definition dispatch_fence :: "delivery_row \<Rightarrow> string \<Rightarrow> int \<Rightarrow> bool" where
  "dispatch_fence r worker token \<longleftrightarrow>
     job_lease_token (dr_job r) = token \<and> dr_dispatch_started_at r \<noteq> None \<and> job_worker_id (dr_job r) \<in> {None, Some worker}"

definition record_telegram_delivery_provider_outcome ::
  "(provider_facts \<Rightarrow> string) \<Rightarrow> string \<Rightarrow> int \<Rightarrow> string \<Rightarrow> int \<Rightarrow> gateway_result \<Rightarrow> int \<Rightarrow> queue_tables
     \<Rightarrow> (service_error + provider_outcome \<times> bool) \<times> queue_tables" where
  "record_telegram_delivery_provider_outcome digest server i worker token result now t =
     (if \<not> foreign server then (Inl NotForeign, t)
      else case find_row t i of
        None \<Rightarrow> (Inl (ValidationError ''provider_outcome_job_missing''), t)
      | Some r \<Rightarrow>
          (if \<not> dispatch_fence r worker token
           then (Inl (ValidationError ''provider_outcome_stale_dispatch_fence''), t)
           else if gr_method result \<noteq> job_method (dr_job r)
           then (Inl (ValidationError ''provider_outcome_method_mismatch''), t)
           else case provider_outcome_facts result of
             Inl e \<Rightarrow> (Inl e, t)
           | Inr facts \<Rightarrow>
               (case filter (\<lambda>x. po_job_id x = i \<and> po_lease_token x = token) (qt_outcomes t) of
                  existing # _ \<Rightarrow>
                    (if po_outcome_hash existing \<noteq> digest facts
                     then (Inl (ValidationError ''provider_outcome_fence_conflict''), t)
                     else (Inr (existing, False), t))
                | [] \<Rightarrow>
                    (let x = new_outcome (qt_next_outcome_id t) r token worker facts (digest facts) now
                     in (Inr (x, True),
                         t\<lparr>qt_outcomes := qt_outcomes t @ [x], qt_next_outcome_id := qt_next_outcome_id t + 1\<rparr>)))))"

section \<open>Enqueue\<close>

record enqueue_request =
  eq_feeder :: feeder_kind
  eq_source_natural_id :: string
  eq_source_version :: int
  eq_action :: delivery_action
  eq_bot_identity :: string
  eq_destination_key :: string
  eq_destination_class :: destination_class
  eq_method :: string
  eq_payload :: string
  eq_template_version :: string
  eq_delivery_deadline_at :: "int option"
  eq_eligible_at :: "int option"
  eq_freshness_deadline_at :: "int option"
  eq_source_order_at :: "pydt option"
  eq_campaign_id :: "string option"
  eq_run_id :: "string option"

text \<open>The request with its texts stripped; an empty optional text is none.\<close>

definition strip_option :: "string option \<Rightarrow> string option" where
  "strip_option v = blank_none (py_strip (text_or_empty v))"

definition normalized_request :: "enqueue_request \<Rightarrow> enqueue_request" where
  "normalized_request q =
     q\<lparr>eq_source_natural_id := py_strip (eq_source_natural_id q), eq_bot_identity := py_strip (eq_bot_identity q),
       eq_destination_key := py_strip (eq_destination_key q), eq_template_version := py_strip (eq_template_version q),
       eq_campaign_id := strip_option (eq_campaign_id q), eq_run_id := strip_option (eq_run_id q),
       eq_method := py_strip (eq_method q)\<rparr>"

definition length_limits :: "enqueue_request \<Rightarrow> (string \<times> nat \<times> string) list" where
  "length_limits q =
     [(eq_source_natural_id q, 256, ''source_natural_id_too_long''), (eq_bot_identity q, 128, ''bot_identity_too_long''),
      (eq_destination_key q, 256, ''destination_key_too_long''), (eq_template_version q, 64, ''template_version_too_long''),
      (text_or_empty (eq_campaign_id q), 192, ''campaign_id_too_long''), (text_or_empty (eq_run_id q), 192, ''run_id_too_long'')]"

definition channel_editor_route :: "enqueue_request \<Rightarrow> bool" where
  "channel_editor_route q \<longleftrightarrow>
     eq_destination_class q = DEST_CHANNEL \<and> eq_method q \<in> set CHANNEL_EDITOR_METHODS \<and> eq_action q \<in> set CHANNEL_EDITOR_ACTIONS"

definition publisher_route :: "enqueue_request \<Rightarrow> bool" where
  "publisher_route q \<longleftrightarrow>
     eq_destination_class q = DEST_CHANNEL \<and> eq_method q \<in> set TELEGRAM_PUBLISHER_OWNER_REQUIRED_METHODS \<and>
       eq_action q \<in> fst ` set OFFER_ACTION_OPERATIONS \<or>
     eq_destination_class q = DEST_PRIVATE \<and> eq_method q = ''answerCallbackQuery'' \<and>
       eq_action q \<in> {CALLBACK_DEADLINE, OFFER_EXPIRY_CALLBACK}"

definition aware :: "pydt option \<Rightarrow> bool" where
  "aware v \<longleftrightarrow> (case v of None \<Rightarrow> False | Some d \<Rightarrow> utc_of d \<noteq> None)"

text \<open>The checks on a normalised request, in the order of the code.\<close>

definition enqueue_problem :: "enqueue_request \<Rightarrow> string option" where
  "enqueue_problem q =
     (if eq_source_natural_id q = [] \<or> eq_bot_identity q = [] \<or> eq_destination_key q = [] \<or> eq_template_version q = []
      then Some ''queue_identity_fields_required''
      else case find (\<lambda>(v, n, p). length v > n) (length_limits q) of
        Some (_, _, reason) \<Rightarrow> Some reason
      | None \<Rightarrow>
          (if eq_source_version q < 0 then Some ''source_version_must_be_non_negative''
           else if eq_action q \<in> set NON_DURABLE_TELEGRAM_QUEUE_ACTIONS then Some ''telegram_action_forbidden_in_durable_queue''
           else if eq_method q \<notin> set SUPPORTED_TELEGRAM_QUEUE_METHODS then Some ''telegram_method_not_allowlisted''
           else if eq_bot_identity q \<notin> set SUPPORTED_TELEGRAM_BOT_IDENTITIES then Some ''telegram_bot_identity_not_allowlisted''
           else if eq_bot_identity q = ''channel_editor'' \<and> \<not> channel_editor_route q
           then Some ''channel_editor_route_not_allowlisted''
           else if eq_bot_identity q \<in> set TELEGRAM_PUBLISHER_IDENTITIES \<and> \<not> publisher_route q
           then Some ''publisher_lane_route_not_allowlisted''
           else if eq_feeder q = FEED_OFFER_EDIT \<and> \<not> aware (eq_source_order_at q) then Some ''offer_edit_source_order_at_required''
           else if eq_feeder q \<noteq> FEED_OFFER_EDIT \<and> eq_source_order_at q \<noteq> None
           then Some ''source_order_at_forbidden_for_non_offer_edit''
           else None))"

definition request_key :: "enqueue_request \<Rightarrow> string" where
  "request_key q =
     build_delivery_dedupe_key (eq_feeder q) (eq_source_natural_id q) (eq_source_version q) (eq_action q) (eq_destination_key q)"

definition source_order :: "enqueue_request \<Rightarrow> int option" where
  "source_order q = Option.bind (eq_source_order_at q) utc_of"

definition immutable_enqueue_fields :: "(string \<Rightarrow> string) \<Rightarrow> delivery_row \<Rightarrow> nat \<Rightarrow> enqueue_request \<Rightarrow> bool" where
  "immutable_enqueue_fields digest r feeder_rank q \<longleftrightarrow>
     (let job = dr_job r
      in job_feeder job = eq_feeder q \<and> job_feeder_rank job = feeder_rank \<and> job_source_natural_id job = eq_source_natural_id q \<and>
         job_source_version job = eq_source_version q \<and> job_action job = eq_action q \<and> job_bot_identity job = eq_bot_identity q \<and>
         job_destination_key job = eq_destination_key q \<and> job_destination_class job = eq_destination_class q \<and>
         job_method job = eq_method q \<and> dr_payload_hash r = digest (eq_payload q) \<and>
         dr_template_version r = eq_template_version q \<and> job_delivery_deadline_at job = eq_delivery_deadline_at q \<and>
         job_eligible_at job = eq_eligible_at q \<and> job_freshness_deadline_at job = eq_freshness_deadline_at q \<and>
         dr_source_order_at r = source_order q \<and> job_campaign_id job = eq_campaign_id q \<and> dr_run_id r = eq_run_id q)"

definition new_row :: "(string \<Rightarrow> string) \<Rightarrow> int \<Rightarrow> nat \<Rightarrow> int \<Rightarrow> enqueue_request \<Rightarrow> delivery_row" where
  "new_row digest i feeder_rank now q =
     (let (priority, rank) = priority_and_rank_for_action (eq_action q) None (eq_delivery_deadline_at q) (Some (eq_destination_class q))
      in \<lparr>dr_job =
            \<lparr>job_id = i, job_dedupe_key = request_key q, job_feeder = eq_feeder q, job_feeder_rank = feeder_rank,
             job_source_natural_id = eq_source_natural_id q, job_source_version = eq_source_version q,
             job_destination_key = eq_destination_key q, job_destination_class = eq_destination_class q,
             job_method = eq_method q, job_payload = eq_payload q, job_action = eq_action q, job_created_sequence = i,
             job_bot_identity = eq_bot_identity q, job_delivery_deadline_at = eq_delivery_deadline_at q,
             job_eligible_at = eq_eligible_at q, job_freshness_deadline_at = eq_freshness_deadline_at q,
             job_campaign_id = eq_campaign_id q, job_state = ST_PENDING, job_attempt_count = 0, job_provider_attempt_count = 0,
             job_next_retry_at = None, job_lease_until = None, job_lease_token = 0, job_worker_id = None,
             job_last_error_class = None, job_last_error_message = None, job_telegram_message_id = None\<rparr>,
          dr_source_order_at = source_order q, dr_run_id = eq_run_id q, dr_template_version = eq_template_version q,
          dr_payload_hash = digest (eq_payload q), dr_priority = priority_level priority, dr_priority_rank = int rank,
          dr_dispatch_started_at = None, dr_rate_limit_probe = False, dr_provider_ok = None, dr_provider_status_code = None,
          dr_provider_error_code = None, dr_provider_response = None, dr_last_retry_after_seconds = None,
          dr_last_rate_limited_at = None, dr_last_rate_limit_until = None, dr_bot_cooldown_until = None,
          dr_outcome_reason = None, dr_sent_at = None, dr_terminal_at = None, dr_updated_at = now\<rparr>)"

text \<open>The identifier and the sequence number of a row come from two sequences of the database, which advance together.\<close>

definition enqueue_telegram_delivery_job ::
  "(string \<Rightarrow> string) \<Rightarrow> string \<Rightarrow> int \<Rightarrow> enqueue_request \<Rightarrow> queue_tables
     \<Rightarrow> (service_error + delivery_row \<times> bool) \<times> queue_tables" where
  "enqueue_telegram_delivery_job digest server now request t =
     (let q = normalized_request request
      in if \<not> foreign server then (Inl NotForeign, t)
         else case enqueue_problem q of
           Some reason \<Rightarrow> (Inl (ValidationError reason), t)
         | None \<Rightarrow>
             (case feeder_internal_rank (eq_feeder q) (eq_action q) of
                Inl e \<Rightarrow> (Inl (ContractError e), t)
              | Inr rank \<Rightarrow>
                  (case find (\<lambda>r. job_dedupe_key (dr_job r) = request_key q) (qt_jobs t) of
                     Some r \<Rightarrow>
                       (if immutable_enqueue_fields digest r rank q then (Inr (r, False), t)
                        else (Inl (DedupeConflictError (request_key q)), t))
                   | None \<Rightarrow>
                       (let r = new_row digest (qt_next_job_id t) rank now q
                        in (Inr (r, True), t\<lparr>qt_jobs := qt_jobs t @ [r], qt_next_job_id := qt_next_job_id t + 1\<rparr>)))))"

section \<open>Claim\<close>

definition trade_overdue :: "int \<Rightarrow> delivery_row \<Rightarrow> bool" where
  "trade_overdue now r \<longleftrightarrow> job_action (dr_job r) = TRADE_RESULT \<and> passed now (job_delivery_deadline_at (dr_job r))"

definition row_priority :: "int \<Rightarrow> delivery_row \<Rightarrow> int" where
  "row_priority now r = (if trade_overdue now r then 0 else dr_priority r)"

definition row_rank :: "int \<Rightarrow> delivery_row \<Rightarrow> int" where
  "row_rank now r = (if trade_overdue now r then 1 else dr_priority_rank r)"

definition offer_edit_stale :: "int \<Rightarrow> delivery_row \<Rightarrow> bool" where
  "offer_edit_stale now r \<longleftrightarrow>
     job_feeder (dr_job r) = FEED_OFFER_EDIT \<and>
     (case job_eligible_at (dr_job r) of None \<Rightarrow> False | Some e \<Rightarrow> e \<le> now - EDIT_STALE_AFTER_SECONDS * 1000000)"

text \<open>The ranks of edits that are due for catch-up; \<open>None\<close> for a missing or malformed state.\<close>

definition catch_up_rank :: "string \<times> pyval \<Rightarrow> int option option" where
  "catch_up_rank e =
     (case (py_int_of_string (fst e), int_of_json (snd e)) of
        (Some rank, Some n) \<Rightarrow>
          (if rank < 0 \<or> n < 0 \<or> n > EDIT_CATCH_UP_FRESH_COUNT then None
           else Some (if n \<ge> EDIT_CATCH_UP_FRESH_COUNT then Some rank else None))
      | _ \<Rightarrow> None)"

definition catch_up_due_ranks :: "queue_env \<Rightarrow> int list option" where
  "catch_up_due_ranks env =
     (case qe_fresh_success_counts env of
        None \<Rightarrow> None
      | Some es \<Rightarrow>
          (if list_ex (\<lambda>e. catch_up_rank e = None) es then None
           else Some (List.map_filter (\<lambda>e. Option.bind (catch_up_rank e) id) es)))"

definition freshness_bucket :: "int list \<Rightarrow> int \<Rightarrow> delivery_row \<Rightarrow> int" where
  "freshness_bucket ranks now r =
     (if offer_edit_stale now r \<and> int (job_feeder_rank (dr_job r)) \<in> set ranks then 0
      else if offer_edit_stale now r then 2 else 1)"

definition nulls_last :: "int option \<Rightarrow> deadline" where
  "nulls_last v = (case v of Some x \<Rightarrow> At x | None \<Rightarrow> Never)"

definition claim_key :: "int list \<Rightarrow> int \<Rightarrow> delivery_row \<Rightarrow> int \<times> int \<times> int \<times> deadline \<times> deadline \<times> int" where
  "claim_key ranks now r =
     (row_priority now r, row_rank now r, freshness_bucket ranks now r,
      nulls_last (if job_feeder (dr_job r) = FEED_OFFER_EDIT then map_option uminus (dr_source_order_at r) else None),
      nulls_last (job_delivery_deadline_at (dr_job r)), job_created_sequence (dr_job r))"

definition dispatch_acknowledged :: "queue_env \<Rightarrow> delivery_row \<Rightarrow> bool" where
  "dispatch_acknowledged env r \<longleftrightarrow>
     list_ex (\<lambda>(i, p, st). i = row_id r \<and> p = row_bot r \<and> st = ''acknowledged'') (qe_dispatch_commands env)"

definition claimable :: "queue_env \<Rightarrow> queue_tables \<Rightarrow> string \<Rightarrow> int \<Rightarrow> delivery_row \<Rightarrow> bool" where
  "claimable env t lane now r \<longleftrightarrow>
     row_bot r = lane \<and> row_state r \<in> set CLAIMABLE_DELIVERY_STATES \<and>
     DeliveryQueue.due (job_eligible_at (dr_job r)) now \<and> DeliveryQueue.due (job_next_retry_at (dr_job r)) now \<and>
     DeliveryQueue.due (dr_bot_cooldown_until r) now \<and>
     \<not> list_ex (blocker now r) (qt_jobs t) \<and> \<not> resume_incomplete env (row_destination r) \<and>
     closed_gates t now (row_bot r) = [] \<and>
     (lane \<in> set TELEGRAM_PUBLISHER_IDENTITIES \<longrightarrow>
        job_destination_class (dr_job r) = DEST_PRIVATE \<or> dispatch_acknowledged env r)"

record claim_request =
  cr_bot_identity :: string
  cr_worker_id :: string
  cr_request_timeout_seconds :: rat
  cr_lease_seconds :: rat
  cr_allowed_destination_classes :: "destination_class list option"
  cr_maximum_effective_priority :: "int option"

definition claim_problem :: "queue_env \<Rightarrow> claim_request \<Rightarrow> string option" where
  "claim_problem env q =
     (if py_strip (cr_bot_identity q) \<notin> set SUPPORTED_TELEGRAM_BOT_IDENTITIES then Some ''telegram_bot_identity_not_allowlisted''
      else if cr_lease_seconds q < cr_request_timeout_seconds q + MINIMUM_LEASE_MARGIN_SECONDS
      then Some ''lease_must_cover_request_timeout_plus_margin''
      else if cr_allowed_destination_classes q = Some [] then Some ''allowed_destination_classes_must_not_be_empty''
      else if catch_up_due_ranks env = None then Some ''telegram_offer_edit_fairness_state_missing_or_invalid''
      else case cr_maximum_effective_priority q of
        Some m \<Rightarrow> (if 0 \<le> m \<and> m \<le> 7 then None else Some ''maximum_effective_priority_invalid'')
      | None \<Rightarrow> None)"

definition claim_filter :: "queue_env \<Rightarrow> queue_tables \<Rightarrow> claim_request \<Rightarrow> int \<Rightarrow> delivery_row \<Rightarrow> bool" where
  "claim_filter env t q now r \<longleftrightarrow>
     claimable env t (py_strip (cr_bot_identity q)) now r \<and>
     (case cr_allowed_destination_classes q of None \<Rightarrow> True | Some cs \<Rightarrow> job_destination_class (dr_job r) \<in> set cs) \<and>
     (case cr_maximum_effective_priority q of None \<Rightarrow> True | Some m \<Rightarrow> row_priority now r \<le> m)"

definition lease_row :: "string \<Rightarrow> int \<Rightarrow> rat \<Rightarrow> delivery_row \<Rightarrow> delivery_row" where
  "lease_row worker started lease_seconds r =
     r\<lparr>dr_job := (dr_job r)\<lparr>job_state := ST_LEASED, job_worker_id := Some worker,
         job_lease_token := job_lease_token (dr_job r) + 1, job_lease_until := Some (started + seconds_us lease_seconds),
         job_attempt_count := job_attempt_count (dr_job r) + 1\<rparr>,
       dr_dispatch_started_at := None, dr_updated_at := started\<rparr>"

text \<open>\<open>now\<close> is the instant of the selection, \<open>started\<close> the later one of the lease; rows locked by others are skipped.\<close>

definition claim_next_telegram_delivery_job ::
  "queue_env \<Rightarrow> int list \<Rightarrow> string \<Rightarrow> claim_request \<Rightarrow> int \<Rightarrow> int \<Rightarrow> queue_tables
     \<Rightarrow> (service_error + delivery_row option) \<times> queue_tables" where
  "claim_next_telegram_delivery_job env locked server q now started t =
     (if \<not> foreign server then (Inl NotForeign, t)
      else case claim_problem env q of
        Some reason \<Rightarrow> (Inl (ValidationError reason), t)
      | None \<Rightarrow>
          (case min_by (claim_key (case catch_up_due_ranks env of Some rs \<Rightarrow> rs | None \<Rightarrow> []) now)
                  (filter (\<lambda>r. claim_filter env t q now r \<and> row_id r \<notin> set locked) (qt_jobs t)) of
             None \<Rightarrow> (Inr None, t)
           | Some r \<Rightarrow>
               (let leased = lease_row (cr_worker_id q) started (cr_lease_seconds q) r
                in (Inr (Some leased), put_row leased t))))"

section \<open>Dispatch\<close>

definition holds_row :: "delivery_row \<Rightarrow> string \<Rightarrow> int \<Rightarrow> bool" where
  "holds_row r worker token \<longleftrightarrow> holds_lease (dr_job r) worker token"

definition mark_row :: "int \<Rightarrow> bool \<Rightarrow> delivery_row \<Rightarrow> delivery_row" where
  "mark_row at_us probe r =
     r\<lparr>dr_job := (dr_job r)\<lparr>job_provider_attempt_count := job_provider_attempt_count (dr_job r) + 1\<rparr>,
       dr_dispatch_started_at := Some at_us, dr_rate_limit_probe := probe, dr_updated_at := at_us\<rparr>"

text \<open>The clock is read on entry, after the gate and after the guard: \<open>n1\<close>, \<open>n2\<close> and \<open>n3\<close>.\<close>

definition mark_telegram_delivery_dispatch_started ::
  "queue_env \<Rightarrow> string \<Rightarrow> int \<Rightarrow> string \<Rightarrow> int \<Rightarrow> callback \<Rightarrow> bool \<Rightarrow> int \<Rightarrow> int \<Rightarrow> int \<Rightarrow> queue_tables
     \<Rightarrow> (service_error + bool) \<times> queue_tables" where
  "mark_telegram_delivery_dispatch_started env server i worker token guard probe n1 n2 n3 t =
     (if \<not> foreign server then (Inl NotForeign, t)
      else case find_row t i of
        None \<Rightarrow> (Inr False, t)
      | Some r \<Rightarrow>
          (let linearized = max n1 n2;
               expires = (\<lambda>n. \<not> after (job_lease_until (dr_job r)) n)
           in if \<not> holds_row r worker token \<or> expires n1 \<or> dr_dispatch_started_at r \<noteq> None then (Inr False, t)
              else case assert_durable_dispatch_gate env t r n1 of
                Some e \<Rightarrow> (Inl e, t)
              | None \<Rightarrow>
                  (if expires linearized then (Inr False, t)
                   else case require_lifecycle_callback r guard ''_dispatch_guard_required'' of
                     Some e \<Rightarrow> (Inl e, t)
                   | None \<Rightarrow>
                       (case run_callback guard of
                          Some e \<Rightarrow> (Inl e, t)
                        | None \<Rightarrow>
                            (let final = (if guard = None then linearized else max linearized n3)
                             in if guard \<noteq> None \<and> expires final then (Inr False, t)
                                else (Inr True, put_row (mark_row final probe r) t))))))"

section \<open>Leaving a lease before the dispatch\<close>

definition free_row :: "delivery_state \<Rightarrow> int option \<Rightarrow> string \<Rightarrow> int \<Rightarrow> delivery_row \<Rightarrow> delivery_row" where
  "free_row st retry_at reason now r =
     r\<lparr>dr_job := (dr_job r)\<lparr>job_state := st, job_next_retry_at := retry_at, job_worker_id := None, job_lease_until := None\<rparr>,
       dr_outcome_reason := Some reason, dr_updated_at := now\<rparr>"

definition terminal_row :: "int \<Rightarrow> delivery_row \<Rightarrow> delivery_row" where
  "terminal_row now r = (if is_terminal (dr_job r) then r\<lparr>dr_terminal_at := Some now\<rparr> else r)"

definition freshness_row ::
  "freshness_decision \<Rightarrow> string option \<Rightarrow> rat \<Rightarrow> int \<Rightarrow> delivery_state \<Rightarrow> delivery_row \<Rightarrow> delivery_row" where
  "freshness_row decision reason dependency_retry_seconds now contract_state r =
     (let st = (if fd_outcome decision = FRESH_RECLASSIFY \<and> fd_replacement_action decision \<noteq> None then ST_PENDING_RECONCILE
            else if fd_outcome decision = FRESH_WAIT_DEPENDENCY then ST_PENDING_RETRY else contract_state);
          retry_at = (if fd_outcome decision = FRESH_WAIT_DEPENDENCY
            then Some (now + seconds_us (max (1 / 10) dependency_retry_seconds)) else None);
          reason_text = (if text_or_empty reason \<noteq> [] then text_or_empty reason
            else ''freshness_'' @ freshness_value (fd_outcome decision))
      in terminal_row now (free_row st retry_at reason_text now r))"

definition apply_telegram_delivery_freshness_result ::
  "string \<Rightarrow> int \<Rightarrow> string \<Rightarrow> int \<Rightarrow> freshness_decision \<Rightarrow> string option \<Rightarrow> callback \<Rightarrow> rat \<Rightarrow> int \<Rightarrow> queue_tables
     \<Rightarrow> (service_error + bool) \<times> queue_tables" where
  "apply_telegram_delivery_freshness_result server i worker token decision reason feedback dependency_retry_seconds now t =
     (if \<not> foreign server then (Inl NotForeign, t)
      else if fd_outcome decision = FRESH_SEND then (Inr True, t)
      else case find_row t i of
        None \<Rightarrow> (Inr False, t)
      | Some r \<Rightarrow>
          (if \<not> holds_row r worker token then (Inr False, t)
           else case require_lifecycle_callback r feedback ''_freshness_feedback_required'' of
             Some e \<Rightarrow> (Inl e, t)
           | None \<Rightarrow>
               (case apply_freshness_decision (dr_job r) decision of
                  (_, Some e) \<Rightarrow> (Inl (ContractError e), t)
                | (contract_job, None) \<Rightarrow>
                    (case run_callback feedback of
                       Some e \<Rightarrow> (Inl e, t)
                     | None \<Rightarrow>
                         (Inr False,
                          put_row (freshness_row decision reason dependency_retry_seconds now (job_state contract_job) r) t)))))"

definition unstarted_lease :: "delivery_row \<Rightarrow> string \<Rightarrow> int \<Rightarrow> bool" where
  "unstarted_lease r worker token \<longleftrightarrow> holds_row r worker token \<and> dr_dispatch_started_at r = None"

definition release_unstarted_telegram_delivery_lease ::
  "string \<Rightarrow> int \<Rightarrow> string \<Rightarrow> int \<Rightarrow> string \<Rightarrow> rat \<Rightarrow> int \<Rightarrow> queue_tables \<Rightarrow> (service_error + bool) \<times> queue_tables" where
  "release_unstarted_telegram_delivery_lease server i worker token reason retry_seconds now t =
     (if \<not> foreign server then (Inl NotForeign, t)
      else case find_row t i of
        None \<Rightarrow> (Inr False, t)
      | Some r \<Rightarrow>
          (if \<not> unstarted_lease r worker token then (Inr False, t)
           else
             (let freed = free_row ST_PENDING_RETRY (Some (now + seconds_us (max (1 / 10) retry_seconds)))
                    (take 160 (if reason = [] then ''pre_dispatch_error'' else reason)) now r
              in (Inr True, put_row (freed\<lparr>dr_job := (dr_job freed)\<lparr>job_last_error_class := Some ''PreDispatchError''\<rparr>\<rparr>) t))))"

definition defer_unstarted_telegram_delivery_lease ::
  "string \<Rightarrow> int \<Rightarrow> string \<Rightarrow> int \<Rightarrow> rat \<Rightarrow> string \<Rightarrow> int \<Rightarrow> queue_tables \<Rightarrow> (service_error + bool) \<times> queue_tables" where
  "defer_unstarted_telegram_delivery_lease server i worker token retry_seconds reason now t =
     (if \<not> foreign server then (Inl NotForeign, t)
      else case find_row t i of
        None \<Rightarrow> (Inr False, t)
      | Some r \<Rightarrow>
          (if \<not> unstarted_lease r worker token then (Inr False, t)
           else
             (let freed = free_row ST_PENDING_RETRY (Some (now + seconds_us (max (1 / 1000) retry_seconds)))
                    (take 160 (if reason = [] then ''telegram_limiter_wait'' else reason)) now r
              in (Inr True,
                  put_row (freed\<lparr>dr_job := (dr_job freed)\<lparr>job_last_error_class := None, job_last_error_message := None\<rparr>\<rparr>) t))))"

section \<open>Results\<close>

text \<open>The columns that \<open>resolve_telegram_delivery_result\<close> copies from the contract job and from the answer.\<close>

definition settle_row :: "delivery_job \<Rightarrow> gateway_result \<Rightarrow> delivery_row \<Rightarrow> delivery_row" where
  "settle_row job result r =
     r\<lparr>dr_job := (dr_job r)\<lparr>job_state := job_state job, job_next_retry_at := job_next_retry_at job,
         job_worker_id := job_worker_id job, job_lease_until := job_lease_until job,
         job_last_error_class := job_last_error_class job, job_last_error_message := job_last_error_message job,
         job_telegram_message_id := job_telegram_message_id job\<rparr>,
       dr_provider_ok := Some (provider_ok result), dr_provider_status_code := gr_status_code result,
       dr_provider_error_code := provider_error_code result, dr_provider_response := sanitized_provider_response result,
       dr_last_retry_after_seconds := retry_after_seconds result, dr_rate_limit_probe := False\<rparr>"

definition recent_rate_limit :: "delivery_row \<Rightarrow> int \<Rightarrow> int \<Rightarrow> delivery_row \<Rightarrow> bool" where
  "recent_rate_limit r window_start linearized x \<longleftrightarrow>
     row_id x \<noteq> row_id r \<and> row_bot x = row_bot r \<and> row_destination x \<noteq> row_destination r \<and>
     (case dr_last_rate_limited_at x of None \<Rightarrow> False | Some s \<Rightarrow> window_start \<le> s \<and> s \<le> linearized) \<and>
     dr_last_rate_limit_until x \<noteq> None"

definition persist_durable_rate_limit_evidence ::
  "delivery_row list \<Rightarrow> rat \<Rightarrow> int \<Rightarrow> int \<Rightarrow> delivery_row \<Rightarrow> delivery_decision \<Rightarrow> delivery_row \<times> delivery_decision" where
  "persist_durable_rate_limit_evidence rows window_seconds provider_result_at linearized r decision =
     (case (dd_reason decision = RATE_LIMITED, dd_destination_cooldown_until decision) of
        (True, Some destination_deadline) \<Rightarrow>
          (let r1 = r\<lparr>dr_last_rate_limited_at := Some linearized, dr_last_rate_limit_until := Some destination_deadline\<rparr>;
               window_start = linearized - seconds_us (max (1 / 1000) window_seconds);
               prior = filter (recent_rate_limit r1 window_start linearized) rows;
               bot_deadlines =
                 concat (map (\<lambda>x. List.map_filter id [dr_last_rate_limit_until x, dr_bot_cooldown_until x]) prior) @
                 (case dr_bot_cooldown_until r1 of
                    Some u \<Rightarrow> (if u > provider_result_at then [u] else []) | None \<Rightarrow> [])
           in if prior = [] \<and> bot_deadlines = [] then (r1, decision)
              else
                (let bot_cooldown_until = fold max bot_deadlines destination_deadline;
                     retry_at = (case job_next_retry_at (dr_job r1) of
                       Some t \<Rightarrow> (if t < bot_cooldown_until then bot_cooldown_until else t) | None \<Rightarrow> bot_cooldown_until)
                 in (r1\<lparr>dr_job := (dr_job r1)\<lparr>job_next_retry_at := Some retry_at\<rparr>,
                        dr_bot_cooldown_until := Some bot_cooldown_until\<rparr>,
                     decision\<lparr>dd_next_retry_at := Some retry_at, dd_bot_cooldown_until := Some bot_cooldown_until\<rparr>)))
      | _ \<Rightarrow> (r, decision))"

text \<open>The check constraint \<open>ck_telegram_delivery_runtime_gates_identity\<close> of the gate table.\<close>

definition gate_identity_ok :: "runtime_gate \<Rightarrow> bool" where
  "gate_identity_ok g \<longleftrightarrow>
     rg_scope g = ''bot'' \<and>
       (case rg_bot_identity g of
          Some b \<Rightarrow> b \<in> {''primary'', ''channel_editor''} \<and> rg_gate_key g = bot_gate_key b | None \<Rightarrow> False) \<or>
     rg_scope g = ''gateway'' \<and> rg_bot_identity g = None \<and> rg_gate_key g = GATEWAY_GATE_KEY"

definition block_gate :: "delivery_row \<Rightarrow> delivery_decision \<Rightarrow> int \<Rightarrow> runtime_gate \<Rightarrow> runtime_gate" where
  "block_gate r decision now g =
     g\<lparr>rg_state := ''blocked'', rg_cooldown_until := None, rg_reason_code := Some (dd_reason decision),
       rg_provider_status_code := dr_provider_status_code r, rg_version := rg_version g + 1, rg_request_id := None,
       rg_resumed_job_ids := [], rg_updated_at := now\<rparr>"

definition new_gate :: "string \<Rightarrow> string \<Rightarrow> string option \<Rightarrow> int \<Rightarrow> runtime_gate" where
  "new_gate key scope bot_identity now =
     \<lparr>rg_gate_key = key, rg_scope = scope, rg_bot_identity = bot_identity, rg_state = ''blocked'', rg_cooldown_until = None,
      rg_reason_code = None, rg_provider_status_code = None, rg_version = 0, rg_request_id = None, rg_resumed_job_ids = [],
      rg_updated_at = now\<rparr>"

definition persist_durable_runtime_gate_evidence ::
  "runtime_gate list \<Rightarrow> delivery_row \<Rightarrow> delivery_decision \<Rightarrow> int \<Rightarrow> service_error + runtime_gate list" where
  "persist_durable_runtime_gate_evidence gates r decision now =
     (let write = (\<lambda>key scope bot_identity.
            case find (\<lambda>g. rg_gate_key g = key) gates of
              Some g \<Rightarrow>
                (if gate_identity_ok (block_gate r decision now g)
                 then Inr (map (\<lambda>x. if rg_gate_key x = key then block_gate r decision now g else x) gates)
                 else Inl GateIdentityConstraint)
            | None \<Rightarrow>
                (let g = block_gate r decision now (new_gate key scope bot_identity now)
                 in if gate_identity_ok g then Inr (gates @ [g]) else Inl GateIdentityConstraint))
      in if dd_outcome decision = OUT_BOT_PAUSED then write (bot_gate_key (row_bot r)) ''bot'' (Some (row_bot r))
         else if dd_outcome decision = OUT_GATEWAY_PAUSED then write GATEWAY_GATE_KEY ''gateway'' None
         else Inr gates)"

record resolve_config =
  rs_digest64 :: "string \<Rightarrow> 64 word"
  rs_retry :: retry_config
  rs_window_seconds :: rat

definition finish_row :: "delivery_job \<Rightarrow> delivery_decision \<Rightarrow> int \<Rightarrow> int \<Rightarrow> delivery_row \<Rightarrow> delivery_row" where
  "finish_row job decision now linearized r =
     (let r1 = r\<lparr>dr_outcome_reason := Some (dd_reason decision), dr_updated_at := max now linearized\<rparr>;
          r2 = (if job_state job \<in> {ST_SENT, ST_SENT_NOOP} then r1\<lparr>dr_sent_at := Some now\<rparr> else r1)
      in if is_terminal job then r2\<lparr>dr_terminal_at := Some now\<rparr> else r2)"

text \<open>The fences: the lease of the worker, or the recorded outcome of its dispatch.\<close>

definition normal_fence :: "delivery_row \<Rightarrow> string \<Rightarrow> int \<Rightarrow> bool" where
  "normal_fence r worker token \<longleftrightarrow> holds_row r worker token \<and> dr_dispatch_started_at r \<noteq> None"

definition recorded_fence :: "delivery_row \<Rightarrow> int \<Rightarrow> string \<Rightarrow> int \<Rightarrow> provider_outcome option \<Rightarrow> bool" where
  "recorded_fence r i worker token recorded \<longleftrightarrow>
     (case recorded of
        None \<Rightarrow> False
      | Some x \<Rightarrow>
          po_job_id x = i \<and> po_lease_token x = token \<and> po_worker_id x = worker \<and> dispatch_fence r worker token \<and>
          row_state r \<in> {ST_LEASED, ST_AMBIGUOUS, ST_AMBIGUOUS_UNRESOLVED, ST_PENDING_RECONCILE})"

definition STALE_DECISION :: delivery_decision where
  "STALE_DECISION = decide OUT_STALE_LEASE ''stale_or_missing_lease''"

definition resolve_telegram_delivery_result ::
  "resolve_config \<Rightarrow> string \<Rightarrow> int \<Rightarrow> string \<Rightarrow> int \<Rightarrow> gateway_result \<Rightarrow> callback \<Rightarrow> provider_outcome option \<Rightarrow> int \<Rightarrow> int
     \<Rightarrow> queue_tables \<Rightarrow> (service_error + delivery_decision) \<times> queue_tables" where
  "resolve_telegram_delivery_result cfg server i worker token result feedback recorded now linearized t =
     (if \<not> foreign server then (Inl NotForeign, t)
      else case find_row t i of
        None \<Rightarrow> (Inr STALE_DECISION, t)
      | Some r \<Rightarrow>
          (if \<not> (normal_fence r worker token \<or> recorded_fence r i worker token recorded) then (Inr STALE_DECISION, t)
           else case require_lifecycle_callback r feedback ''_delivery_feedback_required'' of
             Some e \<Rightarrow> (Inl e, t)
           | None \<Rightarrow>
               (case apply_gateway_result (rs_digest64 cfg) (rs_retry cfg) now (dr_job r) result of
                  Inl e \<Rightarrow> (Inl (ContractError e), t)
                | Inr (job, decision) \<Rightarrow>
                    (let (r1, decision1) = persist_durable_rate_limit_evidence (qt_jobs t) (rs_window_seconds cfg) now linearized
                           (settle_row job result r) decision
                     in case persist_durable_runtime_gate_evidence (qt_gates t) r1 decision1 now of
                          Inl e \<Rightarrow> (Inl e, t)
                        | Inr gates \<Rightarrow>
                            (case run_callback feedback of
                               Some e \<Rightarrow> (Inl e, t)
                             | None \<Rightarrow>
                                 (Inr decision1,
                                  put_row (finish_row job decision1 now linearized r1) (t\<lparr>qt_gates := gates\<rparr>)))))))"

text \<open>The columns of an outcome after it has been applied, or found stale.\<close>

definition applied_outcome :: "delivery_decision \<Rightarrow> int \<Rightarrow> provider_outcome \<Rightarrow> provider_outcome" where
  "applied_outcome decision now x =
     (if dd_outcome decision = OUT_STALE_LEASE
      then x\<lparr>po_apply_state := OUTCOME_QUARANTINED, po_last_apply_error_class := Some ''StaleProviderOutcomeFence'',
             po_last_apply_error_message := Some (dd_reason decision), po_updated_at := now\<rparr>
      else x\<lparr>po_apply_state := OUTCOME_APPLIED, po_applied_at := Some now, po_next_apply_at := None,
             po_last_apply_error_class := None, po_last_apply_error_message := None, po_updated_at := now\<rparr>)"

definition apply_telegram_delivery_provider_outcome ::
  "resolve_config \<Rightarrow> string \<Rightarrow> int \<Rightarrow> callback \<Rightarrow> int \<Rightarrow> queue_tables \<Rightarrow> (service_error + delivery_decision) \<times> queue_tables" where
  "apply_telegram_delivery_provider_outcome cfg server i feedback now t =
     (if \<not> foreign server then (Inl NotForeign, t)
      else case find_outcome t i of
        None \<Rightarrow> (Inr (decide OUT_STALE_LEASE ''provider_outcome_missing''), t)
      | Some x \<Rightarrow>
          (case po_apply_state x of
             OUTCOME_APPLIED \<Rightarrow> (Inr (decide OUT_ALREADY_RESOLVED ''provider_outcome_already_applied''), t)
           | OUTCOME_QUARANTINED \<Rightarrow> (Inr (decide OUT_QUARANTINED ''provider_outcome_quarantined''), t)
           | OUTCOME_PENDING \<Rightarrow>
               (case resolve_telegram_delivery_result cfg server (po_job_id x) (po_worker_id x) (po_lease_token x)
                       (provider_outcome_to_gateway_result x) feedback (Some x) now now t of
                  (Inl e, _) \<Rightarrow> (Inl e, t)
                | (Inr decision, t1) \<Rightarrow> (Inr decision, put_outcome (applied_outcome decision now x) t1))))"

text \<open>The next attempt after an apply that was rolled back; the class and the text of the error are arguments.\<close>

definition failed_outcome :: "string \<Rightarrow> string \<Rightarrow> rat \<Rightarrow> rat \<Rightarrow> int \<Rightarrow> provider_outcome \<Rightarrow> provider_outcome" where
  "failed_outcome error_class error_message base_seconds max_seconds now x =
     (let attempts = po_apply_attempt_count x + 1;
          exponent = min (max 0 (attempts - 1)) 10;
          delay = min (max (1 / 10) max_seconds) (max (1 / 10) base_seconds * 2 ^ nat exponent)
      in x\<lparr>po_apply_attempt_count := attempts, po_next_apply_at := Some (now + seconds_us delay),
           po_last_apply_error_class := Some (take 120 error_class),
           po_last_apply_error_message := blank_none (clean_text error_message), po_updated_at := now\<rparr>)"

definition record_telegram_provider_outcome_apply_failure ::
  "string \<Rightarrow> int \<Rightarrow> string \<Rightarrow> string \<Rightarrow> rat \<Rightarrow> rat \<Rightarrow> int \<Rightarrow> queue_tables \<Rightarrow> (service_error + bool) \<times> queue_tables" where
  "record_telegram_provider_outcome_apply_failure server i error_class error_message base_seconds max_seconds now t =
     (if \<not> foreign server then (Inl NotForeign, t)
      else case find_outcome t i of
        None \<Rightarrow> (Inr False, t)
      | Some x \<Rightarrow>
          (if po_apply_state x \<noteq> OUTCOME_PENDING then (Inr False, t)
           else (Inr True, put_outcome (failed_outcome error_class error_message base_seconds max_seconds now x) t)))"

text \<open>The pending outcomes: their number, the oldest, and the due ones in the order of their next attempt.\<close>

definition nulls_first :: "int option \<Rightarrow> int \<times> int" where
  "nulls_first v = (case v of None \<Rightarrow> (0, 0) | Some t \<Rightarrow> (1, t))"

definition load_telegram_provider_outcome_backlog ::
  "string \<Rightarrow> int \<Rightarrow> int \<Rightarrow> queue_tables \<Rightarrow> service_error + (nat \<times> int option \<times> int list)" where
  "load_telegram_provider_outcome_backlog server max_rows now t =
     (if \<not> foreign server then Inl NotForeign
      else
        (let pending = filter (\<lambda>x. po_apply_state x = OUTCOME_PENDING) (qt_outcomes t);
             ready = filter (\<lambda>x. DeliveryQueue.due (po_next_apply_at x) now) pending
         in Inr (length pending, map_option po_created_at (min_by po_created_at pending),
              map po_id (take (nat (max 1 max_rows))
                (sort_key (\<lambda>x. (nulls_first (po_next_apply_at x), po_created_at x, po_id x)) ready)))))"

section \<open>Recovery\<close>

definition recoverable :: "queue_tables \<Rightarrow> int list \<Rightarrow> int \<Rightarrow> delivery_row \<Rightarrow> bool" where
  "recoverable t locked now r \<longleftrightarrow>
     lease_expired now (dr_job r) \<and> row_id r \<notin> set locked \<and>
     \<not> list_ex (\<lambda>x. po_job_id x = row_id r \<and> po_apply_state x = OUTCOME_PENDING) (qt_outcomes t)"

definition recover_row :: "int \<Rightarrow> delivery_row \<Rightarrow> delivery_row" where
  "recover_row now r =
     (let r1 = (if dr_dispatch_started_at r = None then free_row ST_PENDING_RETRY (Some now) ''lease_expired_before_dispatch'' now r
            else if job_method (dr_job r) \<in> set NON_IDEMPOTENT_SEND_METHODS
            then free_row ST_AMBIGUOUS None ''lease_expired_after_send_started'' now r
            else free_row ST_PENDING_RECONCILE None ''lease_expired_after_idempotent_dispatch_started'' now r)
      in r1\<lparr>dr_job := (dr_job r1)\<lparr>job_last_error_class := Some ''LeaseExpired''\<rparr>\<rparr>)"

record recovery_report =
  rr_released_unstarted :: nat
  rr_ambiguous_sends :: nat
  rr_pending_reconcile :: nat
  rr_job_ids :: "int list"

definition recovery_report_of :: "delivery_row list \<Rightarrow> recovery_report" where
  "recovery_report_of rows =
     (let started = filter (\<lambda>r. dr_dispatch_started_at r \<noteq> None) rows;
          sends = filter (\<lambda>r. job_method (dr_job r) \<in> set NON_IDEMPOTENT_SEND_METHODS) started
      in \<lparr>rr_released_unstarted = length rows - length started, rr_ambiguous_sends = length sends,
          rr_pending_reconcile = length started - length sends, rr_job_ids = map row_id rows\<rparr>)"

definition recover_expired_telegram_delivery_leases ::
  "int list \<Rightarrow> string \<Rightarrow> int \<Rightarrow> int \<Rightarrow> queue_tables \<Rightarrow> (service_error + recovery_report) \<times> queue_tables" where
  "recover_expired_telegram_delivery_leases locked server max_rows now t =
     (if \<not> foreign server then (Inl NotForeign, t)
      else
        (let rows = take (nat (max 1 max_rows))
               (sort_key (\<lambda>r. (nulls_last (job_lease_until (dr_job r)), row_id r)) (filter (recoverable t locked now) (qt_jobs t)))
         in (Inr (recovery_report_of rows), fold (\<lambda>r. put_row (recover_row now r)) rows t)))"

end
