(* ===== verification/DurableDelivery.thy ===== *)
theory DurableDelivery
  imports DurableQueue
begin

text \<open>
  The durable queue over time.  A history interleaves the operations of any number of workers; the jobs of the set
  \<open>X\<close> are those whose worker has gone: it gives no answer for them any more.  Every operation changes rows in one of
  a few ways, from which the properties of the queue follow.
\<close>

section \<open>Steps\<close>

inductive service_step :: "int set \<Rightarrow> queue_tables \<Rightarrow> queue_tables \<Rightarrow> bool" for X where
  enqueue_op: "enqueue_telegram_delivery_job digest s now q t = (a, t') \<Longrightarrow> service_step X t t'"
| claim_op: "claim_next_telegram_delivery_job env locked s c n m t = (b, t') \<Longrightarrow> service_step X t t'"
| mark_op: "mark_telegram_delivery_dispatch_started env s i w k g p n1 n2 n3 t = (d, t') \<Longrightarrow> service_step X t t'"
| freshness_op: "apply_telegram_delivery_freshness_result s i w k fd reason fb secs now t = (d, t') \<Longrightarrow> i \<notin> X \<Longrightarrow> service_step X t t'"
| release_op: "release_unstarted_telegram_delivery_lease s i w k why secs now t = (d, t') \<Longrightarrow> service_step X t t'"
| defer_op: "defer_unstarted_telegram_delivery_lease s i w k secs why now t = (d, t') \<Longrightarrow> service_step X t t'"
| record_op: "record_telegram_delivery_provider_outcome fdigest s i w k res now t = (e, t') \<Longrightarrow> i \<notin> X \<Longrightarrow> service_step X t t'"
| resolve_op: "resolve_telegram_delivery_result cfg s i w k res fb None n m t = (f, t') \<Longrightarrow> i \<notin> X \<Longrightarrow> service_step X t t'"
| apply_op: "apply_telegram_delivery_provider_outcome cfg s i fb now t = (f, t') \<Longrightarrow> service_step X t t'"
| failure_op: "record_telegram_provider_outcome_apply_failure s i ec em bs ms now t = (d, t') \<Longrightarrow> service_step X t t'"
| recover_op: "recover_expired_telegram_delivery_leases locked s mr now t = (h, t') \<Longrightarrow> service_step X t t'"

definition fresh_queue :: "queue_tables \<Rightarrow> bool" where
  "fresh_queue t \<longleftrightarrow> qt_jobs t = [] \<and> qt_outcomes t = []"

section \<open>How rows change\<close>

definition same_row :: "delivery_row \<Rightarrow> delivery_row \<Rightarrow> bool" where
  "same_row r r' \<longleftrightarrow>
     row_id r' = row_id r \<and> job_dedupe_key (dr_job r') = job_dedupe_key (dr_job r) \<and> row_bot r' = row_bot r \<and>
     row_destination r' = row_destination r \<and> job_method (dr_job r') = job_method (dr_job r) \<and>
     job_feeder (dr_job r') = job_feeder (dr_job r) \<and> job_feeder_rank (dr_job r') = job_feeder_rank (dr_job r) \<and>
     job_source_natural_id (dr_job r') = job_source_natural_id (dr_job r) \<and>
     job_source_version (dr_job r') = job_source_version (dr_job r) \<and> job_action (dr_job r') = job_action (dr_job r) \<and>
     job_destination_class (dr_job r') = job_destination_class (dr_job r) \<and> dr_payload_hash r' = dr_payload_hash r \<and>
     dr_template_version r' = dr_template_version r \<and>
     job_delivery_deadline_at (dr_job r') = job_delivery_deadline_at (dr_job r) \<and>
     job_eligible_at (dr_job r') = job_eligible_at (dr_job r) \<and>
     job_freshness_deadline_at (dr_job r') = job_freshness_deadline_at (dr_job r) \<and>
     dr_source_order_at r' = dr_source_order_at r \<and> job_campaign_id (dr_job r') = job_campaign_id (dr_job r) \<and>
     dr_run_id r' = dr_run_id r"

text \<open>The dispatch of a row starts.\<close>

definition starts :: "delivery_row \<Rightarrow> delivery_row \<Rightarrow> bool" where
  "starts r r' \<longleftrightarrow> \<not> in_flight r \<and> in_flight r'"

text \<open>A row that only leaves its lease, or its unresolved state: the token and the marks of the dispatch stay.\<close>

definition same_dispatch :: "delivery_row \<Rightarrow> delivery_row \<Rightarrow> bool" where
  "same_dispatch r r' \<longleftrightarrow>
     same_row r r' \<and> job_lease_token (dr_job r') = job_lease_token (dr_job r) \<and>
     dr_dispatch_started_at r' = dr_dispatch_started_at r \<and>
     job_provider_attempt_count (dr_job r') = job_provider_attempt_count (dr_job r)"

definition pending_outcome :: "queue_tables \<Rightarrow> int \<Rightarrow> bool" where
  "pending_outcome t i \<longleftrightarrow> (\<exists>x \<in> set (qt_outcomes t). po_job_id x = i \<and> po_apply_state x = OUTCOME_PENDING)"

definition expired_state :: "delivery_row \<Rightarrow> delivery_state" where
  "expired_state r = (if job_method (dr_job r) \<in> set NON_IDEMPOTENT_SEND_METHODS then ST_AMBIGUOUS else ST_PENDING_RECONCILE)"

inductive row_change :: "int set \<Rightarrow> int set \<Rightarrow> queue_tables \<Rightarrow> delivery_row \<Rightarrow> delivery_row \<Rightarrow> bool" for X A t where
  lease: "row_state r \<in> set CLAIMABLE_DELIVERY_STATES \<Longrightarrow> row_change X A t r (lease_row w n s r)"
| mark: "row_state r = ST_LEASED \<Longrightarrow> dr_dispatch_started_at r = None \<Longrightarrow> \<forall>x \<in> set (qt_jobs t). \<not> blocker n r x \<Longrightarrow>
    row_change X A t r (mark_row m p r)"
| free: "same_dispatch r r' \<Longrightarrow> row_state r = ST_LEASED \<Longrightarrow> dr_dispatch_started_at r = None \<Longrightarrow> row_state r' = ST_PENDING_RETRY \<Longrightarrow>
    row_change X A t r r'"
| answered: "same_dispatch r r' \<Longrightarrow> row_id r \<notin> X \<Longrightarrow> row_state r = ST_LEASED \<Longrightarrow> row_state r' \<notin> {ST_LEASED, ST_PENDING} \<Longrightarrow>
    row_change X A t r r'"
| applied: "same_dispatch r r' \<Longrightarrow> x \<in> set (qt_outcomes t) \<Longrightarrow> po_id x \<in> A \<Longrightarrow> po_apply_state x = OUTCOME_PENDING \<Longrightarrow>
    recorded_fence r (row_id r) (po_worker_id x) (po_lease_token x) (Some x) \<Longrightarrow> row_state r' \<notin> {ST_LEASED, ST_PENDING} \<Longrightarrow>
    row_change X A t r r'"
| expired: "same_dispatch r r' \<Longrightarrow> row_state r = ST_LEASED \<Longrightarrow> dr_dispatch_started_at r \<noteq> None \<Longrightarrow> \<not> pending_outcome t (row_id r) \<Longrightarrow>
    row_state r' = expired_state r \<Longrightarrow> row_change X A t r r'"

definition fresh_row :: "queue_tables \<Rightarrow> delivery_row \<Rightarrow> bool" where
  "fresh_row t r \<longleftrightarrow>
     row_id r = qt_next_job_id t \<and> row_state r = ST_PENDING \<and> job_lease_token (dr_job r) = 0 \<and> dr_dispatch_started_at r = None \<and>
     (\<forall>x \<in> set (qt_jobs t). job_dedupe_key (dr_job x) \<noteq> job_dedupe_key (dr_job r))"

definition rows_follow :: "int set \<Rightarrow> int set \<Rightarrow> queue_tables \<Rightarrow> queue_tables \<Rightarrow> bool" where
  "rows_follow X A t t' \<longleftrightarrow>
     (\<exists>f new. qt_jobs t' = map f (qt_jobs t) @ new \<and> (\<forall>r \<in> set (qt_jobs t). f r = r \<or> row_change X A t r (f r)) \<and>
        (\<forall>r \<in> set (qt_jobs t). \<forall>s \<in> set (qt_jobs t). starts r (f r) \<and> starts s (f s) \<longrightarrow> r = s) \<and>
        (new = [] \<and> qt_next_job_id t' = qt_next_job_id t \<or>
         (\<exists>r. new = [r] \<and> fresh_row t r) \<and> qt_next_job_id t' = qt_next_job_id t + 1))"

text \<open>Outcomes keep what was recorded, and stay as they are once they are not pending.\<close>

definition same_outcome :: "provider_outcome \<Rightarrow> provider_outcome \<Rightarrow> bool" where
  "same_outcome x x' \<longleftrightarrow>
     po_id x' = po_id x \<and> po_job_id x' = po_job_id x \<and> po_lease_token x' = po_lease_token x \<and> po_worker_id x' = po_worker_id x \<and>
     po_facts x' = po_facts x \<and> po_outcome_hash x' = po_outcome_hash x \<and> (po_apply_state x \<noteq> OUTCOME_PENDING \<longrightarrow> x' = x)"

definition outcomes_follow :: "int set \<Rightarrow> int set \<Rightarrow> queue_tables \<Rightarrow> queue_tables \<Rightarrow> bool" where
  "outcomes_follow X A t t' \<longleftrightarrow>
     (\<exists>g new. qt_outcomes t' = map g (qt_outcomes t) @ new \<and> (\<forall>x \<in> set (qt_outcomes t). same_outcome x (g x)) \<and>
        (\<forall>x \<in> set (qt_outcomes t). po_id x \<notin> A \<longrightarrow> po_apply_state (g x) = po_apply_state x) \<and>
        (new = [] \<and> qt_next_outcome_id t' = qt_next_outcome_id t \<or>
         (\<exists>x. new = [x] \<and> po_id x = qt_next_outcome_id t \<and> po_job_id x \<notin> X \<and>
            (\<forall>y \<in> set (qt_outcomes t). (po_job_id y, po_lease_token y) \<noteq> (po_job_id x, po_lease_token x))) \<and>
         qt_next_outcome_id t' = qt_next_outcome_id t + 1))"

text \<open>The constraints of the tables.\<close>

definition tables_ok :: "queue_tables \<Rightarrow> bool" where
  "tables_ok t \<longleftrightarrow>
     distinct (map row_id (qt_jobs t)) \<and> (\<forall>r \<in> set (qt_jobs t). row_id r < qt_next_job_id t) \<and>
     distinct (map (\<lambda>r. job_dedupe_key (dr_job r)) (qt_jobs t)) \<and>
     distinct (map po_id (qt_outcomes t)) \<and> (\<forall>x \<in> set (qt_outcomes t). po_id x < qt_next_outcome_id t) \<and>
     distinct (map (\<lambda>x. (po_job_id x, po_lease_token x)) (qt_outcomes t))"

lemma same_row_refl [simp]: "same_row r r"
  by (simp add: same_row_def)

lemma same_row_trans: "same_row a b \<Longrightarrow> same_row b c \<Longrightarrow> same_row a c"
  by (simp add: same_row_def)

lemma same_outcome_refl [simp]: "same_outcome x x"
  by (simp add: same_outcome_def)

lemma row_change_same: "row_change X A t r r' \<Longrightarrow> same_row r r' \<and> job_lease_token (dr_job r) \<le> job_lease_token (dr_job r')"
  by (induction rule: row_change.induct) (auto simp: same_dispatch_def same_row_def lease_row_def mark_row_def)

lemma not_starts [simp]: "\<not> starts r r"
  by (simp add: starts_def)

lemma rows_follow_refl [simp]: "rows_follow X A t t"
  unfolding rows_follow_def by (intro exI [of _ id] exI [of _ "[]"]) simp

lemma outcomes_follow_refl [simp]: "outcomes_follow X A t t"
  unfolding outcomes_follow_def by (intro exI [of _ id] exI [of _ "[]"]) simp

lemma distinct_keys_follow:
  assumes "distinct (map k xs)" "\<forall>x \<in> set xs. k (f x) = k x" "new = [] \<or> (\<exists>y. new = [y] \<and> k y \<notin> k ` set xs)"
  shows "distinct (map k (map f xs @ new))"
proof -
  have "map k (map f xs) = map k xs" using assms(2) by simp
  then have "map k (map f xs @ new) = map k xs @ map k new" by (metis map_append)
  then show ?thesis using assms(1,3) by (auto simp only: distinct_append) auto
qed

lemma tables_ok_follow:
  assumes "tables_ok t" "rows_follow X A t t'" "outcomes_follow X A t t'"
  shows "tables_ok t'"
proof -
  obtain f new where jobs: "qt_jobs t' = map f (qt_jobs t) @ new" "\<forall>r \<in> set (qt_jobs t). f r = r \<or> row_change X A t r (f r)"
    "new = [] \<and> qt_next_job_id t' = qt_next_job_id t \<or> (\<exists>r. new = [r] \<and> fresh_row t r) \<and> qt_next_job_id t' = qt_next_job_id t + 1"
    using assms(2) by (auto simp: rows_follow_def)
  obtain g newo where outs: "qt_outcomes t' = map g (qt_outcomes t) @ newo" "\<forall>x \<in> set (qt_outcomes t). same_outcome x (g x)"
    "newo = [] \<and> qt_next_outcome_id t' = qt_next_outcome_id t \<or>
       (\<exists>x. newo = [x] \<and> po_id x = qt_next_outcome_id t \<and> po_job_id x \<notin> X \<and>
          (\<forall>y \<in> set (qt_outcomes t). (po_job_id y, po_lease_token y) \<noteq> (po_job_id x, po_lease_token x))) \<and>
       qt_next_outcome_id t' = qt_next_outcome_id t + 1"
    using assms(3) unfolding outcomes_follow_def by blast
  note ok = assms(1) [unfolded tables_ok_def]
  have s: "same_row r (f r)" if "r \<in> set (qt_jobs t)" for r using jobs(2) that row_change_same by (metis same_row_refl)
  have k: "\<forall>r \<in> set (qt_jobs t). row_id (f r) = row_id r" "\<forall>r \<in> set (qt_jobs t). job_dedupe_key (dr_job (f r)) = job_dedupe_key (dr_job r)"
    using s by (auto simp: same_row_def)
  have n: "new = [] \<or> (\<exists>y. new = [y] \<and> row_id y \<notin> row_id ` set (qt_jobs t))"
    "new = [] \<or> (\<exists>y. new = [y] \<and> job_dedupe_key (dr_job y) \<notin> (\<lambda>r. job_dedupe_key (dr_job r)) ` set (qt_jobs t))"
    using jobs(3) ok unfolding fresh_row_def image_iff by fastforce+
  have "distinct (map row_id (qt_jobs t'))" "distinct (map (\<lambda>r. job_dedupe_key (dr_job r)) (qt_jobs t'))"
    unfolding jobs(1) using ok distinct_keys_follow [OF _ k(1) n(1)] distinct_keys_follow [OF _ k(2) n(2)] by blast+
  moreover have "\<forall>r \<in> set (qt_jobs t'). row_id r < qt_next_job_id t'"
    unfolding jobs(1) using ok s jobs(3) by (auto simp: same_row_def fresh_row_def)
  moreover have "distinct (map po_id (qt_outcomes t'))" "distinct (map (\<lambda>x. (po_job_id x, po_lease_token x)) (qt_outcomes t'))"
    unfolding outs(1) using ok outs(2,3) by (intro distinct_keys_follow; fastforce simp: same_outcome_def)+
  moreover have "\<forall>x \<in> set (qt_outcomes t'). po_id x < qt_next_outcome_id t'"
    unfolding outs(1) using ok outs(2,3) by (auto simp: same_outcome_def)
  ultimately show ?thesis by (simp add: tables_ok_def)
qed

section \<open>Every operation follows\<close>

lemma find_row_in: "find_row t i = Some r \<Longrightarrow> r \<in> set (qt_jobs t) \<and> row_id r = i"
  by (auto simp: find_row_def find_Some_iff)

lemma find_outcome_in: "find_outcome t i = Some x \<Longrightarrow> x \<in> set (qt_outcomes t) \<and> po_id x = i"
  by (auto simp: find_outcome_def find_Some_iff)

lemma row_by_id: "tables_ok t \<Longrightarrow> r \<in> set (qt_jobs t) \<Longrightarrow> s \<in> set (qt_jobs t) \<Longrightarrow> row_id r = row_id s \<Longrightarrow> r = s"
  by (auto simp: tables_ok_def distinct_map inj_on_def)

lemma outcome_by_id: "tables_ok t \<Longrightarrow> x \<in> set (qt_outcomes t) \<Longrightarrow> y \<in> set (qt_outcomes t) \<Longrightarrow> po_id x = po_id y \<Longrightarrow> x = y"
  by (auto simp: tables_ok_def distinct_map inj_on_def)

lemma outcome_by_fence:
  "tables_ok t \<Longrightarrow> x \<in> set (qt_outcomes t) \<Longrightarrow> y \<in> set (qt_outcomes t) \<Longrightarrow> po_job_id x = po_job_id y \<Longrightarrow>
   po_lease_token x = po_lease_token y \<Longrightarrow> x = y"
  by (auto simp: tables_ok_def distinct_map inj_on_def)

lemma put_row_follows:
  assumes "tables_ok t" "r \<in> set (qt_jobs t)" "row_change X A t r r'" "qt_jobs t' = qt_jobs (put_row r' t)"
    and "qt_next_job_id t' = qt_next_job_id t"
  shows "rows_follow X A t t'"
proof -
  have i: "row_id r' = row_id r" using row_change_same [OF assms(3)] by (simp add: same_row_def)
  let ?f = "\<lambda>x. if row_id x = row_id r' then r' else x"
  have "?f x = x \<or> row_change X A t x (?f x)" if "x \<in> set (qt_jobs t)" for x
    using row_by_id [OF assms(1) that assms(2)] assms(3) i by auto
  moreover have "x = r" if "x \<in> set (qt_jobs t)" "starts x (?f x)" for x
    using that row_by_id [OF assms(1) that(1) assms(2)] i by (auto split: if_splits)
  then have "\<forall>x \<in> set (qt_jobs t). \<forall>y \<in> set (qt_jobs t). starts x (?f x) \<and> starts y (?f y) \<longrightarrow> x = y" by blast
  ultimately show ?thesis using assms(4,5) unfolding rows_follow_def by (intro exI [of _ ?f] exI [of _ "[]"]) (auto simp: put_row_def)
qed

lemma same_jobs_follow: "qt_jobs t' = qt_jobs t \<Longrightarrow> qt_next_job_id t' = qt_next_job_id t \<Longrightarrow> rows_follow X A t t'"
  unfolding rows_follow_def by (intro exI [of _ id] exI [of _ "[]"]) simp

lemma same_outcomes_follow:
  "qt_outcomes t' = qt_outcomes t \<Longrightarrow> qt_next_outcome_id t' = qt_next_outcome_id t \<Longrightarrow> outcomes_follow X A t t'"
  unfolding outcomes_follow_def by (intro exI [of _ id] exI [of _ "[]"]) simp

lemma put_outcome_follows:
  assumes "tables_ok t" "x \<in> set (qt_outcomes t)" "same_outcome x x'" "qt_outcomes t' = qt_outcomes (put_outcome x' t)"
    and "qt_next_outcome_id t' = qt_next_outcome_id t" "po_id x \<notin> A \<Longrightarrow> po_apply_state x' = po_apply_state x"
  shows "outcomes_follow X A t t'"
proof -
  let ?g = "\<lambda>y. if po_id y = po_id x' then x' else y"
  have "same_outcome y (?g y)" if "y \<in> set (qt_outcomes t)" for y
    using outcome_by_id [OF assms(1) that assms(2)] assms(3) by (auto simp: same_outcome_def)
  moreover have "po_apply_state (?g y) = po_apply_state y" if "y \<in> set (qt_outcomes t)" "po_id y \<notin> A" for y
    using outcome_by_id [OF assms(1) that(1) assms(2)] assms(3,6) that(2) by (auto simp: same_outcome_def)
  ultimately show ?thesis using assms(4,5) unfolding outcomes_follow_def
    by (intro exI [of _ ?g] exI [of _ "[]"]) (auto simp: put_outcome_def)
qed

lemma put_row_fields [simp]:
  "qt_outcomes (put_row r t) = qt_outcomes t" "qt_next_outcome_id (put_row r t) = qt_next_outcome_id t"
  "qt_next_job_id (put_row r t) = qt_next_job_id t" "qt_gates (put_row r t) = qt_gates t"
  by (simp_all add: put_row_def)

lemma put_outcome_fields [simp]:
  "qt_jobs (put_outcome x t) = qt_jobs t" "qt_next_job_id (put_outcome x t) = qt_next_job_id t"
  "qt_next_outcome_id (put_outcome x t) = qt_next_outcome_id t" "qt_gates (put_outcome x t) = qt_gates t"
  by (simp_all add: put_outcome_def)

lemma put_row_gates: "qt_jobs (put_row r (t\<lparr>qt_gates := g\<rparr>)) = qt_jobs (put_row r t)"
  by (simp add: put_row_def)

definition follows :: "int set \<Rightarrow> int set \<Rightarrow> queue_tables \<Rightarrow> queue_tables \<Rightarrow> bool" where
  "follows X A t t' \<longleftrightarrow> rows_follow X A t t' \<and> outcomes_follow X A t t'"

lemma follows_refl [simp]: "follows X A t t"
  by (simp add: follows_def)

lemma follows_row:
  assumes "tables_ok t" "r \<in> set (qt_jobs t)" "row_change X A t r r'"
  shows "follows X A t (put_row r' (t\<lparr>qt_gates := g\<rparr>))" "follows X A t (put_row r' t)"
  using put_row_follows [OF assms] by (simp_all add: follows_def same_outcomes_follow put_row_gates)

lemma enqueue_follows:
  assumes "enqueue_telegram_delivery_job digest s now q t = (a, t')"
  shows "follows X A t t'"
proof -
  have "t' = t \<or> (\<exists>rank. find (\<lambda>r. job_dedupe_key (dr_job r) = request_key (normalized_request q)) (qt_jobs t) = None \<and>
      t' = t\<lparr>qt_jobs := qt_jobs t @ [new_row digest (qt_next_job_id t) rank now (normalized_request q)],
             qt_next_job_id := qt_next_job_id t + 1\<rparr>)"
    using assms by (auto simp: enqueue_telegram_delivery_job_def Let_def split: if_splits option.splits sum.splits)
  then show ?thesis
  proof (elim disjE exE conjE)
    fix rank
    let ?r = "new_row digest (qt_next_job_id t) rank now (normalized_request q)"
    assume n: "find (\<lambda>r. job_dedupe_key (dr_job r) = request_key (normalized_request q)) (qt_jobs t) = None"
      and t': "t' = t\<lparr>qt_jobs := qt_jobs t @ [?r], qt_next_job_id := qt_next_job_id t + 1\<rparr>"
    have "fresh_row t ?r" using n by (auto simp: fresh_row_def new_row_def find_None_iff split: prod.splits)
    then have "rows_follow X A t t'" unfolding rows_follow_def t' by (intro exI [of _ id] exI [of _ "[?r]"]) simp
    then show ?thesis using t' by (simp add: follows_def same_outcomes_follow)
  qed simp
qed

lemma claim_cases:
  assumes "claim_next_telegram_delivery_job env locked s c n m t = (b, t')"
  shows "(t' = t \<and> (\<forall>r. b \<noteq> Inr (Some r))) \<or>
    (\<exists>r \<in> set (qt_jobs t). claim_filter env t c n r \<and> b = Inr (Some (lease_row (cr_worker_id c) m (cr_lease_seconds c) r)) \<and>
       t' = put_row (lease_row (cr_worker_id c) m (cr_lease_seconds c) r) t)"
  using assms by (auto simp: claim_next_telegram_delivery_job_def Let_def split: if_splits option.splits dest!: min_by_in)

lemma claim_follows:
  assumes "claim_next_telegram_delivery_job env locked s c n m t = (b, t')" "tables_ok t"
  shows "follows X A t t'"
  using claim_cases [OF assms(1)]
proof (elim disjE bexE conjE)
  fix r
  assume r: "r \<in> set (qt_jobs t)" "claim_filter env t c n r" and t': "t' = put_row (lease_row (cr_worker_id c) m (cr_lease_seconds c) r) t"
  have "row_change X A t r (lease_row (cr_worker_id c) m (cr_lease_seconds c) r)"
    using r(2) by (intro row_change.lease) (simp add: claim_filter_def claimable_def)
  then show ?thesis using follows_row(2) [OF assms(2) r(1)] t' by simp
qed simp

lemma gate_open:
  assumes "assert_durable_dispatch_gate env t r now = None"
  shows "closed_gates t now (row_bot r) = []" "\<not> resume_incomplete env (row_destination r)" "\<forall>x \<in> set (qt_jobs t). \<not> blocker now r x"
proof -
  have g: "sort_key rg_gate_key (closed_gates t now (row_bot r)) = []"
    using assms by (cases "sort_key rg_gate_key (closed_gates t now (row_bot r))") (simp_all add: assert_durable_dispatch_gate_def Let_def)
  then show q: "\<not> resume_incomplete env (row_destination r)"
    using assms by (auto simp: assert_durable_dispatch_gate_def)
  have "sort_key row_id (filter (blocker now r) (qt_jobs t)) = []"
    using assms g q by (cases "sort_key row_id (filter (blocker now r) (qt_jobs t))") (auto simp: assert_durable_dispatch_gate_def split: prod.splits)
  then have "filter (blocker now r) (qt_jobs t) = []" by (metis length_0_conv length_sort)
  then show "\<forall>x \<in> set (qt_jobs t). \<not> blocker now r x" by (simp add: filter_empty_conv)
  show "closed_gates t now (row_bot r) = []" using g by (metis length_0_conv length_sort)
qed

text \<open>A dispatch is marked only for the holder of an unexpired, unstarted lease whose job nothing blocks.\<close>

lemma mark_cases:
  assumes "mark_telegram_delivery_dispatch_started env s i w k g p n1 n2 n3 t = (d, t')"
  shows "t' = t \<and> d \<noteq> Inr True \<or>
    (\<exists>r m. d = Inr True \<and> find_row t i = Some r \<and> holds_row r w k \<and> dr_dispatch_started_at r = None \<and>
      assert_durable_dispatch_gate env t r n1 = None \<and> after (job_lease_until (dr_job r)) m \<and> n1 \<le> m \<and> t' = put_row (mark_row m p r) t)"
proof (cases "find_row t i")
  case None
  then show ?thesis using assms by (auto simp: mark_telegram_delivery_dispatch_started_def split: if_splits)
next
  case (Some r)
  let ?first = "foreign s \<and> holds_row r w k \<and> after (job_lease_until (dr_job r)) n1 \<and> dr_dispatch_started_at r = None"
  let ?m = "if g = None then max n1 n2 else max (max n1 n2) n3"
  consider "\<not> ?first" | e where ?first "assert_durable_dispatch_gate env t r n1 = Some e"
    | ?first "assert_durable_dispatch_gate env t r n1 = None" by (meson not_None_eq)
  then show ?thesis
  proof cases
    case 1
    then show ?thesis using assms Some by (auto simp: mark_telegram_delivery_dispatch_started_def Let_def split: if_splits)
  next
    case (2 e)
    then show ?thesis using assms Some by (auto simp: mark_telegram_delivery_dispatch_started_def Let_def)
  next
    case 3
    then have "t' = t \<and> d \<noteq> Inr True \<or> d = Inr True \<and> after (job_lease_until (dr_job r)) ?m \<and> t' = put_row (mark_row ?m p r) t"
      using assms Some
      by (cases "require_lifecycle_callback r g ''_dispatch_guard_required''"; cases "run_callback g"; cases "g = None")
        (auto simp: mark_telegram_delivery_dispatch_started_def Let_def split: if_splits)
    moreover have "n1 \<le> ?m" by (simp add: le_max_iff_disj)
    ultimately show ?thesis using 3 Some by blast
  qed
qed

lemma mark_follows:
  assumes "mark_telegram_delivery_dispatch_started env s i w k g p n1 n2 n3 t = (d, t')" "tables_ok t"
  shows "follows X A t t'"
  using mark_cases [OF assms(1)]
proof (elim disjE exE conjE)
  fix r m
  assume r: "find_row t i = Some r" "holds_row r w k" "dr_dispatch_started_at r = None" "assert_durable_dispatch_gate env t r n1 = None"
    "t' = put_row (mark_row m p r) t"
  have "row_change X A t r (mark_row m p r)"
    using r(2,3) gate_open(3) [OF r(4)] by (intro row_change.mark [where n = n1]) (auto simp: holds_row_def holds_lease_def)
  then show ?thesis using follows_row(2) [OF assms(2)] find_row_in [OF r(1)] r(5) by blast
qed simp

lemma freed_row:
  "same_dispatch r (free_row st retry reason now r)" "row_state (free_row st retry reason now r) = st"
  "same_dispatch r (terminal_row now (free_row st retry reason now r))" "row_state (terminal_row now (free_row st retry reason now r)) = st"
  by (simp_all add: same_dispatch_def same_row_def free_row_def terminal_row_def)

lemma same_dispatch_error:
  "same_dispatch r s \<Longrightarrow> same_dispatch r (s\<lparr>dr_job := (dr_job s)\<lparr>job_last_error_class := e\<rparr>\<rparr>)"
  "same_dispatch r s \<Longrightarrow> same_dispatch r (s\<lparr>dr_job := (dr_job s)\<lparr>job_last_error_class := e, job_last_error_message := m\<rparr>\<rparr>)"
  by (simp_all add: same_dispatch_def same_row_def)

lemma freshness_state:
  assumes "fd_outcome fd \<noteq> FRESH_SEND" "apply_freshness_decision job fd = (job', None)"
  shows "row_state (freshness_row fd reason secs now (job_state job') r) \<notin> {ST_LEASED, ST_PENDING}"
    "same_dispatch r (freshness_row fd reason secs now (job_state job') r)"
  using assms
  by (auto simp: freshness_row_def Let_def freed_row apply_freshness_decision_def split: freshness_outcome.splits option.splits sum.splits)

lemma freshness_follows:
  assumes "apply_telegram_delivery_freshness_result s i w k fd reason fb secs now t = (d, t')" "tables_ok t" "i \<notin> X"
  shows "follows X A t t'"
proof (cases "find_row t i")
  case None
  then show ?thesis using assms(1) by (auto simp: apply_telegram_delivery_freshness_result_def split: if_splits)
next
  case (Some r)
  obtain job' e where ap: "apply_freshness_decision (dr_job r) fd = (job', e)" by (cases rule: prod.exhaust)
  have "t' = t \<or> fd_outcome fd \<noteq> FRESH_SEND \<and> holds_row r w k \<and> e = None \<and>
      t' = put_row (freshness_row fd reason secs now (job_state job') r) t"
    using assms(1) Some ap
    by (cases "require_lifecycle_callback r fb ''_freshness_feedback_required''"; cases "run_callback fb"; cases e)
      (auto simp: apply_telegram_delivery_freshness_result_def split: if_splits)
  then show ?thesis
  proof (elim disjE conjE)
    assume h: "fd_outcome fd \<noteq> FRESH_SEND" "holds_row r w k" "e = None" and t': "t' = put_row (freshness_row fd reason secs now (job_state job') r) t"
    have "row_change X A t r (freshness_row fd reason secs now (job_state job') r)"
      using freshness_state [OF h(1) ap [unfolded h(3)]] find_row_in [OF Some] assms(3) h(2)
      by (intro row_change.answered) (auto simp: holds_row_def holds_lease_def)
    then show ?thesis using follows_row(2) [OF assms(2)] find_row_in [OF Some] t' by blast
  qed simp
qed

lemma unstarted_follows:
  assumes "find_row t i = Some r" "unstarted_lease r w k" "same_dispatch r r'" "row_state r' = ST_PENDING_RETRY" "tables_ok t"
  shows "follows X A t (put_row r' t)"
proof -
  have "row_change X A t r r'" using assms(2-4) by (intro row_change.free) (auto simp: unstarted_lease_def holds_row_def holds_lease_def)
  then show ?thesis using follows_row(2) [OF assms(5)] find_row_in [OF assms(1)] by blast
qed

lemma release_follows:
  assumes "release_unstarted_telegram_delivery_lease s i w k why secs now t = (d, t')" "tables_ok t"
  shows "follows X A t t'"
  using assms
  by (auto simp: release_unstarted_telegram_delivery_lease_def Let_def freed_row
      intro!: unstarted_follows same_dispatch_error split: if_splits option.splits)

lemma defer_follows:
  assumes "defer_unstarted_telegram_delivery_lease s i w k secs why now t = (d, t')" "tables_ok t"
  shows "follows X A t t'"
  using assms
  by (auto simp: defer_unstarted_telegram_delivery_lease_def Let_def freed_row
      intro!: unstarted_follows same_dispatch_error split: if_splits option.splits)

lemma record_cases:
  assumes "record_telegram_delivery_provider_outcome digest s i w k res now t = (e, t')"
  shows "t' = t \<and> (\<forall>x c. e = Inr (x, c) \<longrightarrow> c = False \<and> x \<in> set (qt_outcomes t) \<and> po_job_id x = i \<and> po_lease_token x = k) \<or>
    (\<exists>r facts. find_row t i = Some r \<and> dispatch_fence r w k \<and> e = Inr (new_outcome (qt_next_outcome_id t) r k w facts (digest facts) now, True) \<and>
       filter (\<lambda>x. po_job_id x = i \<and> po_lease_token x = k) (qt_outcomes t) = [] \<and>
       t' = t\<lparr>qt_outcomes := qt_outcomes t @ [new_outcome (qt_next_outcome_id t) r k w facts (digest facts) now],
             qt_next_outcome_id := qt_next_outcome_id t + 1\<rparr>)"
proof (cases "find_row t i")
  case None
  then show ?thesis using assms by (auto simp: record_telegram_delivery_provider_outcome_def split: if_splits)
next
  case (Some r)
  let ?old = "filter (\<lambda>x. po_job_id x = i \<and> po_lease_token x = k) (qt_outcomes t)"
  have old: "x \<in> set (qt_outcomes t) \<and> po_job_id x = i \<and> po_lease_token x = k" if "?old = x # xs" for x xs
  proof -
    have "x \<in> set ?old" unfolding that by simp
    then show ?thesis by simp
  qed
  show ?thesis
  proof (cases "foreign s \<and> dispatch_fence r w k \<and> gr_method res = job_method (dr_job r)")
    case False
    then show ?thesis using assms Some by (auto simp: record_telegram_delivery_provider_outcome_def split: if_splits)
  next
    case True
    show ?thesis
    proof (cases "provider_outcome_facts res")
      case (Inl err)
      then show ?thesis using assms Some True by (auto simp: record_telegram_delivery_provider_outcome_def)
    next
      case (Inr facts)
      show ?thesis
      proof (cases ?old)
        case Nil
        then have "(e, t') = (Inr (new_outcome (qt_next_outcome_id t) r k w facts (digest facts) now, True),
            t\<lparr>qt_outcomes := qt_outcomes t @ [new_outcome (qt_next_outcome_id t) r k w facts (digest facts) now],
              qt_next_outcome_id := qt_next_outcome_id t + 1\<rparr>)"
          using assms Some True Inr by (simp add: record_telegram_delivery_provider_outcome_def Let_def)
        then show ?thesis using Some True Nil by (intro disjI2 exI [of _ r] exI [of _ facts]) simp
      next
        case (Cons x xs)
        then have "t' = t \<and> (e = Inr (x, False) \<or> e = Inl (ValidationError ''provider_outcome_fence_conflict''))"
          using assms Some True Inr by (auto simp: record_telegram_delivery_provider_outcome_def split: if_splits)
        then show ?thesis using old [OF Cons] by auto
      qed
    qed
  qed
qed

lemma record_follows:
  assumes "record_telegram_delivery_provider_outcome digest s i w k res now t = (e, t')" "i \<notin> X"
  shows "follows X A t t'"
  using record_cases [OF assms(1)]
proof (elim disjE exE conjE)
  fix r facts
  let ?x = "new_outcome (qt_next_outcome_id t) r k w facts (digest facts) now"
  assume r: "find_row t i = Some r" and f: "filter (\<lambda>x. po_job_id x = i \<and> po_lease_token x = k) (qt_outcomes t) = []"
    and t': "t' = t\<lparr>qt_outcomes := qt_outcomes t @ [?x], qt_next_outcome_id := qt_next_outcome_id t + 1\<rparr>"
  have "po_id ?x = qt_next_outcome_id t \<and> po_job_id ?x \<notin> X \<and>
      (\<forall>y \<in> set (qt_outcomes t). (po_job_id y, po_lease_token y) \<noteq> (po_job_id ?x, po_lease_token ?x))"
    using f find_row_in [OF r] assms(2) by (auto simp: new_outcome_def filter_empty_conv)
  then have "outcomes_follow X A t t'" unfolding outcomes_follow_def t' by (intro exI [of _ id] exI [of _ "[?x]"]) auto
  then show ?thesis using t' by (simp add: follows_def same_jobs_follow)
qed simp

text \<open>A resolved job leaves its lease or its unresolved state under a fence that holds.\<close>

lemma settled_row:
  assumes "persist_durable_rate_limit_evidence rows win now lin (settle_row job res r) d0 = (r1, d)"
  shows "same_dispatch r (finish_row job d now lin r1)" "row_state (finish_row job d now lin r1) = job_state job"
    "dd_outcome d = dd_outcome d0"
proof -
  have r1: "same_dispatch r r1 \<and> row_state r1 = job_state job \<and> dd_outcome d = dd_outcome d0"
    using assms
    by (cases "dd_destination_cooldown_until d0"; cases "dd_reason d0 = RATE_LIMITED")
      (auto simp: persist_durable_rate_limit_evidence_def Let_def settle_row_def same_dispatch_def same_row_def split: if_splits)
  then show "same_dispatch r (finish_row job d now lin r1)" "row_state (finish_row job d now lin r1) = job_state job"
    "dd_outcome d = dd_outcome d0"
    by (simp_all add: finish_row_def Let_def same_dispatch_def same_row_def)
qed

lemma resolve_cases:
  assumes "resolve_telegram_delivery_result cfg s i w k res fb rec n m t = (f, t')"
  shows "t' = t \<and> (\<forall>d. f = Inr d \<longrightarrow> d = STALE_DECISION) \<or>
    (\<exists>r r' g d. find_row t i = Some r \<and> (normal_fence r w k \<or> recorded_fence r i w k rec) \<and> same_dispatch r r' \<and>
       row_state r' \<notin> {ST_LEASED, ST_PENDING} \<and> t' = put_row r' (t\<lparr>qt_gates := g\<rparr>) \<and> f = Inr d \<and> dd_outcome d \<noteq> OUT_STALE_LEASE)"
proof (cases "find_row t i")
  case None
  then show ?thesis using assms by (auto simp: resolve_telegram_delivery_result_def split: if_splits)
next
  case (Some r)
  let ?fence = "normal_fence r w k \<or> recorded_fence r i w k rec"
  show ?thesis
  proof (cases "foreign s \<and> ?fence \<and> require_lifecycle_callback r fb ''_delivery_feedback_required'' = None")
    case False
    then show ?thesis using assms Some
      by (cases "require_lifecycle_callback r fb ''_delivery_feedback_required''") (auto simp: resolve_telegram_delivery_result_def split: if_splits)
  next
    case True
    have live: "\<not> is_terminal (dr_job r)" using True
      by (auto simp: normal_fence_def recorded_fence_def holds_row_def holds_lease_def is_terminal_def FINAL_DELIVERY_STATES_def split: option.splits)
    obtain job d0 where ap: "apply_gateway_result (rs_digest64 cfg) (rs_retry cfg) n (dr_job r) res = Inr (job, d0)"
      and out: "outcome_state (dd_outcome d0) = Some (job_state job)"
      using gateway_result_ok [OF live, of "rs_digest64 cfg" "rs_retry cfg" n res] by (auto simp: resolution_ok_def split: sum.splits)
    have st: "job_state job \<notin> {ST_LEASED, ST_PENDING}" "dd_outcome d0 \<noteq> OUT_STALE_LEASE" using out by (cases "dd_outcome d0"; auto)+
    obtain r1 d where ev: "persist_durable_rate_limit_evidence (qt_jobs t) (rs_window_seconds cfg) n m (settle_row job res r) d0 = (r1, d)"
      by (cases rule: prod.exhaust)
    note row = settled_row [OF ev]
    have "t' = t \<and> (\<forall>d. f \<noteq> Inr d) \<or> (\<exists>g. t' = put_row (finish_row job d n m r1) (t\<lparr>qt_gates := g\<rparr>) \<and> f = Inr d)"
      using assms True Some ap ev
      by (cases "persist_durable_runtime_gate_evidence (qt_gates t) r1 d n"; cases "run_callback fb")
        (auto simp: resolve_telegram_delivery_result_def)
    then show ?thesis using True Some row st by fastforce
  qed
qed

lemma resolve_follows:
  assumes "resolve_telegram_delivery_result cfg s i w k res fb None n m t = (f, t')" "tables_ok t" "i \<notin> X"
  shows "follows X A t t'"
  using resolve_cases [OF assms(1)]
proof (elim disjE exE conjE)
  fix r r' g d
  assume r: "find_row t i = Some r" "same_dispatch r r'" "row_state r' \<notin> {ST_LEASED, ST_PENDING}"
    and fence: "normal_fence r w k" and t': "t' = put_row r' (t\<lparr>qt_gates := g\<rparr>)"
  have "row_change X A t r r'" using fence r find_row_in [OF r(1)] assms(3)
    by (intro row_change.answered) (auto simp: normal_fence_def holds_row_def holds_lease_def)
  then show ?thesis using follows_row(1) [OF assms(2)] find_row_in [OF r(1)] t' by blast
qed (simp_all add: recorded_fence_def)

lemma applied_same: "po_apply_state x = OUTCOME_PENDING \<Longrightarrow> same_outcome x (applied_outcome d now x)"
  by (simp add: same_outcome_def applied_outcome_def)

text \<open>An outcome is applied under its fence; it is quarantined when the fence is stale.\<close>

lemma apply_cases:
  assumes "apply_telegram_delivery_provider_outcome cfg s i fb now t = (f, t')"
  shows "t' = t \<or>
    (\<exists>x d. find_outcome t i = Some x \<and> po_apply_state x = OUTCOME_PENDING \<and> f = Inr d \<and>
       (t' = put_outcome (applied_outcome d now x) t \<and> d = STALE_DECISION \<or>
        (\<exists>r r' g. find_row t (po_job_id x) = Some r \<and> recorded_fence r (po_job_id x) (po_worker_id x) (po_lease_token x) (Some x) \<and>
           same_dispatch r r' \<and> row_state r' \<notin> {ST_LEASED, ST_PENDING} \<and> dd_outcome d \<noteq> OUT_STALE_LEASE \<and>
           t' = put_outcome (applied_outcome d now x) (put_row r' (t\<lparr>qt_gates := g\<rparr>)))))"
proof (cases "find_outcome t i")
  case None
  then show ?thesis using assms by (auto simp: apply_telegram_delivery_provider_outcome_def split: if_splits)
next
  case (Some x)
  obtain f1 t1 where res: "resolve_telegram_delivery_result cfg s (po_job_id x) (po_worker_id x) (po_lease_token x)
      (provider_outcome_to_gateway_result x) fb (Some x) now now t = (f1, t1)" by (cases rule: prod.exhaust)
  have "t' = t \<or> po_apply_state x = OUTCOME_PENDING \<and> (\<exists>d. f1 = Inr d \<and> f = Inr d \<and> t' = put_outcome (applied_outcome d now x) t1)"
    using assms Some res
    by (cases "po_apply_state x"; cases f1) (auto simp: apply_telegram_delivery_provider_outcome_def split: if_splits)
  then show ?thesis
  proof (elim disjE conjE exE)
    fix d
    assume h: "po_apply_state x = OUTCOME_PENDING" "f1 = Inr d" "f = Inr d" "t' = put_outcome (applied_outcome d now x) t1"
    have fence: "recorded_fence r (po_job_id x) (po_worker_id x) (po_lease_token x) (Some x)"
      if "normal_fence r (po_worker_id x) (po_lease_token x)" for r
      using that by (simp add: recorded_fence_def normal_fence_def dispatch_fence_def holds_row_def holds_lease_def)
    from resolve_cases [OF res] show ?thesis using h Some fence by (elim disjE exE conjE) (simp, blast, blast)
  qed simp
qed

lemma apply_follows:
  assumes "apply_telegram_delivery_provider_outcome cfg s i fb now t = (f, t')" "tables_ok t"
  shows "follows X {i} t t'"
  using apply_cases [OF assms(1)]
proof (elim disjE exE conjE)
  fix x d
  assume x: "find_outcome t i = Some x" "po_apply_state x = OUTCOME_PENDING" "t' = put_outcome (applied_outcome d now x) t"
  then show ?thesis
    using put_outcome_follows [OF assms(2), of x "applied_outcome d now x" t' "{i}"] find_outcome_in [OF x(1)] applied_same [OF x(2)]
    by (simp add: follows_def same_jobs_follow)
next
  fix x d r r' g
  assume x: "find_outcome t i = Some x" "po_apply_state x = OUTCOME_PENDING"
    and r: "find_row t (po_job_id x) = Some r" "recorded_fence r (po_job_id x) (po_worker_id x) (po_lease_token x) (Some x)"
      "same_dispatch r r'" "row_state r' \<notin> {ST_LEASED, ST_PENDING}"
    and t': "t' = put_outcome (applied_outcome d now x) (put_row r' (t\<lparr>qt_gates := g\<rparr>))"
  have "row_change X {i} t r r'" using r find_row_in [OF r(1)] find_outcome_in [OF x(1)] x(2) by (intro row_change.applied [of r r' x]) auto
  then have "rows_follow X {i} t t'"
    using put_row_follows [OF assms(2), of r X "{i}" r' t'] find_row_in [OF r(1)] by (simp add: t' put_row_gates)
  moreover have "qt_outcomes t' = qt_outcomes (put_outcome (applied_outcome d now x) t)" by (simp add: t' put_outcome_def)
  then have "outcomes_follow X {i} t t'"
    using put_outcome_follows [OF assms(2), of x "applied_outcome d now x" t' "{i}"] find_outcome_in [OF x(1)] applied_same [OF x(2)] by (simp add: t')
  ultimately show ?thesis by (simp add: follows_def)
qed simp

lemma failure_follows:
  assumes "record_telegram_provider_outcome_apply_failure s i ec em bs ms now t = (d, t')" "tables_ok t"
  shows "follows X A t t'"
proof -
  have "t' = t \<or> (\<exists>x x'. find_outcome t i = Some x \<and> same_outcome x x' \<and> po_apply_state x' = po_apply_state x \<and> t' = put_outcome x' t)"
  proof (cases "find_outcome t i")
    case (Some x)
    have "same_outcome x (failed_outcome ec em bs ms now x) \<and> po_apply_state (failed_outcome ec em bs ms now x) = po_apply_state x"
      if "po_apply_state x = OUTCOME_PENDING"
      using that by (simp add: failed_outcome_def same_outcome_def Let_def)
    then show ?thesis using assms(1) Some by (auto simp: record_telegram_provider_outcome_apply_failure_def split: if_splits)
  qed (use assms(1) in \<open>auto simp: record_telegram_provider_outcome_apply_failure_def split: if_splits\<close>)
  then show ?thesis
  proof (elim disjE exE conjE)
    fix x x'
    assume x: "find_outcome t i = Some x" "same_outcome x x'" "po_apply_state x' = po_apply_state x" "t' = put_outcome x' t"
    then show ?thesis using put_outcome_follows [OF assms(2) _ x(2), of t' A] find_outcome_in [OF x(1)]
      by (simp add: follows_def same_jobs_follow)
  qed simp
qed

lemma recovered_row:
  assumes "recoverable t locked now r"
  shows "row_change X A t r (recover_row now r)" "row_id (recover_row now r) = row_id r"
proof -
  have leased: "row_state r = ST_LEASED" "\<not> pending_outcome t (row_id r)"
    using assms by (auto simp: recoverable_def lease_expired_def pending_outcome_def list_ex_iff)
  have same: "same_dispatch r (recover_row now r)"
    by (simp add: recover_row_def Let_def freed_row same_dispatch_error)
  then show "row_id (recover_row now r) = row_id r" by (simp add: same_dispatch_def same_row_def)
  show "row_change X A t r (recover_row now r)"
  proof (cases "dr_dispatch_started_at r")
    case None
    then show ?thesis using leased same by (intro row_change.free) (simp_all add: recover_row_def free_row_def)
  next
    case (Some n)
    then show ?thesis using leased same
      by (intro row_change.expired) (auto simp: recover_row_def free_row_def expired_state_def)
  qed
qed

lemma not_in_flight: "\<not> in_flight (recover_row now r)"
  by (simp add: in_flight_def recover_row_def Let_def free_row_def)

lemma put_rows:
  assumes "\<forall>r \<in> set rs. row_id (f r) = row_id r" "set rs \<subseteq> set (qt_jobs t)" "distinct (map row_id (qt_jobs t))" "distinct rs"
  shows "qt_jobs (fold (\<lambda>r. put_row (f r)) rs t) = map (\<lambda>x. if x \<in> set rs then f x else x) (qt_jobs t)"
  using assms
proof (induction rs rule: rev_induct)
  case (snoc r rs)
  have inj: "x = r" if "x \<in> set (qt_jobs t)" "row_id x = row_id r" for x
    using that snoc.prems(2,3) by (auto simp: distinct_map inj_on_def)
  have g: "row_id (if x \<in> set rs then f x else x) = row_id x" for x using snoc.prems(1) by simp
  have "qt_jobs (fold (\<lambda>r. put_row (f r)) rs t) = map (\<lambda>x. if x \<in> set rs then f x else x) (qt_jobs t)"
    using snoc.IH snoc.prems by simp
  then have "qt_jobs (fold (\<lambda>r. put_row (f r)) (rs @ [r]) t) =
      map (\<lambda>x. if row_id x = row_id (f r) then f r else x) (map (\<lambda>x. if x \<in> set rs then f x else x) (qt_jobs t))"
    by (simp add: put_row_def [of "f r"])
  then show ?case using inj g snoc.prems(1,4) by auto
qed simp

lemma fold_put_row_fields:
  "qt_outcomes (fold (\<lambda>r. put_row (f r)) rs t) = qt_outcomes t" "qt_next_outcome_id (fold (\<lambda>r. put_row (f r)) rs t) = qt_next_outcome_id t"
  "qt_next_job_id (fold (\<lambda>r. put_row (f r)) rs t) = qt_next_job_id t"
  by (induction rs arbitrary: t) simp_all

lemma recover_cases:
  assumes "recover_expired_telegram_delivery_leases locked s mr now t = (h, t')" "tables_ok t"
  shows "\<exists>R. (\<forall>r \<in> R. recoverable t locked now r) \<and> qt_jobs t' = map (\<lambda>x. if x \<in> R then recover_row now x else x) (qt_jobs t) \<and>
    qt_outcomes t' = qt_outcomes t \<and> qt_next_outcome_id t' = qt_next_outcome_id t \<and> qt_next_job_id t' = qt_next_job_id t"
proof (cases "foreign s")
  case False
  then show ?thesis using assms(1) by (intro exI [of _ "{}"]) (auto simp: recover_expired_telegram_delivery_leases_def)
next
  case True
  define rows where "rows = take (nat (max 1 mr))
    (sort_key (\<lambda>r. (nulls_last (job_lease_until (dr_job r)), row_id r)) (filter (recoverable t locked now) (qt_jobs t)))"
  have t': "t' = fold (\<lambda>r. put_row (recover_row now r)) rows t"
    using assms(1) True by (simp add: recover_expired_telegram_delivery_leases_def Let_def rows_def)
  have in_rows: "recoverable t locked now r \<and> r \<in> set (qt_jobs t)" if "r \<in> set rows" for r
    using that set_take_subset unfolding rows_def by fastforce
  have d: "distinct rows" using assms(2) unfolding rows_def by (simp add: tables_ok_def distinct_map)
  have ids: "distinct (map row_id (qt_jobs t))" using assms(2) by (simp add: tables_ok_def)
  have "\<forall>r \<in> set rows. row_id (recover_row now r) = row_id r" using in_rows recovered_row(2) by blast
  then show ?thesis using put_rows [OF _ _ ids d, of "recover_row now"] in_rows
    by (intro exI [of _ "set rows"]) (auto simp: t' fold_put_row_fields)
qed

lemma recover_follows:
  assumes "recover_expired_telegram_delivery_leases locked s mr now t = (h, t')" "tables_ok t"
  shows "follows X A t t'"
proof -
  obtain R where R: "\<forall>r \<in> R. recoverable t locked now r" "qt_jobs t' = map (\<lambda>x. if x \<in> R then recover_row now x else x) (qt_jobs t)"
    "qt_outcomes t' = qt_outcomes t" "qt_next_outcome_id t' = qt_next_outcome_id t" "qt_next_job_id t' = qt_next_job_id t"
    using recover_cases [OF assms] by blast
  have "rows_follow X A t t'" unfolding rows_follow_def
    using R recovered_row(1) not_in_flight
    by (intro exI [of _ "\<lambda>x. if x \<in> R then recover_row now x else x"] exI [of _ "[]"]) (auto simp: starts_def split: if_splits)
  then show ?thesis using R by (simp add: follows_def same_outcomes_follow)
qed

lemmas operation_follows = enqueue_follows claim_follows mark_follows freshness_follows release_follows defer_follows record_follows
  resolve_follows failure_follows recover_follows

text \<open>A step applies one outcome, or none.\<close>

lemma step_follows:
  assumes "service_step X t t'" "tables_ok t"
  shows "(\<forall>A. follows X A t t') \<or>
    (\<exists>cfg s i fb now f. apply_telegram_delivery_provider_outcome cfg s i fb now t = (f, t') \<and> follows X {i} t t')"
  using assms
proof (induction rule: service_step.induct)
  case (apply_op cfg s i fb now t f t')
  then show ?case using apply_follows by blast
qed (blast intro: operation_follows)+

lemma step_some_follows: "service_step X t t' \<Longrightarrow> tables_ok t \<Longrightarrow> \<exists>A. follows X A t t'"
  using step_follows by blast

lemma step_tables_ok: "service_step X t t' \<Longrightarrow> tables_ok t \<Longrightarrow> tables_ok t'"
  using step_some_follows tables_ok_follow unfolding follows_def by blast

end
