(* ===== verification/DurableGuarantees.thy ===== *)
theory DurableGuarantees
  imports DurableDelivery
begin

text \<open>
  What the durable queue guarantees: one dispatch per destination at a time, fenced workers, recorded outcomes that
  survive the loss of their worker and are applied once, sends of unknown outcome that are not repeated, and an
  enqueue that can be repeated.
\<close>

section \<open>Rows and outcomes over a history\<close>

lemma row_after:
  assumes "follows X A t t'" "r \<in> set (qt_jobs t)"
  shows "\<exists>r' \<in> set (qt_jobs t'). r' = r \<or> row_change X A t r r'"
  using assms by (auto simp: follows_def rows_follow_def)

lemma outcome_after:
  assumes "follows X A t t'" "x \<in> set (qt_outcomes t)"
  shows "\<exists>x' \<in> set (qt_outcomes t'). same_outcome x x' \<and> (po_id x \<notin> A \<longrightarrow> po_apply_state x' = po_apply_state x)"
proof -
  obtain g new where "qt_outcomes t' = map g (qt_outcomes t) @ new" "same_outcome x (g x)"
    "po_id x \<notin> A \<longrightarrow> po_apply_state (g x) = po_apply_state x"
    using assms unfolding follows_def outcomes_follow_def by blast
  then show ?thesis using assms(2) by (intro bexI [of _ "g x"]) auto
qed

lemma job_row_found: "tables_ok t \<Longrightarrow> r \<in> set (qt_jobs t) \<Longrightarrow> find_row t (row_id r) = Some r"
proof -
  assume ok: "tables_ok t" and r: "r \<in> set (qt_jobs t)"
  then obtain s where "find_row t (row_id r) = Some s" by (cases "find_row t (row_id r)") (auto simp: find_row_def find_None_iff)
  then show ?thesis using find_row_in [of t "row_id r" s] row_by_id [OF ok _ r] by auto
qed

lemma outcome_found: "tables_ok t \<Longrightarrow> x \<in> set (qt_outcomes t) \<Longrightarrow> find_outcome t (po_id x) = Some x"
proof -
  assume ok: "tables_ok t" and x: "x \<in> set (qt_outcomes t)"
  then obtain y where "find_outcome t (po_id x) = Some y" by (cases "find_outcome t (po_id x)") (auto simp: find_outcome_def find_None_iff)
  then show ?thesis using find_outcome_in [of t "po_id x" y] outcome_by_id [OF ok _ x] by auto
qed

text \<open>Promises about the tables that every step keeps, together with the constraints.\<close>

locale kept_promise =
  fixes X :: "int set" and P :: "queue_tables \<Rightarrow> bool"
  assumes kept: "tables_ok t \<Longrightarrow> P t \<Longrightarrow> service_step X t t' \<Longrightarrow> P t'"
begin

lemma promise_holds:
  assumes "(service_step X)\<^sup>*\<^sup>* t t'" "tables_ok t" "P t"
  shows "tables_ok t' \<and> P t'"
  using assms by (induction rule: rtranclp_induct) (auto intro: kept step_tables_ok)

end

section \<open>One dispatch per destination\<close>

definition exclusive :: "queue_tables \<Rightarrow> bool" where
  "exclusive t \<longleftrightarrow>
     (\<forall>r \<in> set (qt_jobs t). \<forall>s \<in> set (qt_jobs t). in_flight r \<and> in_flight s \<and> row_destination r = row_destination s \<longrightarrow> r = s)"

lemma starts_unblocked:
  assumes "row_change X A t r r'" "in_flight r'" "\<not> in_flight r" "s \<in> set (qt_jobs t)" "in_flight s" "row_id s \<noteq> row_id r"
  shows "row_destination s \<noteq> row_destination r"
  using assms by (induction rule: row_change.induct) (auto simp: in_flight_def lease_row_def blocker_def expired_state_def split: if_splits)

lemma exclusive_follows:
  assumes "tables_ok t" "exclusive t" "follows X A t t'"
  shows "exclusive t'"
proof -
  obtain f new where f: "qt_jobs t' = map f (qt_jobs t) @ new" "\<forall>r \<in> set (qt_jobs t). f r = r \<or> row_change X A t r (f r)"
    "\<forall>r \<in> set (qt_jobs t). \<forall>s \<in> set (qt_jobs t). starts r (f r) \<and> starts s (f s) \<longrightarrow> r = s"
    "\<forall>r \<in> set new. \<not> in_flight r"
    using assms(3) unfolding follows_def rows_follow_def fresh_row_def in_flight_def by force
  have same: "same_row r (f r)" if "r \<in> set (qt_jobs t)" for r using f(2) that row_change_same by (metis same_row_refl)
  have one: "r = s" if m: "r \<in> set (qt_jobs t)" "s \<in> set (qt_jobs t)" and fl: "in_flight (f r)" "in_flight (f s)"
    and d: "row_destination r = row_destination s" for r s
  proof (rule ccontr)
    assume ne: "r \<noteq> s"
    then have id: "row_id r \<noteq> row_id s" using row_by_id [OF assms(1) m] by blast
    have "in_flight r \<or> in_flight s" using f(3) m fl ne by (auto simp: starts_def)
    then show False
    proof
      assume r: "in_flight r"
      then have "\<not> in_flight s" using assms(2) m d ne by (auto simp: exclusive_def)
      then show False using starts_unblocked [of X A t s "f s" r] f(2) m fl r id d by metis
    next
      assume s: "in_flight s"
      then have "\<not> in_flight r" using assms(2) m d ne by (auto simp: exclusive_def)
      then show False using starts_unblocked [of X A t r "f r" s] f(2) m fl s id d by metis
    qed
  qed
  have "r' = s'" if m: "r' \<in> set (qt_jobs t')" "s' \<in> set (qt_jobs t')" and fl: "in_flight r'" "in_flight s'"
    and d: "row_destination r' = row_destination s'" for r' s'
  proof -
    obtain r s where rs: "r \<in> set (qt_jobs t)" "r' = f r" "s \<in> set (qt_jobs t)" "s' = f s" using m fl f(1,4) by auto
    then have "row_destination r = row_destination s" using d same by (auto simp: same_row_def)
    then show ?thesis using one rs fl by blast
  qed
  then show ?thesis by (auto simp: exclusive_def)
qed

interpretation dispatching: kept_promise X exclusive for X
  by unfold_locales (use step_some_follows exclusive_follows in blast)

interpretation durable: invariant_system fresh_queue "service_step X" "\<lambda>t. tables_ok t \<and> exclusive t" for X
proof
  show "tables_ok t \<and> exclusive t" if "fresh_queue t" for t
    using that by (simp add: fresh_queue_def tables_ok_def exclusive_def)
  show "tables_ok t' \<and> exclusive t'" if "tables_ok t \<and> exclusive t" "service_step X t t'" for t t'
    using that step_tables_ok dispatching.kept by blast
qed


section \<open>Fenced workers\<close>

definition row_token :: "queue_tables \<Rightarrow> int \<Rightarrow> int" where
  "row_token t i = (case find_row t i of Some r \<Rightarrow> job_lease_token (dr_job r) | None \<Rightarrow> 0)"

definition row_grant :: "queue_tables \<Rightarrow> int \<Rightarrow> queue_tables \<Rightarrow> bool" where
  "row_grant t i t' \<longleftrightarrow>
     (\<exists>env locked s c n m r. claim_next_telegram_delivery_job env locked s c n m t = (Inr (Some r), t') \<and> row_id r = i)"

definition row_fence :: "queue_tables \<Rightarrow> int \<Rightarrow> string \<Rightarrow> int \<Rightarrow> bool" where
  "row_fence t i w k \<longleftrightarrow> (\<exists>r. find_row t i = Some r \<and> job_lease_token (dr_job r) = k \<and> job_worker_id (dr_job r) \<in> {None, Some w})"

lemma row_token_mono:
  assumes "tables_ok t" "service_step X t t'"
  shows "row_token t i \<le> row_token t' i"
proof (cases "find_row t i")
  case None
  have new: "job_lease_token (dr_job r') = 0" if r': "find_row t' i = Some r'" for r'
  proof -
    obtain A f new where f: "qt_jobs t' = map f (qt_jobs t) @ new" "\<forall>r \<in> set (qt_jobs t). f r = r \<or> row_change X A t r (f r)"
      "\<forall>r \<in> set new. job_lease_token (dr_job r) = 0"
      using step_some_follows [OF assms(2,1)] unfolding follows_def rows_follow_def fresh_row_def by force
    have "r' \<notin> set (map f (qt_jobs t))"
    proof
      assume "r' \<in> set (map f (qt_jobs t))"
      then obtain r where r: "r \<in> set (qt_jobs t)" "r' = f r" by auto
      then have "row_id r = i" using f(2) row_change_same find_row_in [OF r'] by (metis same_row_def)
      then show False using job_row_found [OF assms(1) r(1)] None by simp
    qed
    then show ?thesis using find_row_in [OF r'] f(1,3) by auto
  qed
  then show ?thesis using None by (auto simp: row_token_def split: option.splits)
next
  case (Some r)
  obtain A where "follows X A t t'" using step_some_follows [OF assms(2,1)] by blast
  then obtain r' where r': "r' \<in> set (qt_jobs t')" "r' = r \<or> row_change X A t r r'" using row_after find_row_in [OF Some] by blast
  then have "row_id r' = i" "job_lease_token (dr_job r) \<le> job_lease_token (dr_job r')"
    using row_change_same find_row_in [OF Some] by (auto simp: same_row_def)
  then show ?thesis using job_row_found [OF step_tables_ok [OF assms(2,1)] r'(1)] Some by (simp add: row_token_def)
qed

lemma claimed_row:
  assumes "claim_next_telegram_delivery_job env locked s c n m t = (Inr (Some r'), t')" "tables_ok t"
  obtains r where "r \<in> set (qt_jobs t)" "claim_filter env t c n r" "r' = lease_row (cr_worker_id c) m (cr_lease_seconds c) r"
    "t' = put_row r' t" "find_row t (row_id r') = Some r" "find_row t' (row_id r') = Some r'"
proof -
  obtain r where r: "r \<in> set (qt_jobs t)" "claim_filter env t c n r" "r' = lease_row (cr_worker_id c) m (cr_lease_seconds c) r"
    "t' = put_row r' t" using claim_cases [OF assms(1)] by auto
  have i: "row_id r' = row_id r" using r(3) by (simp add: lease_row_def)
  have "r' \<in> set (qt_jobs t')" using r(1,4) i by (auto simp: put_row_def image_iff)
  moreover have "tables_ok t'" using step_tables_ok [OF service_step.claim_op [OF assms(1)] assms(2)] .
  ultimately show thesis using that r job_row_found [OF assms(2) r(1)] job_row_found [of t' r'] i by metis
qed

interpretation dispatcher: lease_fence tables_ok "service_step X" row_token row_grant row_fence for X
proof unfold_locales
  show "row_token t i < row_token t' i" if ok: "tables_ok t" and g: "row_grant t i t'" for t i t'
  proof -
    obtain env locked s c n m r' where cl: "claim_next_telegram_delivery_job env locked s c n m t = (Inr (Some r'), t')" "row_id r' = i"
      using g by (auto simp: row_grant_def)
    then obtain r where "find_row t i = Some r" "find_row t' i = Some r'" "r' = lease_row (cr_worker_id c) m (cr_lease_seconds c) r"
      using claimed_row [OF cl(1) ok] by metis
    then show ?thesis by (simp add: row_token_def lease_row_def)
  qed
  show "service_step X t t'" if "row_grant t i t'" for t i t' using that service_step.claim_op by (auto simp: row_grant_def)
  show "k = row_token t i" if "row_fence t i w k" for t i w k using that by (auto simp: row_fence_def row_token_def)
qed (auto intro: step_tables_ok row_token_mono)

lemma fences_need_token:
  "find_row t i = Some r \<Longrightarrow> holds_row r w k \<Longrightarrow> row_fence t i w k"
  "find_row t i = Some r \<Longrightarrow> dispatch_fence r w k \<Longrightarrow> row_fence t i w k"
  by (auto simp: row_fence_def holds_row_def holds_lease_def dispatch_fence_def)

text \<open>What a worker without the token can do: nothing.\<close>

lemma unfenced_refused:
  assumes "\<not> row_fence t i w k" "foreign sv"
  shows "mark_telegram_delivery_dispatch_started env sv i w k g p n1 n2 n3 t = (Inr False, t)"
    "fd_outcome fd \<noteq> FRESH_SEND \<Longrightarrow> apply_telegram_delivery_freshness_result sv i w k fd reason fb secs now t = (Inr False, t)"
    "release_unstarted_telegram_delivery_lease sv i w k why secs now t = (Inr False, t)"
    "defer_unstarted_telegram_delivery_lease sv i w k secs why now t = (Inr False, t)"
    "\<exists>e. record_telegram_delivery_provider_outcome digest sv i w k res now t = (Inl e, t)"
    "resolve_telegram_delivery_result cfg sv i w k res fb rec now lin t = (Inr STALE_DECISION, t)"
proof -
  have no: "\<not> holds_row r w k" "\<not> dispatch_fence r w k" if "find_row t i = Some r" for r
    using fences_need_token that assms(1) by blast+
  show "mark_telegram_delivery_dispatch_started env sv i w k g p n1 n2 n3 t = (Inr False, t)"
    using no assms(2) by (auto simp: mark_telegram_delivery_dispatch_started_def Let_def split: option.splits)
  show "fd_outcome fd \<noteq> FRESH_SEND \<Longrightarrow> apply_telegram_delivery_freshness_result sv i w k fd reason fb secs now t = (Inr False, t)"
    using no assms(2) by (auto simp: apply_telegram_delivery_freshness_result_def split: option.splits)
  show "release_unstarted_telegram_delivery_lease sv i w k why secs now t = (Inr False, t)"
    "defer_unstarted_telegram_delivery_lease sv i w k secs why now t = (Inr False, t)"
    using no assms(2) by (auto simp: release_unstarted_telegram_delivery_lease_def defer_unstarted_telegram_delivery_lease_def
        unstarted_lease_def split: option.splits)
  show "\<exists>e. record_telegram_delivery_provider_outcome digest sv i w k res now t = (Inl e, t)"
    using no assms(2) by (auto simp: record_telegram_delivery_provider_outcome_def split: option.splits)
  show "resolve_telegram_delivery_result cfg sv i w k res fb rec now lin t = (Inr STALE_DECISION, t)"
    using no assms(2)
    by (auto simp: resolve_telegram_delivery_result_def normal_fence_def recorded_fence_def split: option.splits)
qed

text \<open>C5: 
  C1: A worker that lost its job is fenced.  Once a job has been claimed again, the previous holder of the lease
  can neither mark the dispatch, nor report freshness, release or defer the lease, record an outcome, or resolve
  the job, whatever other operations happen before, between and after.
\<close>

theorem stale_dispatcher_is_fenced:
  assumes "reachable fresh_queue (service_step {}) t0"
    and "claim_next_telegram_delivery_job env1 l1 s1 c1 n1 m1 t0 = (Inr (Some r1), t1)" "(service_step {})\<^sup>*\<^sup>* t1 t2"
    and "claim_next_telegram_delivery_job env2 l2 s2 c2 n2 m2 t2 = (Inr (Some r2), t3)" "row_id r2 = row_id r1"
    and "(service_step {})\<^sup>*\<^sup>* t3 t" "foreign sv"
  defines "i \<equiv> row_id r1" and "k \<equiv> job_lease_token (dr_job r1)"
  shows "mark_telegram_delivery_dispatch_started env sv i w k g p x1 x2 x3 t = (Inr False, t) \<and>
    (fd_outcome fd \<noteq> FRESH_SEND \<longrightarrow> apply_telegram_delivery_freshness_result sv i w k fd reason fb secs now t = (Inr False, t)) \<and>
    release_unstarted_telegram_delivery_lease sv i w k why secs now t = (Inr False, t) \<and>
    defer_unstarted_telegram_delivery_lease sv i w k secs why now t = (Inr False, t) \<and>
    (\<exists>e. record_telegram_delivery_provider_outcome digest sv i w k res now t = (Inl e, t)) \<and>
    resolve_telegram_delivery_result cfg sv i w k res fb rec now lin t = (Inr STALE_DECISION, t)"
proof -
  have ok0: "tables_ok t0" using durable.reachable_invar [OF assms(1)] by blast
  then have ok1: "tables_ok t1" using step_tables_ok [OF service_step.claim_op [OF assms(2)]] by blast
  then have ok2: "tables_ok t2" using dispatcher.steps_ok [OF assms(3)] by blast
  then have ok3: "tables_ok t3" using step_tables_ok [OF service_step.claim_op [OF assms(4)]] by blast
  have "row_token t1 i = k" using claimed_row [OF assms(2) ok0] by (metis i_def k_def option.simps(5) row_token_def)
  moreover have "row_token t1 i \<le> row_token t2 i" using dispatcher.steps_token_mono [OF assms(3) ok1] .
  moreover have "row_token t2 i < row_token t3 i"
    using dispatcher.grant_fresh [OF ok2] assms(4,5) unfolding row_grant_def i_def by blast
  moreover have "row_token t3 i \<le> row_token t i" using dispatcher.steps_token_mono [OF assms(6) ok3] .
  ultimately have "\<not> row_fence t i w k" using dispatcher.holds_token [of t i w k] by auto
  note refused = unfenced_refused [OF this assms(7)]
  show ?thesis by (intro conjI impI refused)
qed

section \<open>Recorded outcomes\<close>

definition same_facts :: "provider_outcome \<Rightarrow> provider_outcome \<Rightarrow> bool" where
  "same_facts x y \<longleftrightarrow>
     po_id y = po_id x \<and> po_job_id y = po_job_id x \<and> po_lease_token y = po_lease_token x \<and> po_worker_id y = po_worker_id x \<and>
     po_facts y = po_facts x \<and> po_outcome_hash y = po_outcome_hash x"

lemma same_outcome_trans: "same_outcome x y \<Longrightarrow> same_outcome y z \<Longrightarrow> same_outcome x z"
  by (auto simp: same_outcome_def)

interpretation recorded: kept_promise X "\<lambda>t. \<exists>y \<in> set (qt_outcomes t). same_outcome x y" for X x
proof
  show "\<exists>y \<in> set (qt_outcomes t'). same_outcome x y"
    if ok: "tables_ok t" and y: "\<exists>y \<in> set (qt_outcomes t). same_outcome x y" and st: "service_step X t t'" for t t'
  proof -
    obtain A where "follows X A t t'" using step_some_follows [OF st ok] by blast
    then show ?thesis using y outcome_after same_outcome_trans by meson
  qed
qed

text \<open>A history that does not answer for a dispatched job leaves it alone while the outcome of its dispatch is pending.\<close>

lemma pending_row_kept:
  assumes "tables_ok t" "x \<in> set (qt_outcomes t)" "po_apply_state x = OUTCOME_PENDING" "r \<in> set (qt_jobs t)"
    and "recorded_fence r (row_id r) w k (Some x)" "row_id r \<in> X" "po_id x \<notin> A" "row_change X A t r r'"
  shows False
  using assms(8)
proof (cases rule: row_change.cases)
  case (applied y)
  then have "y = x" using outcome_by_fence [OF assms(1) applied(2) assms(2)] assms(5)
    by (auto simp: recorded_fence_def dispatch_fence_def)
  then show ?thesis using applied(3) assms(7) by blast
next
  case expired
  then show ?thesis using assms(2,3,5) by (auto simp: recorded_fence_def pending_outcome_def)
qed (use assms(5,6) in \<open>auto simp: recorded_fence_def dispatch_fence_def CLAIMABLE_DELIVERY_STATES_def\<close>)

definition awaits_outcome :: "provider_outcome \<Rightarrow> queue_tables \<Rightarrow> bool" where
  "awaits_outcome x t \<longleftrightarrow>
     (\<exists>y \<in> set (qt_outcomes t). same_facts x y \<and>
        (po_apply_state y = OUTCOME_APPLIED \<or>
         po_apply_state y = OUTCOME_PENDING \<and>
           (\<exists>r \<in> set (qt_jobs t). row_id r = po_job_id x \<and> recorded_fence r (row_id r) (po_worker_id x) (po_lease_token x) (Some y))))"

lemma same_facts_fence: "same_facts x y \<Longrightarrow> recorded_fence r i w k (Some y) = recorded_fence r i w k (Some x)"
  by (simp add: same_facts_def recorded_fence_def)

lemma same_outcome_facts: "same_outcome x y \<Longrightarrow> same_facts x y"
  by (simp add: same_outcome_def same_facts_def)

lemma same_facts_trans: "same_facts x y \<Longrightarrow> same_facts y z \<Longrightarrow> same_facts x z"
  by (simp add: same_facts_def)

text \<open>Under its fence an outcome is applied, never refused as stale.\<close>

lemma fenced_not_stale:
  assumes "resolve_telegram_delivery_result cfg s i w k res fb rec n m t = (Inr d, t')"
    and "find_row t i = Some r" "recorded_fence r i w k rec"
  shows "dd_outcome d \<noteq> OUT_STALE_LEASE"
  using resolve_cases [OF assms(1)]
proof (elim disjE conjE exE)
  assume d: "\<forall>d'. Inr d = (Inr d' :: service_error + delivery_decision) \<longrightarrow> d' = STALE_DECISION"
  have live: "\<not> is_terminal (dr_job r)" using assms(3)
    by (auto simp: recorded_fence_def is_terminal_def FINAL_DELIVERY_STATES_def split: option.splits)
  obtain job d0 where ap: "apply_gateway_result (rs_digest64 cfg) (rs_retry cfg) n (dr_job r) res = Inr (job, d0)"
    and out: "outcome_state (dd_outcome d0) = Some (job_state job)"
    using gateway_result_ok [OF live, of "rs_digest64 cfg" "rs_retry cfg" n res] by (auto simp: resolution_ok_def split: sum.splits)
  obtain r1 d1 where ev: "persist_durable_rate_limit_evidence (qt_jobs t) (rs_window_seconds cfg) n m (settle_row job res r) d0 = (r1, d1)"
    by (cases rule: prod.exhaust)
  have "d = d1" using assms ap ev
    by (cases "require_lifecycle_callback r fb ''_delivery_feedback_required''"; cases "persist_durable_runtime_gate_evidence (qt_gates t) r1 d1 n";
        cases "run_callback fb") (auto simp: resolve_telegram_delivery_result_def split: if_splits)
  then show ?thesis using settled_row(3) [OF ev] out by auto
qed (auto simp: STALE_DECISION_def)

lemma apply_fenced:
  assumes "apply_telegram_delivery_provider_outcome cfg s i fb now t = (f, t')" "find_outcome t i = Some y"
    and "po_apply_state y = OUTCOME_PENDING" "find_row t (po_job_id y) = Some r"
    and "recorded_fence r (po_job_id y) (po_worker_id y) (po_lease_token y) (Some y)"
  shows "t' = t \<and> (\<exists>e. f = Inl e) \<or>
    (\<exists>d t1. f = Inr d \<and> dd_outcome d \<noteq> OUT_STALE_LEASE \<and> qt_outcomes t1 = qt_outcomes t \<and> t' = put_outcome (applied_outcome d now y) t1)"
proof -
  obtain g t1 where res: "resolve_telegram_delivery_result cfg s (po_job_id y) (po_worker_id y) (po_lease_token y)
      (provider_outcome_to_gateway_result y) fb (Some y) now now t = (g, t1)" by (cases rule: prod.exhaust)
  have "qt_outcomes t1 = qt_outcomes t" using resolve_cases [OF res] by (elim disjE exE conjE) simp_all
  moreover have "dd_outcome d \<noteq> OUT_STALE_LEASE" if "g = Inr d" for d using fenced_not_stale [OF res [unfolded that] assms(4,5)] .
  ultimately show ?thesis using assms(1-3) res
    by (cases g) (auto simp: apply_telegram_delivery_provider_outcome_def split: if_splits)
qed

lemma applied_in:
  assumes "y \<in> set (qt_outcomes t)" "qt_outcomes t1 = qt_outcomes t" "t' = put_outcome (applied_outcome d now y) t1" "dd_outcome d \<noteq> OUT_STALE_LEASE"
  shows "applied_outcome d now y \<in> set (qt_outcomes t')" "same_facts y (applied_outcome d now y)"
    "po_apply_state (applied_outcome d now y) = OUTCOME_APPLIED"
proof -
  have "po_id (applied_outcome d now y) = po_id y" by (simp add: applied_outcome_def)
  then show "applied_outcome d now y \<in> set (qt_outcomes t')" using assms(1-3) by (auto simp: put_outcome_def image_iff)
qed (use assms(4) in \<open>simp_all add: applied_outcome_def same_facts_def\<close>)

lemma awaits_follows:
  assumes "tables_ok t" "awaits_outcome x t" "po_job_id x \<in> X" "follows X A t t'" "po_id x \<notin> A"
  shows "awaits_outcome x t'"
proof -
  obtain y where y: "y \<in> set (qt_outcomes t)" "same_facts x y"
    and st: "po_apply_state y = OUTCOME_APPLIED \<or> po_apply_state y = OUTCOME_PENDING \<and>
      (\<exists>r \<in> set (qt_jobs t). row_id r = po_job_id x \<and> recorded_fence r (row_id r) (po_worker_id x) (po_lease_token x) (Some y))"
    using assms(2) by (auto simp: awaits_outcome_def)
  have id: "po_id y \<notin> A" using y(2) assms(5) by (simp add: same_facts_def)
  obtain z where z: "z \<in> set (qt_outcomes t')" "same_outcome y z" "po_apply_state z = po_apply_state y"
    using outcome_after [OF assms(4) y(1)] id by blast
  have xz: "same_facts x z" using y(2) z(2) same_outcome_facts same_facts_trans by blast
  have "\<exists>r \<in> set (qt_jobs t'). row_id r = po_job_id x \<and> recorded_fence r (row_id r) (po_worker_id x) (po_lease_token x) (Some z)"
    if p: "po_apply_state y = OUTCOME_PENDING"
  proof -
    obtain r where r: "r \<in> set (qt_jobs t)" "row_id r = po_job_id x" "recorded_fence r (row_id r) (po_worker_id x) (po_lease_token x) (Some y)"
      using st p by auto
    have "row_id r \<in> X" using r(2) assms(3) by simp
    then have "r \<in> set (qt_jobs t')"
      using row_after [OF assms(4) r(1)] pending_row_kept [OF assms(1) y(1) p r(1,3) _ id] by blast
    then show ?thesis using r same_facts_fence [OF same_outcome_facts [OF z(2)]] by blast
  qed
  then show ?thesis using z(1,3) xz st unfolding awaits_outcome_def by (intro bexI [of _ z]) auto
qed

lemma awaits_apply:
  assumes "tables_ok t" "awaits_outcome x t" "apply_telegram_delivery_provider_outcome cfg s (po_id x) fb now t = (f, t')"
  shows "awaits_outcome x t'"
proof -
  obtain y where y: "y \<in> set (qt_outcomes t)" "same_facts x y"
    and st: "po_apply_state y = OUTCOME_APPLIED \<or> po_apply_state y = OUTCOME_PENDING \<and>
      (\<exists>r \<in> set (qt_jobs t). row_id r = po_job_id x \<and> recorded_fence r (row_id r) (po_worker_id x) (po_lease_token x) (Some y))"
    using assms(2) by (auto simp: awaits_outcome_def)
  have eq: "po_id y = po_id x" "po_job_id y = po_job_id x" "po_worker_id y = po_worker_id x" "po_lease_token y = po_lease_token x"
    using y(2) by (simp_all add: same_facts_def)
  have found: "find_outcome t (po_id x) = Some y" using outcome_found [OF assms(1) y(1)] eq by simp
  from st show ?thesis
  proof (elim disjE conjE bexE)
    assume "po_apply_state y = OUTCOME_APPLIED"
    then have "t' = t" using apply_cases [OF assms(3)] found by auto
    then show ?thesis using assms(2) by simp
  next
    fix r
    assume p: "po_apply_state y = OUTCOME_PENDING" and r: "r \<in> set (qt_jobs t)" "row_id r = po_job_id x"
      "recorded_fence r (row_id r) (po_worker_id x) (po_lease_token x) (Some y)"
    have row: "find_row t (po_job_id y) = Some r" using job_row_found [OF assms(1) r(1)] r(2) eq by simp
    have fence: "recorded_fence r (po_job_id y) (po_worker_id y) (po_lease_token y) (Some y)" using r(2,3) eq by simp
    from apply_fenced [OF assms(3) found p row fence] show ?thesis
    proof (elim disjE conjE exE)
      fix d t1
      assume d: "dd_outcome d \<noteq> OUT_STALE_LEASE" "qt_outcomes t1 = qt_outcomes t" "t' = put_outcome (applied_outcome d now y) t1"
      note z = applied_in [OF y(1) d(2,3,1)]
      then show ?thesis using same_facts_trans [OF y(2) z(2)] unfolding awaits_outcome_def by blast
    qed (use assms(2) in auto)
  qed
qed

interpretation awaiting: kept_promise "insert (po_job_id x) X" "awaits_outcome x" for x X
proof
  show "awaits_outcome x t'"
    if ok: "tables_ok t" and a: "awaits_outcome x t" and st: "service_step (insert (po_job_id x) X) t t'" for t t'
    using step_follows [OF st ok]
  proof (elim disjE exE conjE)
    assume "\<forall>A. follows (insert (po_job_id x) X) A t t'"
    then show ?thesis using awaits_follows [OF ok a, of "insert (po_job_id x) X" "{}"] by simp
  next
    fix cfg s i fb now f
    assume ap: "apply_telegram_delivery_provider_outcome cfg s i fb now t = (f, t')" and fo: "follows (insert (po_job_id x) X) {i} t t'"
    show ?thesis
    proof (cases "i = po_id x")
      case True
      then show ?thesis using awaits_apply [OF ok a] ap by blast
    next
      case False
      then show ?thesis using awaits_follows [OF ok a _ fo] by simp
    qed
  qed
qed


section \<open>Recorded outcomes are applied\<close>

definition gates_ok :: "queue_tables \<Rightarrow> bool" where
  "gates_ok t \<longleftrightarrow> (\<forall>g \<in> set (qt_gates t). gate_identity_ok g)"

lemma blocked_gate_identity: "gate_identity_ok (block_gate r d now g) = gate_identity_ok g"
  by (simp add: gate_identity_ok_def block_gate_def split: option.splits)

lemma new_gate_identity:
  "b \<in> {''primary'', ''channel_editor''} \<Longrightarrow> gate_identity_ok (block_gate r d now (new_gate (bot_gate_key b) ''bot'' (Some b) now))"
  "gate_identity_ok (block_gate r d now (new_gate GATEWAY_GATE_KEY ''gateway'' None now))"
  unfolding blocked_gate_identity by (auto simp: gate_identity_ok_def new_gate_def)

lemma gate_written:
  assumes "gates_ok t" "row_bot r \<in> {''primary'', ''channel_editor''}"
  shows "\<exists>g. persist_durable_runtime_gate_evidence (qt_gates t) r d now = Inr g"
proof -
  have "gate_identity_ok (block_gate r d now g)" if "find (\<lambda>g. rg_gate_key g = k) (qt_gates t) = Some g" for g k
    using that assms(1) by (auto simp: gates_ok_def blocked_gate_identity find_Some_iff)
  then show ?thesis using assms(2)
    by (auto simp: persist_durable_runtime_gate_evidence_def Let_def new_gate_identity split: option.splits)
qed

lemma fenced_resolves:
  assumes "foreign s" "find_row t i = Some r" "recorded_fence r i w k rec" "gates_ok t" "row_bot r \<in> {''primary'', ''channel_editor''}"
  shows "\<exists>d t'. resolve_telegram_delivery_result cfg s i w k res (Some None) rec n m t = (Inr d, t')"
proof -
  have live: "\<not> is_terminal (dr_job r)" using assms(3)
    by (auto simp: recorded_fence_def is_terminal_def FINAL_DELIVERY_STATES_def split: option.splits)
  obtain job d0 where ap: "apply_gateway_result (rs_digest64 cfg) (rs_retry cfg) n (dr_job r) res = Inr (job, d0)"
    using gateway_result_ok [OF live, of "rs_digest64 cfg" "rs_retry cfg" n res] by (auto simp: resolution_ok_def split: sum.splits)
  obtain r1 d1 where ev: "persist_durable_rate_limit_evidence (qt_jobs t) (rs_window_seconds cfg) n m (settle_row job res r) d0 = (r1, d1)"
    by (cases rule: prod.exhaust)
  have "row_bot (finish_row job d1 n m r1) = row_bot r1" by (simp add: finish_row_def Let_def)
  then have "row_bot r1 = row_bot r" using settled_row(1) [OF ev] by (simp add: same_dispatch_def same_row_def)
  then obtain g where "persist_durable_runtime_gate_evidence (qt_gates t) r1 d1 n = Inr g" using gate_written [OF assms(4), of r1] assms(5) by metis
  then show ?thesis using assms(1-3) ap ev
    by (simp add: resolve_telegram_delivery_result_def require_lifecycle_callback_def run_callback_def)
qed

definition awaited_applied :: "provider_outcome \<Rightarrow> queue_tables \<Rightarrow> bool" where
  "awaited_applied x t \<longleftrightarrow> (\<exists>y \<in> set (qt_outcomes t). same_facts x y \<and> po_apply_state y = OUTCOME_APPLIED)"

lemma awaited_applies:
  assumes "tables_ok t" "awaits_outcome x t" "apply_telegram_delivery_provider_outcome cfg s (po_id x) (Some None) now t = (f, t')"
    and "\<And>r. find_row t (po_job_id x) = Some r \<Longrightarrow> row_bot r \<in> {''primary'', ''channel_editor''}" "foreign s" "gates_ok t"
  shows "\<exists>d. f = Inr d \<and> dd_outcome d \<noteq> OUT_STALE_LEASE \<and> awaited_applied x t'"
proof -
  obtain y where y: "y \<in> set (qt_outcomes t)" "same_facts x y"
    and st: "po_apply_state y = OUTCOME_APPLIED \<or> po_apply_state y = OUTCOME_PENDING \<and>
      (\<exists>r \<in> set (qt_jobs t). row_id r = po_job_id x \<and> recorded_fence r (row_id r) (po_worker_id x) (po_lease_token x) (Some y))"
    using assms(2) by (auto simp: awaits_outcome_def)
  have eq: "po_id y = po_id x" "po_job_id y = po_job_id x" "po_worker_id y = po_worker_id x" "po_lease_token y = po_lease_token x"
    using y(2) by (simp_all add: same_facts_def)
  have found: "find_outcome t (po_id x) = Some y" using outcome_found [OF assms(1) y(1)] eq by simp
  from st show ?thesis
  proof (elim disjE conjE bexE)
    assume ap: "po_apply_state y = OUTCOME_APPLIED"
    then have "f = Inr (decide OUT_ALREADY_RESOLVED ''provider_outcome_already_applied'')" "t' = t"
      using assms(3,5) found by (simp_all add: apply_telegram_delivery_provider_outcome_def)
    then show ?thesis using y ap by (auto simp: awaited_applied_def decide_def)
  next
    fix r
    assume p: "po_apply_state y = OUTCOME_PENDING" and r: "r \<in> set (qt_jobs t)" "row_id r = po_job_id x"
      "recorded_fence r (row_id r) (po_worker_id x) (po_lease_token x) (Some y)"
    have row: "find_row t (po_job_id y) = Some r" using job_row_found [OF assms(1) r(1)] r(2) eq by simp
    have fence: "recorded_fence r (po_job_id y) (po_worker_id y) (po_lease_token y) (Some y)" using r(2,3) eq by simp
    have "row_bot r \<in> {''primary'', ''channel_editor''}" using assms(4) row eq by simp
    from fenced_resolves [OF assms(5) row fence assms(6) this, of cfg "provider_outcome_to_gateway_result y" now now]
    have "\<exists>d. f = Inr d" using assms(3,5) found p by (auto simp: apply_telegram_delivery_provider_outcome_def)
    then obtain d t1 where d: "f = Inr d" "dd_outcome d \<noteq> OUT_STALE_LEASE" "qt_outcomes t1 = qt_outcomes t" "t' = put_outcome (applied_outcome d now y) t1"
      using apply_fenced [OF assms(3) found p row fence] by blast
    have "applied_outcome d now y \<in> set (qt_outcomes t')" "same_facts x (applied_outcome d now y)" "po_apply_state (applied_outcome d now y) = OUTCOME_APPLIED"
      using applied_in [OF y(1) d(3,4,2)] same_facts_trans [OF y(2)] by blast+
    then show ?thesis using d by (auto simp: awaited_applied_def)
  qed
qed

interpretation kept_rows: kept_promise X "\<lambda>t. \<exists>r' \<in> set (qt_jobs t). same_row r r'" for X r
proof
  show "\<exists>r' \<in> set (qt_jobs t'). same_row r r'"
    if ok: "tables_ok t" and r: "\<exists>r' \<in> set (qt_jobs t). same_row r r'" and st: "service_step X t t'" for t t'
  proof -
    obtain A where "follows X A t t'" using step_some_follows [OF st ok] by blast
    then obtain s s' where "s \<in> set (qt_jobs t)" "same_row r s" "s' \<in> set (qt_jobs t')" "s' = s \<or> row_change X A t s s'"
      using r row_after by blast
    then show ?thesis using row_change_same same_row_trans by blast
  qed
qed


section \<open>Sends of unknown outcome\<close>

text \<open>A send that was dispatched and whose answer never came.\<close>

definition lost_send :: "delivery_row \<Rightarrow> queue_tables \<Rightarrow> bool" where
  "lost_send r t \<longleftrightarrow>
     (\<exists>r' \<in> set (qt_jobs t). same_dispatch r r' \<and> row_state r' \<in> {ST_LEASED, ST_AMBIGUOUS}) \<and>
     (\<forall>x \<in> set (qt_outcomes t). po_job_id x = row_id r \<longrightarrow> po_lease_token x \<noteq> job_lease_token (dr_job r))"

lemma same_dispatch_trans: "same_dispatch a b \<Longrightarrow> same_dispatch b c \<Longrightarrow> same_dispatch a c"
  by (auto simp: same_dispatch_def intro: same_row_trans)

lemma same_dispatch_refl [simp]: "same_dispatch r r"
  by (simp add: same_dispatch_def)

lemma lost_send_row:
  assumes "row_change X A t r r'" "row_id r \<in> X" "dr_dispatch_started_at r \<noteq> None" "row_state r \<in> {ST_LEASED, ST_AMBIGUOUS}"
    and "job_method (dr_job r) \<in> set NON_IDEMPOTENT_SEND_METHODS"
    and "\<forall>x \<in> set (qt_outcomes t). po_job_id x = row_id r \<longrightarrow> po_lease_token x \<noteq> job_lease_token (dr_job r)"
  shows "same_dispatch r r' \<and> row_state r' = ST_AMBIGUOUS"
  using assms(1)
proof (cases rule: row_change.cases)
  case (applied x)
  then show ?thesis using assms(6) by (auto simp: recorded_fence_def dispatch_fence_def)
qed (use assms(2-5) in \<open>auto simp: CLAIMABLE_DELIVERY_STATES_def expired_state_def\<close>)

lemma no_new_outcome:
  assumes "follows X A t t'" "x \<in> set (qt_outcomes t')" "po_job_id x \<in> X"
  shows "\<exists>y \<in> set (qt_outcomes t). same_outcome y x"
  using assms unfolding follows_def outcomes_follow_def by fastforce

lemma lost_send_follows:
  assumes "lost_send r t" "follows X A t t'" "row_id r \<in> X" "dr_dispatch_started_at r \<noteq> None"
    and "job_method (dr_job r) \<in> set NON_IDEMPOTENT_SEND_METHODS"
  shows "lost_send r t'"
proof -
  obtain s where s: "s \<in> set (qt_jobs t)" "same_dispatch r s" "row_state s \<in> {ST_LEASED, ST_AMBIGUOUS}"
    and no: "\<forall>x \<in> set (qt_outcomes t). po_job_id x = row_id r \<longrightarrow> po_lease_token x \<noteq> job_lease_token (dr_job r)"
    using assms(1) by (auto simp: lost_send_def)
  have eq: "row_id s = row_id r" "job_lease_token (dr_job s) = job_lease_token (dr_job r)" "dr_dispatch_started_at s = dr_dispatch_started_at r"
    "job_method (dr_job s) = job_method (dr_job r)" using s(2) by (simp_all add: same_dispatch_def same_row_def)
  obtain s' where s': "s' \<in> set (qt_jobs t')" "s' = s \<or> row_change X A t s s'" using row_after [OF assms(2) s(1)] by blast
  have "same_dispatch s s' \<and> row_state s' \<in> {ST_LEASED, ST_AMBIGUOUS}"
    using s'(2) lost_send_row [of X A t s s'] s(3) no assms(3-5) unfolding eq by auto
  then have "\<exists>r' \<in> set (qt_jobs t'). same_dispatch r r' \<and> row_state r' \<in> {ST_LEASED, ST_AMBIGUOUS}"
    using s'(1) same_dispatch_trans [OF s(2)] by blast
  moreover have "po_lease_token x \<noteq> job_lease_token (dr_job r)" if x: "x \<in> set (qt_outcomes t')" "po_job_id x = row_id r" for x
  proof -
    obtain y where "y \<in> set (qt_outcomes t)" "same_outcome y x" using no_new_outcome [OF assms(2) x(1)] x(2) assms(3) by metis
    then show ?thesis using no x(2) by (auto simp: same_outcome_def)
  qed
  ultimately show ?thesis by (simp add: lost_send_def)
qed

lemma lost_send_history:
  assumes "(service_step X)\<^sup>*\<^sup>* t t'" "tables_ok t" "lost_send r t" "row_id r \<in> X" "dr_dispatch_started_at r \<noteq> None"
    and "job_method (dr_job r) \<in> set NON_IDEMPOTENT_SEND_METHODS"
  shows "tables_ok t' \<and> lost_send r t'"
  using assms(1-3)
proof (induction rule: rtranclp_induct)
  case (step t' t'')
  then have "tables_ok t'" "lost_send r t'" by blast+
  then show ?case using step_some_follows [OF step.hyps(2)] lost_send_follows [OF _ _ assms(4-6)] step_tables_ok [OF step.hyps(2)] by blast
qed blast

text \<open>An unanswered dispatch is not chosen again, nor is another job of its destination.\<close>

lemma unanswered_not_chosen:
  assumes "tables_ok t" "r \<in> set (qt_jobs t)" "row_state r \<in> {ST_LEASED, ST_AMBIGUOUS}" "dr_dispatch_started_at r \<noteq> None"
  shows "fst (claim_next_telegram_delivery_job env locked sv c n m t) = Inr (Some s) \<Longrightarrow>
      row_id s \<noteq> row_id r \<and> row_destination s \<noteq> row_destination r"
    "fst (mark_telegram_delivery_dispatch_started env sv i w k g p n1 n2 n3 t) = Inr True \<Longrightarrow> find_row t i = Some s \<Longrightarrow>
      i \<noteq> row_id r \<and> row_destination s \<noteq> row_destination r"
proof -
  have blocks: "blocker now s r" if "row_id s \<noteq> row_id r" "row_destination s = row_destination r" for s now
    using that assms(3,4) by (auto simp: blocker_def in_flight_def unresolved_def DURABLE_UNRESOLVED_DESTINATION_STATES_def)
  {
    assume "fst (claim_next_telegram_delivery_job env locked sv c n m t) = Inr (Some s)"
    then have "claim_next_telegram_delivery_job env locked sv c n m t = (Inr (Some s), snd (claim_next_telegram_delivery_job env locked sv c n m t))"
      by (metis prod.collapse)
    from claimed_row [OF this assms(1)] obtain q
      where q: "q \<in> set (qt_jobs t)" "claim_filter env t c n q" "s = lease_row (cr_worker_id c) m (cr_lease_seconds c) q" by metis
    have s: "row_id s = row_id q" "row_destination s = row_destination q" using q(3) by (simp_all add: lease_row_def)
    have "row_id q \<noteq> row_id r" using q(2) row_by_id [OF assms(1) q(1) assms(2)] assms(3)
      by (auto simp: claim_filter_def claimable_def CLAIMABLE_DELIVERY_STATES_def)
    moreover have "\<not> blocker n q r" using q(2) assms(2) by (auto simp: claim_filter_def claimable_def list_ex_iff)
    ultimately show "row_id s \<noteq> row_id r \<and> row_destination s \<noteq> row_destination r" using blocks s by metis
  }
  assume mk: "fst (mark_telegram_delivery_dispatch_started env sv i w k g p n1 n2 n3 t) = Inr True" and s: "find_row t i = Some s"
  have m: "dr_dispatch_started_at s = None" "assert_durable_dispatch_gate env t s n1 = None"
    using mark_cases [OF prod.collapse [symmetric], of env sv i w k g p n1 n2 n3 t] mk s by auto
  have "i \<noteq> row_id r" using m(1) s job_row_found [OF assms(1,2)] assms(4) by auto
  moreover have "\<not> blocker n1 s r" using gate_open(3) [OF m(2)] assms(2) by blast
  ultimately show "i \<noteq> row_id r \<and> row_destination s \<noteq> row_destination r" using blocks find_row_in [OF s] by metis
qed

text \<open>C3: 
  C1: A send of unknown outcome is not repeated.  When the worker of a dispatched send vanishes without recording an
  answer, no history of the other workers sends the message again: the job keeps its one dispatch, is leased or ambiguous,
  is never claimed and its dispatch never marked, and it keeps every other job of its destination from being dispatched.
\<close>

theorem lost_send_is_not_repeated:
  assumes "reachable fresh_queue (service_step {}) t0" "r \<in> set (qt_jobs t0)" "in_flight r"
    and "job_method (dr_job r) \<in> set NON_IDEMPOTENT_SEND_METHODS"
    and "list_all (\<lambda>x. po_job_id x = row_id r \<longrightarrow> po_lease_token x \<noteq> job_lease_token (dr_job r)) (qt_outcomes t0)"
    and "(service_step {row_id r})\<^sup>*\<^sup>* t0 t"
  shows "\<exists>r'. find_row t (row_id r) = Some r' \<and> row_state r' \<in> {ST_LEASED, ST_AMBIGUOUS} \<and> dr_dispatch_started_at r' \<noteq> None \<and>
    job_provider_attempt_count (dr_job r') = job_provider_attempt_count (dr_job r) \<and>
    (\<forall>s. fst (claim_next_telegram_delivery_job env locked sv c n m t) = Inr (Some s) \<longrightarrow>
       row_id s \<noteq> row_id r \<and> row_destination s \<noteq> row_destination r) \<and>
    (\<forall>i s. fst (mark_telegram_delivery_dispatch_started env sv i w k g p n1 n2 n3 t) = Inr True \<and> find_row t i = Some s \<longrightarrow>
       i \<noteq> row_id r \<and> row_destination s \<noteq> row_destination r)"
proof -
  have ok0: "tables_ok t0" using durable.reachable_invar [OF assms(1)] by blast
  have started: "dr_dispatch_started_at r \<noteq> None" using assms(3) by (simp add: in_flight_def)
  have "\<exists>r' \<in> set (qt_jobs t0). same_dispatch r r' \<and> row_state r' \<in> {ST_LEASED, ST_AMBIGUOUS}"
    using assms(2,3) by (intro bexI [of _ r]) (simp_all add: in_flight_def)
  then have "lost_send r t0" using assms(5) by (simp add: lost_send_def list_all_iff)
  then have ok: "tables_ok t" and lost: "lost_send r t" using lost_send_history [OF assms(6) ok0 _ _ started assms(4)] by blast+
  obtain r' where r': "r' \<in> set (qt_jobs t)" "same_dispatch r r'" "row_state r' \<in> {ST_LEASED, ST_AMBIGUOUS}" using lost by (auto simp: lost_send_def)
  have eq: "row_id r' = row_id r" "row_destination r' = row_destination r" "dr_dispatch_started_at r' = dr_dispatch_started_at r"
    "job_provider_attempt_count (dr_job r') = job_provider_attempt_count (dr_job r)" using r'(2) by (simp_all add: same_dispatch_def same_row_def)
  have found: "find_row t (row_id r) = Some r'" using job_row_found [OF ok r'(1)] eq by simp
  have st: "dr_dispatch_started_at r' \<noteq> None" using started eq by simp
  note chosen = unanswered_not_chosen [OF ok r'(1,3) st, unfolded eq]
  show ?thesis using found r'(3) st eq(4) chosen(1) [of env locked sv c n m] chosen(2) [of env sv _ w k g p n1 n2 n3] by (intro exI [of _ r']) auto
qed

section \<open>Repeated enqueues\<close>

lemma new_row_fields:
  "immutable_enqueue_fields digest (new_row digest i rank now q) rank q" "job_dedupe_key (dr_job (new_row digest i rank now q)) = request_key q"
  by (simp_all add: immutable_enqueue_fields_def new_row_def Let_def split: prod.splits)

lemma immutable_fields_kept:
  "same_row r r' \<Longrightarrow> immutable_enqueue_fields digest r' rank q = immutable_enqueue_fields digest r rank q"
  by (simp add: same_row_def immutable_enqueue_fields_def Let_def)

lemma enqueued_row:
  assumes "enqueue_telegram_delivery_job digest sv now q t = (Inr (r, b), t')"
  shows "foreign sv \<and> enqueue_problem (normalized_request q) = None \<and> r \<in> set (qt_jobs t') \<and>
    job_dedupe_key (dr_job r) = request_key (normalized_request q) \<and>
    (\<exists>rank. feeder_internal_rank (eq_feeder (normalized_request q)) (eq_action (normalized_request q)) = Inr rank \<and>
       immutable_enqueue_fields digest r rank (normalized_request q))"
proof -
  let ?q = "normalized_request q"
  let ?old = "find (\<lambda>r. job_dedupe_key (dr_job r) = request_key ?q) (qt_jobs t)"
  have pre: "foreign sv" "enqueue_problem ?q = None" "\<exists>rank. feeder_internal_rank (eq_feeder ?q) (eq_action ?q) = Inr rank"
    using assms by (auto simp: enqueue_telegram_delivery_job_def Let_def split: if_splits option.splits sum.splits)
  then obtain rank where rank: "feeder_internal_rank (eq_feeder ?q) (eq_action ?q) = Inr rank" by blast
  show ?thesis
  proof (cases ?old)
    case None
    then have "r = new_row digest (qt_next_job_id t) rank now ?q" "r \<in> set (qt_jobs t')"
      using assms pre rank by (auto simp: enqueue_telegram_delivery_job_def Let_def)
    then show ?thesis using pre rank new_row_fields by simp
  next
    case (Some s)
    then have "r = s \<and> immutable_enqueue_fields digest r rank ?q \<and> t' = t"
      using assms pre rank by (auto simp: enqueue_telegram_delivery_job_def Let_def split: if_splits)
    then show ?thesis using pre rank Some by (auto simp: find_Some_iff)
  qed
qed

lemma row_by_key:
  assumes "tables_ok t" "r \<in> set (qt_jobs t)" "job_dedupe_key (dr_job r) = key"
  shows "find (\<lambda>r. job_dedupe_key (dr_job r) = key) (qt_jobs t) = Some r"
proof -
  obtain s where s: "find (\<lambda>r. job_dedupe_key (dr_job r) = key) (qt_jobs t) = Some s"
    using assms(2,3) by (cases "find (\<lambda>r. job_dedupe_key (dr_job r) = key) (qt_jobs t)") (auto simp: find_None_iff)
  then have "s \<in> set (qt_jobs t)" "job_dedupe_key (dr_job s) = key" by (auto simp: find_Some_iff)
  then show ?thesis using s assms by (auto simp: tables_ok_def distinct_map inj_on_def)
qed


section \<open>Recovery\<close>

definition stranded :: "int \<Rightarrow> queue_tables \<Rightarrow> delivery_row list" where
  "stranded now t = filter (recoverable t [] now) (qt_jobs t)"

definition recovery_run :: "string \<Rightarrow> int \<Rightarrow> int \<Rightarrow> queue_tables \<Rightarrow> queue_tables" where
  "recovery_run sv mr now t = snd (recover_expired_telegram_delivery_leases [] sv mr now t)"

lemma recovered_not_recoverable: "qt_outcomes t' = qt_outcomes t \<Longrightarrow> recoverable t' l now r = recoverable t l now r"
  "\<not> recoverable t l now (recover_row now r)"
  by (simp_all add: recoverable_def lease_expired_def recover_row_def free_row_def Let_def)

lemma recovery_shrinks:
  assumes "tables_ok t" "foreign sv"
  shows "length (stranded now (recovery_run sv mr now t)) = length (stranded now t) - nat (max 1 mr)"
proof -
  define rows where "rows = take (nat (max 1 mr))
    (sort_key (\<lambda>r. (nulls_last (job_lease_until (dr_job r)), row_id r)) (stranded now t))"
  let ?t' = "recovery_run sv mr now t"
  have t': "?t' = fold (\<lambda>r. put_row (recover_row now r)) rows t"
    using assms(2) by (simp add: recovery_run_def recover_expired_telegram_delivery_leases_def Let_def rows_def stranded_def)
  have sub: "set rows \<subseteq> set (stranded now t)" unfolding rows_def using set_take_subset by fastforce
  have ids: "distinct (map row_id (qt_jobs t))" using assms(1) by (simp add: tables_ok_def)
  then have d: "distinct (qt_jobs t)" "distinct rows" by (simp_all add: rows_def stranded_def distinct_map)
  have "\<forall>r \<in> set rows. row_id (recover_row now r) = row_id r" using sub recovered_row(2) by (auto simp: stranded_def)
  then have jobs: "qt_jobs ?t' = map (\<lambda>x. if x \<in> set rows then recover_row now x else x) (qt_jobs t)"
    using put_rows [OF _ _ ids d(2), of "recover_row now"] sub by (auto simp: t' stranded_def)
  have out: "qt_outcomes ?t' = qt_outcomes t" by (simp add: t' fold_put_row_fields)
  have "length (stranded now ?t') = length (filter (\<lambda>x. recoverable t [] now x \<and> x \<notin> set rows) (qt_jobs t))"
    unfolding stranded_def jobs recovered_not_recoverable(1) [OF out] filter_map length_map
    by (rule arg_cong [of _ _ length], rule filter_cong) (auto simp: recovered_not_recoverable(2))
  also have "\<dots> = card (set (stranded now t) - set rows)"
    using d(1) by (subst distinct_card [symmetric]) (auto simp: stranded_def intro!: arg_cong [of _ _ card])
  also have "\<dots> = length (stranded now t) - length rows"
    using sub d distinct_card [of "stranded now t"] by (simp add: card_Diff_subset distinct_card stranded_def)
  also have "length rows = min (length (stranded now t)) (nat (max 1 mr))" by (simp add: rows_def min.commute)
  finally show ?thesis by (simp add: min_def)
qed

text \<open>C8: 
  C1: Recovery reaches every stranded job.  Repeated recovery runs of bounded size end: once they have room for all
  jobs whose lease had expired without an answer that waits to be applied, none of them is left leased.
\<close>

theorem recovery_drains:
  assumes "reachable fresh_queue (service_step {}) t" "foreign sv" "length (stranded now t) \<le> n * nat (max 1 mr)"
  shows "stranded now ((recovery_run sv mr now ^^ n) t) = []"
proof -
  have "tables_ok ((recovery_run sv mr now ^^ k) t) \<and>
      length (stranded now ((recovery_run sv mr now ^^ k) t)) = length (stranded now t) - k * nat (max 1 mr)" for k
  proof (induction k)
    case 0
    show ?case using durable.reachable_invar [OF assms(1)] by simp
  next
    case (Suc k)
    then show ?case
      using recovery_shrinks [OF _ assms(2)] step_tables_ok [OF service_step.recover_op [OF prod.collapse [symmetric]]]
      by (simp add: recovery_run_def add.commute)
  qed
  then show ?thesis using assms(3) by (metis diff_is_0_eq length_0_conv)
qed

section \<open>Sample runs\<close>

definition sample_post :: "string \<Rightarrow> enqueue_request" where
  "sample_post b =
     \<lparr>eq_feeder = FEED_OFFER_CONTROL, eq_source_natural_id = ''7'', eq_source_version = 1, eq_action = OFFER_PUBLISH, eq_bot_identity = b,
      eq_destination_key = ''c'', eq_destination_class = DEST_CHANNEL, eq_method = ''sendMessage'', eq_payload = ''p'',
      eq_template_version = ''v'', eq_delivery_deadline_at = None, eq_eligible_at = None, eq_freshness_deadline_at = None,
      eq_source_order_at = None, eq_campaign_id = None, eq_run_id = None\<rparr>"

definition sample_queue_env :: queue_env where
  "sample_queue_env = \<lparr>qe_resumes = [], qe_fresh_success_counts = Some [], qe_dispatch_commands = [(1, ''publisher_1'', ''acknowledged'')]\<rparr>"

definition sample_claim_request :: "string \<Rightarrow> claim_request" where
  "sample_claim_request b =
     \<lparr>cr_bot_identity = b, cr_worker_id = ''w'', cr_request_timeout_seconds = 1, cr_lease_seconds = 60,
      cr_allowed_destination_classes = None, cr_maximum_effective_priority = None\<rparr>"

definition empty_tables :: queue_tables where
  "empty_tables = \<lparr>qt_jobs = [], qt_outcomes = [], qt_gates = [], qt_next_job_id = 1, qt_next_outcome_id = 1\<rparr>"

definition sample_row :: "string \<Rightarrow> int \<Rightarrow> string \<Rightarrow> delivery_row" where
  "sample_row b i natural_id =
     \<lparr>dr_job =
        \<lparr>job_id = i,
         job_dedupe_key = ''13:offer_control'' @ [CHR 0x1F] @ ''1:'' @ natural_id @ [CHR 0x1F] @ ''1:1'' @ [CHR 0x1F] @
           ''13:offer_publish'' @ [CHR 0x1F] @ ''1:c'',
         job_feeder = FEED_OFFER_CONTROL, job_feeder_rank = 0, job_source_natural_id = natural_id, job_source_version = 1,
         job_destination_key = ''c'', job_destination_class = DEST_CHANNEL, job_method = ''sendMessage'', job_payload = ''p'',
         job_action = OFFER_PUBLISH, job_created_sequence = i, job_bot_identity = b, job_delivery_deadline_at = None,
         job_eligible_at = None, job_freshness_deadline_at = None, job_campaign_id = None, job_state = ST_PENDING,
         job_attempt_count = 0, job_provider_attempt_count = 0, job_next_retry_at = None, job_lease_until = None,
         job_lease_token = 0, job_worker_id = None, job_last_error_class = None, job_last_error_message = None,
         job_telegram_message_id = None\<rparr>,
      dr_source_order_at = None, dr_run_id = None, dr_template_version = ''v'', dr_payload_hash = ''p'', dr_priority = 0,
      dr_priority_rank = 0, dr_dispatch_started_at = None, dr_rate_limit_probe = False, dr_provider_ok = None,
      dr_provider_status_code = None, dr_provider_error_code = None, dr_provider_response = None,
      dr_last_retry_after_seconds = None, dr_last_rate_limited_at = None, dr_last_rate_limit_until = None,
      dr_bot_cooldown_until = None, dr_outcome_reason = None, dr_sent_at = None, dr_terminal_at = None, dr_updated_at = 0\<rparr>"

text \<open>The states of a run of the primary bot: two posts to one channel, a claim, and a dispatch, a release or nothing after it.\<close>

definition posted :: queue_tables where
  "posted = empty_tables\<lparr>qt_jobs := [sample_row ''primary'' 1 ''7''], qt_next_job_id := 2\<rparr>"

definition posted_two :: queue_tables where
  "posted_two = posted\<lparr>qt_jobs := [sample_row ''primary'' 1 ''7'', sample_row ''primary'' 2 ''8''], qt_next_job_id := 3\<rparr>"

definition held_row :: "string \<Rightarrow> delivery_row" where
  "held_row b = lease_row ''w'' 10 60 (sample_row b 1 ''7'')"

definition held :: queue_tables where
  "held = posted_two\<lparr>qt_jobs := [held_row ''primary'', sample_row ''primary'' 2 ''8'']\<rparr>"

definition dispatched :: "string \<Rightarrow> queue_tables" where
  "dispatched b = posted_two\<lparr>qt_jobs := [mark_row 20 False (held_row b), sample_row b 2 ''8'']\<rparr>"

definition answered_run :: "string \<Rightarrow> gateway_result \<Rightarrow> queue_tables" where
  "answered_run b res = snd (record_telegram_delivery_provider_outcome (\<lambda>f. []) ''foreign'' 1 ''w'' 1 res 30 (dispatched b))"

definition sample_resolve :: resolve_config where
  "sample_resolve = \<lparr>rs_digest64 = (\<lambda>s. 0), rs_retry = sample_config, rs_window_seconds = 60\<rparr>"

definition recovered :: "queue_tables \<Rightarrow> queue_tables" where
  "recovered t = snd (recover_expired_telegram_delivery_leases [] ''foreign'' 10 90000000 t)"

definition given_back :: queue_tables where
  "given_back = snd (release_unstarted_telegram_delivery_lease ''foreign'' 1 ''w'' 1 ''x'' 1 20 held)"

definition held_again :: queue_tables where
  "held_again = snd (claim_next_telegram_delivery_job sample_queue_env [] ''foreign'' (sample_claim_request ''primary'') 5000000 5000000 given_back)"

lemma sample_enqueues:
  "enqueue_telegram_delivery_job (\<lambda>s. s) ''foreign'' 0 (sample_post ''primary'') empty_tables = (Inr (sample_row ''primary'' 1 ''7'', True), posted)"
  "enqueue_telegram_delivery_job (\<lambda>s. s) ''foreign'' 0 ((sample_post ''primary'')\<lparr>eq_source_natural_id := ''8''\<rparr>) posted =
     (Inr (sample_row ''primary'' 2 ''8'', True), posted_two)"
  by code_simp+

lemma sample_row_claim:
  "claim_next_telegram_delivery_job sample_queue_env [] ''foreign'' (sample_claim_request ''primary'') 10 10 posted_two =
     (Inr (Some (held_row ''primary'')), held)"
  by code_simp

lemma sample_mark:
  "mark_telegram_delivery_dispatch_started sample_queue_env ''foreign'' 1 ''w'' 1 None False 20 20 20 held = (Inr True, dispatched ''primary'')"
  by code_simp

lemma run_steps:
  "service_step X empty_tables posted" "service_step X posted posted_two" "service_step X posted_two held"
  "service_step X held (dispatched ''primary'')" "service_step X held given_back" "service_step X t (recovered t)"
  "1 \<notin> X \<Longrightarrow> service_step X (dispatched b) (answered_run b res)"
proof -
  show "service_step X empty_tables posted" by (rule service_step.enqueue_op [OF sample_enqueues(1)])
  show "service_step X posted posted_two" by (rule service_step.enqueue_op [OF sample_enqueues(2)])
  show "service_step X posted_two held" by (rule service_step.claim_op [OF sample_row_claim])
  show "service_step X held (dispatched ''primary'')" by (rule service_step.mark_op [OF sample_mark])
  show "service_step X held given_back" unfolding given_back_def by (rule service_step.release_op [OF prod.collapse [symmetric]])
  show "service_step X t (recovered t)" unfolding recovered_def by (rule service_step.recover_op [OF prod.collapse [symmetric]])
  show "service_step X (dispatched b) (answered_run b res)" if "1 \<notin> X"
    unfolding answered_run_def by (rule service_step.record_op [OF prod.collapse [symmetric] that])
qed

lemma one_step: "service_step X t t' \<Longrightarrow> (service_step X)\<^sup>*\<^sup>* t t'"
  by (rule r_into_rtranclp)

lemma runs_reachable:
  "reachable fresh_queue (service_step {}) empty_tables" "reachable fresh_queue (service_step {}) posted_two"
  "reachable fresh_queue (service_step {}) held" "reachable fresh_queue (service_step {}) (dispatched ''primary'')"
  "reachable fresh_queue (service_step {}) (answered_run ''primary'' res)"
proof -
  show e: "reachable fresh_queue (service_step {}) empty_tables" by (rule reachable_init) (simp add: fresh_queue_def empty_tables_def)
  show p: "reachable fresh_queue (service_step {}) posted_two" using e run_steps(1,2) by (blast intro: reachable_step)
  show h: "reachable fresh_queue (service_step {}) held" using p run_steps(3) by (rule reachable_step)
  show d: "reachable fresh_queue (service_step {}) (dispatched ''primary'')" using h run_steps(4) by (rule reachable_step)
  show "reachable fresh_queue (service_step {}) (answered_run ''primary'' res)" using d run_steps(7) by (rule reachable_step) simp
qed

lemmas sample_tables = posted_def posted_two_def held_def dispatched_def held_row_def mark_row_def lease_row_def sample_row_def empty_tables_def

lemma dispatched_row:
  "find_row (dispatched b) 1 = Some (mark_row 20 False (held_row b))" "mark_row 20 False (held_row b) \<in> set (qt_jobs (dispatched b))"
  by (simp_all add: sample_tables find_row_def)

lemma foreign_server: "foreign ''foreign''"
  by code_simp


theorem stale_dispatcher_is_fenced_witness:
  "mark_telegram_delivery_dispatch_started sample_queue_env ''foreign'' 1 ''w'' 1 None False 6000000 6000000 6000000 held_again =
     (Inr False, held_again)"
proof -
  let ?c = "claim_next_telegram_delivery_job sample_queue_env [] ''foreign'' (sample_claim_request ''primary'') 5000000 5000000 given_back"
  have "case fst ?c of Inr (Some r) \<Rightarrow> row_id r = 1 | _ \<Rightarrow> False" by code_simp
  then obtain r where "?c = (Inr (Some r), held_again)" "row_id r = 1"
    unfolding held_again_def by (cases ?c) (auto split: sum.splits option.splits)
  moreover have "row_id (held_row ''primary'') = 1" "job_lease_token (dr_job (held_row ''primary'')) = 1" by (simp_all add: sample_tables)
  ultimately show ?thesis
    using stale_dispatcher_is_fenced [OF runs_reachable(2) sample_row_claim one_step [OF run_steps(5)] _ _ rtranclp.rtrancl_refl foreign_server] by auto
qed

definition sample_outcome :: provider_outcome where
  "sample_outcome =
     new_outcome 1 (mark_row 20 False (held_row ''primary'')) 1 ''w''
       \<lparr>pf_gateway_ok = False, pf_method = ''sendMessage'', pf_transport_phase = None, pf_provider_status_code = Some 429,
        pf_provider_response = sanitized_provider_response (sample_result 429 3), pf_provider_error_class = None,
        pf_telegram_message_id = None, pf_retry_after_seconds = Some 3\<rparr> [] 30"

lemma sample_record:
  "record_telegram_delivery_provider_outcome (\<lambda>f. []) ''foreign'' 1 ''w'' 1 (sample_result 429 3) 30 (dispatched ''primary'') =
     (Inr (sample_outcome, True), answered_run ''primary'' (sample_result 429 3))"
proof -
  have "fst (record_telegram_delivery_provider_outcome (\<lambda>f. []) ''foreign'' 1 ''w'' 1 (sample_result 429 3) 30 (dispatched ''primary'')) =
      Inr (sample_outcome, True)" by code_simp
  then show ?thesis unfolding answered_run_def by (metis prod.collapse)
qed

lemma sample_outcome_in: "sample_outcome \<in> set (qt_outcomes (answered_run ''primary'' (sample_result 429 3)))"
  using record_cases [OF sample_record] by auto



theorem lost_send_is_not_repeated_witness:
  "\<exists>r. find_row (recovered (dispatched ''primary'')) 1 = Some r \<and> row_state r \<in> {ST_LEASED, ST_AMBIGUOUS} \<and>
     job_provider_attempt_count (dr_job r) = 1"
proof -
  let ?r = "mark_row 20 False (held_row ''primary'')"
  have r: "in_flight ?r" "job_method (dr_job ?r) \<in> set NON_IDEMPOTENT_SEND_METHODS"
    "list_all (\<lambda>x. po_job_id x = row_id ?r \<longrightarrow> po_lease_token x \<noteq> job_lease_token (dr_job ?r)) (qt_outcomes (dispatched ''primary''))"
    by (simp_all add: sample_tables in_flight_def NON_IDEMPOTENT_SEND_METHODS_def)
  have "row_id ?r = 1" "job_provider_attempt_count (dr_job ?r) = 1" by (simp_all add: sample_tables)
  then show ?thesis
    using lost_send_is_not_repeated [OF runs_reachable(4) dispatched_row(2) r one_step [OF run_steps(6)],
        of sample_queue_env "[]" "''foreign''" "sample_claim_request ''primary''" 0 0 "''w''" 1 None False 0 0 0] by auto
qed

theorem recovery_drains_witness:
  "stranded 90000000 (recovery_run ''foreign'' 1 90000000 (dispatched ''primary'')) = []"
proof -
  have n: "length (stranded 90000000 (dispatched ''primary'')) \<le> 1 * nat (max 1 1)" by code_simp
  show ?thesis using recovery_drains [OF runs_reachable(4) foreign_server n] by simp
qed


text \<open>
  The gate of a publisher bot cannot be written: the constraint of the gate table names two bots only.  When Telegram answers
  a publisher with 401 the outcome of the dispatch can never be applied, and as it stays pending the lease is not recovered
  either: the job stays in flight and keeps every other job of the channel waiting.  The same answer to the primary bot pauses it.
\<close>

theorem publisher_pause_is_stuck:
  "fst (apply_telegram_delivery_provider_outcome sample_resolve ''foreign'' 1 (Some None) 40 (answered_run ''publisher_1'' (sample_result 401 0))) =
     Inl GateIdentityConstraint"
  "case fst (recover_expired_telegram_delivery_leases [] ''foreign'' 10 90000000 (answered_run ''publisher_1'' (sample_result 401 0))) of
     Inr report \<Rightarrow> rr_job_ids report = [] | Inl e \<Rightarrow> False"
  "case fst (apply_telegram_delivery_provider_outcome sample_resolve ''foreign'' 1 (Some None) 40 (answered_run ''primary'' (sample_result 401 0))) of
     Inr d \<Rightarrow> dd_outcome d = OUT_BOT_PAUSED | Inl e \<Rightarrow> False"
  by code_simp+

end
