(* ===== verification/Spec2Isabelle.thy ===== *)
theory Spec2Isabelle
  imports OfferSettlement TradeExecution Feeders OvertimeWorkflow MarketSchedule CounterConvergence
    PublisherProtocol PublicationState LoginRequests DeliveryAdmission DurableGuarantees
begin

text \<open>
  Verification of the core of a commodity trading bot (Python services under \<open>src/core\<close> and
  \<open>src/api\<close>, with a Telegram bot and a web application in front of them).

  \<^bold>\<open>The program.\<close>  Users publish offers for a commodity, whole or in lots.  Other users request amounts of an
  offer; a request is executed at once in the normal lifetime of the offer and needs the owner's approval in
  its overtime window.  Customers trade through an owner: their prices carry a commission, their trades are
  limited, and an executed trade becomes a chain of rows through the owners of both sides.  Every message to
  Telegram goes through one delivery queue with priorities, leases and retries: its rules are a contract module,
  its state is in PostgreSQL, and a limiter in Redis decides when a bot may send.

  \<^bold>\<open>Theories and sources.\<close>
  \<^item> \<open>Prelude\<close>: Python primitives (string stripping and parsing, dictionaries, date-times in microseconds,
    minimum by key, rounding) and the interfaces the components share: \<open>keyed_store\<close>,
    \<open>invariant_system\<close>, \<open>status_machine\<close> and \<open>lease_fence\<close>.
  \<^item> \<open>OfferSettlement\<close>: \<open>core/offer_settlement.py\<close>.
  \<^item> \<open>TradeLots\<close>: \<open>core/services/trade_service.py\<close> and \<open>core/trading_settings.py\<close>: lot suggestion
    and validation, offered amounts, price normalisation, competitive price check, price warning, lot text.
    Arguments are Python values (\<open>pyval\<close>), so that the type checks of the code are branches of the model.
  \<^item> \<open>OfferLifecycle\<close>: \<open>core/offer_lifecycle.py\<close>: deadlines, intake phase, projection, cut-offs.
  \<^item> \<open>CustomerPolicy\<close>: commission and limits of \<open>core/services/customer_relation_service.py\<close>.
  \<^item> \<open>Blocks\<close>: \<open>core/services/block_service.py\<close>.
  \<^item> \<open>TradeExecution\<close>: \<open>_execute_trade_authoritatively\<close> of \<open>api/routers/trades.py\<close> with its helpers.  The
    state is the offer row and the trade table; the environment holds users, relations, blocks, the clock
    and the number source.  One call of \<open>execute_trade\<close> is one transaction on the locked offer row.
  \<^item> \<open>DeliveryContract\<close>, \<open>DeliveryResult\<close>, \<open>DeliveryQueue\<close>, \<open>Feeders\<close>:
    \<open>core/telegram_delivery_queue_contract.py\<close>: enumerations, deduplication key, order key and freshness;
    classification of gateway answers and back-off; the queue with leases; the edit feeder, the coordinator
    and the broadcast feeder.
  \<^item> \<open>OfferRequestLedger\<close>: \<open>models/offer_request.py\<close>,
    \<open>core/services/offer_request_ledger_service.py\<close> and the server names of \<open>core/server_routing.py\<close>.
  \<^item> \<open>OvertimeRequests\<close>, \<open>OvertimeSweeps\<close>: \<open>core/services/offer_overtime_request_service.py\<close>, the delivery of
    approval prompts, the feedback of the delivery queue and the sweepers of the reconciliation service.
  \<^item> \<open>OvertimeWorkflow\<close>: the step relation of the ledger decomposed into primitive row changes, and the
    properties of the workflow.
  \<^item> \<open>MarketSchedule\<close>: \<open>core/services/market_schedule_service.py\<close>: the rule of a day, overrides, the open
    state and the announced transitions of the market.
  \<^item> \<open>CounterSync\<close>: \<open>core/user_counter_sync.py\<close>, \<open>core/registration_identity.py\<close> and the counter parts of
    \<open>core/events.py\<close>, \<open>core/registration_sync_policy.py\<close>, \<open>core/utils.py\<close> and \<open>api/routers/sync.py\<close>: the replicated
    counters of a user on the two servers.  \<open>CounterConvergence\<close>: their specification as a function of the
    recorded events, the step relation of a server and the properties.
  \<^item> \<open>PublisherDispatch\<close>: \<open>core/telegram_multi_publisher_contract.py\<close> and
    \<open>core/services/telegram_publisher_dispatch_service.py\<close>: the primary bot hands publications to publisher bots by
    messages in a private chat; the table of commands with its leases, the choice of a lane and the handshake.
    \<open>PublisherProtocol\<close>: the step relation of the table and its properties.
  \<^item> \<open>DeliveryLimiter\<close>: \<open>core/telegram_delivery_queue_limiter.py\<close> with its Lua scripts on a Redis database of keys
    with life times.  \<open>DeliveryPacing\<close>: how each operation changes the keys; \<open>DeliveryAdmission\<close>: the step relation of the
    workers and the properties.
  \<^item> \<open>DurableQueue\<close>: \<open>core/services/telegram_delivery_queue_service.py\<close> on the tables of jobs, provider outcomes and
    runtime gates.  \<open>DurableDelivery\<close>: the step relation of any number of workers and the few ways in which an operation
    changes a row; \<open>DurableGuarantees\<close>: the properties, through the interface \<open>kept_promise\<close> and the shared
    \<open>lease_fence\<close>.
  \<^item> \<open>PublicationState\<close>: \<open>core/services/offer_publication_state_service.py\<close> on
    \<open>models/offer_publication_state.py\<close>: the rows that record where an offer is published.
  \<^item> \<open>Sessions\<close>: \<open>core/services/session_service.py\<close>, \<open>core/services/single_session_recovery_service.py\<close>,
    \<open>core/session_expiry.py\<close>, the local part of \<open>core/session_authority.py\<close>, the session check of \<open>api/deps.py\<close> and the
    endpoints of \<open>api/routers/sessions.py\<close> on the tables of \<open>models/session.py\<close>.  \<open>SessionSafety\<close>: the step
    relation of all operations and the properties of sessions; \<open>LoginRequests\<close>: those of login requests and
    recoveries.

  \<^bold>\<open>What is shown.\<close>
  \<^item> Trading: in every reachable state an offer is not oversold and its lots account for the remainder; a
    request is executed at most once per idempotency key; the rows of a trade form a chain; every executed
    trade is within the limits of both sides; accepted amounts are booked exactly; the lots of an offer can
    be sold in any order.
  \<^item> Lots and prices: proposals are accepted, proposals exist exactly when they can, the offered amounts are
    exactly the accepted ones, the price checks on scaled integers equal their rational reading, and the
    proposed text parses back.
  \<^item> Lifecycle, customers and blocks: the intake windows, the agreement of projection and intake, the
    equality of the SQL cut-off with the deadline rule, commission rounding, the invariant of the block
    table and blocking through principals.
  \<^item> Delivery: deduplication, urgency order of claims, fencing of stale workers, finality of settled jobs,
    no automatic repetition of a send with unknown outcome, rate limits and back-off, exactly-once handoff,
    catch-up of stale edits and the limits of broadcasts.
  \<^item> Admission: admissions of a bot and of a destination keep their distance, a rate limit holds back every bot of
    the destination, one probe is in flight at a time, pauses hold until an operator resumes, and a worker without
    Redis admits nothing.
  \<^item> Durable queue: at most one dispatch per destination, fenced workers, at most one unchanging outcome per
    dispatch, which is applied even when its worker has vanished; sends of unknown outcome are not repeated, recovery
    reaches every stranded job and enqueues can be repeated.  A vanished worker is a job of the set \<open>X\<close> of the step
    relation, for which no answer is given any more.
  \<^item> Overtime: the partial unique indexes of the request table are never violated by the operations,
    terminal requests stay terminal, promotion refines an abstract first-come-first-served seat, decisions
    refill the seat, and the decision window and the cooldown are exact.
  \<^item> Market: the announced transitions are exactly the changes of the market within two weeks.
  \<^item> Replication: the counters of a user are a function of the recorded events, so that the servers converge
    in any order of delivery; events are applied once and survive the wire unchanged.  The clock of a writer
    must have passed the instants it recorded; \<open>clock_behind_diverges\<close> shows why.
  \<^item> Publication: envelopes survive the wire, the constraints of the command table hold in every history,
    acknowledgements are final, senders that lost their lease are fenced, the handshake succeeds, the lanes are
    chosen fairly; a published message keeps its identity and follows the version and the end of its offer.
  \<^item> Sessions: an account has at most three active sessions and one primary session, a login ends the oldest
    sessions, ended sessions never admit a request again, a login request admits one session and its decisions
    are final, and requests of other accounts are invisible.

  \<^bold>\<open>Bounds.\<close>  No fuel is used.  The promotion of overtime requests recurses until the queue is empty or a
  request is seated; it terminates because every round removes one queued row.  All other loops are
  structural.  Repeated recovery runs are shown to end after as many runs as their size needs for the stranded jobs.  Python integers are \<open>int\<close>, \<open>Decimal\<close> and finite floats are rationals, infinities and
  not-a-number are separate values, and date-times outside the years Python can represent are not modelled.

  \<^bold>\<open>Parameters.\<close>  Code that is not part of the repository appears as arguments: the digest behind the
  retry jitter, the time-zone data behind the day bounds of a customer
  and the market calendar, the parser of ISO times, the database sequence of trade
  numbers, random public identifiers, and for the counters SHA-256, UUID and instant texts.  For the delivery
  services these are the digests of payloads, jobs and provider facts, the reachability of Redis, the instants of the
  database clock, the rows that other transactions have locked and the answers of callbacks; a transaction that
  raises leaves the tables as they were.  The bot access policy and the prompt texts of the overtime
  approval enter through the environment of the workflow.

  \<^bold>\<open>Not modelled.\<close>  Message texts, keyboards and bot handlers; token encoding, one-time passwords and
  registration; the messenger; the replication of other rows than counters; the supervision, the freshness
  providers and the network calls of the delivery workers; the coin rate estimator and market intelligence, which are statistics on floating
  point series; migrations, deployment and operational scripts; the web front end.
\<close>

end
